(* ===== verification/Orq_Prelude.thy ===== *)
theory Orq_Prelude
  imports Complex_Main "HOL-Library.AList" "HOL-Library.Char_ord" "HOL-Library.List_Lexorder"
    "HOL-Library.Product_Lexorder" "HOL-Library.Sublist"
begin

text \<open>
  Shared vocabulary of the development: the theorem collections the component proofs draw on, the
  text form of numbers and identifiers, and the Python string operations the code uses. The
  programs every service is written in, their weakest preconditions and the error classes of
  \<^verbatim>\<open>domain/errors.py\<close> are in \<^verbatim>\<open>Orq_Program\<close>.

  Python facts used here: \<^verbatim>\<open>str(n)\<close> for natural numbers, \<^verbatim>\<open>str.strip\<close> and
  \<^verbatim>\<open>str.isspace\<close> on the characters of the model (code points below 256), and UUIDs.
\<close>

named_theorems prog_simps "evaluation rules of programs"
named_theorems wp_simps "weakest preconditions of programs and repository operations"
named_theorems steps_intros "compositional rules for preorder-keeping programs"

section \<open>Numbers and identifiers as text\<close>

fun nat_str :: "nat \<Rightarrow> string" where
  "nat_str n = (if n < 10 then [char_of (48 + n)] else nat_str (n div 10) @ [char_of (48 + n mod 10)])"

declare nat_str.simps [simp del]

definition is_digit :: "char \<Rightarrow> bool" where
  "is_digit c \<longleftrightarrow> 48 \<le> (of_char c :: nat) \<and> (of_char c :: nat) \<le> 57"

text \<open>
  UUIDs are symbolic: \<open>UUID4 n\<close> is the n-th random identifier (\<^verbatim>\<open>uuid4()\<close>), \<open>UUID5 u s\<close> the
  name-based one of name \<open>s\<close> in namespace \<open>u\<close> (\<^verbatim>\<open>uuid5(u, s)\<close>). The constructors are free:
  what the code uses of \<^verbatim>\<open>uuid\<close> is that equal inputs give equal identifiers and different
  ones do not collide.
\<close>

datatype uuid = UUID4 nat | UUID5 uuid string

abbreviation uuid5 :: "uuid \<Rightarrow> string \<Rightarrow> uuid" where
  "uuid5 \<equiv> UUID5"

text \<open>\<^verbatim>\<open>str(id)\<close>: a text form that determines the identifier.\<close>

fun uuid_str :: "uuid \<Rightarrow> string" where
  "uuid_str (UUID4 n) = CHR ''4'' # nat_str n"
| "uuid_str (UUID5 u s) = CHR ''5'' # nat_str (length s) @ CHR '':'' # s @ uuid_str u"

lemma nat_str_nonempty [simp]: "nat_str n \<noteq> []"
  by (subst nat_str.simps) simp

lemma of_char_digit: "d < 10 \<Longrightarrow> of_char (char_of (48 + d) :: char) = (48 + d :: nat)"
  by simp

lemma nat_str_digits: "c \<in> set (nat_str n) \<Longrightarrow> is_digit c"
proof (induction n rule: nat_str.induct)
  case (1 n)
  show ?case
  proof (cases "n < 10")
    case True
    with 1 show ?thesis by (simp add: nat_str.simps [of n] is_digit_def)
  next
    case False
    have "n mod 10 < 10" by simp
    with 1 False show ?thesis
      by (auto simp: nat_str.simps [of n] is_digit_def)
  qed
qed

text \<open>The number a digit string denotes, to invert \<open>nat_str\<close>.\<close>

definition digits_value :: "string \<Rightarrow> nat" where
  "digits_value ds = foldl (\<lambda>v c. 10 * v + (of_char c - 48)) 0 ds"

lemma digits_value_nat_str: "digits_value (nat_str n) = n"
proof (induction n rule: nat_str.induct)
  case (1 n)
  show ?case
  proof (cases "n < 10")
    case True
    then show ?thesis by (simp add: nat_str.simps [of n] digits_value_def)
  next
    case False
    with 1 have "digits_value (nat_str (n div 10)) = n div 10" by blast
    moreover have "n mod 10 < 10" by simp
    ultimately show ?thesis using False
      by (simp add: nat_str.simps [of n] digits_value_def)
  qed
qed

lemma nat_str_inject [simp]: "nat_str m = nat_str n \<longleftrightarrow> m = n"
  by (metis digits_value_nat_str)

lemma digits_split:
  assumes "nat_str m @ CHR '':'' # xs = nat_str n @ CHR '':'' # ys"
  shows "m = n \<and> xs = ys"
proof -
  let ?P = "\<lambda>c. c \<noteq> CHR '':''"
  have "\<not> is_digit (CHR '':'')" by (simp add: is_digit_def)
  then have colon: "\<forall>c \<in> set (nat_str k). ?P c" for k
    using nat_str_digits [of _ k] by metis
  have tw: "takeWhile ?P (nat_str k @ CHR '':'' # zs) = nat_str k" for k zs
    using colon [of k] by (simp)
  have "nat_str m = nat_str n"
    using arg_cong [OF assms, of "takeWhile ?P"] by (simp add: tw)
  with assms show ?thesis by simp
qed

lemma uuid_str_append_inject: "uuid_str u @ xs = uuid_str v @ ys \<Longrightarrow> (\<forall>c \<in> set (take 1 xs). \<not> is_digit c)
    \<Longrightarrow> (\<forall>c \<in> set (take 1 ys). \<not> is_digit c) \<Longrightarrow> u = v \<and> xs = ys"
proof (induction u arbitrary: v)
  case (UUID4 n)
  then show ?case
  proof (cases v)
    case (UUID4 m)
    have tw: "takeWhile is_digit (nat_str k @ zs) = nat_str k"
      if "\<forall>c \<in> set (take 1 zs). \<not> is_digit c" for k zs
      using that nat_str_digits [of _ k] by (cases zs) auto
    from UUID4 UUID4.prems(1) have eq: "nat_str n @ xs = nat_str m @ ys" by simp
    from arg_cong [OF eq, of "takeWhile is_digit"] UUID4.prems(2,3)
    have "nat_str n = nat_str m" by (simp add: tw)
    with eq UUID4 show ?thesis by simp
  qed simp
next
  case (UUID5 u s)
  then show ?case
  proof (cases v)
    case (UUID5 w t)
    from UUID5 UUID5.prems(1)
    have "length s = length t \<and> s @ uuid_str u @ xs = t @ uuid_str w @ ys"
      by (intro digits_split) simp
    then have "s = t" and rest: "uuid_str u @ xs = uuid_str w @ ys" by auto
    from UUID5.IH [OF rest UUID5.prems(2,3)] UUID5 \<open>s = t\<close> show ?thesis by simp
  qed simp
qed

lemma uuid_str_inject [simp]: "uuid_str u = uuid_str v \<longleftrightarrow> u = v"
  using uuid_str_append_inject [of u "[]" v "[]"] by auto

text \<open>Identifiers are ordered by their text, as \<^verbatim>\<open>str(item.id)\<close> in sort keys orders them.\<close>

instantiation uuid :: linorder
begin

definition less_eq_uuid :: "uuid \<Rightarrow> uuid \<Rightarrow> bool" where
  "less_eq_uuid u v \<longleftrightarrow> uuid_str u \<le> uuid_str v"

definition less_uuid :: "uuid \<Rightarrow> uuid \<Rightarrow> bool" where
  "less_uuid u v \<longleftrightarrow> uuid_str u < uuid_str v"

instance
  by standard (auto simp: less_eq_uuid_def less_uuid_def less_le_not_le)

end

section \<open>Python string tests\<close>

definition is_space :: "char \<Rightarrow> bool" where
  "is_space c \<longleftrightarrow> (let n = (of_char c :: nat) in (9 \<le> n \<and> n \<le> 13) \<or> (28 \<le> n \<and> n \<le> 32) \<or> n = 133 \<or> n = 160)"

definition py_strip :: "string \<Rightarrow> string" where
  "py_strip s = rev (dropWhile is_space (rev (dropWhile is_space s)))"

definition blank :: "string \<Rightarrow> bool" where
  "blank s \<longleftrightarrow> py_strip s = []"

lemma blank_iff: "blank s \<longleftrightarrow> (\<forall>c \<in> set s. is_space c)"
proof -
  have "py_strip s = [] \<longleftrightarrow> (\<forall>c \<in> set (dropWhile is_space s). is_space c)"
    by (simp add: py_strip_def)
  also have "\<dots> \<longleftrightarrow> (\<forall>c \<in> set s. is_space c)"
    by (induction s) auto
  finally show ?thesis by (simp add: blank_def)
qed

fun starts_with :: "'a list \<Rightarrow> 'a list \<Rightarrow> bool" where
  "starts_with [] s = True"
| "starts_with (p # ps) [] = False"
| "starts_with (p # ps) (c # cs) = (p = c \<and> starts_with ps cs)"

fun contains_sub :: "'a list \<Rightarrow> 'a list \<Rightarrow> bool" where
  "contains_sub p [] = (p = [])"
| "contains_sub p (c # cs) = (starts_with p (c # cs) \<or> contains_sub p cs)"

lemma starts_with_prefix: "starts_with p s \<longleftrightarrow> prefix p s"
  by (induction p s rule: starts_with.induct) auto

lemma contains_sub_sublist: "contains_sub p s \<longleftrightarrow> sublist p s"
  by (induction s) (auto simp: starts_with_prefix sublist_Cons_right)

text \<open>\<^verbatim>\<open>sep.join(parts)\<close> and \<^verbatim>\<open>s.split(c)\<close>, for characters or code points.\<close>

fun join_str :: "'a list \<Rightarrow> 'a list list \<Rightarrow> 'a list" where
  "join_str sep [] = []"
| "join_str sep [x] = x"
| "join_str sep (x # y # ys) = x @ sep @ join_str sep (y # ys)"

fun split_on :: "'a \<Rightarrow> 'a list \<Rightarrow> 'a list list" where
  "split_on d [] = [[]]"
| "split_on d (c # cs) = (if c = d then [] # split_on d cs
     else (case split_on d cs of [] \<Rightarrow> [[c]] | w # ws \<Rightarrow> (c # w) # ws))"

end
