(* ===== verification/Orq_Program.thy ===== *)
theory Orq_Program
  imports Orq_Prelude
begin

text \<open>
  Programs with state and errors. Every service method of the code runs as a
  \<open>('s, 'a) prog\<close>: from a state to a result, which is an error or a value, and the state it
  leaves behind. The state survives an error, because the code may have committed part of its
  work before it raises (\<^verbatim>\<open>core/approval_guard.py\<close> commits a pending request and then raises).
  The error values are the exception classes of \<^verbatim>\<open>domain/errors.py\<close>, \<^verbatim>\<open>GitError\<close>
  (\<^verbatim>\<open>git/service.py\<close>) and \<^verbatim>\<open>ProviderError\<close> (\<^verbatim>\<open>providers/errors.py\<close>), told apart by their \<^verbatim>\<open>code\<close> as the interfaces do, plus the built-in exceptions the
  modelled code can raise; \<open>Unfinished\<close> is none of the code's: a loop of the model that counts its rounds
  ends with it when the count is used up. Message texts are not modelled.
\<close>

datatype provider_error =
    PE_UNAVAILABLE | PE_AUTHENTICATION | PE_RATE_LIMIT | PE_TIMEOUT | PE_CANCELLED
  | PE_INVALID_OUTPUT | PE_REFUSED | PE_BUDGET | PE_TRANSPORT | PE_INTERRUPTED | PE_INTERNAL

datatype err =
    Conflict | NotFound | PolicyDenied | InputInvalid | EmbeddingUnavailable | GitErr
  | ProviderFailed provider_error
  | OsErr | ValueErr | KeyErr | IndexErr | StopIter | AssertFail | RuntimeErr
  | Unfinished

text \<open>The \<^verbatim>\<open>code\<close> attribute; the built-in exceptions have none.\<close>

fun err_code :: "err \<Rightarrow> string option" where
  "err_code Conflict = Some ''conflict''"
| "err_code NotFound = Some ''not_found''"
| "err_code PolicyDenied = Some ''policy_denied''"
| "err_code InputInvalid = Some ''invalid_input''"
| "err_code EmbeddingUnavailable = Some ''embedding_unavailable''"
| "err_code GitErr = Some ''git_error''"
| "err_code (ProviderFailed _) = Some ''provider_error''"
| "err_code _ = None"

text \<open>\<^verbatim>\<open>isinstance(e, OrqalisError)\<close>.\<close>

definition orqalis_error :: "err \<Rightarrow> bool" where
  "orqalis_error e \<longleftrightarrow> err_code e \<noteq> None"

type_synonym ('s, 'a) prog = "'s \<Rightarrow> (err + 'a) \<times> 's"

definition ret :: "'a \<Rightarrow> ('s, 'a) prog" where
  "ret x = (\<lambda>s. (Inr x, s))"

definition raise_err :: "err \<Rightarrow> ('s, 'a) prog" where
  "raise_err e = (\<lambda>s. (Inl e, s))"

definition bnd :: "('s, 'a) prog \<Rightarrow> ('a \<Rightarrow> ('s, 'b) prog) \<Rightarrow> ('s, 'b) prog" where
  "bnd m f = (\<lambda>s. case m s of (Inl e, s') \<Rightarrow> (Inl e, s') | (Inr x, s') \<Rightarrow> f x s')"

definition reads :: "('s \<Rightarrow> 'a) \<Rightarrow> ('s, 'a) prog" where
  "reads f = (\<lambda>s. (Inr (f s), s))"

definition modify :: "('s \<Rightarrow> 's) \<Rightarrow> ('s, unit) prog" where
  "modify f = (\<lambda>s. (Inr (), f s))"

text \<open>\<^verbatim>\<open>if b: raise e\<close>\<close>

definition deny :: "bool \<Rightarrow> err \<Rightarrow> ('s, unit) prog" where
  "deny b e = (if b then raise_err e else ret ())"

text \<open>The value of an optional result, or the error its absence raises.\<close>

definition the_or :: "err \<Rightarrow> 'a option \<Rightarrow> ('s, 'a) prog" where
  "the_or e x = (case x of None \<Rightarrow> raise_err e | Some y \<Rightarrow> ret y)"

text \<open>\<^verbatim>\<open>for x in xs: f(x)\<close>; an error ends the loop.\<close>

fun for_each :: "'x list \<Rightarrow> ('x \<Rightarrow> ('s, 'a) prog) \<Rightarrow> ('s, unit) prog" where
  "for_each [] f = ret ()"
| "for_each (x # xs) f = bnd (f x) (\<lambda>_. for_each xs f)"

text \<open>\<^verbatim>\<open>tuple(f(x) for x in xs)\<close>\<close>

fun collect :: "'x list \<Rightarrow> ('x \<Rightarrow> ('s, 'a) prog) \<Rightarrow> ('s, 'a list) prog" where
  "collect [] f = ret []"
| "collect (x # xs) f = bnd (f x) (\<lambda>y. bnd (collect xs f) (\<lambda>ys. ret (y # ys)))"

text \<open>\<^verbatim>\<open>try: m except e if p(e): h(e)\<close>\<close>

definition catch :: "('s, 'a) prog \<Rightarrow> (err \<Rightarrow> bool) \<Rightarrow> (err \<Rightarrow> ('s, 'a) prog) \<Rightarrow> ('s, 'a) prog" where
  "catch m p h = (\<lambda>s. case m s of (Inl e, s') \<Rightarrow> if p e then h e s' else (Inl e, s') | (Inr x, s') \<Rightarrow> (Inr x, s'))"

lemma ret_run [prog_simps]: "ret x s = (Inr x, s)"
  by (simp add: ret_def)

lemma raise_run [prog_simps]: "raise_err e s = (Inl e, s)"
  by (simp add: raise_err_def)

lemma bnd_run [prog_simps]:
  "bnd m f s = (case m s of (Inl e, s') \<Rightarrow> (Inl e, s') | (Inr x, s') \<Rightarrow> f x s')"
  by (simp add: bnd_def)

lemma reads_run [prog_simps]: "reads f s = (Inr (f s), s)"
  by (simp add: reads_def)

lemma modify_run [prog_simps]: "modify f s = (Inr (), f s)"
  by (simp add: modify_def)

lemma deny_run [prog_simps]: "deny b e s = (if b then (Inl e, s) else (Inr (), s))"
  by (simp add: deny_def prog_simps)

lemma the_or_run [prog_simps]: "the_or e x s = (case x of None \<Rightarrow> (Inl e, s) | Some y \<Rightarrow> (Inr y, s))"
  by (simp add: the_or_def prog_simps split: option.split)

lemma catch_run [prog_simps]: "catch m p h s =
    (case m s of (Inl e, s') \<Rightarrow> if p e then h e s' else (Inl e, s') | (Inr x, s') \<Rightarrow> (Inr x, s'))"
  by (simp add: catch_def)

lemma bnd_returns: "bnd m f s = (Inr y, s') \<longleftrightarrow> (\<exists>x t. m s = (Inr x, t) \<and> f x t = (Inr y, s'))"
  by (auto simp: bnd_def split: prod.splits sum.splits)

lemma the_or_returns: "the_or e x s = (Inr y, t) \<longleftrightarrow> x = Some y \<and> t = s"
  by (auto simp: the_or_run split: option.splits)

lemma deny_returns: "deny b e s = (Inr y, t) \<longleftrightarrow> \<not> b \<and> t = s"
  by (auto simp: deny_run)

lemma bnd_assoc: "bnd (bnd m f) g = bnd m (\<lambda>x. bnd (f x) g)"
  by (rule ext) (auto simp: bnd_def split: prod.splits sum.splits)

lemma bnd_ret [simp]: "bnd (ret x) f = f x"
  by (rule ext) (simp add: prog_simps)

lemma bnd_ret_right [simp]: "bnd m ret = m"
  by (rule ext) (auto simp: prog_simps split: prod.splits sum.splits)

section \<open>Weakest preconditions\<close>

text \<open>
  \<open>wp m Q E s\<close>: run from \<open>s\<close>, program \<open>m\<close> ends with a value and a state in \<open>Q\<close>, or with an
  error and a state in \<open>E\<close>.
\<close>

definition wp :: "('s, 'a) prog \<Rightarrow> ('a \<Rightarrow> 's \<Rightarrow> bool) \<Rightarrow> (err \<Rightarrow> 's \<Rightarrow> bool) \<Rightarrow> 's \<Rightarrow> bool" where
  "wp m Q E s \<longleftrightarrow> (case m s of (Inl e, s') \<Rightarrow> E e s' | (Inr x, s') \<Rightarrow> Q x s')"

lemma wp_returns: "wp m Q E s \<Longrightarrow> m s = (Inr x, s') \<Longrightarrow> Q x s'"
  by (simp add: wp_def)

lemma wp_raises: "wp m Q E s \<Longrightarrow> m s = (Inl e, s') \<Longrightarrow> E e s'"
  by (simp add: wp_def)

lemma wp_mono: "wp m Q E s \<Longrightarrow> (\<And>x t. Q x t \<Longrightarrow> Q' x t) \<Longrightarrow> (\<And>e t. E e t \<Longrightarrow> E' e t) \<Longrightarrow> wp m Q' E' s"
  by (auto simp: wp_def split: prod.splits sum.splits)

lemma wp_ret [wp_simps]: "wp (ret x) Q E s = Q x s"
  by (simp add: wp_def prog_simps)

lemma wp_raise [wp_simps]: "wp (raise_err e) Q E s = E e s"
  by (simp add: wp_def prog_simps)

lemma wp_bnd [wp_simps]: "wp (bnd m f) Q E s = wp m (\<lambda>x. wp (f x) Q E) E s"
  by (auto simp: wp_def prog_simps split: prod.splits sum.splits)

lemma wp_reads [wp_simps]: "wp (reads f) Q E s = Q (f s) s"
  by (simp add: wp_def prog_simps)

lemma wp_modify [wp_simps]: "wp (modify f) Q E s = Q () (f s)"
  by (simp add: wp_def prog_simps)

lemma wp_deny [wp_simps]: "wp (deny b e) Q E s = (if b then E e s else Q () s)"
  by (simp add: wp_def prog_simps)

lemma wp_the_or [wp_simps]: "wp (the_or e x) Q E s = (case x of None \<Rightarrow> E e s | Some y \<Rightarrow> Q y s)"
  by (simp add: wp_def prog_simps split: option.split)

lemma wp_if [wp_simps]: "wp (if b then m else n) Q E s = (if b then wp m Q E s else wp n Q E s)"
  by simp

lemma wp_case_option [wp_simps]: "wp (case x of None \<Rightarrow> m | Some y \<Rightarrow> f y) Q E s =
    (case x of None \<Rightarrow> wp m Q E s | Some y \<Rightarrow> wp (f y) Q E s)"
  by (simp split: option.split)

lemma wp_case_prod [wp_simps]: "wp (case p of (a, b) \<Rightarrow> f a b) Q E s = (case p of (a, b) \<Rightarrow> wp (f a b) Q E s)"
  by (simp split: prod.split)

text \<open>The loop rule: an invariant that each round keeps, errors allowed to leave.\<close>

lemma wp_for_each:
  assumes "I s"
    and "\<And>x t. x \<in> set xs \<Longrightarrow> I t \<Longrightarrow> wp (f x) (\<lambda>_. I) E t"
    and "\<And>t. I t \<Longrightarrow> Q () t"
  shows "wp (for_each xs f) Q E s"
  using assms
proof (induction xs arbitrary: s)
  case Nil
  then show ?case by (simp add: wp_simps)
next
  case (Cons x xs)
  have "wp (f x) (\<lambda>_. I) E s" using Cons.prems(1,2) by simp
  then show ?case
    using Cons.IH Cons.prems(2,3) by (auto simp: wp_simps elim!: wp_mono)
qed

section \<open>Programs that respect a preorder\<close>

text \<open>
  \<open>keeps S m\<close>: whatever \<open>m\<close> returns or raises, the state it leaves is related by \<open>S\<close> to the
  one it started from.
\<close>

definition keeps :: "('s \<Rightarrow> 's \<Rightarrow> bool) \<Rightarrow> ('s, 'a) prog \<Rightarrow> bool" where
  "keeps S m \<longleftrightarrow> (\<forall>s. S s (snd (m s)))"

lemma keepsD: "keeps S m \<Longrightarrow> m s = (r, s') \<Longrightarrow> S s s'"
  by (auto simp: keeps_def split: prod.splits dest: spec [of _ s])

locale step_order =
  fixes S :: "'s \<Rightarrow> 's \<Rightarrow> bool"
  assumes S_refl: "S s s"
    and S_trans: "S s t \<Longrightarrow> S t u \<Longrightarrow> S s u"
begin

lemma keeps_ret [steps_intros]: "keeps S (ret x)"
  by (simp add: keeps_def prog_simps S_refl)

lemma keeps_raise [steps_intros]: "keeps S (raise_err e)"
  by (simp add: keeps_def prog_simps S_refl)

lemma keeps_reads [steps_intros]: "keeps S (reads f)"
  by (simp add: keeps_def prog_simps S_refl)

lemma keeps_deny [steps_intros]: "keeps S (deny b e)"
  by (simp add: keeps_def prog_simps S_refl)

lemma keeps_the_or [steps_intros]: "keeps S (the_or e x)"
  by (simp add: keeps_def prog_simps S_refl split: option.split)

lemma keeps_bnd [steps_intros]:
  assumes m: "keeps S m" and f: "\<And>x. keeps S (f x)"
  shows "keeps S (bnd m f)"
  unfolding keeps_def
proof
  fix s
  have fs: "S t (snd (f x t))" for x t using f by (simp add: keeps_def)
  obtain r t where r: "m s = (r, t)" by fastforce
  with m have "S s t" by (rule keepsD)
  then show "S s (snd (bnd m f s))"
    using S_trans [OF _ fs] by (cases r) (simp_all add: prog_simps r)
qed

lemma keeps_catch [steps_intros]:
  assumes m: "keeps S m" and h: "\<And>e. keeps S (h e)"
  shows "keeps S (catch m p h)"
  unfolding keeps_def
proof
  fix s
  have hs: "S t (snd (h e t))" for e t using h by (simp add: keeps_def)
  obtain r t where r: "m s = (r, t)" by fastforce
  with m have "S s t" by (rule keepsD)
  then show "S s (snd (catch m p h s))"
    using S_trans [OF _ hs] by (cases r) (simp_all add: prog_simps r)
qed

lemma keeps_for_each [steps_intros]: "(\<And>x. keeps S (f x)) \<Longrightarrow> keeps S (for_each xs f)"
  by (induction xs) (auto intro: keeps_ret keeps_bnd)

lemma keeps_collect [steps_intros]: "(\<And>x. keeps S (f x)) \<Longrightarrow> keeps S (collect xs f)"
  by (induction xs) (auto intro: keeps_ret keeps_bnd)

lemma keeps_if [steps_intros]: "keeps S m \<Longrightarrow> keeps S n \<Longrightarrow> keeps S (if b then m else n)"
  by simp

lemma keeps_case_option [steps_intros]:
  "keeps S m \<Longrightarrow> (\<And>y. keeps S (f y)) \<Longrightarrow> keeps S (case x of None \<Rightarrow> m | Some y \<Rightarrow> f y)"
  by (simp split: option.split)

lemma keeps_case_prod [steps_intros]:
  "(\<And>a b. keeps S (f a b)) \<Longrightarrow> keeps S (case p of (a, b) \<Rightarrow> f a b)"
  by (simp split: prod.split)

lemma keeps_case_sum [steps_intros]:
  "(\<And>a. keeps S (f a)) \<Longrightarrow> (\<And>b. keeps S (g b)) \<Longrightarrow> keeps S (case x of Inl a \<Rightarrow> f a | Inr b \<Rightarrow> g b)"
  by (simp split: sum.split)

lemma keeps_let [steps_intros]: "keeps S (f x) \<Longrightarrow> keeps S (let y = x in f y)"
  by simp

end

end
