(* ===== verification/Orq_Domain.thy ===== *)
theory Orq_Domain
  imports Orq_Program
begin

text \<open>
  The domain contracts of \<^verbatim>\<open>domain/*.py\<close>: string enumerations as datatypes (with their text
  values where the code stores them as text), frozen pydantic models as records, discriminated
  unions as datatypes. Every entity carries its \<^verbatim>\<open>id\<close> and \<^verbatim>\<open>created_at\<close>. Instants are microseconds
  since the epoch, integers constrained to \<^verbatim>\<open>ge=0\<close> are natural numbers, finite floats are
  rationals, tuples are lists. The constraints that a model validates beyond its field types are
  in \<^verbatim>\<open>Orq_Contracts\<close>.
\<close>

type_synonym time = int

section \<open>Runs\<close>

datatype (plugins only: code) run_state =
    RS_RECEIVED | RS_CONTEXT_SYNC | RS_ANALYZING | RS_GOAL_DEFINED | RS_PLANNED | RS_EXECUTING
  | RS_INTEGRATING | RS_TESTING | RS_REVIEWING | RS_REPAIR_PLANNING | RS_CHANGE_GUARD
  | RS_DOCUMENTING | RS_DELIVERY_VALIDATION | RS_COMMITTING | RS_PUSHING | RS_MEMORY_FINALIZATION
  | RS_COMPLETED | RS_BLOCKED | RS_HUMAN_REVIEW_REQUIRED | RS_FAILED | RS_CANCELLED | RS_PAUSED

fun run_state_str :: "run_state \<Rightarrow> string" where
  "run_state_str RS_RECEIVED = ''RECEIVED''"
| "run_state_str RS_CONTEXT_SYNC = ''CONTEXT_SYNC''"
| "run_state_str RS_ANALYZING = ''ANALYZING''"
| "run_state_str RS_GOAL_DEFINED = ''GOAL_DEFINED''"
| "run_state_str RS_PLANNED = ''PLANNED''"
| "run_state_str RS_EXECUTING = ''EXECUTING''"
| "run_state_str RS_INTEGRATING = ''INTEGRATING''"
| "run_state_str RS_TESTING = ''TESTING''"
| "run_state_str RS_REVIEWING = ''REVIEWING''"
| "run_state_str RS_REPAIR_PLANNING = ''REPAIR_PLANNING''"
| "run_state_str RS_CHANGE_GUARD = ''CHANGE_GUARD''"
| "run_state_str RS_DOCUMENTING = ''DOCUMENTING''"
| "run_state_str RS_DELIVERY_VALIDATION = ''DELIVERY_VALIDATION''"
| "run_state_str RS_COMMITTING = ''COMMITTING''"
| "run_state_str RS_PUSHING = ''PUSHING''"
| "run_state_str RS_MEMORY_FINALIZATION = ''MEMORY_FINALIZATION''"
| "run_state_str RS_COMPLETED = ''COMPLETED''"
| "run_state_str RS_BLOCKED = ''BLOCKED''"
| "run_state_str RS_HUMAN_REVIEW_REQUIRED = ''HUMAN_REVIEW_REQUIRED''"
| "run_state_str RS_FAILED = ''FAILED''"
| "run_state_str RS_CANCELLED = ''CANCELLED''"
| "run_state_str RS_PAUSED = ''PAUSED''"

datatype ui_phase =
    UI_CONTEXT | UI_GOAL | UI_PLAN | UI_IMPLEMENT | UI_TEST | UI_REVIEW | UI_REPAIR | UI_DOCS | UI_DELIVER

fun ui_phase_str :: "ui_phase \<Rightarrow> string" where
  "ui_phase_str UI_CONTEXT = ''CONTEXT''"
| "ui_phase_str UI_GOAL = ''GOAL''"
| "ui_phase_str UI_PLAN = ''PLAN''"
| "ui_phase_str UI_IMPLEMENT = ''IMPLEMENT''"
| "ui_phase_str UI_TEST = ''TEST''"
| "ui_phase_str UI_REVIEW = ''REVIEW''"
| "ui_phase_str UI_REPAIR = ''REPAIR''"
| "ui_phase_str UI_DOCS = ''DOCS''"
| "ui_phase_str UI_DELIVER = ''DELIVER''"

record run =
  run_id :: uuid
  run_created :: time
  run_project :: uuid
  run_request :: string
  run_branch :: string
  run_base :: string
  run_goal :: "uuid option"
  run_state :: run_state
  run_phase :: ui_phase
  run_repairs :: nat
  run_max_repairs :: nat
  run_started :: "time option"
  run_completed :: "time option"
  run_plan_version :: nat
  run_resume :: "run_state option"
  run_last_seq :: nat

section \<open>Agents and tools\<close>

datatype actor_type = ORCHESTRATOR | AGENT

datatype agent_role =
    ROLE_REQUIREMENTS | ROLE_ARCHITECT | ROLE_PLANNER | ROLE_DEVELOPER | ROLE_TESTER | ROLE_REVIEWER
  | ROLE_CHANGE_GUARDIAN | ROLE_REPAIR | ROLE_DOCUMENTATION | ROLE_GITOPS | ROLE_MEMORY_CURATOR

fun role_str :: "agent_role \<Rightarrow> string" where
  "role_str ROLE_REQUIREMENTS = ''requirements''"
| "role_str ROLE_ARCHITECT = ''architect''"
| "role_str ROLE_PLANNER = ''planner''"
| "role_str ROLE_DEVELOPER = ''developer''"
| "role_str ROLE_TESTER = ''tester''"
| "role_str ROLE_REVIEWER = ''reviewer''"
| "role_str ROLE_CHANGE_GUARDIAN = ''change_guardian''"
| "role_str ROLE_REPAIR = ''repair''"
| "role_str ROLE_DOCUMENTATION = ''documentation''"
| "role_str ROLE_GITOPS = ''gitops''"
| "role_str ROLE_MEMORY_CURATOR = ''memory_curator''"

datatype actor_status =
    ACT_STARTING | ACT_WORKING | ACT_WAITING_FOR_DEPENDENCY | ACT_IDLE | ACT_BLOCKED | ACT_FAILED
  | ACT_COMPLETE | ACT_CANCELLED

fun actor_status_str :: "actor_status \<Rightarrow> string" where
  "actor_status_str ACT_STARTING = ''STARTING''"
| "actor_status_str ACT_WORKING = ''WORKING''"
| "actor_status_str ACT_WAITING_FOR_DEPENDENCY = ''WAITING_FOR_DEPENDENCY''"
| "actor_status_str ACT_IDLE = ''IDLE''"
| "actor_status_str ACT_BLOCKED = ''BLOCKED''"
| "actor_status_str ACT_FAILED = ''FAILED''"
| "actor_status_str ACT_COMPLETE = ''COMPLETE''"
| "actor_status_str ACT_CANCELLED = ''CANCELLED''"

record actor_session =
  actor_id :: uuid
  actor_created :: time
  actor_run :: uuid
  actor_kind :: actor_type
  actor_role :: "agent_role option"
  actor_provider :: "string option"
  actor_model :: "string option"
  actor_status :: actor_status
  actor_task :: "uuid option"
  actor_started :: time
  actor_completed :: "time option"
  actor_working_ms :: nat
  actor_waiting_ms :: nat
  actor_blocked_ms :: nat
  actor_skills :: "string list"
  actor_tools :: "string list"
  actor_attempted :: nat
  actor_succeeded :: nat
  actor_failed :: nat

datatype tool_name = FILE_READ | FILE_WRITE | SHELL_RUN | TEST_RUN | GIT_DIFF | MEMORY_QUERY

record permission_profile =
  perm_tools :: "tool_name list"
  perm_network :: bool

section \<open>Tasks and plans\<close>

datatype task_status =
    TS_PENDING | TS_READY | TS_RUNNING | TS_WAITING | TS_BLOCKED | TS_SUCCEEDED | TS_FAILED
  | TS_CANCELLED | TS_SKIPPED

fun task_status_str :: "task_status \<Rightarrow> string" where
  "task_status_str TS_PENDING = ''PENDING''"
| "task_status_str TS_READY = ''READY''"
| "task_status_str TS_RUNNING = ''RUNNING''"
| "task_status_str TS_WAITING = ''WAITING''"
| "task_status_str TS_BLOCKED = ''BLOCKED''"
| "task_status_str TS_SUCCEEDED = ''SUCCEEDED''"
| "task_status_str TS_FAILED = ''FAILED''"
| "task_status_str TS_CANCELLED = ''CANCELLED''"
| "task_status_str TS_SKIPPED = ''SKIPPED''"

record task =
  task_id :: uuid
  task_created :: time
  task_run :: uuid
  task_plan_version :: nat
  task_parent :: "uuid option"
  task_description :: string
  task_outcome :: string
  task_status :: task_status
  task_risk :: rat
  task_capabilities :: "string list"
  task_role :: agent_role
  task_artifacts :: "string list"
  task_validation :: string
  task_weight :: rat
  task_ready :: "time option"
  task_started :: "time option"
  task_completed :: "time option"
  task_attempts :: nat
  task_criteria :: "uuid list"

record task_dependency =
  dep_task :: uuid
  dep_on :: uuid
  dep_type :: string

record task_execution =
  exec_id :: uuid
  exec_created :: time
  exec_run :: uuid
  exec_task :: uuid
  exec_attempt :: nat
  exec_actor :: uuid
  exec_ready :: "time option"
  exec_started :: "time option"
  exec_completed :: "time option"
  exec_status :: task_status
  exec_queue_ms :: nat
  exec_active_ms :: nat
  exec_waiting_ms :: nat
  exec_blocked_ms :: nat
  exec_result :: "uuid option"

record task_plan =
  plan_run :: uuid
  plan_goal :: uuid
  plan_version :: nat
  plan_tasks :: "task list"
  plan_deps :: "task_dependency list"

section \<open>Goals and acceptance\<close>

datatype acceptance_status = AC_PENDING | AC_TESTING | AC_PASS | AC_FAIL

fun acceptance_status_str :: "acceptance_status \<Rightarrow> string" where
  "acceptance_status_str AC_PENDING = ''PENDING''"
| "acceptance_status_str AC_TESTING = ''TESTING''"
| "acceptance_status_str AC_PASS = ''PASS''"
| "acceptance_status_str AC_FAIL = ''FAIL''"

datatype command_kind = K_COMMAND | K_TEST_SUITE | K_STATIC_ANALYSIS

datatype review_kind = K_REVIEW | K_MANUAL

datatype validation_spec =
    CommandValidation command_kind "string list" nat nat
  | FileValidation string bool "string option"
  | DiffValidation string string string
  | ReviewValidation review_kind string

fun spec_kind :: "validation_spec \<Rightarrow> string" where
  "spec_kind (CommandValidation K_COMMAND _ _ _) = ''command''"
| "spec_kind (CommandValidation K_TEST_SUITE _ _ _) = ''test_suite''"
| "spec_kind (CommandValidation K_STATIC_ANALYSIS _ _ _) = ''static_analysis''"
| "spec_kind (FileValidation _ _ _) = ''file''"
| "spec_kind (DiffValidation _ _ _) = ''diff''"
| "spec_kind (ReviewValidation K_REVIEW _) = ''review''"
| "spec_kind (ReviewValidation K_MANUAL _) = ''manual''"

datatype priority = P_REQUIRED | P_OPTIONAL

record criterion_definition =
  cdef_key :: string
  cdef_description :: string
  cdef_priority :: priority
  cdef_spec :: validation_spec

record goal_draft =
  draft_goal :: string
  draft_scope :: "string list"
  draft_out_of_scope :: "string list"
  draft_constraints :: "string list"
  draft_assumptions :: "string list"
  draft_done :: "string list"
  draft_criteria :: "criterion_definition list"

record goal_version =
  goal_id :: uuid
  goal_created :: time
  goal_run :: uuid
  goal_number :: nat
  goal_text :: string
  goal_scope :: "string list"
  goal_out_of_scope :: "string list"
  goal_constraints :: "string list"
  goal_assumptions :: "string list"
  goal_done :: "string list"
  goal_supersedes :: "uuid option"
  goal_reason :: "string option"

record acceptance_criterion =
  crit_id :: uuid
  crit_created :: time
  crit_goal :: uuid
  crit_key :: string
  crit_description :: string
  crit_priority :: priority
  crit_spec :: validation_spec
  crit_status :: acceptance_status
  crit_attempts :: nat
  crit_validated :: "time option"
  crit_evidence :: "uuid list"

record goal_contract =
  gc_goal :: goal_version
  gc_criteria :: "acceptance_criterion list"

section \<open>Evidence, artifacts and findings\<close>

record validation_observation =
  obs_validator :: string
  obs_passed :: bool
  obs_exit :: "int option"
  obs_output :: string
  obs_source :: "string option"
  obs_hash :: "string option"
  obs_error :: "string option"
  obs_duration_ms :: nat

record evidence =
  ev_id :: uuid
  ev_created :: time
  ev_run :: uuid
  ev_criterion :: uuid
  ev_task :: "uuid option"
  ev_execution :: "uuid option"
  ev_kind :: string
  ev_artifact :: "uuid option"
  ev_data :: validation_observation
  ev_valid :: bool

record artifact =
  art_id :: uuid
  art_created :: time
  art_run :: uuid
  art_task :: "uuid option"
  art_type :: string
  art_path :: string
  art_hash :: string

datatype severity = SEV_INFO | SEV_WARNING | SEV_BLOCKING

record finding =
  find_id :: uuid
  find_created :: time
  find_run :: uuid
  find_task :: "uuid option"
  find_criterion :: "uuid option"
  find_severity :: severity
  find_category :: string
  find_summary :: string
  find_source :: "string option"
  find_open :: bool

section \<open>Approvals\<close>

datatype control_mode = AUTONOMOUS | SUPERVISED

datatype approval_stage = STAGE_GOAL | STAGE_PLAN | STAGE_TASK | STAGE_REPAIR | STAGE_DELIVERY

fun stage_str :: "approval_stage \<Rightarrow> string" where
  "stage_str STAGE_GOAL = ''GOAL''"
| "stage_str STAGE_PLAN = ''PLAN''"
| "stage_str STAGE_TASK = ''TASK''"
| "stage_str STAGE_REPAIR = ''REPAIR''"
| "stage_str STAGE_DELIVERY = ''DELIVERY''"

datatype approval_status = AP_PENDING | AP_APPROVED | AP_REJECTED

fun approval_status_str :: "approval_status \<Rightarrow> string" where
  "approval_status_str AP_PENDING = ''PENDING''"
| "approval_status_str AP_APPROVED = ''APPROVED''"
| "approval_status_str AP_REJECTED = ''REJECTED''"

datatype decision_kind = DECIDE_APPROVE | DECIDE_REJECT

record control_policy =
  pol_run :: uuid
  pol_mode :: control_mode
  pol_gates :: "approval_stage list"

record approval_decision =
  dec_id :: uuid
  dec_created :: time
  dec_request :: uuid
  dec_kind :: decision_kind
  dec_actor :: string
  dec_reason :: string

record approval_request =
  req_id :: uuid
  req_created :: time
  req_run :: uuid
  req_stage :: approval_stage
  req_version :: nat
  req_digest :: string
  req_reason :: string
  req_status :: approval_status
  req_decision :: "approval_decision option"

text \<open>A frozenset of gates is kept as the duplicate-free list of its members.\<close>

definition supervised_gates :: "approval_stage list" where
  "supervised_gates = [STAGE_GOAL, STAGE_PLAN, STAGE_REPAIR, STAGE_DELIVERY]"

text \<open>\<^verbatim>\<open>ControlPolicy.requires\<close>, and the default policy of a run without one.\<close>

definition requires :: "control_policy \<Rightarrow> approval_stage \<Rightarrow> bool" where
  "requires p stage \<longleftrightarrow> pol_mode p = SUPERVISED \<and> stage \<in> set (pol_gates p)"

definition default_policy :: "uuid \<Rightarrow> control_policy" where
  "default_policy rid = \<lparr>pol_run = rid, pol_mode = AUTONOMOUS, pol_gates = []\<rparr>"

lemma default_requires [simp]: "\<not> requires (default_policy rid) stage"
  by (simp add: requires_def default_policy_def)

end
