(* ===== verification/Orq_Records.thy ===== *)
theory Orq_Records
  imports Orq_Domain
begin

text \<open>
  The remaining domain contracts: the events of \<^verbatim>\<open>domain/events.py\<close>, phase executions and timing
  breakdowns (\<^verbatim>\<open>domain/timing.py\<close>), execution policies, workspaces, tool calls and reviews
  (\<^verbatim>\<open>domain/execution.py\<close>), provider invocations (\<^verbatim>\<open>domain/provider.py\<close>) and delivery records
  (\<^verbatim>\<open>domain/delivery.py\<close>).
\<close>

section \<open>Events\<close>

datatype (plugins only: code) event_type =
    EV_RUN_CREATED | EV_RUN_STARTED | EV_RUN_STATE_CHANGED | EV_RUN_PAUSED
  | EV_RUN_RESUMED | EV_RUN_BLOCKED | EV_RUN_CANCELLED | EV_RUN_FAILED
  | EV_RUN_COMPLETED | EV_PHASE_STARTED | EV_PHASE_COMPLETED | EV_PHASE_STATUS_CHANGED
  | EV_GOAL_VERSION_CREATED | EV_ACCEPTANCE_CREATED | EV_PLAN_CREATED | EV_PLAN_REVISED
  | EV_TASK_CREATED | EV_TASK_READY | EV_TASK_STARTED | EV_TASK_WAITING
  | EV_TASK_BLOCKED | EV_TASK_COMPLETED | EV_TASK_FAILED | EV_TASK_CANCELLED
  | EV_ACTOR_STARTED | EV_ACTOR_STATUS_CHANGED | EV_ACTOR_COMPLETED | EV_AGENT_ASSIGNED
  | EV_SKILL_LOADED | EV_EXTERNAL_RESULT_REPORTED | EV_FINDING_REPORTED | EV_FINDING_RESOLVED
  | EV_EVIDENCE_RECORDED | EV_CRITERION_PASSED | EV_CRITERION_FAILED | EV_REVIEW_STARTED
  | EV_REVIEW_COMPLETED | EV_REPAIR_REQUESTED | EV_REPAIR_STARTED | EV_REPAIR_COMPLETED
  | EV_CHANGE_GUARD_COMPLETED | EV_MEMORY_SYNC_STARTED | EV_MEMORY_SYNC_COMPLETED | EV_MEMORY_RETRIEVED
  | EV_MEMORY_INVALIDATED | EV_MEMORY_PROMOTED | EV_CONTEXT_PACK_CREATED | EV_PROVIDER_INVOCATION_STARTED
  | EV_PROVIDER_INVOCATION_COMPLETED | EV_TOOL_STARTED | EV_TOOL_COMPLETED | EV_TEST_STARTED
  | EV_TEST_COMPLETED | EV_DOCUMENTATION_UPDATED | EV_FINAL_VALIDATION_COMPLETED | EV_COMMIT_CREATED
  | EV_PUSH_COMPLETED | EV_DELIVERY_BLOCKED | EV_POLICY_DENIED | EV_CONTROL_POLICY_CHANGED
  | EV_APPROVAL_REQUESTED | EV_APPROVAL_RECORDED

record event_payload =
  pl_approval_request :: "uuid option"
  pl_approval_stage :: "string option"
  pl_approval_digest :: "string option"
  pl_approval_actor :: "string option"
  pl_git_author_name :: "string option"
  pl_git_author_email :: "string option"
  pl_tool :: "uuid option"
  pl_review :: "uuid option"
  pl_provider :: "uuid option"
  pl_skills :: "string list"
  pl_previous :: "string option"
  pl_status :: "string option"
  pl_summary :: "string option"
  pl_reason :: "string option"
  pl_goal :: "uuid option"
  pl_plan_version :: "nat option"
  pl_phase :: "uuid option"
  pl_criterion :: "uuid option"
  pl_evidence :: "uuid list"
  pl_findings :: "uuid list"
  pl_tasks :: "uuid list"
  pl_memory :: "uuid list"

text \<open>\<^verbatim>\<open>EventPayload()\<close>: every field at its default.\<close>

definition no_payload :: event_payload where
  "no_payload = \<lparr>pl_approval_request = None, pl_approval_stage = None, pl_approval_digest = None,
     pl_approval_actor = None, pl_git_author_name = None, pl_git_author_email = None, pl_tool = None,
     pl_review = None, pl_provider = None, pl_skills = [], pl_previous = None, pl_status = None,
     pl_summary = None, pl_reason = None, pl_goal = None, pl_plan_version = None, pl_phase = None,
     pl_criterion = None, pl_evidence = [], pl_findings = [], pl_tasks = [], pl_memory = []\<rparr>"

record event =
  event_id :: uuid
  event_created :: time
  event_project :: uuid
  event_run :: uuid
  event_seq :: nat
  event_kind :: event_type
  event_at :: time
  event_phase :: "string option"
  event_task :: "uuid option"
  event_execution :: "uuid option"
  event_actor :: "uuid option"
  event_status :: "string option"
  event_payload :: event_payload
  event_key :: string

record event_draft =
  evd_kind :: event_type
  evd_at :: time
  evd_payload :: event_payload
  evd_phase :: "string option"
  evd_task :: "uuid option"
  evd_execution :: "uuid option"
  evd_actor :: "uuid option"
  evd_key :: string

section \<open>Timing\<close>

record phase_execution =
  phase_id :: uuid
  phase_created :: time
  phase_run :: uuid
  phase_phase :: ui_phase
  phase_iteration :: nat
  phase_started :: time
  phase_completed :: "time option"
  phase_status :: task_status
  phase_active_ms :: nat
  phase_waiting_ms :: nat
  phase_blocked_ms :: nat

record timing_breakdown =
  wall_ms :: nat
  active_ms :: nat
  waiting_ms :: nat
  blocked_ms :: nat
  idle_ms :: nat
  queue_ms :: nat

section \<open>Execution\<close>

datatype command_mode = MODE_DOCKER | MODE_TRUSTED_LOCAL

record approved_command =
  cmd_id :: string
  cmd_argv :: "string list"
  cmd_timeout :: nat

record execution_policy =
  xp_write_paths :: "string list"
  xp_commands :: "approved_command list"
  xp_mode :: command_mode
  xp_image :: "string option"
  xp_parallel :: nat
  xp_tool_calls :: nat
  xp_turns :: nat
  xp_file_bytes :: nat

record run_workspace =
  ws_run :: uuid
  ws_path :: string
  ws_base :: string
  ws_branch :: string
  ws_policy :: execution_policy

datatype tool_status = TOOL_RUNNING | TOOL_SUCCEEDED | TOOL_FAILED | TOOL_INTERRUPTED

record tool_observation =
  to_call :: string
  to_tool :: tool_name
  to_succeeded :: bool
  to_summary :: "nat list"
  to_evidence :: "uuid list"

record tool_invocation =
  tool_id :: uuid
  tool_created :: time
  tool_run :: uuid
  tool_execution :: uuid
  tool_actor :: uuid
  tool_provider :: uuid
  tool_call :: string
  tool_tool :: tool_name
  tool_request_hash :: string
  tool_status :: tool_status
  tool_started :: time
  tool_completed :: "time option"
  tool_observation :: "tool_observation option"

record worker_result =
  wr_summary :: string
  wr_completed :: bool
  wr_paths :: "string list"

record source_check =
  sc_path :: string
  sc_contains :: string

record criterion_review =
  cr_criterion :: uuid
  cr_pass :: bool
  cr_reason :: string
  cr_evidence :: "uuid list"
  cr_checks :: "source_check list"

record finding_review =
  fr_finding :: uuid
  fr_resolved :: bool
  fr_reason :: string
  fr_evidence :: "uuid list"
  fr_checks :: "source_check list"

record review_result =
  rr_pass :: bool
  rr_criteria :: "criterion_review list"
  rr_blocking :: "string list"
  rr_non_blocking :: "string list"
  rr_findings :: "finding_review list"

record review_record =
  rev_id :: uuid
  rev_created :: time
  rev_run :: uuid
  rev_goal :: uuid
  rev_plan_version :: nat
  rev_actor :: uuid
  rev_tree :: string
  rev_result :: review_result

section \<open>Providers\<close>

text \<open>JSON values, as providers return them.\<close>

datatype json =
    JNull | JBool bool | JNum rat | JStr string | JArr "json list" | JObj "(string \<times> json) list"

datatype invocation_status =
    INV_RUNNING | INV_SUCCEEDED | INV_FAILED | INV_CANCELLED | INV_INTERRUPTED

record provider_usage =
  use_input :: "nat option"
  use_output :: "nat option"
  use_cached :: "nat option"
  use_cost :: "rat option"
  use_cost_source :: "string option"

record provider_tool_call =
  ptc_id :: string
  ptc_name :: tool_name
  ptc_arguments :: json

record provider_result =
  pr_output :: "json option"
  pr_calls :: "provider_tool_call list"
  pr_usage :: provider_usage

record provider_execution =
  prov_id :: uuid
  prov_created :: time
  prov_run :: uuid
  prov_execution :: uuid
  prov_actor :: uuid
  prov_provider :: string
  prov_model :: string
  prov_request_hash :: string
  prov_key :: string
  prov_status :: invocation_status
  prov_started :: time
  prov_deadline :: time
  prov_completed :: "time option"
  prov_result :: "provider_result option"
  prov_error :: "provider_error option"

section \<open>Delivery\<close>

record reviewed_test_change =
  rtc_path :: string
  rtc_old :: string
  rtc_new :: string

record delivery_policy =
  dp_doc_path :: "string option"
  dp_sensitive :: "string list"
  dp_tests :: "reviewed_test_change list"
  dp_max_deleted :: rat
  dp_push :: bool
  dp_remote :: string
  dp_local_remote :: bool
  dp_author_name :: "string option"
  dp_author_email :: "string option"

datatype change_status = CHANGE_ADDED | CHANGE_MODIFIED | CHANGE_DELETED

record changed_file =
  cf_path :: string
  cf_status :: change_status
  cf_old :: "string option"
  cf_new :: "string option"
  cf_added :: nat
  cf_deleted :: nat
  cf_binary :: bool

datatype checkpoint = CP_IMPLEMENTATION | CP_FINAL

record change_report =
  rep_id :: uuid
  rep_created :: time
  rep_run :: uuid
  rep_actor :: uuid
  rep_checkpoint :: checkpoint
  rep_base :: string
  rep_tree :: string
  rep_passed :: bool
  rep_changes :: "changed_file list"
  rep_findings :: "finding list"

record final_validation =
  fv_id :: uuid
  fv_created :: time
  fv_run :: uuid
  fv_actor :: uuid
  fv_goal :: uuid
  fv_tree :: string
  fv_passed :: bool
  fv_evidence :: "uuid list"

datatype push_status = PUSH_NOT_REQUESTED | PUSH_PENDING | PUSH_PUSHED

record git_delivery =
  gd_id :: uuid
  gd_created :: time
  gd_run :: uuid
  gd_base :: string
  gd_branch :: string
  gd_tree :: string
  gd_git_tree :: string
  gd_message :: string
  gd_attached :: bool
  gd_commit :: "string option"
  gd_push :: push_status
  gd_remote :: "string option"
  gd_policy :: delivery_policy

section \<open>Projects\<close>

record project_settings =
  ps_permissions :: permission_profile
  ps_providers :: "string list"
  ps_protected :: "string list"
  ps_allow_push :: bool
  ps_max_attempts :: nat
  ps_max_repairs :: nat

record project =
  proj_id :: uuid
  proj_created :: time
  proj_name :: string
  proj_root :: string
  proj_branch :: string
  proj_settings :: project_settings

end
