(* ===== verification/Orq_Graph.thy ===== *)
theory Orq_Graph
  imports Orq_Records
begin

text \<open>
  \<^verbatim>\<open>graphlib.TopologicalSorter\<close>, as \<^verbatim>\<open>TaskPlan.validate_dag\<close> and \<^verbatim>\<open>ordered_tasks\<close> use it: a
  graph maps each node to its predecessors, \<^verbatim>\<open>static_order\<close> raises \<^verbatim>\<open>CycleError\<close> or yields the
  nodes in the order they become free. A node becomes free when the last of its predecessors has
  been yielded, and free nodes are yielded first in, first out. The predecessors of a node are
  taken in the order the graph lists them (Python iterates over a set there).

  Main results: a returned order is a permutation of the nodes in which predecessors come first
  (\<open>static_order_sound\<close>), and there is one exactly when the graph has no cycle
  (\<open>static_order_iff_acyclic\<close>).
\<close>

type_synonym graph = "(uuid \<times> uuid list) list"

definition g_nodes :: "graph \<Rightarrow> uuid list" where
  "g_nodes g = rev (remdups (rev (concat (map (\<lambda>(n, ps). n # ps) g))))"

definition g_preds :: "graph \<Rightarrow> uuid \<Rightarrow> uuid list" where
  "g_preds g n = (case map_of g n of None \<Rightarrow> [] | Some ps \<Rightarrow> ps)"

definition g_succs :: "graph \<Rightarrow> uuid \<Rightarrow> uuid list" where
  "g_succs g p = filter (\<lambda>n. p \<in> set (g_preds g n)) (g_nodes g)"

text \<open>
  One node is yielded per round: it leaves the queue, joins the yielded nodes \<open>done\<close>, and the
  successors it was the last predecessor of join the queue. The fuel is the number of nodes: no
  node is queued twice (\<open>topo_state\<close> below).
\<close>

fun topo_loop :: "nat \<Rightarrow> graph \<Rightarrow> uuid list \<Rightarrow> uuid list \<Rightarrow> uuid list" where
  "topo_loop 0 g queue done = []"
| "topo_loop (Suc fuel) g [] done = []"
| "topo_loop (Suc fuel) g (n # queue) done =
     n # topo_loop fuel g
       (queue @ filter (\<lambda>s. set (g_preds g s) \<subseteq> insert n (set done)) (g_succs g n)) (n # done)"

definition static_order :: "graph \<Rightarrow> uuid list option" where
  "static_order g = (let nodes = g_nodes g;
       order = topo_loop (length nodes) g (filter (\<lambda>n. g_preds g n = []) nodes) []
     in if length order = length nodes then Some order else None)"

text \<open>The relation the graph stands for: \<open>(p, n)\<close> when \<open>p\<close> is a predecessor of \<open>n\<close>.\<close>

definition g_edges :: "graph \<Rightarrow> (uuid \<times> uuid) set" where
  "g_edges g = {(p, n). p \<in> set (g_preds g n)}"

lemma distinct_g_nodes [simp]: "distinct (g_nodes g)"
  by (simp add: g_nodes_def)

lemma set_g_nodes: "set (g_nodes g) = (\<Union>(n, ps) \<in> set g. insert n (set ps))"
  by (auto simp: g_nodes_def)

lemma g_preds_nodes: "p \<in> set (g_preds g n) \<Longrightarrow> p \<in> set (g_nodes g) \<and> n \<in> set (g_nodes g)"
proof -
  assume "p \<in> set (g_preds g n)"
  then obtain ps where "(n, ps) \<in> set g" "p \<in> set ps"
    by (cases "map_of g n") (auto simp: g_preds_def dest: map_of_SomeD)
  then show ?thesis by (auto simp: set_g_nodes intro!: bexI [of _ "(n, ps)"])
qed

lemma g_edges_nodes: "g_edges g \<subseteq> set (g_nodes g) \<times> set (g_nodes g)"
  using g_preds_nodes by (auto simp: g_edges_def)

lemma finite_g_edges [simp]: "finite (g_edges g)"
  by (rule finite_subset [OF g_edges_nodes]) simp

text \<open>
  The state of the loop: queued and yielded nodes are distinct nodes of the graph, they are
  exactly the nodes all of whose predecessors have been yielded, and every predecessor of a
  yielded node has been yielded.
\<close>

definition topo_state :: "graph \<Rightarrow> uuid list \<Rightarrow> uuid list \<Rightarrow> bool" where
  "topo_state g queue done \<longleftrightarrow> distinct (queue @ done)
     \<and> (\<forall>n. n \<in> set queue \<union> set done \<longleftrightarrow> n \<in> set (g_nodes g) \<and> set (g_preds g n) \<subseteq> set done)"

lemma topo_state_init: "topo_state g (filter (\<lambda>n. g_preds g n = []) (g_nodes g)) []"
  by (auto simp: topo_state_def)

lemma topo_state_step:
  assumes "topo_state g (n # queue) done"
  shows "topo_state g
    (queue @ filter (\<lambda>s. set (g_preds g s) \<subseteq> insert n (set done)) (g_succs g n)) (n # done)"
proof -
  let ?new = "filter (\<lambda>s. set (g_preds g s) \<subseteq> insert n (set done)) (g_succs g n)"
  have n: "n \<notin> set done" "n \<notin> set queue" and q: "distinct queue" "distinct done"
    "set queue \<inter> set done = {}"
    using assms by (auto simp: topo_state_def)
  have free: "m \<in> set (n # queue) \<union> set done \<longleftrightarrow> m \<in> set (g_nodes g) \<and> set (g_preds g m) \<subseteq> set done" for m
    using assms by (simp add: topo_state_def)
  have "set ?new \<inter> (set queue \<union> set (n # done)) = {}"
    using free n by (auto simp: g_succs_def)
  moreover have "distinct ?new"
    by (simp add: g_succs_def)
  ultimately have "distinct ((queue @ ?new) @ n # done)"
    using n q by auto
  moreover have "m \<in> set (queue @ ?new) \<union> set (n # done) \<longleftrightarrow>
      m \<in> set (g_nodes g) \<and> set (g_preds g m) \<subseteq> set (n # done)" for m
    using free [of m] by (auto simp: g_succs_def)
  ultimately show ?thesis by (simp add: topo_state_def)
qed

text \<open>\<open>ordered_after g done xs\<close>: each node of \<open>xs\<close> has its predecessors in \<open>done\<close> or earlier in \<open>xs\<close>.\<close>

fun ordered_after :: "graph \<Rightarrow> uuid set \<Rightarrow> uuid list \<Rightarrow> bool" where
  "ordered_after g D [] = True"
| "ordered_after g D (x # xs) = (set (g_preds g x) \<subseteq> D \<and> ordered_after g (insert x D) xs)"

lemma topo_loop_spec:
  assumes "topo_state g queue done" and "length (g_nodes g) \<le> fuel + length done"
  shows "distinct (topo_loop fuel g queue done @ done)
    \<and> set (topo_loop fuel g queue done) \<subseteq> set (g_nodes g)
    \<and> ordered_after g (set done) (topo_loop fuel g queue done)
    \<and> topo_state g [] (rev (topo_loop fuel g queue done) @ done)"
  using assms
proof (induction fuel g queue "done" rule: topo_loop.induct)
  case (1 g queue "done")
  have sub: "set (queue @ done) \<subseteq> set (g_nodes g)" and dist: "distinct (queue @ done)"
    using 1 by (auto simp: topo_state_def)
  have "length (queue @ done) = card (set (queue @ done))" using dist by (metis distinct_card)
  also have "\<dots> \<le> card (set (g_nodes g))" by (rule card_mono [OF _ sub]) simp
  also have "\<dots> = length (g_nodes g)" by (simp add: distinct_card)
  finally have "length queue + length done \<le> length (g_nodes g)" by simp
  with 1(2) have "length queue = 0" by linarith
  then have "queue = []" by simp
  with 1 show ?case by (auto simp: topo_state_def)
next
  case (2 fuel g "done")
  then show ?case by (auto simp: topo_state_def)
next
  case (3 fuel g n queue "done")
  from topo_state_step [OF 3(2)] 3(3)
  have IH: "distinct (topo_loop fuel g (queue @ filter (\<lambda>s. set (g_preds g s) \<subseteq> insert n (set done)) (g_succs g n)) (n # done) @ n # done)
    \<and> set (topo_loop fuel g (queue @ filter (\<lambda>s. set (g_preds g s) \<subseteq> insert n (set done)) (g_succs g n)) (n # done)) \<subseteq> set (g_nodes g)
    \<and> ordered_after g (set (n # done)) (topo_loop fuel g (queue @ filter (\<lambda>s. set (g_preds g s) \<subseteq> insert n (set done)) (g_succs g n)) (n # done))
    \<and> topo_state g [] (rev (topo_loop fuel g (queue @ filter (\<lambda>s. set (g_preds g s) \<subseteq> insert n (set done)) (g_succs g n)) (n # done)) @ n # done)"
    by (intro 3(1)) simp_all
  moreover have "n \<in> set (g_nodes g) \<and> set (g_preds g n) \<subseteq> set done"
    using 3(2) by (auto simp: topo_state_def)
  ultimately show ?case by auto
qed

lemma topo_run:
  fixes g
  defines "xs \<equiv> topo_loop (length (g_nodes g)) g (filter (\<lambda>n. g_preds g n = []) (g_nodes g)) []"
  shows "distinct xs" and "set xs \<subseteq> set (g_nodes g)" and "ordered_after g {} xs"
    and "\<And>n. n \<in> set xs \<longleftrightarrow> n \<in> set (g_nodes g) \<and> set (g_preds g n) \<subseteq> set xs"
  using topo_loop_spec [OF topo_state_init, of g "length (g_nodes g)"]
  by (auto simp: xs_def topo_state_def)

lemma ordered_after_acyclic:
  assumes "ordered_after g D xs" and "distinct xs" and "set xs \<inter> D = {}"
  shows "acyclic (g_edges g \<inter> UNIV \<times> set xs)"
  using assms
proof (induction xs arbitrary: D)
  case Nil
  then show ?case by (simp add: acyclic_def)
next
  case (Cons x xs)
  let ?E = "g_edges g \<inter> UNIV \<times> set xs" and ?X = "{(p, x) | p. p \<in> set (g_preds g x)}"
  have eq: "g_edges g \<inter> UNIV \<times> set (x # xs) = ?X \<union> ?E"
    by (auto simp: g_edges_def)
  have ac: "acyclic ?E" using Cons.IH [of "insert x D"] Cons.prems by auto
  have preds: "p \<in> D" if "(p, x) \<in> ?X" for p using that Cons.prems by auto
  have range: "b \<in> set xs" if "(a, b) \<in> ?E\<^sup>+" for a b
    using that by (induction rule: trancl.induct) auto
  have no_source: "a \<notin> D" if "a \<in> set (x # xs)" for a using that Cons.prems by auto
  have "(a, b) \<in> (?X \<union> ?E)\<^sup>+ \<Longrightarrow> (a, b) \<in> ?E\<^sup>+ \<or> (a \<in> D \<and> b \<in> set (x # xs)) \<or> (a = x \<and> b \<in> set xs) \<or> (a \<in> set xs \<and> b \<in> set xs \<and> (a, b) \<in> ?E\<^sup>+)" for a b
  proof (induction rule: trancl_induct)
    case (base b)
    then show ?case using preds by auto
  next
    case (step b c)
    show ?case
    proof (cases "(b, c) \<in> ?X")
      case True
      then have "b \<in> D" "c = x" using preds by auto
      moreover have "b \<in> set xs \<or> b \<in> set (x # xs)" using step.IH range by auto
      ultimately show ?thesis using no_source by auto
    next
      case False
      with step have "(b, c) \<in> ?E" by blast
      then show ?thesis using step.IH by (auto intro: trancl_into_trancl)
    qed
  qed
  then have "(a, a) \<notin> (?X \<union> ?E)\<^sup>+" for a
    using ac no_source Cons.prems(2) by (auto simp: acyclic_def)
  then show ?case unfolding eq acyclic_def by blast
qed

lemma static_order_sound:
  assumes "static_order g = Some xs"
  shows "distinct xs" and "set xs = set (g_nodes g)" and "ordered_after g {} xs"
proof -
  let ?xs = "topo_loop (length (g_nodes g)) g (filter (\<lambda>n. g_preds g n = []) (g_nodes g)) []"
  have xs: "xs = ?xs" and len: "length xs = length (g_nodes g)"
    using assms by (auto simp: static_order_def Let_def split: if_splits)
  show "distinct xs" "ordered_after g {} xs" unfolding xs by (rule topo_run)+
  have "set xs \<subseteq> set (g_nodes g)" unfolding xs by (rule topo_run)
  moreover have "card (set xs) = card (set (g_nodes g))"
    using \<open>distinct xs\<close> len by (metis distinct_card distinct_g_nodes)
  ultimately show "set xs = set (g_nodes g)" by (intro card_subset_eq) auto
qed

lemma static_order_iff_acyclic: "(\<exists>xs. static_order g = Some xs) \<longleftrightarrow> acyclic (g_edges g)"
proof
  assume "\<exists>xs. static_order g = Some xs"
  then obtain xs where xs: "static_order g = Some xs" ..
  have "g_edges g \<inter> UNIV \<times> set xs = g_edges g"
    using static_order_sound(2) [OF xs] g_edges_nodes by auto
  then show "acyclic (g_edges g)"
    using ordered_after_acyclic [OF static_order_sound(3) [OF xs] static_order_sound(1) [OF xs]] by simp
next
  assume ac: "acyclic (g_edges g)"
  let ?xs = "topo_loop (length (g_nodes g)) g (filter (\<lambda>n. g_preds g n = []) (g_nodes g)) []"
  have "set (g_nodes g) \<subseteq> set ?xs"
  proof (rule ccontr)
    assume "\<not> set (g_nodes g) \<subseteq> set ?xs"
    then obtain n where n: "n \<in> set (g_nodes g) - set ?xs" by auto
    have "wf (g_edges g)" using ac by (simp add: finite_acyclic_wf)
    from wfE_min [OF this n] obtain m where m: "m \<in> set (g_nodes g) - set ?xs"
      and least: "\<And>p. (p, m) \<in> g_edges g \<Longrightarrow> p \<notin> set (g_nodes g) - set ?xs" by blast
    from least have "set (g_preds g m) \<subseteq> set ?xs"
      using g_preds_nodes [of _ g m] by (auto simp: g_edges_def)
    with m have "m \<in> set ?xs" by (subst topo_run(4)) simp
    with m show False by simp
  qed
  with topo_run(2) have eq: "set ?xs = set (g_nodes g)" by (rule equalityI)
  have "distinct ?xs" by (rule topo_run)
  then have "length ?xs = card (set ?xs)" by (rule distinct_card [symmetric])
  also have "\<dots> = length (g_nodes g)" unfolding eq by (simp add: distinct_card)
  finally have "length ?xs = length (g_nodes g)" .
  then show "\<exists>xs. static_order g = Some xs" by (simp add: static_order_def Let_def)
qed

end
