(* ===== verification/Orq_Contracts.thy ===== *)
theory Orq_Contracts
  imports Orq_Graph
begin

text \<open>
  What the pydantic models of \<^verbatim>\<open>domain/*.py\<close> validate beyond the types of their fields: the
  \<^verbatim>\<open>Field\<close> bounds and patterns and the \<^verbatim>\<open>model_validator\<close> methods, one predicate per model.
  Construction of a model that fails its predicate raises \<^verbatim>\<open>ValidationError\<close> (\<open>ValueErr\<close>).
  \<open>validate_dag\<close> is the validator of task plans; \<open>plan_well_formed\<close> says what it accepts without
  mentioning the algorithm, and \<open>validate_dag_iff\<close> that the two agree.
\<close>

section \<open>Character classes of the patterns\<close>

definition is_lower :: "char \<Rightarrow> bool" where
  "is_lower c \<longleftrightarrow> 97 \<le> (of_char c :: nat) \<and> (of_char c :: nat) \<le> 122"

definition is_upper :: "char \<Rightarrow> bool" where
  "is_upper c \<longleftrightarrow> 65 \<le> (of_char c :: nat) \<and> (of_char c :: nat) \<le> 90"

definition is_alnum :: "char \<Rightarrow> bool" where
  "is_alnum c \<longleftrightarrow> is_lower c \<or> is_upper c \<or> is_digit c"

definition is_hex :: "char \<Rightarrow> bool" where
  "is_hex c \<longleftrightarrow> is_digit c \<or> (97 \<le> (of_char c :: nat) \<and> (of_char c :: nat) \<le> 102)"

text \<open>\<^verbatim>\<open>[0-9a-f]{64}\<close>, matched in full.\<close>

definition sha256_text :: "string \<Rightarrow> bool" where
  "sha256_text s \<longleftrightarrow> length s = 64 \<and> list_all is_hex s"

section \<open>Runs, tasks and plans\<close>

definition run_ok :: "run \<Rightarrow> bool" where
  "run_ok r \<longleftrightarrow> run_request r \<noteq> [] \<and> run_branch r \<noteq> [] \<and> run_base r \<noteq> []"

definition task_ok :: "task \<Rightarrow> bool" where
  "task_ok t \<longleftrightarrow> task_description t \<noteq> [] \<and> task_outcome t \<noteq> [] \<and> task_validation t \<noteq> []
     \<and> 0 \<le> task_risk t \<and> task_risk t \<le> 1 \<and> 0 < task_weight t"

abbreviation task_ids :: "task_plan \<Rightarrow> uuid list" where
  "task_ids p \<equiv> map task_id (plan_tasks p)"

definition plan_graph :: "task_plan \<Rightarrow> graph" where
  "plan_graph p = map (\<lambda>t. (task_id t, map dep_on (filter (\<lambda>e. dep_task e = task_id t) (plan_deps p)))) (plan_tasks p)"

definition validate_dag :: "task_plan \<Rightarrow> err + task_plan" where
  "validate_dag p =
     (if \<not> distinct (task_ids p) then Inl ValueErr
      else if \<exists>t \<in> set (plan_tasks p). task_run t \<noteq> plan_run p \<or> plan_version p < task_plan_version t then Inl ValueErr
      else if \<not> distinct (map (\<lambda>e. (dep_task e, dep_on e)) (plan_deps p)) then Inl ValueErr
      else if \<exists>e \<in> set (plan_deps p). dep_task e \<notin> set (task_ids p) \<or> dep_on e \<notin> set (task_ids p)
           \<or> dep_type e \<noteq> ''finish_to_start'' then Inl ValueErr
      else case static_order (plan_graph p) of None \<Rightarrow> Inl ValueErr | Some _ \<Rightarrow> Inr p)"

text \<open>\<^verbatim>\<open>TaskPlan.model_validate\<close>: the fields of the plan and of its tasks, then the DAG.\<close>

definition validate_plan :: "task_plan \<Rightarrow> err + task_plan" where
  "validate_plan p =
     (if plan_version p < 1 \<or> plan_tasks p = [] \<or> \<not> list_all task_ok (plan_tasks p) then Inl ValueErr
      else validate_dag p)"

section \<open>Goals and acceptance\<close>

fun spec_ok :: "validation_spec \<Rightarrow> bool" where
  "spec_ok (CommandValidation k argv code timeout) \<longleftrightarrow> argv \<noteq> [] \<and> code \<le> 255 \<and> 1 \<le> timeout \<and> timeout \<le> 600
     \<and> \<not> (\<exists>part \<in> set argv. part = [] \<or> char_of (0::nat) \<in> set part)"
| "spec_ok (FileValidation path must_exist contains) \<longleftrightarrow> path \<noteq> [] \<and> \<not> (\<not> must_exist \<and> contains \<noteq> None)"
| "spec_ok (DiffValidation base path contains) \<longleftrightarrow> base \<noteq> [] \<and> path \<noteq> [] \<and> contains \<noteq> []"
| "spec_ok (ReviewValidation k instructions) \<longleftrightarrow> instructions \<noteq> []"

text \<open>The key pattern \<^verbatim>\<open>^AC-[A-Za-z0-9_-]+$\<close>.\<close>

definition criterion_key_ok :: "string \<Rightarrow> bool" where
  "criterion_key_ok s \<longleftrightarrow> take 3 s = ''AC-'' \<and> drop 3 s \<noteq> []
     \<and> list_all (\<lambda>c. is_alnum c \<or> c = CHR ''_'' \<or> c = CHR ''-'') (drop 3 s)"

definition criterion_definition_ok :: "criterion_definition \<Rightarrow> bool" where
  "criterion_definition_ok d \<longleftrightarrow> criterion_key_ok (cdef_key d) \<and> cdef_description d \<noteq> [] \<and> spec_ok (cdef_spec d)"

definition goal_draft_ok :: "goal_draft \<Rightarrow> bool" where
  "goal_draft_ok d \<longleftrightarrow> draft_goal d \<noteq> [] \<and> draft_scope d \<noteq> [] \<and> draft_done d \<noteq> [] \<and> draft_criteria d \<noteq> []
     \<and> list_all criterion_definition_ok (draft_criteria d)
     \<and> \<not> (\<exists>v \<in> set (draft_goal d # draft_scope d @ draft_done d). blank v)
     \<and> distinct (map cdef_key (draft_criteria d))
     \<and> (\<exists>c \<in> set (draft_criteria d). cdef_priority c = P_REQUIRED)"

definition criterion_ok :: "acceptance_criterion \<Rightarrow> bool" where
  "criterion_ok c \<longleftrightarrow> \<not> (crit_status c = AC_PASS \<and> crit_evidence c = [])"

section \<open>Approvals and policies\<close>

definition control_policy_ok :: "control_policy \<Rightarrow> bool" where
  "control_policy_ok p \<longleftrightarrow> \<not> (pol_mode p = AUTONOMOUS \<and> pol_gates p \<noteq> [])"

definition approval_decision_ok :: "approval_decision \<Rightarrow> bool" where
  "approval_decision_ok d \<longleftrightarrow> dec_actor d \<noteq> [] \<and> length (dec_actor d) \<le> 120 \<and> length (dec_reason d) \<le> 1000"

definition approval_request_ok :: "approval_request \<Rightarrow> bool" where
  "approval_request_ok r \<longleftrightarrow> req_digest r \<noteq> [] \<and> length (req_digest r) \<le> 255 \<and> length (req_reason r) \<le> 1000"

text \<open>The command identifier pattern \<^verbatim>\<open>^[a-z][a-z0-9_-]{0,63}$\<close>.\<close>

fun command_id_ok :: "string \<Rightarrow> bool" where
  "command_id_ok [] = False"
| "command_id_ok (c # cs) = (is_lower c \<and> length cs \<le> 63
     \<and> list_all (\<lambda>d. is_lower d \<or> is_digit d \<or> d = CHR ''_'' \<or> d = CHR ''-'') cs)"

definition approved_command_ok :: "approved_command \<Rightarrow> bool" where
  "approved_command_ok c \<longleftrightarrow> command_id_ok (cmd_id c) \<and> cmd_argv c \<noteq> [] \<and> 1 \<le> cmd_timeout c \<and> cmd_timeout c \<le> 600"

text \<open>A pattern of the write scope: repository-relative, with no way up and no drive or escape.\<close>

definition write_path_ok :: "string \<Rightarrow> bool" where
  "write_path_ok s \<longleftrightarrow> s \<noteq> [] \<and> \<not> starts_with ''/'' s \<and> CHR 0x5C \<notin> set s
     \<and> ''..'' \<notin> set (split_on (CHR ''/'') s) \<and> CHR '':'' \<notin> set s"

definition execution_policy_ok :: "execution_policy \<Rightarrow> bool" where
  "execution_policy_ok p \<longleftrightarrow> xp_write_paths p \<noteq> [] \<and> list_all approved_command_ok (xp_commands p)
     \<and> 1 \<le> xp_parallel p \<and> xp_parallel p \<le> 16 \<and> 1 \<le> xp_tool_calls p \<and> xp_tool_calls p \<le> 500
     \<and> 1 \<le> xp_turns p \<and> xp_turns p \<le> 100 \<and> 1 \<le> xp_file_bytes p \<and> xp_file_bytes p \<le> 1000000
     \<and> distinct (map cmd_id (xp_commands p)) \<and> list_all write_path_ok (xp_write_paths p)
     \<and> \<not> (xp_commands p \<noteq> [] \<and> xp_mode p = MODE_DOCKER \<and> (xp_image p = None \<or> xp_image p = Some []))"

definition given :: "string option \<Rightarrow> bool" where
  "given s \<longleftrightarrow> s \<noteq> None \<and> s \<noteq> Some []"

definition reviewed_change_ok :: "reviewed_test_change \<Rightarrow> bool" where
  "reviewed_change_ok c \<longleftrightarrow> rtc_path c \<noteq> [] \<and> sha256_text (rtc_old c) \<and> sha256_text (rtc_new c)"

text \<open>The remote pattern \<^verbatim>\<open>^[A-Za-z0-9][A-Za-z0-9._-]*$\<close>.\<close>

fun remote_ok :: "string \<Rightarrow> bool" where
  "remote_ok [] = False"
| "remote_ok (c # cs) = (is_alnum c \<and> list_all (\<lambda>d. is_alnum d \<or> d = CHR ''.'' \<or> d = CHR ''_'' \<or> d = CHR ''-'') cs)"

definition delivery_policy_ok :: "delivery_policy \<Rightarrow> bool" where
  "delivery_policy_ok p \<longleftrightarrow> list_all reviewed_change_ok (dp_tests p) \<and> 0 \<le> dp_max_deleted p \<and> dp_max_deleted p \<le> 1
     \<and> remote_ok (dp_remote p) \<and> given (dp_author_name p) = given (dp_author_email p)"

section \<open>Providers and events\<close>

definition provider_usage_ok :: "provider_usage \<Rightarrow> bool" where
  "provider_usage_ok u \<longleftrightarrow> (case use_cost u of None \<Rightarrow> True | Some c \<Rightarrow> 0 \<le> c \<and> given (use_cost_source u))
     \<and> (case (use_cached u, use_input u) of (Some c, Some i) \<Rightarrow> c \<le> i | _ \<Rightarrow> True)"

definition provider_result_ok :: "provider_result \<Rightarrow> bool" where
  "provider_result_ok r \<longleftrightarrow> provider_usage_ok (pr_usage r)
     \<and> (pr_output r = None) \<noteq> (pr_calls r = []) \<and> distinct (map ptc_id (pr_calls r))"

text \<open>
  An event draft needs a key; its limit of 255 characters is not modelled, since identifiers have no
  fixed-width text here. The keys the services build from a command key of at most 120 characters
  and at most two identifiers of 36 stay below it.
\<close>

definition event_draft_ok :: "event_draft \<Rightarrow> bool" where
  "event_draft_ok d \<longleftrightarrow> evd_key d \<noteq> []"

section \<open>What plan validation accepts\<close>

definition plan_well_formed :: "task_plan \<Rightarrow> bool" where
  "plan_well_formed p \<longleftrightarrow> distinct (task_ids p)
     \<and> (\<forall>t \<in> set (plan_tasks p). task_run t = plan_run p \<and> task_plan_version t \<le> plan_version p)
     \<and> distinct (map (\<lambda>e. (dep_task e, dep_on e)) (plan_deps p))
     \<and> (\<forall>e \<in> set (plan_deps p). dep_task e \<in> set (task_ids p) \<and> dep_on e \<in> set (task_ids p)
          \<and> dep_type e = ''finish_to_start'')
     \<and> acyclic ((\<lambda>e. (dep_on e, dep_task e)) ` set (plan_deps p))"

lemma map_of_plan_graph: "distinct (task_ids p) \<Longrightarrow> t \<in> set (plan_tasks p) \<Longrightarrow>
    map_of (plan_graph p) (task_id t) = Some (map dep_on (filter (\<lambda>e. dep_task e = task_id t) (plan_deps p)))"
  by (intro map_of_is_SomeI) (auto simp: plan_graph_def comp_def)

lemma g_preds_plan_graph:
  assumes "distinct (task_ids p)" and "n \<in> set (task_ids p)"
  shows "g_preds (plan_graph p) n = map dep_on (filter (\<lambda>e. dep_task e = n) (plan_deps p))"
proof -
  from assms(2) obtain t where "t \<in> set (plan_tasks p)" "task_id t = n" by auto
  with map_of_plan_graph [OF assms(1)] show ?thesis by (auto simp: g_preds_def)
qed

lemma g_edges_plan_graph:
  assumes "distinct (task_ids p)" and "\<forall>e \<in> set (plan_deps p). dep_task e \<in> set (task_ids p)"
  shows "g_edges (plan_graph p) = (\<lambda>e. (dep_on e, dep_task e)) ` set (plan_deps p)"
proof -
  have "(a, n) \<in> g_edges (plan_graph p) \<longleftrightarrow> (\<exists>e \<in> set (plan_deps p). a = dep_on e \<and> n = dep_task e)" for a n
  proof (cases "n \<in> set (task_ids p)")
    case True
    then show ?thesis using g_preds_plan_graph [OF assms(1) True] by (auto simp: g_edges_def)
  next
    case False
    then have "map_of (plan_graph p) n = None" by (auto simp: plan_graph_def map_of_eq_None_iff)
    with False assms(2) show ?thesis by (auto simp: g_edges_def g_preds_def)
  qed
  then show ?thesis by auto
qed

lemma set_plan_graph_nodes:
  assumes "\<forall>e \<in> set (plan_deps p). dep_on e \<in> set (task_ids p)"
  shows "set (g_nodes (plan_graph p)) = set (task_ids p)"
  using assms by (auto simp: set_g_nodes plan_graph_def)

lemma validate_dag_iff: "validate_dag p = Inr q \<longleftrightarrow> q = p \<and> plan_well_formed p"
proof (cases "distinct (task_ids p) \<and> (\<forall>e \<in> set (plan_deps p). dep_task e \<in> set (task_ids p))")
  case True
  then have "(\<exists>xs. static_order (plan_graph p) = Some xs) \<longleftrightarrow>
      acyclic ((\<lambda>e. (dep_on e, dep_task e)) ` set (plan_deps p))"
    using static_order_iff_acyclic [of "plan_graph p"] g_edges_plan_graph [of p] by simp
  with True show ?thesis
    by (cases "static_order (plan_graph p)") (auto simp: validate_dag_def plan_well_formed_def not_less not_le)
next
  case False
  then show ?thesis by (auto simp: validate_dag_def plan_well_formed_def)
qed

lemma validate_plan_iff: "validate_plan p = Inr q \<longleftrightarrow> q = p \<and> 1 \<le> plan_version p \<and> plan_tasks p \<noteq> []
    \<and> list_all task_ok (plan_tasks p) \<and> plan_well_formed p"
  using validate_dag_iff [of p q] by (auto simp: validate_plan_def not_less_eq_eq Suc_le_eq)

lemma validate_plan_raises: "validate_plan p = Inl e \<Longrightarrow> e = ValueErr"
  by (auto simp: validate_plan_def validate_dag_def split: if_splits option.splits)

lemma validate_dag_raises: "validate_dag p = Inl e \<Longrightarrow> e = ValueErr"
  by (auto simp: validate_dag_def split: if_splits option.splits)

section \<open>Properties\<close>

text \<open>
  C1: plan validation is exact. \<^verbatim>\<open>TaskPlan.model_validate\<close>, which runs graphlib's topological
  sort, accepts precisely the plans with distinct tasks of this run and of no later version, distinct
  known finish-to-start dependencies and no dependency cycle (over the field bounds), returns
  them unchanged, and raises a validation error on every other plan.
\<close>
theorem plan_validation_exact:
  "validate_plan p = (if 1 \<le> plan_version p \<and> plan_tasks p \<noteq> [] \<and> list_all task_ok (plan_tasks p) \<and> plan_well_formed p
     then Inr p else Inl ValueErr)"
  using validate_plan_iff [of p p] validate_plan_iff [of p] validate_plan_raises [of p]
  by (cases "validate_plan p") auto

end
