(* ===== verification/Orq_Capsule.thy ===== *)
theory Orq_Capsule
  imports Orq_Contracts
begin

text \<open>
  The Task Capsule: \<^verbatim>\<open>TaskCapsuleAggregate\<close> of \<^verbatim>\<open>persistence/filesystem/task_store.py\<close> with the
  extension documents of \<^verbatim>\<open>auxiliary_stores.py\<close>, the unit of work that stages changes to capsules
  and commits them, and the environment of the code. Dictionaries are association lists in insertion
  order. A unit of work has the committed capsules (\<open>uow_disk\<close>), its own view of them
  (\<open>uow_work\<close>), the events it has published, and the number of values it has taken from the
  environment. Units of work run one after the other here; what the state locks and generations
  give to concurrent ones is not part of this theory.
\<close>

section \<open>Capsules\<close>

record capsule =
  cap_id :: string
  cap_generation :: nat
  cap_run :: run
  cap_goals :: "(uuid \<times> goal_contract) list"
  cap_evidence :: "(uuid \<times> evidence) list"
  cap_plans :: "(nat \<times> task_plan) list"
  cap_tasks :: "(uuid \<times> task) list"
  cap_actors :: "(uuid \<times> actor_session) list"
  cap_executions :: "(uuid \<times> task_execution) list"
  cap_phases :: "(uuid \<times> phase_execution) list"
  cap_policy :: "control_policy option"
  cap_requests :: "(uuid \<times> approval_request) list"
  cap_decisions :: "(uuid \<times> approval_decision) list"
  cap_events :: "event list"
  cap_workspace :: "run_workspace option"
  cap_tools :: "tool_invocation list"
  cap_reviews :: "review_record list"
  cap_invocations :: "provider_execution list"
  cap_guardians :: "change_report list"
  cap_validations :: "final_validation list"
  cap_git :: "git_delivery option"
  cap_artifacts :: "artifact list"
  cap_findings :: "finding list"
  cap_dirty :: bool
  cap_persisted :: nat

definition new_capsule :: "string \<Rightarrow> run \<Rightarrow> capsule" where
  "new_capsule cid r = \<lparr>cap_id = cid, cap_generation = 0, cap_run = r, cap_goals = [], cap_evidence = [],
     cap_plans = [], cap_tasks = [], cap_actors = [], cap_executions = [], cap_phases = [],
     cap_policy = None, cap_requests = [], cap_decisions = [], cap_events = [], cap_workspace = None,
     cap_tools = [], cap_reviews = [], cap_invocations = [], cap_guardians = [], cap_validations = [],
     cap_git = None, cap_artifacts = [], cap_findings = [], cap_dirty = True, cap_persisted = 0\<rparr>"

section \<open>The environment\<close>

text \<open>
  What the code serialises or fingerprints, one constructor per form. Fields a form excludes are set
  to a default by the definitions that build it.
\<close>

datatype document =
    DocState capsule
  | DocPayload event_payload
  | DocPlan task_plan
  | DocDraft goal_draft
  | DocObservation validation_observation
  | DocPolicy delivery_policy
  | DocGoalSubject goal_version "acceptance_criterion list"
  | DocPlanSubject uuid uuid nat "task list" "task_dependency list"
  | DocRequirementsSubject task
  | DocTaskSubject task execution_policy
  | DocRepairSubject uuid nat review_result
  | DocDeliverySubject "uuid option" nat uuid string delivery_policy

text \<open>
  The clock and the run leases are read at a step of the environment, \<open>env_safe\<close> is
  \<^verbatim>\<open>safe_diagnostic\<close>, \<open>env_json\<close> and \<open>env_sha\<close> serialise and hash, \<open>env_project\<close> is the project
  identity file, which runs only read.
\<close>

record env =
  env_clock :: "nat \<Rightarrow> time"
  env_lease :: "nat \<Rightarrow> bool"
  env_safe :: "string \<Rightarrow> string"
  env_json :: "document \<Rightarrow> string"
  env_sha :: "string \<Rightarrow> string"
  env_project :: "uuid \<Rightarrow> project option"

definition safe_text :: "env \<Rightarrow> string \<Rightarrow> bool" where
  "safe_text env s \<longleftrightarrow> env_safe env s = s"

definition safe_doc :: "env \<Rightarrow> document \<Rightarrow> bool" where
  "safe_doc env d \<longleftrightarrow> safe_text env (env_json env d)"

definition fingerprint :: "env \<Rightarrow> document \<Rightarrow> string" where
  "fingerprint env d = env_sha env (env_json env d)"

section \<open>Units of work\<close>

type_synonym capsules = "(uuid \<times> capsule) list"

record uow =
  uow_disk :: capsules
  uow_work :: capsules
  uow_bus :: "event list"
  uow_step :: nat

type_synonym 'a act = "(uow, 'a) prog"

definition env_tick :: "uow \<Rightarrow> uow" where
  "env_tick s = s\<lparr>uow_step := Suc (uow_step s)\<rparr>"

text \<open>\<^verbatim>\<open>clock()\<close>, \<^verbatim>\<open>utc_now()\<close>, \<^verbatim>\<open>uuid4()\<close> and \<^verbatim>\<open>try_run_lock\<close>.\<close>

definition utc_now :: "env \<Rightarrow> time act" where
  "utc_now env = (\<lambda>s. (Inr (env_clock env (uow_step s)), env_tick s))"

definition uuid4 :: "uuid act" where
  "uuid4 = (\<lambda>s. (Inr (UUID4 (uow_step s)), env_tick s))"

definition lease_free :: "env \<Rightarrow> bool act" where
  "lease_free env = (\<lambda>s. (Inr (env_lease env (uow_step s)), env_tick s))"

text \<open>\<^verbatim>\<open>load_capsule\<close>, without and with the intention to change it.\<close>

definition load :: "uuid \<Rightarrow> capsule act" where
  "load rid = (\<lambda>s. case map_of (uow_work s) rid of None \<Rightarrow> (Inl NotFound, s)
     | Some c \<Rightarrow> if run_id (cap_run c) \<noteq> rid then (Inl Conflict, s) else (Inr c, s))"

lemma bnd_load: "bnd (load rid) f s = (case map_of (uow_work s) rid of None \<Rightarrow> (Inl NotFound, s)
    | Some c \<Rightarrow> if run_id (cap_run c) \<noteq> rid then (Inl Conflict, s) else f c s)"
  by (simp add: prog_simps load_def split: option.split)

lemma wp_load [wp_simps]: "wp (load rid) Q E s = (case map_of (uow_work s) rid of None \<Rightarrow> E NotFound s
    | Some c \<Rightarrow> if run_id (cap_run c) \<noteq> rid then E Conflict s else Q c s)"
  by (simp add: wp_def load_def split: option.split)

definition put :: "uuid \<Rightarrow> (capsule \<Rightarrow> capsule) \<Rightarrow> unit act" where
  "put rid f = bnd (load rid) (\<lambda>c.
     modify (\<lambda>s. s\<lparr>uow_work := AList.update rid ((f c)\<lparr>cap_dirty := True\<rparr>) (uow_work s)\<rparr>))"

text \<open>\<^verbatim>\<open>iter_capsules\<close>: all capsules, those of the session first; identities are unique.\<close>

definition all_capsules :: "(uuid \<times> capsule) list act" where
  "all_capsules = reads uow_work"

text \<open>
  \<^verbatim>\<open>_commit_capsule\<close>: the documents of a dirty capsule are rendered (its newest plan must find its
  tasks), refused when the state text is not safe, and replace the committed ones together with
  the event tail.
\<close>

definition newest_plan :: "capsule \<Rightarrow> task_plan option" where
  "newest_plan c = (if cap_plans c = [] then None
     else map_of (cap_plans c) (Max (set (map fst (cap_plans c)))))"

definition renderable :: "capsule \<Rightarrow> bool" where
  "renderable c \<longleftrightarrow> (case newest_plan c of None \<Rightarrow> True
     | Some p \<Rightarrow> \<forall>t \<in> set (plan_tasks p). task_id t \<in> set (map fst (cap_tasks c)))"

definition stamped :: "capsule \<Rightarrow> capsule" where
  "stamped c = c\<lparr>cap_generation := Suc (cap_generation c), cap_dirty := False,
     cap_persisted := length (cap_events c)\<rparr>"

definition commit_capsule :: "env \<Rightarrow> uuid \<Rightarrow> unit act" where
  "commit_capsule env rid = bnd (load rid) (\<lambda>c.
     if \<not> cap_dirty c then ret ()
     else bnd (deny (\<not> safe_doc env (DocState (c\<lparr>cap_generation := Suc (cap_generation c)\<rparr>))) PolicyDenied) (\<lambda>_.
       bnd (deny (\<not> renderable c) KeyErr) (\<lambda>_.
       modify (\<lambda>s. s\<lparr>uow_disk := AList.update rid (stamped c) (uow_disk s),
                     uow_work := AList.update rid (stamped c) (uow_work s)\<rparr>))))"

definition pending_events :: "uow \<Rightarrow> event list" where
  "pending_events s = concat (map (\<lambda>(rid, c). drop (cap_persisted c) (cap_events c)) (uow_work s))"

definition commit :: "env \<Rightarrow> unit act" where
  "commit env = bnd (reads pending_events) (\<lambda>pending.
     bnd (reads (\<lambda>s. sort (remdups (map fst (uow_work s))))) (\<lambda>rids.
     bnd (for_each rids (commit_capsule env)) (\<lambda>_.
     modify (\<lambda>s. s\<lparr>uow_bus := uow_bus s @ pending\<rparr>))))"

text \<open>
  \<^verbatim>\<open>with self.unit_of_work() as uow\<close>: the body sees the committed capsules, and what it has not
  committed when it ends, normally or by an error, is rolled back.
\<close>

definition discard :: "uow \<Rightarrow> uow" where
  "discard s = s\<lparr>uow_work := uow_disk s\<rparr>"

definition with_uow :: "'a act \<Rightarrow> 'a act" where
  "with_uow body = (\<lambda>s. case body (discard s) of (r, t) \<Rightarrow> (r, discard t))"

section \<open>Entities in key order\<close>

text \<open>\<^verbatim>\<open>_sort_entities\<close>: by creation time, then by the text of the identifier.\<close>

definition sort_entities :: "('a \<Rightarrow> time) \<Rightarrow> ('a \<Rightarrow> uuid) \<Rightarrow> (uuid \<times> 'a) list \<Rightarrow> 'a list" where
  "sort_entities created ident xs = sort_key (\<lambda>x. (created x, ident x)) (map snd xs)"

lemma set_sort_entities [simp]: "set (sort_entities created ident xs) = snd ` set xs"
  by (simp add: sort_entities_def)

section \<open>Lifting relations on capsules to units of work\<close>

text \<open>
  A relation on what a run identity names, before and after, lifts to capsule stores; \<open>tx\<close> is what it
  says of a unit of work: staged changes follow it, and so does what gets committed, provided the
  unit of work started from committed state.
\<close>

type_synonym capsule_rel = "uuid \<Rightarrow> capsule option \<Rightarrow> capsule option \<Rightarrow> bool"

definition stores :: "capsule_rel \<Rightarrow> capsules \<Rightarrow> capsules \<Rightarrow> bool" where
  "stores R s t \<longleftrightarrow> (\<forall>rid. R rid (map_of s rid) (map_of t rid))"

definition tx :: "capsule_rel \<Rightarrow> uow \<Rightarrow> uow \<Rightarrow> bool" where
  "tx R u v \<longleftrightarrow> stores R (uow_work u) (uow_work v)
     \<and> (stores R (uow_disk u) (uow_work u) \<longrightarrow>
          stores R (uow_disk u) (uow_disk v) \<and> stores R (uow_disk v) (uow_work v))"

definition evolves :: "capsule_rel \<Rightarrow> uow \<Rightarrow> uow \<Rightarrow> bool" where
  "evolves R u v \<longleftrightarrow> stores R (uow_disk u) (uow_disk v)"

text \<open>An order of units of work that does not look at the number of values taken from the environment.\<close>

locale unit_order = step_order S for S :: "uow \<Rightarrow> uow \<Rightarrow> bool" +
  assumes S_tick: "S s (env_tick s)"
begin

lemma keeps_tick [steps_intros]: "keeps S (utc_now env)" "keeps S uuid4" "keeps S (lease_free env)"
  by (simp_all add: keeps_def utc_now_def uuid4_def lease_free_def S_tick)

lemma keeps_load [steps_intros]: "keeps S (load rid)"
  by (simp add: keeps_def load_def S_refl split: option.split)

lemma keeps_all_capsules [steps_intros]: "keeps S all_capsules"
  by (simp add: all_capsules_def keeps_reads)

end

locale capsule_order =
  fixes R :: capsule_rel
  assumes R_refl: "R rid x x"
    and R_trans: "R rid x y \<Longrightarrow> R rid y z \<Longrightarrow> R rid x z"
    and R_dirty: "R rid (Some c) (Some (c\<lparr>cap_dirty := b\<rparr>))"
    and R_stamped: "R rid (Some c) (Some (stamped c))"
begin

lemma stores_refl: "stores R s s"
  by (simp add: stores_def R_refl)

lemma stores_trans: "stores R s t \<Longrightarrow> stores R t u \<Longrightarrow> stores R s u"
  unfolding stores_def using R_trans by blast

lemma tx_refl: "tx R u u"
  by (simp add: tx_def stores_refl)

lemma tx_trans: "tx R u v \<Longrightarrow> tx R v w \<Longrightarrow> tx R u w"
  unfolding tx_def using stores_trans by blast

lemma evolves_trans: "evolves R u v \<Longrightarrow> evolves R v w \<Longrightarrow> evolves R u w"
  unfolding evolves_def by (rule stores_trans)

end

sublocale capsule_order \<subseteq> transaction: unit_order "tx R"
  by unfold_locales (rule tx_refl, erule (1) tx_trans, simp add: tx_def env_tick_def stores_refl)

sublocale capsule_order \<subseteq> service: unit_order "evolves R"
  by unfold_locales (simp add: evolves_def stores_refl, rule evolves_trans, assumption+,
    simp add: evolves_def env_tick_def stores_refl)

context capsule_order
begin

lemma tx_same_capsules: "uow_work v = uow_work u \<Longrightarrow> uow_disk v = uow_disk u \<Longrightarrow> tx R u v"
  by (simp add: tx_def stores_refl)

lemma stores_update: "R rid (map_of s rid) (Some c) \<Longrightarrow> stores R s (AList.update rid c s)"
  by (auto simp: stores_def R_refl update_conv')

lemma tx_work: "stores R (uow_work u) w \<Longrightarrow> tx R u (u\<lparr>uow_work := w\<rparr>)"
  using stores_trans by (auto simp: tx_def stores_refl)

lemma keeps_put:
  assumes "\<And>c. R rid (Some c) (Some (f c))"
  shows "keeps (tx R) (put rid f)"
proof -
  have "R rid (Some c) (Some ((f c)\<lparr>cap_dirty := True\<rparr>))" for c
    using assms R_dirty R_trans by blast
  then have "tx R s (s\<lparr>uow_work := AList.update rid ((f c)\<lparr>cap_dirty := True\<rparr>) (uow_work s)\<rparr>)"
    if "map_of (uow_work s) rid = Some c" for s c
    using that by (intro tx_work stores_update) simp
  then show ?thesis
    by (auto simp: keeps_def put_def load_def prog_simps tx_refl split: option.splits)
qed

text \<open>A guarded change: the relation need only hold when the guard did not raise.\<close>

lemma keeps_guarded_put:
  assumes "\<And>c. map_of (uow_work s) rid = Some c \<Longrightarrow> run_id (cap_run c) = rid \<Longrightarrow> R rid (Some c) (Some (f c))"
  shows "tx R s (snd (put rid f s))"
proof (cases "map_of (uow_work s) rid")
  case None
  then show ?thesis by (simp add: put_def load_def prog_simps tx_refl)
next
  case (Some c)
  have "tx R s (snd (put rid f s))" if "run_id (cap_run c) = rid"
  proof -
    have "R rid (Some c) (Some ((f c)\<lparr>cap_dirty := True\<rparr>))" using that Some assms R_dirty R_trans by blast
    with Some have "stores R (uow_work s) (AList.update rid ((f c)\<lparr>cap_dirty := True\<rparr>) (uow_work s))"
      by (intro stores_update) simp
    with Some that show ?thesis by (simp add: put_def load_def prog_simps tx_work)
  qed
  with Some show ?thesis by (cases "run_id (cap_run c) = rid") (simp_all add: put_def load_def prog_simps tx_refl)
qed

lemma stores_commit:
  assumes disk: "stores R (uow_disk u) (uow_work u)" and c: "map_of (uow_work u) rid = Some c"
  shows "stores R (uow_disk u) (AList.update rid (stamped c) (uow_disk u))"
    and "stores R (AList.update rid (stamped c) (uow_disk u)) (AList.update rid (stamped c) (uow_work u))"
proof -
  from disk c have "R rid (map_of (uow_disk u) rid) (Some c)" by (metis stores_def)
  then show "stores R (uow_disk u) (AList.update rid (stamped c) (uow_disk u))"
    using R_stamped R_trans by (blast intro: stores_update)
  show "stores R (AList.update rid (stamped c) (uow_disk u)) (AList.update rid (stamped c) (uow_work u))"
    using disk by (auto simp: stores_def R_refl update_conv')
qed

lemma keeps_commit_capsule [steps_intros]: "keeps (tx R) (commit_capsule env rid)"
proof -
  have "tx R u (u\<lparr>uow_disk := AList.update rid (stamped c) (uow_disk u),
                 uow_work := AList.update rid (stamped c) (uow_work u)\<rparr>)"
    if "map_of (uow_work u) rid = Some c" for u c
    using stores_commit [OF _ that] stores_update [of rid "uow_work u" "stamped c"] that
    by (simp add: tx_def R_stamped)
  then show ?thesis
    by (auto simp: keeps_def commit_capsule_def load_def prog_simps tx_refl split: option.splits)
qed

lemma keeps_commit [steps_intros]: "keeps (tx R) (commit env)"
proof -
  have "keeps (tx R) (modify (\<lambda>s. s\<lparr>uow_bus := uow_bus s @ pending\<rparr>))" for pending
    by (simp add: keeps_def prog_simps tx_same_capsules)
  then show ?thesis unfolding commit_def
    by (intro transaction.keeps_bnd transaction.keeps_reads transaction.keeps_for_each keeps_commit_capsule)
qed

lemma discard_evolves: "tx R (discard s) t \<Longrightarrow> evolves R s (discard t)"
  by (simp add: tx_def evolves_def discard_def stores_refl)

end

end
