(* ===== verification/Orq_Repositories.thy ===== *)
theory Orq_Repositories
  imports Orq_Capsule
begin

text \<open>
  The repositories of the unit of work: \<^verbatim>\<open>FilesystemRunRepository\<close>, \<^verbatim>\<open>FilesystemEventRepository\<close>,
  \<^verbatim>\<open>FilesystemRuntimeRepository\<close> and \<^verbatim>\<open>FilesystemApprovalRepository\<close> of
  \<^verbatim>\<open>persistence/filesystem/task_store.py\<close>, and the execution, provider and delivery repositories of
  \<^verbatim>\<open>persistence/filesystem/auxiliary_stores.py\<close>. Then their contract: the locale
  \<open>repository_contract\<close>, which says that every operation of the interface follows a capsule order,
  and under which the services prove their own.
\<close>

section \<open>Capsule identities\<close>

text \<open>
  \<^verbatim>\<open>reserve_capsule\<close>: the next \<^verbatim>\<open>ORQ-YYYYMMDD-NNNN\<close> of a day, given as its eight digits.
\<close>

definition capsule_sequence :: "string \<Rightarrow> string \<Rightarrow> nat option" where
  "capsule_sequence day cid =
     (if take 4 cid = ''ORQ-'' \<and> take 8 (drop 4 cid) = day \<and> take 1 (drop 12 cid) = ''-''
        \<and> length (drop 13 cid) = 4 \<and> list_all is_digit (drop 13 cid)
      then Some (digits_value (drop 13 cid)) else None)"

definition padded :: "nat \<Rightarrow> string" where
  "padded n = replicate (4 - length (nat_str n)) (CHR ''0'') @ nat_str n"

definition reserve_capsule :: "string \<Rightarrow> string list \<Rightarrow> err + string" where
  "reserve_capsule day ids =
     (let n = Suc (fold max (List.map_filter (capsule_sequence day) ids) 0) in
      if 9999 < n then Inl Conflict else Inr (''ORQ-'' @ day @ ''-'' @ padded n))"

section \<open>Runs, goals and evidence\<close>

definition runs_add :: "env \<Rightarrow> string \<Rightarrow> run \<Rightarrow> unit act" where
  "runs_add env day r =
     bnd (reads (\<lambda>s. run_id r \<in> set (map fst (uow_work s)))) (\<lambda>known.
     bnd (deny known Conflict) (\<lambda>_.
     bnd (deny (\<not> safe_text env (run_request r)) PolicyDenied) (\<lambda>_.
     bnd (reads (\<lambda>s. reserve_capsule day (map (cap_id \<circ> snd) (uow_work s)))) (\<lambda>reserved.
     case reserved of Inl e \<Rightarrow> raise_err e
     | Inr cid \<Rightarrow> modify (\<lambda>s. s\<lparr>uow_work := uow_work s @ [(run_id r, new_capsule cid r)]\<rparr>)))))"

text \<open>A value, or \<open>None\<close> when the run is not found.\<close>

definition optional :: "(capsule \<Rightarrow> 'a option) \<Rightarrow> uuid \<Rightarrow> 'a option act" where
  "optional f rid = catch (bnd (load rid) (\<lambda>c. ret (f c))) (\<lambda>e. e = NotFound) (\<lambda>_. ret None)"

definition runs_get :: "uuid \<Rightarrow> run option act" where
  "runs_get = optional (\<lambda>c. Some (cap_run c))"

definition runs_list :: "uuid option \<Rightarrow> nat \<Rightarrow> run list act" where
  "runs_list project limit = bnd all_capsules (\<lambda>cs. ret (take limit (rev (sort_key (\<lambda>r. (run_created r, run_id r))
     (filter (\<lambda>r. project = None \<or> project = Some (run_project r)) (map (cap_run \<circ> snd) cs))))))"

definition runs_save :: "run \<Rightarrow> unit act" where
  "runs_save r = bnd (load (run_id r)) (\<lambda>c.
     bnd (deny (run_project r \<noteq> run_project (cap_run c) \<or> run_created r \<noteq> run_created (cap_run c)) Conflict) (\<lambda>_.
     put (run_id r) (\<lambda>c. c\<lparr>cap_run := r\<lparr>run_last_seq := run_last_seq (cap_run c)\<rparr>\<rparr>)))"

definition runs_save_goal :: "goal_contract \<Rightarrow> unit act" where
  "runs_save_goal gc = (let g = gc_goal gc in bnd (load (goal_run g)) (\<lambda>c.
     bnd (deny (map_of (cap_goals c) (goal_id g) \<notin> {None, Some gc}) Conflict) (\<lambda>_.
     bnd (deny (\<exists>h \<in> snd ` set (cap_goals c). goal_number (gc_goal h) = goal_number g \<and> goal_id (gc_goal h) \<noteq> goal_id g)
       Conflict) (\<lambda>_.
     put (goal_run g) (\<lambda>c. c\<lparr>cap_goals := AList.update (goal_id g) gc (cap_goals c)\<rparr>)))))"

definition runs_set_current_goal :: "uuid \<Rightarrow> uuid \<Rightarrow> unit act" where
  "runs_set_current_goal rid gid = bnd (load rid) (\<lambda>c.
     bnd (deny (gid \<notin> set (map fst (cap_goals c))) NotFound) (\<lambda>_.
     put rid (\<lambda>c. c\<lparr>cap_run := (cap_run c)\<lparr>run_goal := Some gid\<rparr>\<rparr>)))"

definition runs_get_goal :: "uuid \<Rightarrow> uuid \<Rightarrow> goal_contract option act" where
  "runs_get_goal gid = optional (\<lambda>c. map_of (cap_goals c) gid)"

definition runs_get_evidence :: "uuid \<Rightarrow> uuid \<Rightarrow> evidence option act" where
  "runs_get_evidence eid = optional (\<lambda>c. map_of (cap_evidence c) eid)"

text \<open>The first capsule that has the goal; the criterion replaces the one with its identity.\<close>

definition goal_owner :: "uuid \<Rightarrow> capsules \<Rightarrow> uuid option" where
  "goal_owner gid cs = find (\<lambda>rid. case map_of cs rid of None \<Rightarrow> False
     | Some c \<Rightarrow> gid \<in> set (map fst (cap_goals c))) (map fst cs)"

definition with_criterion :: "acceptance_criterion \<Rightarrow> goal_contract \<Rightarrow> goal_contract" where
  "with_criterion k gc = gc\<lparr>gc_criteria := map (\<lambda>i. if crit_id i = crit_id k then k else i) (gc_criteria gc)\<rparr>"

definition put_criterion :: "acceptance_criterion \<Rightarrow> capsule \<Rightarrow> capsule" where
  "put_criterion k c = (case map_of (cap_goals c) (crit_goal k) of None \<Rightarrow> c
     | Some gc \<Rightarrow> c\<lparr>cap_goals := AList.update (crit_goal k) (with_criterion k gc) (cap_goals c)\<rparr>)"

definition runs_save_criterion :: "acceptance_criterion \<Rightarrow> unit act" where
  "runs_save_criterion k = bnd all_capsules (\<lambda>cs. case goal_owner (crit_goal k) cs of
       None \<Rightarrow> ret ()
     | Some rid \<Rightarrow> bnd (load rid) (\<lambda>c.
         if (case map_of (cap_goals c) (crit_goal k) of None \<Rightarrow> False
             | Some gc \<Rightarrow> crit_id k \<in> crit_id ` set (gc_criteria gc))
         then put rid (put_criterion k) else ret ()))"

definition runs_save_evaluation :: "acceptance_criterion \<Rightarrow> evidence \<Rightarrow> unit act" where
  "runs_save_evaluation k e = bnd all_capsules (\<lambda>cs.
     bnd (the_or NotFound (goal_owner (crit_goal k) cs)) (\<lambda>rid.
     bnd (put rid (\<lambda>c. c\<lparr>cap_evidence := AList.update (ev_id e) e (cap_evidence c)\<rparr>)) (\<lambda>_.
     runs_save_criterion k)))"

section \<open>Events\<close>

definition same_event :: "event \<Rightarrow> event_draft \<Rightarrow> bool" where
  "same_event e d \<longleftrightarrow> event_kind e = evd_kind d \<and> event_payload e = evd_payload d \<and> event_task e = evd_task d
     \<and> event_actor e = evd_actor d \<and> event_execution e = evd_execution d \<and> event_phase e = evd_phase d"

definition event_of :: "capsule \<Rightarrow> uuid \<Rightarrow> event_draft \<Rightarrow> uuid \<Rightarrow> time \<Rightarrow> event" where
  "event_of c rid d eid created = \<lparr>event_id = eid, event_created = created,
     event_project = run_project (cap_run c), event_run = rid, event_seq = Suc (run_last_seq (cap_run c)),
     event_kind = evd_kind d,
     event_at = (if cap_events c = [] then evd_at d else max (event_at (last (cap_events c))) (evd_at d)),
     event_phase = evd_phase d, event_task = evd_task d, event_execution = evd_execution d,
     event_actor = evd_actor d, event_status = pl_status (evd_payload d),
     event_payload = evd_payload d, event_key = evd_key d\<rparr>"

definition append_event :: "event \<Rightarrow> capsule \<Rightarrow> capsule" where
  "append_event e c = c\<lparr>cap_events := cap_events c @ [e], cap_run := (cap_run c)\<lparr>run_last_seq := event_seq e\<rparr>\<rparr>"

definition event_by_key :: "string \<Rightarrow> event list \<Rightarrow> event option" where
  "event_by_key key es = find (\<lambda>e. event_key e = key) es"

definition events_append :: "env \<Rightarrow> uuid \<Rightarrow> event_draft \<Rightarrow> event act" where
  "events_append env rid d =
     bnd (deny (\<not> event_draft_ok d) ValueErr) (\<lambda>_.
     bnd (load rid) (\<lambda>c. case event_by_key (evd_key d) (cap_events c) of
       Some e \<Rightarrow> if same_event e d then ret e else raise_err Conflict
     | None \<Rightarrow>
         bnd (deny (\<not> safe_doc env (DocPayload (evd_payload d))) Conflict) (\<lambda>_.
         bnd uuid4 (\<lambda>eid.
         bnd (utc_now env) (\<lambda>created.
         bnd (put rid (append_event (event_of c rid d eid created))) (\<lambda>_.
         ret (event_of c rid d eid created)))))))"

definition events_list :: "uuid \<Rightarrow> event list act" where
  "events_list rid = bnd (load rid) (\<lambda>c. ret (filter (\<lambda>e. 0 < event_seq e) (cap_events c)))"

definition events_by_key :: "uuid \<Rightarrow> string \<Rightarrow> event option act" where
  "events_by_key rid key = bnd (load rid) (\<lambda>c. ret (event_by_key key (cap_events c)))"

section \<open>Tasks, plans, actors, executions and phases\<close>

definition add_task :: "task \<Rightarrow> unit act" where
  "add_task t = bnd (load (task_run t)) (\<lambda>c.
     bnd (deny (task_id t \<in> set (map fst (cap_tasks c))) Conflict) (\<lambda>_.
     put (task_run t) (\<lambda>c. c\<lparr>cap_tasks := AList.update (task_id t) t (cap_tasks c)\<rparr>)))"

definition run_tasks :: "uuid \<Rightarrow> task list act" where
  "run_tasks rid = bnd (load rid) (\<lambda>c. ret (sort_entities task_created task_id (cap_tasks c)))"

text \<open>\<^verbatim>\<open>setdefault\<close> for every task of the plan.\<close>

definition adopt_tasks :: "task list \<Rightarrow> (uuid \<times> task) list \<Rightarrow> (uuid \<times> task) list" where
  "adopt_tasks ts m = foldl (\<lambda>m t. if task_id t \<in> set (map fst m) then m else m @ [(task_id t, t)]) m ts"

definition save_plan :: "task_plan \<Rightarrow> unit act" where
  "save_plan p = bnd (load (plan_run p)) (\<lambda>c.
     bnd (deny (map_of (cap_plans c) (plan_version p) \<notin> {None, Some p}) Conflict) (\<lambda>_.
     bnd (deny (\<exists>t \<in> set (plan_tasks p). map_of (cap_tasks c) (task_id t) \<notin> {None, Some t}) Conflict) (\<lambda>_.
     put (plan_run p) (\<lambda>c. c\<lparr>cap_tasks := adopt_tasks (plan_tasks p) (cap_tasks c),
       cap_plans := AList.update (plan_version p) p (cap_plans c)\<rparr>))))"

text \<open>The stored plan with the present records of its tasks.\<close>

definition plan_view :: "capsule \<Rightarrow> nat \<Rightarrow> err + task_plan option" where
  "plan_view c v = (case map_of (cap_plans c) v of None \<Rightarrow> Inr None
     | Some p \<Rightarrow> if \<exists>t \<in> set (plan_tasks p). map_of (cap_tasks c) (task_id t) = None then Inl KeyErr
         else Inr (Some (p\<lparr>plan_tasks := map (\<lambda>t. the (map_of (cap_tasks c) (task_id t))) (plan_tasks p)\<rparr>)))"

definition get_plan :: "uuid \<Rightarrow> nat \<Rightarrow> task_plan option act" where
  "get_plan rid v = bnd (load rid) (\<lambda>c. case plan_view c v of Inl e \<Rightarrow> raise_err e | Inr p \<Rightarrow> ret p)"

definition put_task :: "task \<Rightarrow> capsule \<Rightarrow> capsule" where
  "put_task t c = c\<lparr>cap_tasks := AList.update (task_id t) t (cap_tasks c)\<rparr>"

definition save_task :: "task \<Rightarrow> unit act" where
  "save_task t = bnd (load (task_run t)) (\<lambda>c.
     if task_id t \<in> set (map fst (cap_tasks c)) then put (task_run t) (put_task t) else ret ())"

definition run_actors :: "uuid \<Rightarrow> actor_session list act" where
  "run_actors rid = bnd (load rid) (\<lambda>c. ret (sort_entities actor_created actor_id (cap_actors c)))"

definition save_actor :: "actor_session \<Rightarrow> unit act" where
  "save_actor a = put (actor_run a) (\<lambda>c. c\<lparr>cap_actors := AList.update (actor_id a) a (cap_actors c)\<rparr>)"

definition run_executions :: "uuid \<Rightarrow> task_execution list act" where
  "run_executions rid = bnd (load rid) (\<lambda>c. ret (sort_entities exec_created exec_id (cap_executions c)))"

definition save_execution :: "task_execution \<Rightarrow> unit act" where
  "save_execution x = put (exec_run x) (\<lambda>c. c\<lparr>cap_executions := AList.update (exec_id x) x (cap_executions c)\<rparr>)"

definition run_phases :: "uuid \<Rightarrow> phase_execution list act" where
  "run_phases rid = bnd (load rid) (\<lambda>c. ret (sort_entities phase_created phase_id (cap_phases c)))"

definition save_phase :: "phase_execution \<Rightarrow> unit act" where
  "save_phase ph = bnd (load (phase_run ph)) (\<lambda>c.
     bnd (deny (\<exists>q \<in> snd ` set (cap_phases c). phase_id q \<noteq> phase_id ph \<and> phase_phase q = phase_phase ph
         \<and> phase_iteration q = phase_iteration ph) Conflict) (\<lambda>_.
     put (phase_run ph) (\<lambda>c. c\<lparr>cap_phases := AList.update (phase_id ph) ph (cap_phases c)\<rparr>)))"

section \<open>Approvals\<close>

definition approval_view :: "(uuid \<times> approval_decision) list \<Rightarrow> approval_request \<Rightarrow> approval_request" where
  "approval_view ds r = (case map_of ds (req_id r) of
       None \<Rightarrow> r\<lparr>req_status := AP_PENDING, req_decision := None\<rparr>
     | Some d \<Rightarrow> r\<lparr>req_status := (if dec_kind d = DECIDE_APPROVE then AP_APPROVED else AP_REJECTED),
         req_decision := Some d\<rparr>)"

definition approvals_policy :: "uuid \<Rightarrow> control_policy option act" where
  "approvals_policy rid = bnd (load rid) (\<lambda>c. ret (cap_policy c))"

definition save_policy :: "control_policy \<Rightarrow> unit act" where
  "save_policy p = put (pol_run p) (\<lambda>c. c\<lparr>cap_policy := Some p\<rparr>)"

definition approvals_get :: "uuid \<Rightarrow> uuid \<Rightarrow> approval_request option act" where
  "approvals_get qid = optional (\<lambda>c. map_option (approval_view (cap_decisions c)) (map_of (cap_requests c) qid))"

definition approvals_list :: "uuid \<Rightarrow> approval_request list act" where
  "approvals_list rid = bnd (load rid) (\<lambda>c.
     ret (map (approval_view (cap_decisions c)) (sort_entities req_created req_id (cap_requests c))))"

definition add_request :: "approval_request \<Rightarrow> unit act" where
  "add_request r = bnd (load (req_run r)) (\<lambda>c.
     bnd (deny (req_id r \<in> set (map fst (cap_requests c)) \<or>
       (\<exists>q \<in> snd ` set (cap_requests c). req_stage q = req_stage r \<and> req_version q = req_version r
          \<and> req_digest q = req_digest r)) Conflict) (\<lambda>_.
     put (req_run r) (\<lambda>c. c\<lparr>cap_requests :=
       AList.update (req_id r) (r\<lparr>req_status := AP_PENDING, req_decision := None\<rparr>) (cap_requests c)\<rparr>)))"

definition request_owner :: "uuid \<Rightarrow> capsules \<Rightarrow> uuid option" where
  "request_owner qid cs = find (\<lambda>rid. case map_of cs rid of None \<Rightarrow> False
     | Some c \<Rightarrow> qid \<in> set (map fst (cap_requests c))) (map fst cs)"

definition add_decision :: "approval_decision \<Rightarrow> unit act" where
  "add_decision d = bnd all_capsules (\<lambda>cs.
     bnd (the_or NotFound (request_owner (dec_request d) cs)) (\<lambda>rid.
     bnd (load rid) (\<lambda>c.
     bnd (deny (map_of (cap_decisions c) (dec_request d) \<notin> {None, Some d}) Conflict) (\<lambda>_.
     put rid (\<lambda>c. c\<lparr>cap_decisions := AList.update (dec_request d) d (cap_decisions c)\<rparr>)))))"

section \<open>Extension tables\<close>

text \<open>
  The lists of entities the extension documents of a capsule keep, with the owner and the identity
  of an entity. Reading one checks that it is consistent; a write looks the identity up in every
  capsule first.
\<close>

record 'a table =
  tab_get :: "capsule \<Rightarrow> 'a list"
  tab_put :: "'a list \<Rightarrow> capsule \<Rightarrow> capsule"
  tab_run :: "'a \<Rightarrow> uuid"
  tab_id :: "'a \<Rightarrow> uuid"

definition tools_table :: "tool_invocation table" where
  "tools_table = \<lparr>tab_get = cap_tools, tab_put = (\<lambda>xs c. c\<lparr>cap_tools := xs\<rparr>), tab_run = tool_run, tab_id = tool_id\<rparr>"

definition reviews_table :: "review_record table" where
  "reviews_table = \<lparr>tab_get = cap_reviews, tab_put = (\<lambda>xs c. c\<lparr>cap_reviews := xs\<rparr>), tab_run = rev_run, tab_id = rev_id\<rparr>"

definition invocations_table :: "provider_execution table" where
  "invocations_table = \<lparr>tab_get = cap_invocations, tab_put = (\<lambda>xs c. c\<lparr>cap_invocations := xs\<rparr>),
     tab_run = prov_run, tab_id = prov_id\<rparr>"

definition guardians_table :: "change_report table" where
  "guardians_table = \<lparr>tab_get = cap_guardians, tab_put = (\<lambda>xs c. c\<lparr>cap_guardians := xs\<rparr>), tab_run = rep_run, tab_id = rep_id\<rparr>"

definition validations_table :: "final_validation table" where
  "validations_table = \<lparr>tab_get = cap_validations, tab_put = (\<lambda>xs c. c\<lparr>cap_validations := xs\<rparr>),
     tab_run = fv_run, tab_id = fv_id\<rparr>"

definition artifacts_table :: "artifact table" where
  "artifacts_table = \<lparr>tab_get = cap_artifacts, tab_put = (\<lambda>xs c. c\<lparr>cap_artifacts := xs\<rparr>), tab_run = art_run, tab_id = art_id\<rparr>"

definition findings_table :: "finding table" where
  "findings_table = \<lparr>tab_get = cap_findings, tab_put = (\<lambda>xs c. c\<lparr>cap_findings := xs\<rparr>), tab_run = find_run, tab_id = find_id\<rparr>"

definition consistent :: "'a table \<Rightarrow> uuid \<Rightarrow> 'a list \<Rightarrow> bool" where
  "consistent T rid xs \<longleftrightarrow> (\<forall>x \<in> set xs. tab_run T x = rid) \<and> distinct (map (tab_id T) xs)"

definition entities :: "'a table \<Rightarrow> uuid \<Rightarrow> capsule \<Rightarrow> 'a list act" where
  "entities T rid c = bnd (deny (\<not> consistent T rid (tab_get T c)) Conflict) (\<lambda>_. ret (tab_get T c))"

definition table_list :: "'a table \<Rightarrow> uuid \<Rightarrow> 'a list act" where
  "table_list T rid = bnd (load rid) (entities T rid)"

fun find_entity :: "'a table \<Rightarrow> uuid \<Rightarrow> (uuid \<times> 'a) option \<Rightarrow> (uuid \<times> capsule) list \<Rightarrow> (uuid \<times> 'a) option act" where
  "find_entity T i found [] = ret found"
| "find_entity T i found ((rid, c) # cs) = bnd (entities T rid c) (\<lambda>xs.
     case find (\<lambda>x. tab_id T x = i) xs of
       None \<Rightarrow> find_entity T i found cs
     | Some x \<Rightarrow> if found \<noteq> None then raise_err Conflict else find_entity T i (Some (rid, x)) cs)"

definition find_anywhere :: "'a table \<Rightarrow> uuid \<Rightarrow> (uuid \<times> 'a) option act" where
  "find_anywhere T i = bnd all_capsules (find_entity T i None)"

text \<open>\<^verbatim>\<open>_find\<close> with a run identity; a missing run is a missing entity.\<close>

definition find_in_run :: "'a table \<Rightarrow> uuid \<Rightarrow> uuid \<Rightarrow> 'a option act" where
  "find_in_run T i rid = bnd (catch (bnd (load rid) (\<lambda>c. ret (Some c))) (\<lambda>e. e = NotFound) (\<lambda>_. ret None)) (\<lambda>oc.
     case oc of None \<Rightarrow> ret None
     | Some c \<Rightarrow> bnd (entities T rid c) (\<lambda>xs. ret (find (\<lambda>x. tab_id T x = i) xs)))"

definition ensure_owner :: "'a table \<Rightarrow> 'a \<Rightarrow> unit act" where
  "ensure_owner T x = bnd (find_anywhere T (tab_id T x)) (\<lambda>found.
     deny (case found of None \<Rightarrow> False | Some (rid, _) \<Rightarrow> rid \<noteq> tab_run T x) Conflict)"

definition ensure_new :: "'a table \<Rightarrow> 'a \<Rightarrow> unit act" where
  "ensure_new T x = bnd (find_anywhere T (tab_id T x)) (\<lambda>found. deny (found \<noteq> None) Conflict)"

definition replaced :: "('a \<Rightarrow> uuid) \<Rightarrow> 'a \<Rightarrow> 'a list \<Rightarrow> 'a list" where
  "replaced ident x xs = (if ident x \<in> ident ` set xs then map (\<lambda>y. if ident y = ident x then x else y) xs
     else xs @ [x])"

text \<open>An upsert, with the uniqueness check of some tables on the other entities; and an insert.\<close>

definition upsert :: "'a table \<Rightarrow> ('a \<Rightarrow> 'a \<Rightarrow> bool) \<Rightarrow> 'a \<Rightarrow> unit act" where
  "upsert T clash x = bnd (ensure_owner T x) (\<lambda>_.
     bnd (table_list T (tab_run T x)) (\<lambda>xs.
     bnd (deny (\<exists>y \<in> set xs. tab_id T y \<noteq> tab_id T x \<and> clash y x) Conflict) (\<lambda>_.
     put (tab_run T x) (\<lambda>c. tab_put T (replaced (tab_id T) x (tab_get T c)) c))))"

definition insert_new :: "'a table \<Rightarrow> 'a \<Rightarrow> unit act" where
  "insert_new T x = bnd (ensure_new T x) (\<lambda>_.
     bnd (table_list T (tab_run T x)) (\<lambda>_.
     put (tab_run T x) (\<lambda>c. tab_put T (tab_get T c @ [x]) c)))"

section \<open>Execution, providers and delivery\<close>

definition execution_workspace :: "uuid \<Rightarrow> run_workspace option act" where
  "execution_workspace rid = bnd (load rid) (\<lambda>c. ret (cap_workspace c))"

definition save_workspace :: "run_workspace \<Rightarrow> unit act" where
  "save_workspace w = put (ws_run w) (\<lambda>c. c\<lparr>cap_workspace := Some w\<rparr>)"

definition save_tool :: "tool_invocation \<Rightarrow> unit act" where
  "save_tool = upsert tools_table (\<lambda>y x. tool_provider y = tool_provider x \<and> tool_call y = tool_call x)"

definition execution_tools :: "uuid \<Rightarrow> tool_invocation list act" where
  "execution_tools rid = bnd (table_list tools_table rid) (\<lambda>xs. ret (sort_key (\<lambda>x. (tool_started x, tool_id x)) xs))"

definition execution_tool :: "uuid \<Rightarrow> uuid \<Rightarrow> tool_invocation option act" where
  "execution_tool = find_in_run tools_table"

definition save_review :: "review_record \<Rightarrow> unit act" where
  "save_review = insert_new reviews_table"

definition execution_reviews :: "uuid \<Rightarrow> review_record list act" where
  "execution_reviews rid = bnd (table_list reviews_table rid) (\<lambda>xs. ret (sort_key (\<lambda>x. (rev_created x, rev_id x)) xs))"

definition providers_save :: "provider_execution \<Rightarrow> unit act" where
  "providers_save = upsert invocations_table (\<lambda>y x. prov_key y = prov_key x)"

definition providers_get :: "uuid \<Rightarrow> uuid \<Rightarrow> provider_execution option act" where
  "providers_get = find_in_run invocations_table"

definition providers_list :: "uuid \<Rightarrow> provider_execution list act" where
  "providers_list rid = bnd (table_list invocations_table rid) (\<lambda>xs. ret (sort_key (\<lambda>x. (prov_started x, prov_id x)) xs))"

definition save_guardian :: "change_report \<Rightarrow> unit act" where
  "save_guardian r = bnd (ensure_new guardians_table r) (\<lambda>_.
     bnd (table_list guardians_table (rep_run r)) (\<lambda>_.
     bnd (table_list findings_table (rep_run r)) (\<lambda>_.
     bnd (for_each (rep_findings r) (ensure_owner findings_table)) (\<lambda>_.
     put (rep_run r) (\<lambda>c. c\<lparr>cap_guardians := cap_guardians c @ [r],
       cap_findings := foldl (\<lambda>fs f. replaced find_id f fs) (cap_findings c) (rep_findings r)\<rparr>)))))"

definition delivery_guardians :: "uuid \<Rightarrow> change_report list act" where
  "delivery_guardians rid = bnd (table_list guardians_table rid) (\<lambda>xs. ret (sort_key (\<lambda>x. (rep_created x, rep_id x)) xs))"

definition save_validation :: "final_validation \<Rightarrow> unit act" where
  "save_validation = insert_new validations_table"

definition delivery_validations :: "uuid \<Rightarrow> final_validation list act" where
  "delivery_validations rid = bnd (table_list validations_table rid) (\<lambda>xs. ret (sort_key (\<lambda>x. (fv_created x, fv_id x)) xs))"

definition delivery_get :: "uuid \<Rightarrow> git_delivery option act" where
  "delivery_get rid = bnd (load rid) (\<lambda>c. case cap_git c of None \<Rightarrow> ret None
     | Some d \<Rightarrow> bnd (deny (gd_run d \<noteq> rid) Conflict) (\<lambda>_. ret (Some d)))"

definition delivery_save :: "git_delivery \<Rightarrow> unit act" where
  "delivery_save d = bnd (delivery_get (gd_run d)) (\<lambda>existing.
     bnd (deny (case existing of None \<Rightarrow> False | Some e \<Rightarrow> gd_id e \<noteq> gd_id d) Conflict) (\<lambda>_.
     put (gd_run d) (\<lambda>c. c\<lparr>cap_git := Some d\<rparr>)))"

definition save_artifact :: "artifact \<Rightarrow> unit act" where
  "save_artifact = upsert artifacts_table (\<lambda>y x. False)"

definition delivery_artifacts :: "uuid \<Rightarrow> artifact list act" where
  "delivery_artifacts rid = bnd (table_list artifacts_table rid) (\<lambda>xs. ret (sort_key art_created xs))"

definition save_finding :: "finding \<Rightarrow> unit act" where
  "save_finding = upsert findings_table (\<lambda>y x. False)"

definition delivery_findings :: "uuid \<Rightarrow> finding list act" where
  "delivery_findings rid = bnd (table_list findings_table rid) (\<lambda>xs. ret (sort_key find_created xs))"

end
