(* ===== verification/Orq_Contract.thy ===== *)
theory Orq_Contract
  imports Orq_Repositories
begin

text \<open>
  The contract between the services and the repositories. \<open>repository_contract\<close> says of an order of
  units of work that every repository operation that changes state follows it, and of an order of stores
  that a unit of work whose body follows the first follows the second (\<open>run_contract\<close> adds the two
  operations that install runs and plans); what only reads follows every such order. The services
  prove in this locale that whatever they do, returning or raising, follows the orders too.
  \<^verbatim>\<open>Orq_History\<close>, \<^verbatim>\<open>Orq_Integrity\<close>, \<^verbatim>\<open>Orq_Journey\<close> and \<^verbatim>\<open>Orq_Publication\<close> interpret it.
\<close>

section \<open>Looking an identity up everywhere\<close>

lemma entities_run: "entities T rid c s =
    (if consistent T rid (tab_get T c) then (Inr (tab_get T c), s) else (Inl Conflict, s))"
  by (simp add: entities_def prog_simps)

lemma find_entity_state: "snd (find_entity T i found cs s) = s"
  by (induction T i found cs rule: find_entity.induct)
    (auto simp: prog_simps entities_run split: option.split)

lemma find_entity_none: "fst (find_entity T i found cs s) = Inr None \<Longrightarrow>
    found = None \<and> (\<forall>(rid, c) \<in> set cs. i \<notin> tab_id T ` set (tab_get T c))"
proof (induction T i found cs rule: find_entity.induct)
  case (2 T i found rid c cs)
  then show ?case
    by (auto simp: prog_simps entities_run find_None_iff split: if_splits option.splits)
qed (simp add: prog_simps)

lemma find_anywhere_state: "snd (find_anywhere T i s) = s"
  by (simp add: find_anywhere_def all_capsules_def prog_simps find_entity_state)

lemma ensure_new_state: "snd (ensure_new T x s) = s"
  using find_anywhere_state [of T "tab_id T x" s]
  by (auto simp: ensure_new_def prog_simps split: prod.split sum.split)

lemma ensure_owner_state: "snd (ensure_owner T x s) = s"
  using find_anywhere_state [of T "tab_id T x" s]
  by (auto simp: ensure_owner_def prog_simps split: prod.split sum.split)

lemma ensure_new_fresh:
  assumes "fst (ensure_new T x s) = Inr u"
  shows "\<forall>(rid, c) \<in> set (uow_work s). tab_id T x \<notin> tab_id T ` set (tab_get T c)"
proof -
  obtain r t where found: "find_entity T (tab_id T x) None (uow_work s) s = (r, t)" by fastforce
  with assms have "r = Inr None"
    by (auto simp: ensure_new_def find_anywhere_def all_capsules_def prog_simps not_None_eq [symmetric] simp del: not_None_eq split: sum.splits if_splits)
  with found show ?thesis using find_entity_none [of T "tab_id T x" None "uow_work s" s] by simp
qed

section \<open>What only reads\<close>

context unit_order
begin

lemma keeps_optional: "keeps S (optional f rid)"
  unfolding optional_def
  by (intro keeps_catch keeps_bnd keeps_ret keeps_load)

lemma keeps_entities: "keeps S (entities T rid c)"
  unfolding entities_def
  by (intro keeps_bnd keeps_ret keeps_deny)

lemma keeps_table_list: "keeps S (table_list T rid)"
  unfolding table_list_def by (intro keeps_bnd keeps_load keeps_entities)

lemma keeps_find_entity: "keeps S (find_entity T i found cs)"
  by (induction T i found cs rule: find_entity.induct)
    (auto intro!: keeps_bnd keeps_ret keeps_raise keeps_entities split: option.split)

lemma keeps_find_anywhere: "keeps S (find_anywhere T i)"
  unfolding find_anywhere_def by (intro keeps_bnd keeps_all_capsules keeps_find_entity)

lemma keeps_find_in_run: "keeps S (find_in_run T i rid)"
  unfolding find_in_run_def
  by (intro keeps_bnd keeps_catch keeps_case_option keeps_ret
      keeps_load keeps_entities)

lemma keeps_ensure: "keeps S (ensure_owner T x)" "keeps S (ensure_new T x)"
  unfolding ensure_owner_def ensure_new_def
  by (intro keeps_bnd keeps_find_anywhere keeps_deny)+

lemma keeps_get_plan: "keeps S (get_plan rid v)"
  unfolding get_plan_def
  by (intro keeps_bnd keeps_load keeps_case_sum keeps_ret keeps_raise)

lemma keeps_delivery_get: "keeps S (delivery_get rid)"
  unfolding delivery_get_def
  by (intro keeps_bnd keeps_load keeps_case_option keeps_ret keeps_deny)

lemma keeps_simple_reads:
  "keeps S (runs_get rid)" "keeps S (runs_get_goal gid rid)" "keeps S (runs_get_evidence eid rid)"
  "keeps S (approvals_get qid rid)"
  unfolding runs_get_def runs_get_goal_def runs_get_evidence_def approvals_get_def by (rule keeps_optional)+

lemma keeps_loads:
  "keeps S (runs_list project limit)" "keeps S (events_list rid)" "keeps S (events_by_key rid key)"
  "keeps S (run_tasks rid)" "keeps S (run_actors rid)" "keeps S (run_executions rid)"
  "keeps S (run_phases rid)" "keeps S (approvals_policy rid)" "keeps S (approvals_list rid)"
  "keeps S (execution_workspace rid)"
  unfolding runs_list_def events_list_def events_by_key_def run_tasks_def run_actors_def run_executions_def
    run_phases_def approvals_policy_def approvals_list_def execution_workspace_def
  by (intro keeps_bnd keeps_load keeps_all_capsules keeps_ret)+

lemma keeps_sorted_tables:
  "keeps S (execution_tools rid)" "keeps S (execution_reviews rid)" "keeps S (providers_list rid)"
  "keeps S (delivery_guardians rid)" "keeps S (delivery_validations rid)"
  "keeps S (delivery_artifacts rid)" "keeps S (delivery_findings rid)"
  "keeps S (execution_tool i rid)" "keeps S (providers_get i rid)"
  unfolding execution_tools_def execution_reviews_def providers_list_def delivery_guardians_def
    delivery_validations_def delivery_artifacts_def delivery_findings_def execution_tool_def providers_get_def
  by (intro keeps_bnd keeps_table_list keeps_ret keeps_find_in_run)+

lemmas read_laws = keeps_tick keeps_load keeps_all_capsules keeps_get_plan keeps_delivery_get keeps_simple_reads keeps_loads
  keeps_sorted_tables keeps_find_in_run

lemmas program_laws = keeps_ret keeps_raise keeps_reads keeps_deny
  keeps_the_or keeps_bnd keeps_catch keeps_for_each
  keeps_collect keeps_if keeps_case_option keeps_case_prod
  keeps_case_sum keeps_let

end

section \<open>The contract\<close>

text \<open>A run as \<^verbatim>\<open>GoalService\<close> makes it.\<close>

definition fresh_run :: "run \<Rightarrow> bool" where
  "fresh_run r \<longleftrightarrow> run_last_seq r = 0 \<and> run_state r = RS_RECEIVED \<and> run_resume r = None
     \<and> run_repairs r = 0"

locale repository_contract = unit_order S + service: unit_order T for S T :: "uow \<Rightarrow> uow \<Rightarrow> bool" +
  assumes discard_law: "S (discard u) v \<Longrightarrow> T u (discard v)"
    and commit_law: "keeps S (commit env)"
    and runs_add_law: "fresh_run r \<Longrightarrow> keeps S (runs_add env day r)"
    and save_goal_law: "keeps S (runs_save_goal gc)"
    and set_current_goal_law: "keeps S (runs_set_current_goal rid gid)"
    and save_criterion_law: "keeps S (runs_save_criterion k)"
    and save_evaluation_law: "keeps S (runs_save_evaluation k e)"
    and events_append_law: "keeps S (events_append env rid d)"
    and add_task_law: "keeps S (add_task t)"
    and save_task_law: "keeps S (save_task t)"
    and save_actor_law: "keeps S (save_actor a)"
    and save_execution_law: "keeps S (save_execution x)"
    and save_phase_law: "keeps S (save_phase ph)"
    and save_policy_law: "keeps S (save_policy pol)"
    and add_request_law: "keeps S (add_request q)"
    and add_decision_law: "keeps S (add_decision dec)"
    and save_workspace_law: "keeps S (save_workspace w)"
    and save_tool_law: "keeps S (save_tool ti)"
    and save_review_law: "keeps S (save_review rv)"
    and providers_save_law: "keeps S (providers_save pe)"
    and save_guardian_law: "keeps S (save_guardian rep)"
    and save_validation_law: "keeps S (save_validation fv)"
    and delivery_save_law: "keeps S (delivery_save gd)"
    and save_artifact_law: "keeps S (save_artifact art)"
    and save_finding_law: "keeps S (save_finding fi)"
begin

lemma unit_law: "keeps S body \<Longrightarrow> keeps T (with_uow body)"
  unfolding keeps_def with_uow_def by (metis (no_types, lifting) case_prod_unfold discard_law snd_conv)

lemmas service_laws = service.keeps_ret service.keeps_raise service.keeps_deny service.keeps_the_or
  service.keeps_bnd service.keeps_catch service.keeps_for_each service.keeps_collect service.keeps_if
  service.keeps_case_option service.keeps_case_prod service.keeps_case_sum service.keeps_let service.keeps_tick
  unit_law

lemmas write_laws = save_goal_law set_current_goal_law save_criterion_law
  save_evaluation_law events_append_law add_task_law save_task_law save_actor_law
  save_execution_law save_phase_law save_policy_law add_request_law add_decision_law
  save_workspace_law save_tool_law save_review_law providers_save_law save_guardian_law
  save_validation_law delivery_save_law save_artifact_law save_finding_law

end

text \<open>
  Saving a run and saving a plan depend on what the caller checked before, for a relation that
  restricts the states a run moves through; the relations that do not care satisfy the full contract.
\<close>

locale run_contract = repository_contract S T for S T :: "uow \<Rightarrow> uow \<Rightarrow> bool" +
  assumes runs_save_law: "keeps S (runs_save r)"
    and save_plan_law: "keeps S (save_plan p)"
begin

lemmas run_laws = runs_save_law save_plan_law

end

section \<open>Guarded changes\<close>

text \<open>
  To show that an operation follows the relation it is enough to look at the one change it makes, on
  the capsule it makes it to, under the guards it has passed.
\<close>

context capsule_order
begin

lemma keeps_load_then:
  assumes "\<And>s c. map_of (uow_work s) rid = Some c \<Longrightarrow> run_id (cap_run c) = rid \<Longrightarrow> tx R s (snd (f c s))"
  shows "keeps (tx R) (bnd (load rid) f)"
  using assms by (auto simp: keeps_def prog_simps load_def tx_refl split: option.split)

lemma deny_then:
  assumes "\<not> b \<Longrightarrow> tx R s (snd (f () s))"
  shows "tx R s (snd (bnd (deny b e) f s))"
  using assms by (auto simp: prog_simps tx_refl)

lemma put_ok:
  assumes "map_of (uow_work s) rid = Some c" and "R rid (Some c) (Some (f c))"
  shows "tx R s (snd (put rid f s))"
  using assms by (intro keeps_guarded_put) auto

lemma upsert_law:
  assumes "\<And>rid c. consistent T rid (tab_get T c) \<Longrightarrow> tab_run T x = rid \<Longrightarrow> run_id (cap_run c) = rid
    \<Longrightarrow> \<not> (\<exists>y \<in> set (tab_get T c). tab_id T y \<noteq> tab_id T x \<and> clash y x)
    \<Longrightarrow> R rid (Some c) (Some (tab_put T (replaced (tab_id T) x (tab_get T c)) c))"
  shows "keeps (tx R) (upsert T clash x)"
  unfolding upsert_def table_list_def entities_def bnd_assoc
  by (intro transaction.keeps_bnd transaction.keeps_ensure keeps_load_then deny_then)
    (auto intro!: deny_then put_ok assms)

lemma fresh_then:
  assumes "\<And>s. \<forall>(rid, c) \<in> set (uow_work s). tab_id T x \<notin> tab_id T ` set (tab_get T c) \<Longrightarrow> tx R s (snd (m s))"
  shows "keeps (tx R) (bnd (ensure_new T x) (\<lambda>_. m))"
proof -
  have "tx R s (snd (bnd (ensure_new T x) (\<lambda>_. m) s))" for s
  proof (cases "fst (ensure_new T x s)")
    case (Inl e)
    then show ?thesis using ensure_new_state [of T x s]
      by (cases "ensure_new T x s") (simp add: prog_simps tx_refl)
  next
    case (Inr u)
    then have "tx R s (snd (m s))" by (rule assms [OF ensure_new_fresh])
    with Inr show ?thesis using ensure_new_state [of T x s]
      by (cases "ensure_new T x s") (simp add: prog_simps)
  qed
  then show ?thesis by (simp add: keeps_def)
qed

lemma table_then:
  assumes "\<And>c. map_of (uow_work s) rid = Some c \<Longrightarrow> run_id (cap_run c) = rid \<Longrightarrow> consistent T rid (tab_get T c)
    \<Longrightarrow> tx R s (snd (f (tab_get T c) s))"
  shows "tx R s (snd (bnd (table_list T rid) f s))"
  using assms
  by (auto simp: table_list_def bnd_assoc bnd_load entities_run bnd_run [of "entities T rid c" for c] tx_refl split: option.split)

lemma read_loop_then:
  assumes "\<And>x s. snd (g x s) = s" and "tx R s (snd (m s))"
  shows "tx R s (snd (bnd (for_each xs g) (\<lambda>_. m) s))"
proof -
  have "snd (for_each xs g s) = s"
  proof (induction xs)
    case (Cons x xs)
    then show ?case using assms(1) [of x s]
      by (auto simp: prog_simps split: prod.split sum.split)
  qed (simp add: prog_simps)
  then show ?thesis using assms(2) by (auto simp: prog_simps tx_refl split: prod.split sum.split)
qed

lemma insert_new_law:
  assumes "\<And>rid c. consistent T rid (tab_get T c) \<Longrightarrow> tab_run T x = rid \<Longrightarrow> run_id (cap_run c) = rid
    \<Longrightarrow> tab_id T x \<notin> tab_id T ` set (tab_get T c) \<Longrightarrow> R rid (Some c) (Some (tab_put T (tab_get T c @ [x]) c))"
  shows "keeps (tx R) (insert_new T x)"
  unfolding insert_new_def
  by (intro fresh_then table_then put_ok) (auto intro!: assms dest!: map_of_SomeD)

lemma tick_then:
  "(\<And>v. tx R (env_tick s) (snd (f v (env_tick s)))) \<Longrightarrow> tx R s (snd (bnd (utc_now env) f s))"
  "(\<And>v. tx R (env_tick s) (snd (g v (env_tick s)))) \<Longrightarrow> tx R s (snd (bnd uuid4 g s))"
  by (simp_all add: prog_simps utc_now_def uuid4_def tx_def env_tick_def)

lemma tx_tick: "tx R (env_tick s) t \<Longrightarrow> tx R s t"
  by (simp add: tx_def env_tick_def)

lemma then_ret: "tx R s (snd (m s)) \<Longrightarrow> tx R s (snd (bnd m (\<lambda>_. ret x) s))"
  by (auto simp: prog_simps split: prod.split sum.split)

end

end
