(* ===== verification/Orq_Float.thy ===== *)
theory Orq_Float
  imports Orq_Records "HOL-Library.Log_Nat"
begin

text \<open>
  Python floats. A finite float is the rational it denotes; an operation is the exact one followed
  by rounding to the nearest 53-bit significand, ties to even (IEEE binary64; overflow and
  subnormals are out of the range the code uses). \<open>float_sum\<close> is the built-in \<^verbatim>\<open>sum\<close> of
  Python 3.12 over floats (Neumaier's compensated sum); \<open>elapsed_ms\<close> is the conversion of a time
  difference to milliseconds that the code repeats everywhere.
\<close>

definition round_half_even :: "rat \<Rightarrow> int" where
  "round_half_even q = (let f = floor q; r = q - of_int f in
     if r < 1/2 then f else if 1/2 < r then f + 1 else if even f then f else f + 1)"

definition pow2 :: "int \<Rightarrow> rat" where
  "pow2 e = (if 0 \<le> e then 2 ^ nat e else 1 / 2 ^ nat (- e))"

text \<open>The exponent of the last place of the significand of a positive rational.\<close>

definition ulp_exponent :: "rat \<Rightarrow> int" where
  "ulp_exponent x = (let (n, d) = quotient_of x; e = bitlen n - bitlen d - 53 in
     if x / pow2 e < 2 ^ 53 then e else e + 1)"

definition fl :: "rat \<Rightarrow> rat" where
  "fl x = (if x = 0 then 0
     else if 0 < x then of_int (round_half_even (x / pow2 (ulp_exponent x))) * pow2 (ulp_exponent x)
     else - (of_int (round_half_even (- x / pow2 (ulp_exponent (- x)))) * pow2 (ulp_exponent (- x))))"

fun neumaier :: "rat \<Rightarrow> rat \<Rightarrow> rat list \<Rightarrow> rat" where
  "neumaier s c [] = (if c = 0 then s else fl (s + c))"
| "neumaier s c (x # xs) = (let t = fl (s + x) in
     neumaier t (fl (c + (if \<bar>x\<bar> \<le> \<bar>s\<bar> then fl (fl (s - t) + x) else fl (fl (x - t) + s)))) xs)"

definition float_sum :: "rat list \<Rightarrow> rat" where
  "float_sum xs = neumaier 0 0 xs"

text \<open>\<^verbatim>\<open>max(0, int((end - start).total_seconds() * 1000))\<close> for instants in microseconds.\<close>

definition trunc :: "rat \<Rightarrow> int" where
  "trunc q = (if 0 \<le> q then floor q else - floor (- q))"

definition elapsed_ms :: "time \<Rightarrow> time \<Rightarrow> nat" where
  "elapsed_ms start finish = nat (max 0 (trunc (fl (fl (of_int (finish - start) / 1000000) * 1000))))"

lemma pow2_pos [simp]: "0 < pow2 e"
  by (simp add: pow2_def)

lemma round_half_even_nonneg: "0 \<le> q \<Longrightarrow> 0 \<le> round_half_even q"
  by (auto simp: round_half_even_def Let_def)

lemma fl_0 [simp]: "fl 0 = 0"
  by (simp add: fl_def)

lemma fl_minus: "fl (- x) = - fl x"
  by (simp add: fl_def)

lemma fl_nonneg: "0 \<le> x \<Longrightarrow> 0 \<le> fl x"
  by (auto simp: fl_def intro!: mult_nonneg_nonneg round_half_even_nonneg less_imp_le [OF pow2_pos]
      divide_nonneg_pos)

lemma fl_nonpos: "x \<le> 0 \<Longrightarrow> fl x \<le> 0"
  using fl_nonneg [of "- x"] by (simp add: fl_minus)

lemma elapsed_backwards: "finish \<le> start \<Longrightarrow> elapsed_ms start finish = 0"
proof -
  assume "finish \<le> start"
  then have "fl (of_int (finish - start) / 1000000) \<le> 0"
    by (intro fl_nonpos) (simp add: divide_nonpos_pos)
  then have "fl (fl (of_int (finish - start) / 1000000) * 1000) \<le> 0"
    by (intro fl_nonpos) simp
  then have "trunc (fl (fl (of_int (finish - start) / 1000000) * 1000)) \<le> 0"
    by (auto simp: trunc_def)
  then show ?thesis by (simp add: elapsed_ms_def)
qed

end
