(* ===== verification/Orq_Samples.thy ===== *)
theory Orq_Samples
  imports Orq_Records
begin

text \<open>
  Concrete objects the witnesses evaluate the properties on: a run, a plan of three tasks (an
  implementation, a test that depends on it, an independent review), and its execution records.
\<close>

definition sample_id :: "nat \<Rightarrow> uuid" where
  "sample_id n = UUID4 (1000 + n)"

definition sample_run :: run where
  "sample_run = \<lparr>run_id = sample_id 0, run_created = 0, run_project = sample_id 1, run_request = ''add a page'',
     run_branch = ''feature'', run_base = ''abc'', run_goal = None, run_state = RS_RECEIVED,
     run_phase = UI_CONTEXT, run_repairs = 0, run_max_repairs = 5, run_started = None,
     run_completed = None, run_plan_version = 0, run_resume = None, run_last_seq = 0\<rparr>"

definition sample_task :: "nat \<Rightarrow> agent_role \<Rightarrow> task_status \<Rightarrow> task" where
  "sample_task n role status = \<lparr>task_id = sample_id n, task_created = 0, task_run = sample_id 0,
     task_plan_version = 1, task_parent = None, task_description = ''work'', task_outcome = ''done'',
     task_status = status, task_risk = 0, task_capabilities = [], task_role = role,
     task_artifacts = [], task_validation = ''tests'', task_weight = 1, task_ready = None,
     task_started = None, task_completed = None, task_attempts = 0, task_criteria = []\<rparr>"

definition sample_dep :: "nat \<Rightarrow> nat \<Rightarrow> task_dependency" where
  "sample_dep child parent = \<lparr>dep_task = sample_id child, dep_on = sample_id parent, dep_type = ''finish_to_start''\<rparr>"

definition sample_plan :: task_plan where
  "sample_plan = \<lparr>plan_run = sample_id 0, plan_goal = sample_id 2, plan_version = 1,
     plan_tasks = [sample_task 10 ROLE_DEVELOPER TS_PENDING, sample_task 11 ROLE_TESTER TS_PENDING,
       sample_task 12 ROLE_REVIEWER TS_PENDING],
     plan_deps = [sample_dep 11 10]\<rparr>"

lemmas sample_defs = sample_id_def sample_run_def sample_task_def sample_dep_def sample_plan_def

end
