(* ===== verification/Orq_Timing.thy ===== *)
theory Orq_Timing
  imports Orq_Float Orq_Samples
begin

text \<open>
  \<^verbatim>\<open>observability/timing.py\<close>: how long an actor, a task execution, a run or a phase was active,
  waiting, blocked or idle, read off the event log. \<open>intervals\<close> walks the events, charging the time
  to the next event (or to \<open>now\<close>) to the status the event puts the entity in, and stops at the
  first terminal status. The lemmas show that the four categories partition the wall time and that
  a finished entity's times no longer depend on the present.
\<close>

definition actor_events :: "event_type list" where
  "actor_events = [EV_ACTOR_STARTED, EV_ACTOR_STATUS_CHANGED, EV_ACTOR_COMPLETED]"

definition task_events :: "event_type list" where
  "task_events = [EV_TASK_STARTED, EV_TASK_WAITING, EV_TASK_BLOCKED, EV_TASK_COMPLETED, EV_TASK_FAILED,
     EV_TASK_CANCELLED]"

definition run_events :: "event_type list" where
  "run_events = [EV_RUN_STARTED, EV_RUN_STATE_CHANGED, EV_RUN_PAUSED, EV_RUN_RESUMED, EV_RUN_BLOCKED,
     EV_RUN_CANCELLED, EV_RUN_FAILED, EV_RUN_COMPLETED, EV_TASK_STARTED]"

definition active_statuses :: "string list" where
  "active_statuses = [''WORKING'', ''RUNNING'', ''CONTEXT_SYNC'', ''ANALYZING'', ''GOAL_DEFINED'',
     ''PLANNED'', ''EXECUTING'', ''INTEGRATING'', ''TESTING'', ''REVIEWING'', ''REPAIR_PLANNING'',
     ''CHANGE_GUARD'', ''DOCUMENTING'', ''DELIVERY_VALIDATION'', ''COMMITTING'', ''PUSHING'',
     ''MEMORY_FINALIZATION'']"

definition waiting_statuses :: "string list" where
  "waiting_statuses = [''WAITING'', ''WAITING_FOR_DEPENDENCY'', ''PAUSED'', ''READY'', ''STARTING'']"

definition blocked_statuses :: "string list" where
  "blocked_statuses = [''BLOCKED'', ''HUMAN_REVIEW_REQUIRED'']"

definition terminal_statuses :: "string list" where
  "terminal_statuses = [''SUCCEEDED'', ''FAILED'', ''COMPLETE'', ''COMPLETED'', ''CANCELLED'', ''SKIPPED'']"

definition operator_approval :: "event \<Rightarrow> bool" where
  "operator_approval e \<longleftrightarrow>
     (event_kind e = EV_APPROVAL_REQUESTED \<or> event_kind e = EV_APPROVAL_RECORDED)
     \<and> starts_with ''operator-approval:'' (event_key e)
     \<and> pl_approval_request (event_payload e) \<noteq> None
     \<and> pl_approval_stage (event_payload e) \<noteq> None
     \<and> pl_status (event_payload e) \<in> Some ` set [''PENDING'', ''APPROVED'', ''REJECTED'']"

definition timing_status :: "event \<Rightarrow> string option" where
  "timing_status e =
     (if operator_approval e
      then (if pl_status (event_payload e) = Some ''REJECTED'' then Some ''BLOCKED'' else Some ''WAITING'')
      else pl_status (event_payload e))"

definition status_in :: "string option \<Rightarrow> string list \<Rightarrow> bool" where
  "status_in s xs = (case s of None \<Rightarrow> False | Some v \<Rightarrow> v \<in> set xs)"

definition no_time :: timing_breakdown where
  "no_time = \<lparr>wall_ms = 0, active_ms = 0, waiting_ms = 0, blocked_ms = 0, idle_ms = 0, queue_ms = 0\<rparr>"

text \<open>One round of the loop: the time is charged to the wall clock and to one category.\<close>

definition charge :: "string option \<Rightarrow> nat \<Rightarrow> timing_breakdown \<Rightarrow> timing_breakdown" where
  "charge status d t = (let t' = t\<lparr>wall_ms := wall_ms t + d\<rparr> in
     if status_in status active_statuses then t'\<lparr>active_ms := active_ms t + d\<rparr>
     else if status_in status waiting_statuses then t'\<lparr>waiting_ms := waiting_ms t + d\<rparr>
     else if status_in status blocked_statuses then t'\<lparr>blocked_ms := blocked_ms t + d\<rparr>
     else t'\<lparr>idle_ms := idle_ms t + d\<rparr>)"

fun interval_loop :: "event list \<Rightarrow> time \<Rightarrow> timing_breakdown \<Rightarrow> timing_breakdown" where
  "interval_loop [] now t = t"
| "interval_loop (e # es) now t =
     (if status_in (timing_status e) terminal_statuses then t
      else interval_loop es now
        (charge (timing_status e)
          (elapsed_ms (event_at e) (case es of [] \<Rightarrow> now | e' # _ \<Rightarrow> event_at e')) t))"

definition intervals :: "event list \<Rightarrow> time \<Rightarrow> timing_breakdown" where
  "intervals events now = interval_loop events now no_time"

definition timing_actor :: "event list \<Rightarrow> uuid \<Rightarrow> time \<Rightarrow> timing_breakdown" where
  "timing_actor events aid now =
     intervals (filter (\<lambda>e. event_actor e = Some aid \<and> event_kind e \<in> set actor_events) events) now"

definition timing_task :: "event list \<Rightarrow> uuid \<Rightarrow> time \<Rightarrow> timing_breakdown" where
  "timing_task events eid now =
     intervals (filter (\<lambda>e. event_execution e = Some eid \<and> event_kind e \<in> set task_events) events) now"

definition timing_run :: "event list \<Rightarrow> time \<Rightarrow> timing_breakdown" where
  "timing_run events now =
     intervals (filter (\<lambda>e. event_kind e \<in> set run_events \<or> operator_approval e) events) now"

definition timing_phase :: "event list \<Rightarrow> uuid \<Rightarrow> time \<Rightarrow> timing_breakdown" where
  "timing_phase events pid now = intervals (filter (\<lambda>e. pl_phase (event_payload e) = Some pid) events) now"

section \<open>The categories partition the wall time\<close>

definition partitioned :: "timing_breakdown \<Rightarrow> bool" where
  "partitioned t \<longleftrightarrow> wall_ms t = active_ms t + waiting_ms t + blocked_ms t + idle_ms t \<and> queue_ms t = 0"

lemma charge_wall [simp]: "wall_ms (charge s d t) = wall_ms t + d"
  by (simp add: charge_def Let_def)

lemma charge_partitioned: "partitioned t \<Longrightarrow> partitioned (charge s d t)"
  by (simp add: charge_def Let_def partitioned_def)

lemma interval_loop_partitioned: "partitioned t \<Longrightarrow> partitioned (interval_loop es now t)"
  by (induction es arbitrary: t) (simp_all add: charge_partitioned)

lemma intervals_partitioned: "partitioned (intervals es now)"
  unfolding intervals_def by (rule interval_loop_partitioned) (simp add: partitioned_def no_time_def)

section \<open>A terminal event closes the account\<close>

lemma interval_loop_terminal:
  "\<exists>e \<in> set es. status_in (timing_status e) terminal_statuses \<Longrightarrow>
     interval_loop es now t = interval_loop (es @ es') now' t"
proof (induction es arbitrary: t)
  case (Cons e es)
  show ?case
  proof (cases "status_in (timing_status e) terminal_statuses")
    case False
    with Cons.prems have later: "\<exists>e \<in> set es. status_in (timing_status e) terminal_statuses" by simp
    then obtain e' es'' where "es = e' # es''" by (cases es) auto
    then have "(case es of [] \<Rightarrow> now | e' # _ \<Rightarrow> event_at e') = (case es @ es' of [] \<Rightarrow> now' | e' # _ \<Rightarrow> event_at e')"
      by simp
    with False show ?thesis using Cons.IH [OF later] by simp
  qed simp
qed simp

lemma intervals_terminal:
  "\<exists>e \<in> set es. status_in (timing_status e) terminal_statuses \<Longrightarrow>
     intervals es now = intervals (es @ es') now'"
  unfolding intervals_def by (rule interval_loop_terminal)

lemma intervals_until_now: "timing_status e = Some s \<Longrightarrow> s \<notin> set terminal_statuses \<Longrightarrow>
    intervals [e] now = charge (Some s) (elapsed_ms (event_at e) now) no_time"
  by (simp add: intervals_def status_in_def)

section \<open>Properties\<close>


definition sample_event :: "event_type \<Rightarrow> nat \<Rightarrow> time \<Rightarrow> string \<Rightarrow> event" where
  "sample_event kind n moment status = \<lparr>event_id = sample_id n, event_created = moment, event_project = sample_id 1,
     event_run = sample_id 0, event_seq = n, event_kind = kind, event_at = moment, event_phase = None,
     event_task = None, event_execution = None, event_actor = None, event_status = None,
     event_payload = no_payload\<lparr>pl_status := Some status\<rparr>, event_key = nat_str n\<rparr>"

definition sample_log :: "event list" where
  "sample_log = [sample_event EV_RUN_STARTED 1 0 ''EXECUTING'', sample_event EV_RUN_PAUSED 2 2000000 ''PAUSED'',
     sample_event EV_RUN_CANCELLED 3 5000000 ''CANCELLED'']"


text \<open>
  C9: the times of a finished run are final. Once an event puts the run in a terminal status, the
  time breakdown of the run depends neither on the present nor on events logged afterwards.
\<close>
theorem finished_run_timing_final:
  assumes "e \<in> set es" and "event_kind e \<in> set run_events" and "\<not> operator_approval e"
    and "pl_status (event_payload e) = Some s" and "s \<in> set terminal_statuses"
  shows "timing_run (es @ later) now' = timing_run es now"
proof -
  have "timing_status e = Some s" using assms by (simp add: timing_status_def)
  then have "\<exists>e \<in> set (filter (\<lambda>e. event_kind e \<in> set run_events \<or> operator_approval e) es).
      status_in (timing_status e) terminal_statuses"
    using assms by (auto simp: status_in_def)
  then show ?thesis unfolding timing_run_def filter_append by (rule intervals_terminal [symmetric])
qed

theorem finished_run_timing_final_witness:
  "timing_run (sample_log @ [sample_event EV_RUN_STARTED 4 7000000 ''EXECUTING'']) 99000000 = timing_run sample_log 0"
  by (rule finished_run_timing_final [where e = "sample_event EV_RUN_CANCELLED 3 5000000 ''CANCELLED''" and s = "''CANCELLED''"])
    (simp_all add: sample_log_def sample_event_def run_events_def operator_approval_def terminal_statuses_def)

end
