(* ===== verification/Orq_Runtime.thy ===== *)
theory Orq_Runtime
  imports Orq_Contract Orq_Timing
begin

text \<open>
  \<^verbatim>\<open>core/runtime_support.py\<close> and \<^verbatim>\<open>core/phases.py\<close>: command keys, the locked run, emitting an event,
  the orchestrator's own actor, an actor's status with its times, and the phase executions that
  follow the run through its UI phases.
\<close>

definition require_key :: "string \<Rightarrow> unit act" where
  "require_key key = deny (blank key \<or> 120 < length key) InputInvalid"

definition locked_run :: "uuid \<Rightarrow> run act" where
  "locked_run rid = bnd (runs_get rid) (the_or NotFound)"

definition emit :: "env \<Rightarrow> run \<Rightarrow> event_type \<Rightarrow> string \<Rightarrow> time \<Rightarrow> event_payload \<Rightarrow> uuid option \<Rightarrow> uuid option
    \<Rightarrow> uuid option \<Rightarrow> event act" where
  "emit env r kind key now payload actor task execution = events_append env (run_id r)
     \<lparr>evd_kind = kind, evd_at = now, evd_payload = payload, evd_phase = Some (ui_phase_str (run_phase r)),
      evd_task = task, evd_execution = execution, evd_actor = actor, evd_key = key\<rparr>"

text \<open>Payloads: \<^verbatim>\<open>EventPayload(status=s)\<close>, and with \<^verbatim>\<open>previous_status\<close>.\<close>

definition status_payload :: "string \<Rightarrow> event_payload" where
  "status_payload s = no_payload\<lparr>pl_status := Some s\<rparr>"

definition change_payload :: "string \<Rightarrow> string \<Rightarrow> event_payload" where
  "change_payload previous s = no_payload\<lparr>pl_previous := Some previous, pl_status := Some s\<rparr>"

definition orchestrator_id :: "uuid \<Rightarrow> uuid" where
  "orchestrator_id rid = uuid5 rid ''orchestrator''"

definition new_orchestrator :: "uuid \<Rightarrow> time \<Rightarrow> actor_session" where
  "new_orchestrator rid now = \<lparr>actor_id = orchestrator_id rid, actor_created = now, actor_run = rid,
     actor_kind = ORCHESTRATOR, actor_role = None, actor_provider = None, actor_model = None,
     actor_status = ACT_IDLE, actor_task = None, actor_started = now, actor_completed = None,
     actor_working_ms = 0, actor_waiting_ms = 0, actor_blocked_ms = 0, actor_skills = [],
     actor_tools = [], actor_attempted = 0, actor_succeeded = 0, actor_failed = 0\<rparr>"

definition orchestrator_actor :: "env \<Rightarrow> run \<Rightarrow> time \<Rightarrow> actor_session act" where
  "orchestrator_actor env r now = bnd (run_actors (run_id r)) (\<lambda>actors.
     case find (\<lambda>a. actor_id a = orchestrator_id (run_id r)) actors of
       Some a \<Rightarrow> ret a
     | None \<Rightarrow> (let a = new_orchestrator (run_id r) now in
         bnd (save_actor a) (\<lambda>_.
         bnd (emit env r EV_ACTOR_STARTED ''orchestrator:created'' now
           (status_payload (actor_status_str (actor_status a))) (Some (actor_id a)) None None) (\<lambda>_.
         ret a))))"

definition actor_done :: "actor_status \<Rightarrow> bool" where
  "actor_done s \<longleftrightarrow> s = ACT_COMPLETE \<or> s = ACT_CANCELLED \<or> s = ACT_FAILED"

definition set_actor_status :: "env \<Rightarrow> run \<Rightarrow> actor_session \<Rightarrow> actor_status \<Rightarrow> string \<Rightarrow> time \<Rightarrow> actor_session act" where
  "set_actor_status env r a status key now =
     bnd (emit env r (if actor_done status then EV_ACTOR_COMPLETED else EV_ACTOR_STATUS_CHANGED) key now
       (change_payload (actor_status_str (actor_status a)) (actor_status_str status)) (Some (actor_id a)) None None) (\<lambda>e.
     bnd (events_list (run_id r)) (\<lambda>es.
     let t = timing_actor es (actor_id a) (event_at e);
         b = a\<lparr>actor_status := status, actor_completed := (if actor_done status then Some (event_at e) else None),
               actor_working_ms := active_ms t, actor_waiting_ms := waiting_ms t, actor_blocked_ms := blocked_ms t\<rparr>
     in bnd (save_actor b) (\<lambda>_. ret b)))"

section \<open>Phases\<close>

definition new_phase :: "uuid \<Rightarrow> run \<Rightarrow> time \<Rightarrow> nat \<Rightarrow> task_status \<Rightarrow> phase_execution" where
  "new_phase pid r now iteration status = \<lparr>phase_id = pid, phase_created = now, phase_run = run_id r,
     phase_phase = run_phase r, phase_iteration = iteration, phase_started = now, phase_completed = None,
     phase_status = status, phase_active_ms = 0, phase_waiting_ms = 0, phase_blocked_ms = 0\<rparr>"

text \<open>The end of a phase, under the phase it belongs to.\<close>

definition close_phase :: "env \<Rightarrow> run \<Rightarrow> string \<Rightarrow> time \<Rightarrow> task_status \<Rightarrow> phase_execution \<Rightarrow> unit act" where
  "close_phase env r key now ended ph =
     bnd (emit env (r\<lparr>run_phase := phase_phase ph\<rparr>) EV_PHASE_COMPLETED (key @ '':phase-end'') now
       ((status_payload (task_status_str ended))\<lparr>pl_phase := Some (phase_id ph)\<rparr>) None None None) (\<lambda>e.
     bnd (events_list (run_id r)) (\<lambda>es.
     let t = timing_phase es (phase_id ph) (event_at e) in
     save_phase (ph\<lparr>phase_status := ended, phase_completed := Some (event_at e), phase_active_ms := active_ms t,
       phase_waiting_ms := waiting_ms t, phase_blocked_ms := blocked_ms t\<rparr>)))"

definition open_phase :: "env \<Rightarrow> run \<Rightarrow> string \<Rightarrow> time \<Rightarrow> task_status \<Rightarrow> nat \<Rightarrow> unit act" where
  "open_phase env r key now status iteration = bnd uuid4 (\<lambda>pid.
     bnd (save_phase (new_phase pid r now iteration status)) (\<lambda>_.
     bnd (emit env r EV_PHASE_STARTED (key @ '':phase-start'') now
       ((status_payload (task_status_str status))\<lparr>pl_phase := Some pid\<rparr>) None None None) (\<lambda>_. ret ())))"

definition update_phase :: "env \<Rightarrow> run \<Rightarrow> string \<Rightarrow> time \<Rightarrow> task_status \<Rightarrow> bool \<Rightarrow> unit act" where
  "update_phase env r key now status terminal = bnd (run_phases (run_id r)) (\<lambda>phases.
     let current = find (\<lambda>ph. phase_completed ph = None) (rev phases);
         iteration = Suc (length (filter (\<lambda>ph. phase_phase ph = run_phase r) phases))
     in case current of
       None \<Rightarrow> if terminal then ret () else open_phase env r key now status iteration
     | Some ph \<Rightarrow>
         if phase_phase ph \<noteq> run_phase r \<or> terminal then
           bnd (close_phase env r key now (if terminal then status else TS_SUCCEEDED) ph) (\<lambda>_.
           if terminal then ret () else open_phase env r key now status iteration)
         else if phase_status ph \<noteq> status then
           bnd (save_phase (ph\<lparr>phase_status := status\<rparr>)) (\<lambda>_.
           bnd (emit env r EV_PHASE_STATUS_CHANGED (key @ '':phase-status'') now
             ((change_payload (task_status_str (phase_status ph)) (task_status_str status))\<lparr>pl_phase := Some (phase_id ph)\<rparr>)
             None None None) (\<lambda>_. ret ()))
         else ret ())"

context repository_contract
begin

lemmas act_laws = program_laws read_laws write_laws commit_law

lemma keeps_require_key: "keeps S (require_key key)"
  unfolding require_key_def by (rule keeps_deny)

lemma keeps_locked_run: "keeps S (locked_run rid)"
  unfolding locked_run_def by (intro act_laws)

lemma keeps_emit: "keeps S (emit env r kind key now payload actor task execution)"
  unfolding emit_def by (rule events_append_law)

lemma keeps_orchestrator_actor: "keeps S (orchestrator_actor env r now)"
  unfolding orchestrator_actor_def Let_def by (intro act_laws keeps_emit)

lemma keeps_set_actor_status: "keeps S (set_actor_status env r a status key now)"
  unfolding set_actor_status_def Let_def by (intro act_laws keeps_emit)

lemma keeps_update_phase: "keeps S (update_phase env r key now status terminal)"
  unfolding update_phase_def close_phase_def open_phase_def Let_def by (intro act_laws keeps_emit)

lemmas runtime_laws = keeps_require_key keeps_locked_run keeps_emit keeps_orchestrator_actor
  keeps_set_actor_status keeps_update_phase

end

end
