(* ===== verification/Orq_Approvals.thy ===== *)
theory Orq_Approvals
  imports Orq_Runtime
begin

text \<open>
  Operator approvals: \<^verbatim>\<open>core/approval_subjects.py\<close> (what a decision is about, without the mutable
  runtime fields), \<^verbatim>\<open>core/approvals.py\<close> (the control policy of a run, requests, decisions and the
  checkpoint they put the orchestrator's actor in) and \<^verbatim>\<open>core/approval_guard.py\<close> (the check every
  gated transition makes, which commits a new pending request and then refuses).
\<close>

section \<open>Subjects\<close>

definition criterion_core :: "acceptance_criterion \<Rightarrow> acceptance_criterion" where
  "criterion_core k = k\<lparr>crit_status := AC_PENDING, crit_attempts := 0, crit_validated := None, crit_evidence := []\<rparr>"

definition task_core :: "task \<Rightarrow> task" where
  "task_core t = t\<lparr>task_status := TS_PENDING, task_ready := None, task_started := None, task_completed := None,
     task_attempts := 0\<rparr>"

text \<open>\<^verbatim>\<open>plan_identity\<close> of \<^verbatim>\<open>core/planning.py\<close>.\<close>

definition plan_identity :: "task_plan \<Rightarrow> uuid \<times> uuid \<times> nat \<times> task list \<times> task_dependency list" where
  "plan_identity p = (plan_run p, plan_goal p, plan_version p, sort_key task_id (map task_core (plan_tasks p)),
     sort_key (\<lambda>e. (dep_task e, dep_on e, dep_type e)) (plan_deps p))"

definition goal_subject :: "env \<Rightarrow> goal_contract \<Rightarrow> string" where
  "goal_subject env gc = fingerprint env (DocGoalSubject (gc_goal gc) (map criterion_core (gc_criteria gc)))"

definition plan_subject :: "env \<Rightarrow> task_plan \<Rightarrow> string" where
  "plan_subject env p = (case plan_identity p of (rid, gid, v, ts, ds) \<Rightarrow> fingerprint env (DocPlanSubject rid gid v ts ds))"

definition requirements_task_subject :: "env \<Rightarrow> task \<Rightarrow> string" where
  "requirements_task_subject env t = fingerprint env (DocRequirementsSubject (task_core t))"

definition task_subject :: "env \<Rightarrow> task \<Rightarrow> execution_policy \<Rightarrow> string" where
  "task_subject env t policy = fingerprint env (DocTaskSubject (task_core t) policy)"

definition repair_subject :: "env \<Rightarrow> review_record \<Rightarrow> string" where
  "repair_subject env rv = fingerprint env (DocRepairSubject (rev_id rv) (rev_plan_version rv) (rev_result rv))"

definition delivery_subject :: "env \<Rightarrow> run \<Rightarrow> review_record \<Rightarrow> delivery_policy \<Rightarrow> string" where
  "delivery_subject env r rv policy =
     fingerprint env (DocDeliverySubject (run_goal r) (run_plan_version r) (rev_id rv) (rev_tree rv) policy)"

section \<open>Requests and decisions\<close>

text \<open>\<^verbatim>\<open>s.split()\<close>: the words between white space.\<close>

fun space_runs :: "string \<Rightarrow> string list" where
  "space_runs [] = [[]]"
| "space_runs (c # cs) = (if is_space c then [] # space_runs cs
     else (case space_runs cs of [] \<Rightarrow> [[c]] | w # ws \<Rightarrow> (c # w) # ws))"

definition py_words :: "string \<Rightarrow> string list" where
  "py_words s = filter (\<lambda>w. w \<noteq> []) (space_runs s)"

definition task_approval_reason :: "env \<Rightarrow> task \<Rightarrow> execution_policy option \<Rightarrow> string" where
  "task_approval_reason env t policy =
     (let description = take 300 (env_safe env (join_str '' '' (py_words (task_description t))));
          parts = [''Task '' @ uuid_str (task_id t) @ '' (role '' @ role_str (task_role t) @ '', plan v'' @ nat_str (task_plan_version t) @ '')'',
                   ''description: '' @ description] @
            (case policy of
               None \<Rightarrow> [''requirements preparation; no workspace execution policy yet'']
             | Some p \<Rightarrow>
                 (let paths = join_str '', '' (map (env_safe env) (xp_write_paths p));
                      commands = join_str '', '' (map cmd_id (xp_commands p))
                  in [''write paths: '' @ take 350 paths,
                      ''approved command IDs: '' @ take 180 (if commands = [] then ''none'' else commands)]))
      in take 1000 (env_safe env (join_str ''; '' parts)))"

definition policy_or_default :: "uuid \<Rightarrow> control_policy option \<Rightarrow> control_policy" where
  "policy_or_default rid p = (case p of None \<Rightarrow> default_policy rid | Some q \<Rightarrow> q)"

definition safe_fields :: "env \<Rightarrow> string \<Rightarrow> string \<Rightarrow> unit act" where
  "safe_fields env digest reason = bnd (deny (\<not> sha256_text digest) InputInvalid) (\<lambda>_.
     deny (1000 < length reason \<or> \<not> safe_text env reason) PolicyDenied)"

definition validate_subject :: "run \<Rightarrow> approval_stage \<Rightarrow> nat \<Rightarrow> unit act" where
  "validate_subject r stage version =
     (if stage = STAGE_GOAL then
        bnd (case run_goal r of None \<Rightarrow> ret None | Some gid \<Rightarrow> runs_get_goal gid (run_id r)) (\<lambda>contract.
        deny (case contract of None \<Rightarrow> True | Some gc \<Rightarrow> goal_number (gc_goal gc) \<noteq> version) Conflict)
      else if stage = STAGE_TASK \<and> version = 0 \<and> run_state r = RS_ANALYZING then ret ()
      else deny (version \<noteq> run_plan_version r \<or> version = 0) Conflict)"

definition set_approval_actor_status :: "env \<Rightarrow> run \<Rightarrow> approval_request \<Rightarrow> approval_status \<Rightarrow> string \<Rightarrow> time \<Rightarrow> unit act" where
  "set_approval_actor_status env r q status label now = bnd (orchestrator_actor env r now) (\<lambda>a.
     if actor_done (actor_status a) then ret ()
     else let target = (if status = AP_REJECTED then ACT_BLOCKED else ACT_WAITING_FOR_DEPENDENCY) in
       if actor_status a \<noteq> target then
         bnd (set_actor_status env r a target (''operator-approval:'' @ uuid_str (req_id q) @ '':actor:'' @ label) now) (\<lambda>_. ret ())
       else ret ())"

definition approval_id :: "uuid \<Rightarrow> approval_stage \<Rightarrow> nat \<Rightarrow> string \<Rightarrow> uuid" where
  "approval_id rid stage version digest =
     uuid5 rid (''approval:'' @ stage_str stage @ '':'' @ nat_str version @ '':'' @ digest)"

definition requested_payload :: "approval_request \<Rightarrow> event_payload" where
  "requested_payload q = no_payload\<lparr>pl_approval_request := Some (req_id q), pl_approval_stage := Some (stage_str (req_stage q)),
     pl_approval_digest := Some (req_digest q), pl_status := Some ''PENDING'', pl_reason := Some (req_reason q)\<rparr>"

text \<open>A new request, its event and the checkpoint of the orchestrator.\<close>

definition stage_request :: "env \<Rightarrow> run \<Rightarrow> approval_stage \<Rightarrow> nat \<Rightarrow> string \<Rightarrow> string \<Rightarrow> approval_request act" where
  "stage_request env r stage version digest reason = bnd (utc_now env) (\<lambda>created.
     let q = \<lparr>req_id = approval_id (run_id r) stage version digest, req_created = created, req_run = run_id r,
              req_stage = stage, req_version = version, req_digest = digest, req_reason = reason,
              req_status = AP_PENDING, req_decision = None\<rparr> in
     bnd (add_request q) (\<lambda>_.
     bnd (emit env r EV_APPROVAL_REQUESTED (''operator-approval:'' @ uuid_str (req_id q) @ '':requested'') created
       (requested_payload q) None None None) (\<lambda>_.
     bnd (set_approval_actor_status env r q AP_PENDING ''pending'' created) (\<lambda>_.
     ret q))))"

definition prepare_approval_request :: "env \<Rightarrow> run \<Rightarrow> approval_stage \<Rightarrow> nat \<Rightarrow> string \<Rightarrow> string
    \<Rightarrow> (approval_request option \<times> bool) act" where
  "prepare_approval_request env r stage version digest reason =
     bnd (safe_fields env digest reason) (\<lambda>_.
     bnd (approvals_policy (run_id r)) (\<lambda>p.
     if \<not> requires (policy_or_default (run_id r) p) stage then ret (None, False)
     else bnd (validate_subject r stage version) (\<lambda>_.
       bnd (approvals_get (approval_id (run_id r) stage version digest) (run_id r)) (\<lambda>existing.
       case existing of
         Some q \<Rightarrow> ret (Some q, False)
       | None \<Rightarrow> bnd (stage_request env r stage version digest reason) (\<lambda>q. ret (Some q, True))))))"

section \<open>The approval guard\<close>

definition require_approval :: "env \<Rightarrow> run \<Rightarrow> approval_stage \<Rightarrow> nat \<Rightarrow> string \<Rightarrow> string \<Rightarrow> unit act" where
  "require_approval env r stage version digest reason =
     bnd (approvals_policy (run_id r)) (\<lambda>p.
     if \<not> requires (policy_or_default (run_id r) p) stage then ret ()
     else bnd (safe_fields env digest reason) (\<lambda>_.
       bnd (validate_subject r stage version) (\<lambda>_.
       bnd (approvals_get (approval_id (run_id r) stage version digest) (run_id r)) (\<lambda>existing.
       bnd (case existing of
              Some q \<Rightarrow> ret q
            | None \<Rightarrow> bnd (stage_request env r stage version digest reason) (\<lambda>q. bnd (commit env) (\<lambda>_. ret q))) (\<lambda>q.
       deny (req_status q \<noteq> AP_APPROVED) PolicyDenied)))))"

definition require_delivery_binding :: "env \<Rightarrow> run \<Rightarrow> unit act" where
  "require_delivery_binding env r = bnd (events_by_key (run_id r) ''delivery:policy'') (\<lambda>found.
     bnd (the_or PolicyDenied found) (\<lambda>binding.
     bnd (approvals_policy (run_id r)) (\<lambda>p.
     if \<not> requires (policy_or_default (run_id r) p) STAGE_DELIVERY then ret ()
     else bnd (case pl_approval_request (event_payload binding) of None \<Rightarrow> ret None
            | Some qid \<Rightarrow> approvals_get qid (run_id r)) (\<lambda>request.
       bnd (execution_reviews (run_id r)) (\<lambda>reviews.
       let reviewed = (if reviews = [] then None else Some (rev_plan_version (last reviews))) in
       deny (case request of None \<Rightarrow> True
         | Some q \<Rightarrow> req_run q \<noteq> run_id r \<or> req_stage q \<noteq> STAGE_DELIVERY \<or> req_status q \<noteq> AP_APPROVED
             \<or> Some (req_version q) \<noteq> reviewed
             \<or> Some (req_digest q) \<noteq> pl_approval_digest (event_payload binding)) PolicyDenied)))))"

section \<open>The approval service\<close>

text \<open>
  \<open>gates = None\<close> stands for the default gates of supervised mode; a set is a duplicate-free list. The
  reason of the event lists the gates in text order.
\<close>

definition mode_str :: "control_mode \<Rightarrow> string" where
  "mode_str m = (case m of AUTONOMOUS \<Rightarrow> ''AUTONOMOUS'' | SUPERVISED \<Rightarrow> ''SUPERVISED'')"

definition control_payload :: "control_mode \<Rightarrow> approval_stage list \<Rightarrow> event_payload" where
  "control_payload mode gates = no_payload\<lparr>pl_status := Some (mode_str mode),
     pl_summary := Some ''Operator control policy configured'',
     pl_reason := Some (join_str '','' (sort (map stage_str gates)))\<rparr>"

definition save_initial_control_policy :: "env \<Rightarrow> run \<Rightarrow> control_mode \<Rightarrow> approval_stage list option \<Rightarrow> time option
    \<Rightarrow> control_policy act" where
  "save_initial_control_policy env r mode gates moment =
     bnd (deny (mode = AUTONOMOUS \<and> gates \<noteq> None \<and> gates \<noteq> Some []) InputInvalid) (\<lambda>_.
     let selected = (if mode = AUTONOMOUS then [] else case gates of None \<Rightarrow> supervised_gates | Some g \<Rightarrow> g);
         policy = \<lparr>pol_run = run_id r, pol_mode = mode, pol_gates = selected\<rparr> in
     bnd (approvals_policy (run_id r)) (\<lambda>existing. case existing of
       Some p \<Rightarrow> if pol_run p = run_id r \<and> pol_mode p = mode \<and> set (pol_gates p) = set selected then ret p
                 else raise_err Conflict
     | None \<Rightarrow>
         bnd (deny (run_plan_version r \<noteq> 0
           \<or> run_state r \<notin> {RS_RECEIVED, RS_CONTEXT_SYNC, RS_ANALYZING, RS_GOAL_DEFINED}) Conflict) (\<lambda>_.
         bnd (approvals_list (run_id r)) (\<lambda>requests.
         bnd (deny (requests \<noteq> []) Conflict) (\<lambda>_.
         if mode = AUTONOMOUS then ret policy
         else bnd (save_policy policy) (\<lambda>_.
           bnd (case moment of Some t \<Rightarrow> ret t | None \<Rightarrow> utc_now env) (\<lambda>now.
           bnd (emit env r EV_CONTROL_POLICY_CHANGED ''control:initial'' now (control_payload mode selected) None None None) (\<lambda>_.
           ret policy))))))))"

definition configure_control :: "env \<Rightarrow> uuid \<Rightarrow> control_mode \<Rightarrow> approval_stage list option \<Rightarrow> control_policy act" where
  "configure_control env rid mode gates = with_uow (bnd (locked_run rid) (\<lambda>r.
     bnd (save_initial_control_policy env r mode gates None) (\<lambda>p.
     bnd (commit env) (\<lambda>_. ret p))))"

definition control_policy_of :: "uuid \<Rightarrow> control_policy act" where
  "control_policy_of rid = with_uow (bnd (locked_run rid) (\<lambda>_.
     bnd (approvals_policy rid) (\<lambda>p. ret (policy_or_default rid p))))"

definition control_state :: "uuid \<Rightarrow> (control_policy \<times> approval_request list) act" where
  "control_state rid = with_uow (bnd (locked_run rid) (\<lambda>_.
     bnd (approvals_policy rid) (\<lambda>p. bnd (approvals_list rid) (\<lambda>qs. ret (policy_or_default rid p, qs)))))"

definition approval_requests_of :: "uuid \<Rightarrow> approval_request list act" where
  "approval_requests_of rid = with_uow (bnd (locked_run rid) (\<lambda>_. approvals_list rid))"

definition approval_request_of :: "uuid \<Rightarrow> uuid \<Rightarrow> approval_request act" where
  "approval_request_of rid qid = with_uow (bnd (approvals_get qid rid) (\<lambda>q.
     the_or NotFound (case q of None \<Rightarrow> None | Some q \<Rightarrow> if req_run q = rid then Some q else None)))"

definition ensure_approval :: "env \<Rightarrow> uuid \<Rightarrow> approval_stage \<Rightarrow> nat \<Rightarrow> string \<Rightarrow> string \<Rightarrow> approval_request option act" where
  "ensure_approval env rid stage version digest reason = bnd (safe_fields env digest reason) (\<lambda>_.
     with_uow (bnd (locked_run rid) (\<lambda>r.
       bnd (prepare_approval_request env r stage version digest reason) (\<lambda>(q, created).
       bnd (if created then commit env else ret ()) (\<lambda>_. ret q)))))"

definition recorded_payload :: "approval_request \<Rightarrow> string \<Rightarrow> approval_status \<Rightarrow> string \<Rightarrow> event_payload" where
  "recorded_payload q actor status reason = no_payload\<lparr>pl_approval_request := Some (req_id q),
     pl_approval_stage := Some (stage_str (req_stage q)), pl_approval_digest := Some (req_digest q),
     pl_approval_actor := Some actor, pl_status := Some (approval_status_str status), pl_reason := Some reason\<rparr>"

definition status_of_decision :: "decision_kind \<Rightarrow> approval_status" where
  "status_of_decision d = (if d = DECIDE_APPROVE then AP_APPROVED else AP_REJECTED)"

definition decide_approval :: "env \<Rightarrow> uuid \<Rightarrow> uuid \<Rightarrow> decision_kind \<Rightarrow> string \<Rightarrow> string \<Rightarrow> string \<Rightarrow> approval_request act" where
  "decide_approval env rid qid decision actor digest reason =
     bnd (safe_fields env digest reason) (\<lambda>_.
     bnd (deny (decision = DECIDE_REJECT \<and> blank reason) InputInvalid) (\<lambda>_.
     bnd (deny (blank actor \<or> 120 < length actor \<or> \<not> safe_text env actor) InputInvalid) (\<lambda>_.
     with_uow (bnd (locked_run rid) (\<lambda>r.
       bnd (approvals_get qid rid) (\<lambda>found.
       bnd (the_or NotFound (case found of None \<Rightarrow> None | Some q \<Rightarrow> if req_run q = rid then Some q else None)) (\<lambda>q.
       bnd (deny (req_digest q \<noteq> digest) Conflict) (\<lambda>_.
       bnd (validate_subject r (req_stage q) (req_version q)) (\<lambda>_.
       case req_decision q of
         Some d \<Rightarrow> if dec_kind d = decision \<and> dec_actor d = actor then ret q else raise_err Conflict
       | None \<Rightarrow>
           bnd uuid4 (\<lambda>did. bnd (utc_now env) (\<lambda>created.
           let d = \<lparr>dec_id = did, dec_created = created, dec_request = qid, dec_kind = decision, dec_actor = actor,
                    dec_reason = reason\<rparr>;
               status = status_of_decision decision in
           bnd (add_decision d) (\<lambda>_.
           bnd (emit env r EV_APPROVAL_RECORDED (''operator-approval:'' @ uuid_str (req_id q) @ '':decided'') created
             (recorded_payload q actor status reason) None None None) (\<lambda>_.
           bnd (set_approval_actor_status env r q status
             (if status = AP_APPROVED then ''approved'' else ''rejected'') created) (\<lambda>_.
           bnd (commit env) (\<lambda>_.
           ret (q\<lparr>req_status := status, req_decision := Some d\<rparr>))))))))))))))))"

context repository_contract
begin

lemma keeps_safe_fields: "keeps S (safe_fields env digest reason)"
  unfolding safe_fields_def by (intro act_laws)

lemma keeps_validate_subject: "keeps S (validate_subject r stage version)"
  unfolding validate_subject_def by (intro act_laws)

lemma keeps_stage_request: "keeps S (stage_request env r stage version digest reason)"
  unfolding stage_request_def set_approval_actor_status_def Let_def by (intro act_laws runtime_laws)

lemma keeps_prepare: "keeps S (prepare_approval_request env r stage version digest reason)"
  unfolding prepare_approval_request_def
  by (intro act_laws keeps_safe_fields keeps_validate_subject keeps_stage_request)

lemma keeps_require_approval: "keeps S (require_approval env r stage version digest reason)"
  unfolding require_approval_def
  by (intro act_laws keeps_safe_fields keeps_validate_subject keeps_stage_request)

lemma keeps_require_delivery_binding: "keeps S (require_delivery_binding env r)"
  unfolding require_delivery_binding_def Let_def by (intro act_laws)

lemma keeps_initial_policy: "keeps S (save_initial_control_policy env r mode gates moment)"
  unfolding save_initial_control_policy_def Let_def by (intro act_laws runtime_laws)

lemmas approval_laws = keeps_safe_fields keeps_validate_subject keeps_stage_request keeps_prepare
  keeps_require_approval keeps_require_delivery_binding keeps_initial_policy

lemma configure_control_evolves: "keeps T (configure_control env rid mode gates)"
  unfolding configure_control_def by (intro unit_law act_laws runtime_laws approval_laws)

lemma ensure_approval_evolves: "keeps T (ensure_approval env rid stage version digest reason)"
  unfolding ensure_approval_def safe_fields_def
  by (intro service_laws act_laws runtime_laws approval_laws)

lemma decide_approval_evolves: "keeps T (decide_approval env rid qid decision actor digest reason)"
  unfolding decide_approval_def safe_fields_def Let_def set_approval_actor_status_def
  by (intro service_laws act_laws runtime_laws approval_laws)

end

end
