(* ===== verification/Orq_Scheduler.thy ===== *)
theory Orq_Scheduler
  imports Orq_Contracts Orq_Float Orq_Samples
begin

text \<open>
  \<^verbatim>\<open>core/scheduler.py\<close>: which tasks of a plan are ready, which of them one dispatch wave starts,
  the completion percentage, and the dependency order of the tasks. A dependency on a task the
  plan does not have raises \<^verbatim>\<open>KeyError\<close> in the code, hence the sum results; on validated plans
  it does not happen (\<open>ready_tasks_valid\<close>).
\<close>

definition write_roles :: "agent_role list" where
  "write_roles = [ROLE_DEVELOPER, ROLE_TESTER, ROLE_DOCUMENTATION]"

definition prerequisites :: "task_plan \<Rightarrow> uuid \<Rightarrow> uuid list" where
  "prerequisites p i = map dep_on (filter (\<lambda>e. dep_task e = i) (plan_deps p))"

definition succeeded_ids :: "task_plan \<Rightarrow> uuid list" where
  "succeeded_ids p = map task_id (filter (\<lambda>t. task_status t = TS_SUCCEEDED) (plan_tasks p))"

definition ready_list :: "task_plan \<Rightarrow> task list" where
  "ready_list p = filter (\<lambda>t. (task_status t = TS_PENDING \<or> task_status t = TS_READY)
     \<and> set (prerequisites p (task_id t)) \<subseteq> set (succeeded_ids p)) (plan_tasks p)"

definition ready_tasks :: "task_plan \<Rightarrow> err + task list" where
  "ready_tasks p = (if \<exists>e \<in> set (plan_deps p). dep_task e \<notin> set (task_ids p) then Inl KeyErr
     else Inr (ready_list p))"

text \<open>The selection loop of \<^verbatim>\<open>dispatch_wave\<close>: free slots, whether a writer is active, ready tasks.\<close>

fun dispatch_loop :: "nat \<Rightarrow> bool \<Rightarrow> task list \<Rightarrow> task list" where
  "dispatch_loop free writer [] = []"
| "dispatch_loop free writer (t # ts) =
     (if free = 0 then []
      else if task_role t \<in> set write_roles then
        if writer then dispatch_loop free writer ts else t # dispatch_loop (free - 1) True ts
      else t # dispatch_loop (free - 1) writer ts)"

definition running_tasks :: "task_plan \<Rightarrow> task list" where
  "running_tasks p = filter (\<lambda>t. task_status t = TS_RUNNING) (plan_tasks p)"

definition dispatch_wave :: "task_plan \<Rightarrow> int \<Rightarrow> err + task list" where
  "dispatch_wave p capacity =
     (if capacity < 1 then Inr []
      else case ready_tasks p of Inl e \<Rightarrow> Inl e
        | Inr ready \<Rightarrow> Inr (dispatch_loop (nat (max 0 (capacity - int (length (running_tasks p)))))
            (\<exists>t \<in> set (running_tasks p). task_role t \<in> set write_roles) ready))"

text \<open>\<^verbatim>\<open>100 * succeeded / total\<close> over floats; the weights of a valid task are positive.\<close>

definition plan_completion :: "task_plan \<Rightarrow> rat" where
  "plan_completion p =
     (let total = float_sum (map task_weight (plan_tasks p));
          succeeded = float_sum (map task_weight (filter (\<lambda>t. task_status t = TS_SUCCEEDED) (plan_tasks p)))
      in fl (fl (100 * succeeded) / total))"

definition ordered_tasks :: "task_plan \<Rightarrow> err + task list" where
  "ordered_tasks p =
     (if \<exists>e \<in> set (plan_deps p). dep_task e \<notin> set (task_ids p) then Inl KeyErr
      else case static_order (plan_graph p) of None \<Rightarrow> Inl ValueErr
        | Some ids \<Rightarrow>
           if \<exists>i \<in> set ids. i \<notin> set (task_ids p) then Inl KeyErr
           else Inr (map (\<lambda>i. the (map_of (map (\<lambda>t. (task_id t, t)) (plan_tasks p)) i)) ids))"

section \<open>Ready tasks\<close>

lemma ready_tasks_valid: "plan_well_formed p \<Longrightarrow> ready_tasks p = Inr (ready_list p)"
  by (auto simp: ready_tasks_def plan_well_formed_def)

lemma ready_tasks_Inr: "ready_tasks p = Inr ts \<Longrightarrow> ts = ready_list p"
  by (auto simp: ready_tasks_def split: if_splits)

lemma ready_list_subset: "set (ready_list p) \<subseteq> set (plan_tasks p)"
  by (auto simp: ready_list_def)

lemma mem_succeeded_ids: "i \<in> set (succeeded_ids p) \<longleftrightarrow>
    (\<exists>t \<in> set (plan_tasks p). task_id t = i \<and> task_status t = TS_SUCCEEDED)"
  by (auto simp: succeeded_ids_def)

lemma mem_prerequisites: "q \<in> set (prerequisites p i) \<longleftrightarrow> (\<exists>e \<in> set (plan_deps p). dep_task e = i \<and> dep_on e = q)"
  by (auto simp: prerequisites_def)

lemma mem_ready_list: "t \<in> set (ready_list p) \<longleftrightarrow> t \<in> set (plan_tasks p)
    \<and> (task_status t = TS_PENDING \<or> task_status t = TS_READY)
    \<and> (\<forall>e \<in> set (plan_deps p). dep_task e = task_id t \<longrightarrow>
         (\<exists>s \<in> set (plan_tasks p). task_id s = dep_on e \<and> task_status s = TS_SUCCEEDED))"
proof -
  have "set (prerequisites p (task_id t)) \<subseteq> set (succeeded_ids p) \<longleftrightarrow>
      (\<forall>e \<in> set (plan_deps p). dep_task e = task_id t \<longrightarrow> dep_on e \<in> set (succeeded_ids p))"
    by (auto simp: prerequisites_def)
  then show ?thesis by (auto simp: ready_list_def mem_succeeded_ids)
qed

text \<open>
  In a validated plan, some task is ready unless every task has succeeded or some task is active
  or ended another way: follow the dependencies of an unfinished task backwards.
\<close>

lemma some_task_ready:
  assumes wf: "plan_well_formed p"
    and fresh: "\<forall>t \<in> set (plan_tasks p). task_status t \<in> {TS_PENDING, TS_READY, TS_SUCCEEDED}"
    and left: "t \<in> set (plan_tasks p)" "task_status t \<noteq> TS_SUCCEEDED"
  shows "ready_list p \<noteq> []"
proof -
  let ?E = "(\<lambda>e. (dep_on e, dep_task e)) ` set (plan_deps p)"
  let ?U = "{i. \<exists>t \<in> set (plan_tasks p). task_id t = i \<and> task_status t \<noteq> TS_SUCCEEDED}"
  have "wf ?E" using wf by (intro finite_acyclic_wf) (auto simp: plan_well_formed_def)
  moreover have "task_id t \<in> ?U" using left by auto
  ultimately obtain m where "m \<in> ?U" and least: "\<And>q. (q, m) \<in> ?E \<Longrightarrow> q \<notin> ?U"
    by (rule wfE_min) blast
  then obtain s where s: "s \<in> set (plan_tasks p)" "task_id s = m" "task_status s \<noteq> TS_SUCCEEDED" by auto
  have "\<exists>q \<in> set (plan_tasks p). task_id q = dep_on e \<and> task_status q = TS_SUCCEEDED"
    if e: "e \<in> set (plan_deps p)" "dep_task e = m" for e
  proof -
    from e wf obtain q where q: "q \<in> set (plan_tasks p)" "task_id q = dep_on e"
      by (fastforce simp: plan_well_formed_def)
    have "(dep_on e, m) \<in> ?E" using e by force
    from least [OF this] q show ?thesis by auto
  qed
  with s fresh have "s \<in> set (ready_list p)" by (auto simp: mem_ready_list)
  then show ?thesis by auto
qed

section \<open>Dispatch waves\<close>

lemma dispatch_loop_subseq: "subseq (dispatch_loop free writer ts) ts"
  by (induction free writer ts rule: dispatch_loop.induct) auto

lemma dispatch_loop_length: "length (dispatch_loop free writer ts) \<le> free"
  by (induction free writer ts rule: dispatch_loop.induct) auto

definition writers :: "task list \<Rightarrow> task list" where
  "writers ts = filter (\<lambda>t. task_role t \<in> set write_roles) ts"

lemma dispatch_loop_writers: "length (writers (dispatch_loop free writer ts)) \<le> (if writer then 0 else 1)"
  by (induction free writer ts rule: dispatch_loop.induct) (auto simp: writers_def)

lemma dispatch_loop_nonempty: "0 < free \<Longrightarrow> \<not> writer \<Longrightarrow> ts \<noteq> [] \<Longrightarrow> dispatch_loop free writer ts \<noteq> []"
  by (cases ts) auto

lemma dispatch_wave_cases:
  assumes "dispatch_wave p capacity = Inr wave"
  shows "capacity < 1 \<and> wave = [] \<or>
    wave = dispatch_loop (nat (max 0 (capacity - int (length (running_tasks p)))))
      (\<exists>t \<in> set (running_tasks p). task_role t \<in> set write_roles) (ready_list p)"
  using assms by (auto simp: dispatch_wave_def dest: ready_tasks_Inr split: if_splits sum.splits)

section \<open>Dependency order\<close>

lemma map_of_tasks: "distinct (map task_id ts) \<Longrightarrow> t \<in> set ts \<Longrightarrow> map_of (map (\<lambda>t. (task_id t, t)) ts) (task_id t) = Some t"
  by (intro map_of_is_SomeI) (auto simp: comp_def)

lemma map_of_tasks_id: "i \<in> set (map task_id ts) \<Longrightarrow> task_id (the (map_of (map (\<lambda>t. (task_id t, t)) ts) i)) = i
    \<and> the (map_of (map (\<lambda>t. (task_id t, t)) ts) i) \<in> set ts"
  by (induction ts) auto

lemma ordered_tasks_valid:
  assumes "plan_well_formed p"
  shows "\<exists>ts. ordered_tasks p = Inr ts \<and> distinct (map task_id ts) \<and> set ts = set (plan_tasks p)
    \<and> ordered_after (plan_graph p) {} (map task_id ts)"
proof -
  have dist: "distinct (task_ids p)" and heads: "\<forall>e \<in> set (plan_deps p). dep_task e \<in> set (task_ids p)"
    and known: "\<forall>e \<in> set (plan_deps p). dep_on e \<in> set (task_ids p)"
    using assms by (auto simp: plan_well_formed_def)
  from assms validate_dag_iff [of p p] obtain ids where ids: "static_order (plan_graph p) = Some ids"
    by (auto simp: validate_dag_def split: if_splits option.splits)
  note order = static_order_sound [OF ids]
  let ?task = "\<lambda>i. the (map_of (map (\<lambda>t. (task_id t, t)) (plan_tasks p)) i)"
  have set_ids: "set ids = set (task_ids p)" using order(2) set_plan_graph_nodes [OF known] by simp
  have ids_inv: "map task_id (map ?task ids) = ids"
    using map_of_tasks_id [of _ "plan_tasks p"] by (simp add: comp_def, intro map_idI) (metis set_ids)
  have "set (map ?task ids) = ?task ` (task_id ` set (plan_tasks p))" using set_ids by auto
  also have "\<dots> = set (plan_tasks p)" using map_of_tasks [OF dist] by force
  finally have "set (map ?task ids) = set (plan_tasks p)" .
  moreover have "ordered_tasks p = Inr (map ?task ids)"
    using ids set_ids heads by (auto simp: ordered_tasks_def)
  ultimately show ?thesis using order(1,3) ids_inv by metis
qed

section \<open>Properties\<close>

lemma sample_plan_wf: "plan_well_formed sample_plan"
proof -
  have "isl (validate_dag sample_plan) = False" by code_simp
  then obtain q where "validate_dag sample_plan = Inr q" by (cases "validate_dag sample_plan") auto
  then show ?thesis by (simp add: validate_dag_iff)
qed

lemma sample_plan_ready: "ready_list sample_plan = [sample_task 10 ROLE_DEVELOPER TS_PENDING, sample_task 12 ROLE_REVIEWER TS_PENDING]"
  by (simp add: ready_list_def sample_defs prerequisites_def succeeded_ids_def)

text \<open>
  C4: the ready tasks of a valid plan are exactly its pending or ready tasks all of whose
  prerequisites have succeeded, in plan order; \<^verbatim>\<open>ready_tasks\<close> does not raise.
\<close>
theorem ready_tasks_exact:
  assumes "plan_well_formed p"
  shows "\<exists>ts. ready_tasks p = Inr ts \<and> subseq ts (plan_tasks p) \<and>
    (\<forall>t. t \<in> set ts \<longleftrightarrow> t \<in> set (plan_tasks p) \<and> (task_status t = TS_PENDING \<or> task_status t = TS_READY)
       \<and> (\<forall>e \<in> set (plan_deps p). dep_task e = task_id t \<longrightarrow>
            (\<exists>s \<in> set (plan_tasks p). task_id s = dep_on e \<and> task_status s = TS_SUCCEEDED)))"
  using ready_tasks_valid [OF assms] mem_ready_list by (auto simp: ready_list_def)

theorem ready_tasks_exact_witness:
  "\<exists>ts. ready_tasks sample_plan = Inr ts \<and> subseq ts (plan_tasks sample_plan)"
  using ready_tasks_exact [OF sample_plan_wf] by blast

lemma writers_append: "writers (xs @ ys) = writers xs @ writers ys"
  by (simp add: writers_def)

lemma no_writer_iff: "writers ts = [] \<longleftrightarrow> \<not> (\<exists>t \<in> set ts. task_role t \<in> set write_roles)"
  by (auto simp: writers_def filter_empty_conv)

text \<open>
  C2: a dispatch wave is safe. Whatever the plan and the capacity, the tasks a wave starts are
  ready ones in plan order, running and started tasks together stay within the capacity (unless it
  was already exceeded), and when a task of a writing role is running or started, there is no
  second one: two writers never share the workspace.
\<close>
theorem dispatch_wave_safe:
  assumes "dispatch_wave p capacity = Inr wave"
  shows "subseq wave (ready_list p)
    \<and> int (length (running_tasks p @ wave)) \<le> max capacity (int (length (running_tasks p)))
    \<and> length (writers (running_tasks p @ wave)) \<le> max 1 (length (writers (running_tasks p)))"
proof -
  let ?free = "nat (max 0 (capacity - int (length (running_tasks p))))"
  let ?active = "\<exists>t \<in> set (running_tasks p). task_role t \<in> set write_roles"
  from dispatch_wave_cases [OF assms] consider "wave = []" | (loop) "wave = dispatch_loop ?free ?active (ready_list p)"
    by blast
  then show ?thesis
  proof cases
    case loop
    have "length (writers wave) \<le> (if ?active then 0 else 1)" using dispatch_loop_writers loop by blast
    then have "length (writers (running_tasks p @ wave)) \<le> max 1 (length (writers (running_tasks p)))"
      by (cases ?active) (simp_all add: writers_append no_writer_iff [THEN iffD2])
    moreover have "length wave \<le> ?free" using loop dispatch_loop_length by blast
    then have "int (length (running_tasks p @ wave)) \<le> max capacity (int (length (running_tasks p)))" by simp
    ultimately show ?thesis using loop dispatch_loop_subseq by blast
  qed simp
qed

theorem dispatch_wave_safe_witness:
  "dispatch_wave sample_plan 2 = Inr [sample_task 10 ROLE_DEVELOPER TS_PENDING, sample_task 12 ROLE_REVIEWER TS_PENDING]
   \<and> length (writers (running_tasks sample_plan @ [sample_task 10 ROLE_DEVELOPER TS_PENDING, sample_task 12 ROLE_REVIEWER TS_PENDING])) \<le> 1"
proof -
  have run: "running_tasks sample_plan = []" by (simp add: running_tasks_def sample_defs)
  have wave: "dispatch_wave sample_plan 2 =
      Inr [sample_task 10 ROLE_DEVELOPER TS_PENDING, sample_task 12 ROLE_REVIEWER TS_PENDING]"
    by (simp add: dispatch_wave_def ready_tasks_valid [OF sample_plan_wf] sample_plan_ready run)
      (simp add: sample_task_def write_roles_def)
  from dispatch_wave_safe [OF wave] wave show ?thesis by (simp add: run writers_def)
qed

text \<open>
  C3: the scheduler does not stall. With a positive capacity, a valid plan none of whose tasks is
  running, waiting, blocked, failed, cancelled or skipped always has a task to start, until every
  task has succeeded.
\<close>
theorem dispatch_wave_progress:
  assumes "plan_well_formed p" and "1 \<le> capacity"
    and "\<forall>t \<in> set (plan_tasks p). task_status t \<in> {TS_PENDING, TS_READY, TS_SUCCEEDED}"
    and "\<exists>t \<in> set (plan_tasks p). task_status t \<noteq> TS_SUCCEEDED"
  shows "\<exists>wave. dispatch_wave p capacity = Inr wave \<and> wave \<noteq> []"
proof -
  have "running_tasks p = []" using assms(3) by (auto simp: running_tasks_def filter_empty_conv)
  moreover have "ready_list p \<noteq> []" using assms some_task_ready by blast
  ultimately show ?thesis
    using assms(2) ready_tasks_valid [OF assms(1)] dispatch_loop_nonempty [of "nat capacity" False "ready_list p"]
    by (simp add: dispatch_wave_def)
qed

theorem dispatch_wave_progress_witness: "\<exists>wave. dispatch_wave sample_plan 1 = Inr wave \<and> wave \<noteq> []"
  by (rule dispatch_wave_progress [OF sample_plan_wf]) (auto simp: sample_plan_def sample_task_def)

text \<open>
  C5: the dependency order of a valid plan is a permutation of its tasks in which every task
  comes after all its prerequisites.
\<close>
theorem ordered_tasks_topological:
  assumes "plan_well_formed p"
  shows "\<exists>ts. ordered_tasks p = Inr ts \<and> distinct ts \<and> set ts = set (plan_tasks p)
    \<and> ordered_after (plan_graph p) {} (map task_id ts)"
  using ordered_tasks_valid [OF assms] by (auto simp: distinct_map)

theorem ordered_tasks_topological_witness:
  "\<exists>ts. ordered_tasks sample_plan = Inr ts \<and> set ts = set (plan_tasks sample_plan)"
  using ordered_tasks_topological [OF sample_plan_wf] by blast

end
