(* ===== verification/Orq_Tasks.thy ===== *)
theory Orq_Tasks
  imports Orq_Approvals Orq_Scheduler
begin

text \<open>
  \<^verbatim>\<open>core/task_runtime.py\<close>: pending tasks whose prerequisites have succeeded become ready; a ready
  task is started, as a new attempt by a new agent; an attempt moves between running, waiting and
  blocked until it succeeds, fails or is cancelled, and its task and agent move with it.
\<close>

definition task_transitions :: "task_status \<Rightarrow> task_status list" where
  "task_transitions s =
     (if s = TS_RUNNING then [TS_WAITING, TS_BLOCKED, TS_SUCCEEDED, TS_FAILED, TS_CANCELLED]
      else if s = TS_WAITING then [TS_RUNNING, TS_BLOCKED, TS_FAILED, TS_CANCELLED]
      else if s = TS_BLOCKED then [TS_RUNNING, TS_FAILED, TS_CANCELLED]
      else [])"

fun task_event :: "task_status \<Rightarrow> event_type option" where
  "task_event TS_RUNNING = Some EV_TASK_STARTED"
| "task_event TS_WAITING = Some EV_TASK_WAITING"
| "task_event TS_BLOCKED = Some EV_TASK_BLOCKED"
| "task_event TS_SUCCEEDED = Some EV_TASK_COMPLETED"
| "task_event TS_FAILED = Some EV_TASK_FAILED"
| "task_event TS_CANCELLED = Some EV_TASK_CANCELLED"
| "task_event _ = None"

fun attempt_actor_status :: "task_status \<Rightarrow> actor_status option" where
  "attempt_actor_status TS_RUNNING = Some ACT_WORKING"
| "attempt_actor_status TS_WAITING = Some ACT_WAITING_FOR_DEPENDENCY"
| "attempt_actor_status TS_BLOCKED = Some ACT_BLOCKED"
| "attempt_actor_status TS_SUCCEEDED = Some ACT_COMPLETE"
| "attempt_actor_status TS_FAILED = Some ACT_FAILED"
| "attempt_actor_status TS_CANCELLED = Some ACT_CANCELLED"
| "attempt_actor_status _ = None"

definition execution_states :: "run_state list" where
  "execution_states = [RS_ANALYZING, RS_MEMORY_FINALIZATION, RS_DELIVERY_VALIDATION, RS_COMMITTING, RS_PUSHING,
     RS_EXECUTING, RS_TESTING, RS_REVIEWING, RS_DOCUMENTING, RS_CHANGE_GUARD]"

definition active_attempt :: "task_status \<Rightarrow> bool" where
  "active_attempt s \<longleftrightarrow> s = TS_RUNNING \<or> s = TS_WAITING \<or> s = TS_BLOCKED"

definition attempt_done :: "task_status \<Rightarrow> bool" where
  "attempt_done s \<longleftrightarrow> s = TS_SUCCEEDED \<or> s = TS_FAILED \<or> s = TS_CANCELLED"

text \<open>A sum value in a program.\<close>

definition result_of :: "err + 'a \<Rightarrow> ('s, 'a) prog" where
  "result_of r = (case r of Inl e \<Rightarrow> raise_err e | Inr x \<Rightarrow> ret x)"

lemma result_of_returns: "result_of r s = (Inr x, t) \<longleftrightarrow> r = Inr x \<and> t = s"
  by (auto simp: result_of_def prog_simps split: sum.splits)

definition refresh_ready :: "env \<Rightarrow> run \<Rightarrow> string \<Rightarrow> time \<Rightarrow> unit act" where
  "refresh_ready env r key now = bnd (get_plan (run_id r) (run_plan_version r)) (\<lambda>plan.
     case plan of None \<Rightarrow> ret ()
     | Some p \<Rightarrow> bnd (result_of (ready_tasks p)) (\<lambda>ready.
         for_each ready (\<lambda>t.
           if task_status t = TS_PENDING then
             bnd (save_task (t\<lparr>task_status := TS_READY, task_ready := Some now\<rparr>)) (\<lambda>_.
             bnd (emit env r EV_TASK_READY (key @ '':ready:'' @ uuid_str (task_id t)) now (status_payload ''READY'')
               None (Some (task_id t)) None) (\<lambda>_. ret ()))
           else ret ())))"

section \<open>Starting a task\<close>

definition requirements_candidate :: "uuid \<Rightarrow> task \<Rightarrow> bool" where
  "requirements_candidate tid t \<longleftrightarrow> task_id t = tid \<and> task_role t = ROLE_REQUIREMENTS \<and> task_plan_version t = 0
     \<and> (task_status t = TS_READY \<or> task_status t = TS_PENDING)"

text \<open>The task to start: the requirements task while analyzing, else a ready task of the current plan.\<close>

definition startable_task :: "run \<Rightarrow> task_plan option \<Rightarrow> uuid \<Rightarrow> task act" where
  "startable_task r plan tid =
     bnd (if run_state r = RS_ANALYZING then
            bnd (run_tasks (run_id r)) (\<lambda>ts.
            bnd (deny (run_goal r \<noteq> None) Conflict) (\<lambda>_. ret (find (requirements_candidate tid) ts)))
          else bnd (the_or Conflict (case plan of None \<Rightarrow> None
                 | Some p \<Rightarrow> if Some (plan_goal p) \<noteq> run_goal r then None else Some p)) (\<lambda>p.
               bnd (result_of (ready_tasks p)) (\<lambda>ts. ret (find (\<lambda>t. task_id t = tid) ts)))) (\<lambda>found.
     the_or Conflict found)"

definition task_gate :: "env \<Rightarrow> run \<Rightarrow> task \<Rightarrow> unit act" where
  "task_gate env r t = bnd (approvals_policy (run_id r)) (\<lambda>control.
     if control = None \<or> \<not> requires (the control) STAGE_TASK then ret ()
     else if run_state r = RS_ANALYZING then
       require_approval env r STAGE_TASK (run_plan_version r) (requirements_task_subject env t)
         (task_approval_reason env t None)
     else bnd (execution_workspace (run_id r)) (\<lambda>ws.
       bnd (the_or PolicyDenied ws) (\<lambda>w.
       require_approval env r STAGE_TASK (run_plan_version r) (task_subject env t (ws_policy w))
         (task_approval_reason env t (Some (ws_policy w))))))"

definition other_writer :: "task_plan option \<Rightarrow> task \<Rightarrow> bool" where
  "other_writer plan t \<longleftrightarrow> task_role t \<in> set write_roles \<and>
     (case plan of None \<Rightarrow> False
      | Some p \<Rightarrow> \<exists>q \<in> set (plan_tasks p). task_role q \<in> set write_roles \<and> active_attempt (task_status q))"

definition new_agent :: "uuid \<Rightarrow> string \<Rightarrow> task \<Rightarrow> time \<Rightarrow> actor_session" where
  "new_agent rid key t now = \<lparr>actor_id = uuid5 rid (key @ '':actor''), actor_created = now, actor_run = rid,
     actor_kind = AGENT, actor_role = Some (task_role t), actor_provider = None, actor_model = None,
     actor_status = ACT_WORKING, actor_task = Some (task_id t), actor_started = now, actor_completed = None,
     actor_working_ms = 0, actor_waiting_ms = 0, actor_blocked_ms = 0, actor_skills = [],
     actor_tools = [], actor_attempted = 1, actor_succeeded = 0, actor_failed = 0\<rparr>"

definition new_attempt :: "uuid \<Rightarrow> string \<Rightarrow> task \<Rightarrow> time \<Rightarrow> task_execution" where
  "new_attempt rid key t now = (let ready = (case task_ready t of None \<Rightarrow> now | Some m \<Rightarrow> m) in
     \<lparr>exec_id = uuid5 rid (key @ '':attempt''), exec_created = now, exec_run = rid, exec_task = task_id t,
      exec_attempt = Suc (task_attempts t), exec_actor = uuid5 rid (key @ '':actor''), exec_ready = Some ready,
      exec_started = Some now, exec_completed = None, exec_status = TS_RUNNING,
      exec_queue_ms = elapsed_ms ready now, exec_active_ms = 0, exec_waiting_ms = 0, exec_blocked_ms = 0,
      exec_result = None\<rparr>)"

definition begin_attempt :: "env \<Rightarrow> run \<Rightarrow> task \<Rightarrow> string \<Rightarrow> task_execution act" where
  "begin_attempt env r t key = bnd (utc_now env) (\<lambda>now.
     let a = new_agent (run_id r) key t now; x = new_attempt (run_id r) key t now in
     bnd (save_actor a) (\<lambda>_.
     bnd (save_execution x) (\<lambda>_.
     bnd (save_task (t\<lparr>task_status := TS_RUNNING, task_started := Some now, task_attempts := exec_attempt x\<rparr>)) (\<lambda>_.
     bnd (emit env r EV_ACTOR_STARTED (key @ '':actor'') now (status_payload ''WORKING'')
       (Some (actor_id a)) (Some (task_id t)) (Some (exec_id x))) (\<lambda>_.
     bnd (emit env r EV_TASK_STARTED (key @ '':task'') now (status_payload ''RUNNING'')
       (Some (actor_id a)) (Some (task_id t)) (Some (exec_id x))) (\<lambda>_.
     bnd (orchestrator_actor env r now) (\<lambda>coordinator.
     bnd (set_actor_status env r coordinator ACT_WAITING_FOR_DEPENDENCY (key @ '':coordinator'') now) (\<lambda>_.
     bnd (commit env) (\<lambda>_. ret x)))))))))"

definition start_task :: "env \<Rightarrow> uuid \<Rightarrow> uuid \<Rightarrow> string \<Rightarrow> task_execution act" where
  "start_task env rid tid key = bnd (require_key key) (\<lambda>_.
     with_uow (bnd (locked_run rid) (\<lambda>r.
       bnd (events_by_key rid (key @ '':task'')) (\<lambda>existing. case existing of
         Some e \<Rightarrow> bnd (deny (event_task e \<noteq> Some tid \<or> event_kind e \<noteq> EV_TASK_STARTED) Conflict) (\<lambda>_.
           bnd (run_executions rid) (\<lambda>xs.
           the_or StopIter (find (\<lambda>x. Some (exec_id x) = event_execution e) xs)))
       | None \<Rightarrow>
           bnd (deny (run_state r \<notin> set execution_states) Conflict) (\<lambda>_.
           bnd (get_plan rid (run_plan_version r)) (\<lambda>plan.
           bnd (startable_task r plan tid) (\<lambda>t.
           bnd (task_gate env r t) (\<lambda>_.
           bnd (deny (other_writer plan t) Conflict) (\<lambda>_.
           begin_attempt env r t key)))))))))"

section \<open>Moving an attempt\<close>

definition apply_transition :: "env \<Rightarrow> run \<Rightarrow> task_execution \<Rightarrow> task \<Rightarrow> actor_session \<Rightarrow> task_status \<Rightarrow> string \<Rightarrow> time
    \<Rightarrow> task_execution act" where
  "apply_transition env r x t a status key now =
     bnd (the_or KeyErr (task_event status)) (\<lambda>kind.
     bnd (emit env r kind (key @ '':task'') now
       (change_payload (task_status_str (exec_status x)) (task_status_str status))
       (Some (actor_id a)) (Some (task_id t)) (Some (exec_id x))) (\<lambda>e.
     bnd (events_list (run_id r)) (\<lambda>es.
     let timing = timing_task es (exec_id x) (event_at e);
         ended = (if attempt_done status then Some (event_at e) else None);
         y = x\<lparr>exec_status := status, exec_completed := ended, exec_active_ms := active_ms timing,
               exec_waiting_ms := waiting_ms timing, exec_blocked_ms := blocked_ms timing\<rparr>;
         b = a\<lparr>actor_succeeded := (if status = TS_SUCCEEDED then 1 else 0),
               actor_failed := (if status = TS_FAILED then 1 else 0),
               actor_task := (if attempt_done status then None else Some (task_id t))\<rparr> in
     bnd (save_execution y) (\<lambda>_.
     bnd (save_task (t\<lparr>task_status := status, task_completed := ended\<rparr>)) (\<lambda>_.
     bnd (the_or KeyErr (attempt_actor_status status)) (\<lambda>astatus.
     bnd (set_actor_status env r b astatus (key @ '':actor'') (event_at e)) (\<lambda>_.
     bnd (if attempt_done status then
            bnd (run_executions (run_id r)) (\<lambda>xs.
            bnd (orchestrator_actor env r (event_at e)) (\<lambda>coordinator.
            bnd (set_actor_status env r coordinator
              (if \<exists>z \<in> set xs. active_attempt (exec_status z) then ACT_WAITING_FOR_DEPENDENCY else ACT_WORKING)
              (key @ '':coordinator'') (event_at e)) (\<lambda>_. ret ())))
          else ret ()) (\<lambda>_.
     bnd (if status = TS_SUCCEEDED then refresh_ready env r key (event_at e) else ret ()) (\<lambda>_.
     ret y)))))))))"

definition transition_in_transaction :: "env \<Rightarrow> run \<Rightarrow> uuid \<Rightarrow> task_status \<Rightarrow> string \<Rightarrow> time \<Rightarrow> task_execution act" where
  "transition_in_transaction env r xid status key now =
     bnd (run_executions (run_id r)) (\<lambda>xs.
     bnd (the_or NotFound (find (\<lambda>x. exec_id x = xid) xs)) (\<lambda>x.
     bnd (events_by_key (run_id r) (key @ '':task'')) (\<lambda>existing. case existing of
       Some e \<Rightarrow> bnd (deny (event_execution e \<noteq> Some xid
           \<or> pl_status (event_payload e) \<noteq> Some (task_status_str status)) Conflict) (\<lambda>_. ret x)
     | None \<Rightarrow>
         bnd (deny (status \<notin> set (task_transitions (exec_status x))) Conflict) (\<lambda>_.
         bnd (run_tasks (run_id r)) (\<lambda>ts.
         bnd (the_or StopIter (find (\<lambda>t. task_id t = exec_task x) ts)) (\<lambda>t.
         bnd (run_actors (run_id r)) (\<lambda>acs.
         bnd (the_or StopIter (find (\<lambda>a. actor_id a = exec_actor x) acs)) (\<lambda>a.
         apply_transition env r x t a status key now))))))))"

definition transition_task :: "env \<Rightarrow> uuid \<Rightarrow> uuid \<Rightarrow> task_status \<Rightarrow> string \<Rightarrow> task_execution act" where
  "transition_task env rid xid status key = bnd (require_key key) (\<lambda>_.
     with_uow (bnd (locked_run rid) (\<lambda>r.
       bnd (deny (run_state r \<notin> set execution_states \<and> status \<noteq> TS_CANCELLED) Conflict) (\<lambda>_.
       bnd (utc_now env) (\<lambda>now.
       bnd (transition_in_transaction env r xid status key now) (\<lambda>x.
       bnd (commit env) (\<lambda>_. ret x)))))))"

context repository_contract
begin

lemma keeps_result_of: "keeps S (result_of r)"
  unfolding result_of_def by (intro act_laws)

lemma keeps_refresh_ready: "keeps S (refresh_ready env r key now)"
  unfolding refresh_ready_def by (intro act_laws runtime_laws keeps_result_of)

lemma keeps_transition: "keeps S (transition_in_transaction env r xid status key now)"
  unfolding transition_in_transaction_def apply_transition_def Let_def
  by (intro act_laws runtime_laws keeps_refresh_ready)

lemma keeps_start: "keeps S (startable_task r plan tid)" "keeps S (task_gate env r t)"
  "keeps S (begin_attempt env r t key)"
  unfolding startable_task_def task_gate_def begin_attempt_def Let_def
  by (intro act_laws runtime_laws keeps_result_of approval_laws)+

lemmas task_laws = keeps_result_of keeps_refresh_ready keeps_transition keeps_start

lemma start_task_evolves: "keeps T (start_task env rid tid key)"
  unfolding start_task_def require_key_def by (intro service_laws act_laws runtime_laws task_laws)

lemma transition_task_evolves: "keeps T (transition_task env rid xid status key)"
  unfolding transition_task_def require_key_def by (intro service_laws act_laws runtime_laws task_laws)

end

end
