(* ===== verification/Orq_Gates.thy ===== *)
theory Orq_Gates
  imports Orq_Approvals
begin

text \<open>
  \<^verbatim>\<open>delivery/gates.py\<close>: what must be on record before a run may enter a delivery stage, up to
  completion. Each stage adds its conditions to those of the stages before it.
\<close>

definition delivery_stages :: "run_state list" where
  "delivery_stages = [RS_CHANGE_GUARD, RS_DOCUMENTING, RS_DELIVERY_VALIDATION, RS_COMMITTING, RS_PUSHING,
     RS_MEMORY_FINALIZATION, RS_COMPLETED]"

definition blocking_worker_finding :: "finding \<Rightarrow> bool" where
  "blocking_worker_finding f \<longleftrightarrow> find_category f = ''external_worker'' \<and> find_severity f = SEV_BLOCKING \<and> find_open f"

definition review_accepts :: "run \<Rightarrow> review_record list \<Rightarrow> bool" where
  "review_accepts r reviews \<longleftrightarrow> reviews \<noteq> [] \<and> rr_pass (rev_result (last reviews)) \<and> Some (rev_goal (last reviews)) = run_goal r"

definition implementation_certified :: "review_record list \<Rightarrow> change_report list \<Rightarrow> bool" where
  "implementation_certified reviews reports \<longleftrightarrow>
     (let implementation = filter (\<lambda>p. rep_checkpoint p = CP_IMPLEMENTATION) reports in
      implementation \<noteq> [] \<and> rep_passed (last implementation) \<and> rep_tree (last implementation) = rev_tree (last reviews))"

definition final_reports :: "change_report list \<Rightarrow> change_report list" where
  "final_reports reports = filter (\<lambda>p. rep_checkpoint p = CP_FINAL) reports"

definition final_certified :: "run \<Rightarrow> final_validation list \<Rightarrow> change_report list \<Rightarrow> bool" where
  "final_certified r validations reports \<longleftrightarrow> validations \<noteq> [] \<and> fv_passed (last validations)
     \<and> Some (fv_goal (last validations)) = run_goal r \<and> final_reports reports \<noteq> []
     \<and> rep_passed (last (final_reports reports))
     \<and> rep_tree (last (final_reports reports)) = fv_tree (last validations)"

definition commit_attached :: "git_delivery option \<Rightarrow> change_report list \<Rightarrow> bool" where
  "commit_attached d reports \<longleftrightarrow> (case d of None \<Rightarrow> False
     | Some g \<Rightarrow> gd_attached g \<and> given (gd_commit g) \<and> gd_tree g = rep_tree (last (final_reports reports)))"

definition completion_guard :: "run \<Rightarrow> unit act" where
  "completion_guard r = bnd (events_by_key (run_id r) ''curation:promoted'') (\<lambda>promoted.
     bnd (deny (case promoted of None \<Rightarrow> True | Some e \<Rightarrow> pl_memory (event_payload e) = []) PolicyDenied) (\<lambda>_.
     bnd (get_plan (run_id r) (run_plan_version r)) (\<lambda>plan.
     deny (case plan of None \<Rightarrow> True
       | Some p \<Rightarrow> \<exists>t \<in> set (plan_tasks p). task_status t \<noteq> TS_SUCCEEDED \<and> task_status t \<noteq> TS_SKIPPED) PolicyDenied)))"

definition guard_delivery :: "run \<Rightarrow> run_state \<Rightarrow> unit act" where
  "guard_delivery r target = (let rid = run_id r in
     bnd (if target = RS_COMPLETED then completion_guard r else ret ()) (\<lambda>_.
     if target \<notin> set delivery_stages then ret ()
     else bnd (delivery_findings rid) (\<lambda>findings.
       bnd (deny (\<exists>f \<in> set findings. blocking_worker_finding f) PolicyDenied) (\<lambda>_.
       bnd (execution_reviews rid) (\<lambda>reviews.
       bnd (deny (\<not> review_accepts r reviews) PolicyDenied) (\<lambda>_.
       if target = RS_CHANGE_GUARD then ret ()
       else bnd (delivery_guardians rid) (\<lambda>reports.
         bnd (deny (\<not> implementation_certified reviews reports) PolicyDenied) (\<lambda>_.
         if target = RS_DOCUMENTING then ret ()
         else bnd (delivery_artifacts rid) (\<lambda>artifacts.
           bnd (deny (\<not> (\<exists>a \<in> set artifacts. art_type a = ''documentation'')) PolicyDenied) (\<lambda>_.
           if target = RS_DELIVERY_VALIDATION then ret ()
           else bnd (delivery_validations rid) (\<lambda>validations.
             bnd (deny (\<not> final_certified r validations reports) PolicyDenied) (\<lambda>_.
             if target = RS_COMMITTING then ret ()
             else bnd (delivery_get rid) (\<lambda>d.
               bnd (deny (\<not> commit_attached d reports) PolicyDenied) (\<lambda>_.
               bnd (deny (target = RS_PUSHING \<and> \<not> dp_push (gd_policy (the d))) PolicyDenied) (\<lambda>_.
               deny ((target = RS_MEMORY_FINALIZATION \<or> target = RS_COMPLETED)
                   \<and> dp_push (gd_policy (the d)) \<and> gd_push (the d) \<noteq> PUSH_PUSHED) PolicyDenied)))))))))))))))"

context repository_contract
begin

lemma keeps_guard_delivery: "keeps S (guard_delivery r target)"
  unfolding guard_delivery_def completion_guard_def Let_def by (intro act_laws)

end

end
