(* ===== verification/Orq_Lifecycle.thy ===== *)
theory Orq_Lifecycle
  imports Orq_Records
begin

text \<open>
  \<^verbatim>\<open>core/state_machine.py\<close>: the states a run may move between, the UI phase of each state, and
  \<^verbatim>\<open>validate_transition\<close>; with the bookkeeping of \<^verbatim>\<open>resume_state\<close> that \<^verbatim>\<open>Orchestrator.advance\<close>
  adds. \<open>lifecycle_step\<close> is the transition relation of (state, resume state) pairs the two give,
  \<open>lifecycle_replan\<close> what an installed goal replan does to it, and \<open>visits\<close> the states a run has
  been in. The lemmas say what a run must have been through to be where it is.
\<close>

definition run_sequence :: "run_state list" where
  "run_sequence = [RS_RECEIVED, RS_CONTEXT_SYNC, RS_ANALYZING, RS_GOAL_DEFINED, RS_PLANNED, RS_EXECUTING,
     RS_INTEGRATING, RS_TESTING, RS_REVIEWING, RS_CHANGE_GUARD, RS_DOCUMENTING, RS_DELIVERY_VALIDATION,
     RS_COMMITTING, RS_PUSHING, RS_MEMORY_FINALIZATION, RS_COMPLETED]"

definition terminal_states :: "run_state list" where
  "terminal_states = [RS_COMPLETED, RS_FAILED, RS_CANCELLED]"

text \<open>The chain of the sequence, the repair loop, and the commit that is not pushed.\<close>

definition transitions :: "run_state \<Rightarrow> run_state list" where
  "transitions s =
     (if s = RS_REPAIR_PLANNING then [RS_EXECUTING]
      else (case map_of (zip run_sequence (tl run_sequence)) s of None \<Rightarrow> [] | Some n \<Rightarrow> [n])
        @ (if s = RS_REVIEWING \<or> s = RS_CHANGE_GUARD then [RS_REPAIR_PLANNING] else [])
        @ (if s = RS_COMMITTING then [RS_MEMORY_FINALIZATION] else []))"

fun phase_of :: "run_state \<Rightarrow> ui_phase option" where
  "phase_of RS_RECEIVED = Some UI_CONTEXT"
| "phase_of RS_CONTEXT_SYNC = Some UI_CONTEXT"
| "phase_of RS_ANALYZING = Some UI_GOAL"
| "phase_of RS_GOAL_DEFINED = Some UI_GOAL"
| "phase_of RS_PLANNED = Some UI_PLAN"
| "phase_of RS_EXECUTING = Some UI_IMPLEMENT"
| "phase_of RS_INTEGRATING = Some UI_IMPLEMENT"
| "phase_of RS_TESTING = Some UI_TEST"
| "phase_of RS_REVIEWING = Some UI_REVIEW"
| "phase_of RS_REPAIR_PLANNING = Some UI_REPAIR"
| "phase_of RS_CHANGE_GUARD = Some UI_REVIEW"
| "phase_of RS_DOCUMENTING = Some UI_DOCS"
| "phase_of RS_DELIVERY_VALIDATION = Some UI_DELIVER"
| "phase_of RS_COMMITTING = Some UI_DELIVER"
| "phase_of RS_PUSHING = Some UI_DELIVER"
| "phase_of RS_MEMORY_FINALIZATION = Some UI_DELIVER"
| "phase_of RS_COMPLETED = Some UI_DELIVER"
| "phase_of _ = None"

definition suspended_states :: "run_state list" where
  "suspended_states = [RS_PAUSED, RS_BLOCKED, RS_HUMAN_REVIEW_REQUIRED]"

definition validate_transition :: "run_state \<Rightarrow> run_state \<Rightarrow> run_state option \<Rightarrow> err + unit" where
  "validate_transition previous target resume_state =
     (if previous \<in> set terminal_states then Inl Conflict
      else if target \<in> {RS_CANCELLED, RS_FAILED, RS_PAUSED, RS_BLOCKED, RS_HUMAN_REVIEW_REQUIRED} then
        if previous = target then Inl Conflict else Inr ()
      else if previous \<in> {RS_PAUSED, RS_BLOCKED, RS_HUMAN_REVIEW_REQUIRED} then
        if Some target \<noteq> resume_state then Inl Conflict else Inr ()
      else if target \<notin> set (transitions previous) then Inl Conflict
      else Inr ())"

text \<open>The resume state \<^verbatim>\<open>Orchestrator.advance\<close> stores with the new state.\<close>

definition next_resume :: "run_state \<Rightarrow> run_state \<Rightarrow> run_state option \<Rightarrow> run_state option" where
  "next_resume previous target resume_state =
     (if target \<in> set suspended_states \<and> previous \<notin> set suspended_states then Some previous
      else if previous \<in> set suspended_states \<and> target \<notin> set suspended_states then None
      else resume_state)"

section \<open>The transition relation\<close>

type_synonym lifecycle = "run_state \<times> run_state option"

inductive lifecycle_step :: "lifecycle \<Rightarrow> lifecycle \<Rightarrow> bool" where
  advance: "validate_transition s t r = Inr () \<Longrightarrow> lifecycle_step (s, r) (t, next_resume s t r)"

inductive_cases lifecycle_stepE: "lifecycle_step (s, r) (t, r')"

inductive_simps lifecycle_step_simps: "lifecycle_step (s, r) (t, r')"

text \<open>
  The states a run has been in, with its present state and resume state. \<open>replan\<close> is the effect of
  a goal replan on a paused run that already has a plan (so it reached \<open>RS_GOAL_DEFINED\<close>).
\<close>

inductive visits :: "run_state set \<Rightarrow> lifecycle \<Rightarrow> bool" where
  received: "visits {RS_RECEIVED} (RS_RECEIVED, None)"
| moved: "visits V (s, r) \<Longrightarrow> lifecycle_step (s, r) (t, r') \<Longrightarrow> visits (insert t V) (t, r')"
| replan: "visits V (s, r) \<Longrightarrow> s = RS_PAUSED \<or> s = RS_HUMAN_REVIEW_REQUIRED \<Longrightarrow> RS_GOAL_DEFINED \<in> V
    \<Longrightarrow> visits V (s, Some RS_PLANNED)"

text \<open>The stages that come before a state on every way to it; pushing is optional.\<close>

definition stages_before :: "run_state \<Rightarrow> run_state set" where
  "stages_before s = set (filter (\<lambda>q. q \<noteq> RS_PUSHING)
     (takeWhile (\<lambda>q. q \<noteq> (if s = RS_REPAIR_PLANNING then RS_CHANGE_GUARD else s)) run_sequence))"

definition working :: "run_state \<Rightarrow> bool" where
  "working s \<longleftrightarrow> s \<notin> set suspended_states \<and> s \<noteq> RS_FAILED \<and> s \<noteq> RS_CANCELLED"

definition lifecycle_inv :: "run_state set \<Rightarrow> lifecycle \<Rightarrow> bool" where
  "lifecycle_inv V c \<longleftrightarrow> fst c \<in> V \<and> (\<forall>q \<in> V. working q \<longrightarrow> stages_before q \<subseteq> V)
     \<and> (case snd c of
       None \<Rightarrow> fst c \<notin> set suspended_states
     | Some q \<Rightarrow> fst c \<in> set suspended_states \<and> working q \<and> q \<noteq> RS_COMPLETED \<and> stages_before q \<subseteq> V)"

lemmas lifecycle_simps = validate_transition_def next_resume_def transitions_def run_sequence_def
  terminal_states_def suspended_states_def working_def stages_before_def

lemma stages_before_next: "t \<in> set (transitions s) \<Longrightarrow> stages_before t \<subseteq> insert s (stages_before s)"
  by (cases s) (auto simp: lifecycle_simps)

lemma transitions_working: "t \<in> set (transitions s) \<Longrightarrow> working s \<and> working t \<and> s \<noteq> RS_COMPLETED"
  by (cases s) (auto simp: lifecycle_simps)

lemma validate_transition_iff: "validate_transition s t r = Inr () \<longleftrightarrow> s \<notin> set terminal_states \<and>
    (if t \<in> set suspended_states \<or> t = RS_CANCELLED \<or> t = RS_FAILED then s \<noteq> t
     else if s \<in> set suspended_states then r = Some t
     else t \<in> set (transitions s))"
  by (auto simp: validate_transition_def suspended_states_def)

lemma validate_transition_raises: "validate_transition s t r = Inl e \<Longrightarrow> e = Conflict"
  by (auto simp: validate_transition_def split: if_splits)

lemma working_iff: "working s \<longleftrightarrow> s \<notin> set suspended_states \<and> s \<noteq> RS_FAILED \<and> s \<noteq> RS_CANCELLED"
  by (simp add: working_def)

lemma suspended_not_terminal: "s \<in> set suspended_states \<Longrightarrow> s \<notin> set terminal_states"
  by (auto simp: suspended_states_def terminal_states_def)

lemma terminal_iff: "s \<in> set terminal_states \<longleftrightarrow> s = RS_COMPLETED \<or> s = RS_FAILED \<or> s = RS_CANCELLED"
  by (auto simp: terminal_states_def)

lemma lifecycle_step_inv:
  assumes "lifecycle_step (s, r) (t, r')" and inv: "lifecycle_inv V (s, r)"
  shows "lifecycle_inv (insert t V) (t, r')"
proof -
  from assms(1) have valid: "validate_transition s t r = Inr ()" and r': "r' = next_resume s t r"
    by (auto elim: lifecycle_stepE)
  consider (suspend) "t \<in> set suspended_states" | (stop) "t = RS_CANCELLED \<or> t = RS_FAILED"
    | (resume) "t \<notin> set suspended_states" "\<not> (t = RS_CANCELLED \<or> t = RS_FAILED)" "s \<in> set suspended_states" "r = Some t"
    | (chain) "t \<notin> set suspended_states" "s \<notin> set suspended_states" "t \<in> set (transitions s)"
    using valid by (auto simp: validate_transition_iff split: if_splits)
  then show ?thesis
  proof cases
    case suspend
    then show ?thesis
      using inv valid r' by (cases r)
        (auto simp: lifecycle_inv_def next_resume_def working_iff validate_transition_iff terminal_iff)
  next
    case stop
    then show ?thesis
      using inv r' by (cases r)
        (auto simp: lifecycle_inv_def next_resume_def working_iff suspended_states_def)
  next
    case resume
    then show ?thesis using inv r' by (auto simp: lifecycle_inv_def next_resume_def)
  next
    case chain
    then have "stages_before t \<subseteq> insert t V"
      using inv stages_before_next [OF chain(3)] transitions_working [OF chain(3)]
      by (cases r) (auto simp: lifecycle_inv_def)
    with chain show ?thesis using inv r' transitions_working [OF chain(3)]
      by (cases r) (auto simp: lifecycle_inv_def next_resume_def)
  qed
qed

lemma goal_stages: "stages_before RS_PLANNED = insert RS_GOAL_DEFINED (stages_before RS_GOAL_DEFINED)"
  by (auto simp: lifecycle_simps)

lemma visits_inv: "visits V c \<Longrightarrow> lifecycle_inv V c"
proof (induction rule: visits.induct)
  case received
  then show ?case by (simp add: lifecycle_inv_def lifecycle_simps)
next
  case (moved V s r t r')
  then show ?case by (blast intro: lifecycle_step_inv)
next
  case (replan V s r)
  have "working RS_GOAL_DEFINED" by (simp add: lifecycle_simps)
  with replan have "stages_before RS_GOAL_DEFINED \<subseteq> V"
    by (simp add: lifecycle_inv_def)
  with replan have "stages_before RS_PLANNED \<subseteq> V" by (simp add: goal_stages)
  then show ?case using replan
    by (auto simp: lifecycle_inv_def working_def suspended_states_def split: option.splits)
qed

lemma visits_completed_all:
  assumes "visits V (RS_COMPLETED, r)"
  shows "set (filter (\<lambda>q. q \<noteq> RS_PUSHING) run_sequence) \<subseteq> V"
proof -
  have inv: "lifecycle_inv V (RS_COMPLETED, r)" using assms by (rule visits_inv)
  have "working RS_COMPLETED" by (simp add: lifecycle_simps)
  with inv have "insert RS_COMPLETED (stages_before RS_COMPLETED) \<subseteq> V"
    by (auto simp: lifecycle_inv_def)
  then show ?thesis by (simp add: stages_before_def run_sequence_def)
qed

section \<open>Properties\<close>

text \<open>
  C6: a completed run went through every stage. Whatever pauses, blocks, repairs, replans and
  resumptions a run had, in \<^verbatim>\<open>COMPLETED\<close> it has been in every state of the sequence, testing, review,
  change guard and delivery validation included; only pushing may have been left out.
\<close>
theorem completed_run_visited_every_stage:
  assumes "visits V (RS_COMPLETED, r)"
  shows "\<forall>q \<in> set run_sequence. q \<noteq> RS_PUSHING \<longrightarrow> q \<in> V"
  using visits_completed_all [OF assms] by auto

definition sample_path :: "run_state list" where
  "sample_path = [RS_CONTEXT_SYNC, RS_ANALYZING, RS_PAUSED, RS_BLOCKED, RS_ANALYZING, RS_GOAL_DEFINED, RS_PLANNED,
     RS_EXECUTING, RS_INTEGRATING, RS_TESTING, RS_REVIEWING, RS_REPAIR_PLANNING, RS_EXECUTING,
     RS_INTEGRATING, RS_TESTING, RS_REVIEWING, RS_CHANGE_GUARD, RS_DOCUMENTING, RS_DELIVERY_VALIDATION,
     RS_COMMITTING, RS_MEMORY_FINALIZATION, RS_COMPLETED]"

fun follow :: "lifecycle \<Rightarrow> run_state list \<Rightarrow> lifecycle option" where
  "follow c [] = Some c"
| "follow (s, r) (t # ts) = (if validate_transition s t r = Inr () then follow (t, next_resume s t r) ts else None)"

lemma follow_visits: "visits V c \<Longrightarrow> follow c ts = Some d \<Longrightarrow> \<exists>W. visits W d"
proof (induction c ts arbitrary: V rule: follow.induct)
  case (2 s r t ts)
  then have "validate_transition s t r = Inr ()" by (auto split: if_splits)
  then have "lifecycle_step (s, r) (t, next_resume s t r)" by (rule lifecycle_step.advance)
  with 2 show ?case by (auto split: if_splits intro: visits.moved)
qed auto

theorem completed_run_visited_every_stage_witness:
  "\<exists>V. visits V (RS_COMPLETED, None) \<and> RS_TESTING \<in> V \<and> RS_CHANGE_GUARD \<in> V"
proof -
  have "follow (RS_RECEIVED, None) sample_path = Some (RS_COMPLETED, None)"
    by (simp add: sample_path_def lifecycle_simps)
  then obtain V where "visits V (RS_COMPLETED, None)" using follow_visits [OF visits.received] by blast
  with completed_run_visited_every_stage [OF this] show ?thesis by (auto simp: run_sequence_def)
qed



end
