(* ===== verification/Orq_Orchestrator.thy ===== *)
theory Orq_Orchestrator
  imports Orq_Tasks Orq_Gates Orq_Lifecycle
begin

text \<open>
  \<^verbatim>\<open>core/orchestrator.py\<close>: installing the initial plan, moving a run to its next state behind the
  guards of that state, cancelling what is left when it ends, starting the requirements task, and
  resuming.
\<close>

section \<open>Plans\<close>

text \<open>The tasks of a plan nothing comes before; they wait for the preparatory tasks.\<close>

definition root_tasks :: "task_plan \<Rightarrow> task list" where
  "root_tasks p = filter (\<lambda>t. \<not> (\<exists>e \<in> set (plan_deps p). dep_task e = task_id t)) (plan_tasks p)"

definition with_preparation :: "task_plan \<Rightarrow> task list \<Rightarrow> task_plan" where
  "with_preparation p prepared = p\<lparr>plan_tasks := prepared @ plan_tasks p,
     plan_deps := plan_deps p @ concat (map (\<lambda>t. map (\<lambda>q.
       \<lparr>dep_task = task_id t, dep_on = task_id q, dep_type = ''finish_to_start''\<rparr>) prepared) (root_tasks p))\<rparr>"

definition covers_goal :: "task_plan \<Rightarrow> goal_contract \<Rightarrow> bool" where
  "covers_goal p gc \<longleftrightarrow>
     (let affected = concat (map task_criteria (plan_tasks p)) in
      set affected \<subseteq> crit_id ` set (gc_criteria gc)
      \<and> (\<forall>k \<in> set (gc_criteria gc). crit_priority k = P_REQUIRED \<longrightarrow> crit_id k \<in> set affected))"

definition plan_payload :: "task_plan \<Rightarrow> task list \<Rightarrow> event_payload" where
  "plan_payload p ts = no_payload\<lparr>pl_plan_version := Some (plan_version p), pl_goal := Some (plan_goal p),
     pl_tasks := map task_id ts\<rparr>"

definition announce_tasks :: "env \<Rightarrow> run \<Rightarrow> string \<Rightarrow> time \<Rightarrow> task list \<Rightarrow> unit act" where
  "announce_tasks env r prefix_key now ts = for_each ts (\<lambda>t.
     emit env r EV_TASK_CREATED (prefix_key @ uuid_str (task_id t)) now
       (status_payload (task_status_str (task_status t))) None (Some (task_id t)) None)"

definition prepared_plan :: "task_plan \<Rightarrow> task list \<Rightarrow> task_plan act" where
  "prepared_plan p preparation =
     bnd (if preparation \<noteq> [] \<and> \<not> (\<exists>t \<in> set (plan_tasks p). task_plan_version t = 0) then
            bnd (deny (\<exists>t \<in> set preparation. task_status t \<noteq> TS_SUCCEEDED) Conflict) (\<lambda>_.
            ret (with_preparation p preparation))
          else ret p) (\<lambda>q.
     bnd (deny (\<exists>t \<in> set (plan_tasks q). task_plan_version t = 0 \<and> t \<notin> set preparation) Conflict) (\<lambda>_.
     result_of (validate_plan q)))"

definition install_plan :: "env \<Rightarrow> task_plan \<Rightarrow> string \<Rightarrow> run act" where
  "install_plan env given_plan key = bnd (require_key key) (\<lambda>_.
     with_uow (bnd (locked_run (plan_run given_plan)) (\<lambda>r.
       bnd (run_tasks (run_id r)) (\<lambda>known.
       let preparation = filter (\<lambda>t. task_plan_version t = 0) known in
       bnd (prepared_plan given_plan preparation) (\<lambda>p.
       bnd (events_by_key (run_id r) (key @ '':plan'')) (\<lambda>replay.
       if replay \<noteq> None then
         bnd (get_plan (run_id r) (plan_version p)) (\<lambda>stored.
         bnd (deny (case stored of None \<Rightarrow> True | Some q \<Rightarrow> plan_identity q \<noteq> plan_identity p) Conflict) (\<lambda>_. ret r))
       else
         bnd (deny (run_state r \<noteq> RS_GOAL_DEFINED \<or> run_plan_version r \<noteq> 0) Conflict) (\<lambda>_.
         bnd (deny (Some (plan_goal p) \<noteq> run_goal r \<or> plan_version p \<noteq> 1) Conflict) (\<lambda>_.
         bnd (deny (\<exists>t \<in> set (plan_tasks p). (task_status t \<noteq> TS_PENDING \<or> task_attempts t \<noteq> 0) \<and> t \<notin> set preparation) Conflict) (\<lambda>_.
         bnd (deny (\<not> safe_doc env (DocPlan p)) PolicyDenied) (\<lambda>_.
         bnd (runs_get_goal (plan_goal p) (plan_run p)) (\<lambda>found.
         bnd (the_or Conflict found) (\<lambda>contract.
         bnd (deny (\<not> covers_goal p contract) Conflict) (\<lambda>_.
         bnd (require_approval env r STAGE_GOAL (goal_number (gc_goal contract)) (goal_subject env contract)
           ''Approve goal before planning'') (\<lambda>_.
         bnd (save_plan p) (\<lambda>_.
         let updated = r\<lparr>run_plan_version := plan_version p\<rparr> in
         bnd (runs_save updated) (\<lambda>_.
         bnd (utc_now env) (\<lambda>now.
         bnd (emit env updated EV_PLAN_CREATED (key @ '':plan'') now (plan_payload p (plan_tasks p)) None None None) (\<lambda>_.
         bnd (announce_tasks env updated (key @ '':created:'') now (filter (\<lambda>t. t \<notin> set preparation) (plan_tasks p))) (\<lambda>_.
         bnd (refresh_ready env updated key now) (\<lambda>_.
         bnd (commit env) (\<lambda>_.
         locked_run (run_id r))))))))))))))))))))))"

section \<open>Guards\<close>

definition current_failed_review :: "run \<Rightarrow> review_record list \<Rightarrow> review_record option" where
  "current_failed_review r reviews = (if reviews = [] then None
     else let rv = last reviews in
       if rr_pass (rev_result rv) \<or> rev_plan_version rv \<noteq> run_plan_version r \<or> Some (rev_goal rv) \<noteq> run_goal r
       then None else Some rv)"

definition repair_reason :: string where
  "repair_reason = ''Review failed evidence before targeted repair''"

definition required_pass :: "goal_contract option \<Rightarrow> bool" where
  "required_pass contract \<longleftrightarrow> (case contract of None \<Rightarrow> False
     | Some gc \<Rightarrow> \<forall>k \<in> set (gc_criteria gc). crit_priority k = P_REQUIRED \<longrightarrow> crit_status k = AC_PASS)"

definition plan_guard :: "env \<Rightarrow> run \<Rightarrow> run_state \<Rightarrow> unit act" where
  "plan_guard env r target = bnd (get_plan (run_id r) (run_plan_version r)) (\<lambda>plan.
     bnd (the_or Conflict (case plan of None \<Rightarrow> None
       | Some p \<Rightarrow> if Some (plan_goal p) \<noteq> run_goal r then None else Some p)) (\<lambda>p.
     if target = RS_EXECUTING then
       require_approval env r STAGE_PLAN (run_plan_version r) (plan_subject env p)
         ''Approve dependency plan before execution''
     else ret ()))"

definition guard :: "env \<Rightarrow> run \<Rightarrow> run_state \<Rightarrow> unit act" where
  "guard env r target =
     bnd (guard_delivery r target) (\<lambda>_.
     bnd (if target = RS_CHANGE_GUARD then require_delivery_binding env r else ret ()) (\<lambda>_.
     bnd (if target = RS_REPAIR_PLANNING then
            bnd (execution_reviews (run_id r)) (\<lambda>reviews.
            bnd (the_or Conflict (current_failed_review r reviews)) (\<lambda>rv.
            require_approval env r STAGE_REPAIR (run_plan_version r) (repair_subject env rv) repair_reason))
          else ret ()) (\<lambda>_.
     bnd (if target = RS_EXECUTING \<and> run_state r = RS_REPAIR_PLANNING then
            bnd (execution_reviews (run_id r)) (\<lambda>reviews.
            deny (reviews = [] \<or> run_plan_version r \<noteq> Suc (rev_plan_version (last reviews))) Conflict)
          else ret ()) (\<lambda>_.
     bnd (if target \<in> set suspended_states then
            bnd (run_executions (run_id r)) (\<lambda>xs. deny (\<exists>x \<in> set xs. exec_status x = TS_RUNNING) Conflict)
          else ret ()) (\<lambda>_.
     bnd (deny (target = RS_GOAL_DEFINED \<and> run_goal r = None) Conflict) (\<lambda>_.
     bnd (if target = RS_PLANNED \<or> target = RS_EXECUTING then plan_guard env r target else ret ()) (\<lambda>_.
     if target = RS_CHANGE_GUARD then
       bnd (case run_goal r of None \<Rightarrow> ret None | Some gid \<Rightarrow> runs_get_goal gid (run_id r)) (\<lambda>contract.
       deny (\<not> required_pass contract) Conflict)
     else ret ())))))))"

section \<open>Moving a run\<close>

definition cancel_pending :: "env \<Rightarrow> run \<Rightarrow> string \<Rightarrow> time \<Rightarrow> unit act" where
  "cancel_pending env r key now =
     bnd (run_executions (run_id r)) (\<lambda>xs.
     bnd (for_each xs (\<lambda>x. if active_attempt (exec_status x) then
         bnd (transition_in_transaction env r (exec_id x) TS_CANCELLED (key @ '':'' @ uuid_str (exec_id x)) now) (\<lambda>_. ret ())
       else ret ())) (\<lambda>_.
     bnd (get_plan (run_id r) (run_plan_version r)) (\<lambda>plan. case plan of None \<Rightarrow> ret ()
     | Some p \<Rightarrow> for_each (plan_tasks p) (\<lambda>t.
         if task_status t = TS_PENDING \<or> task_status t = TS_READY then
           bnd (save_task (t\<lparr>task_status := TS_CANCELLED, task_completed := Some now\<rparr>)) (\<lambda>_.
           bnd (emit env r EV_TASK_CANCELLED (key @ '':cancel:'' @ uuid_str (task_id t)) now
             (status_payload ''CANCELLED'') None (Some (task_id t)) None) (\<lambda>_. ret ()))
         else ret ()))))"

definition advance_event :: "run_state \<Rightarrow> run_state \<Rightarrow> event_type" where
  "advance_event previous target =
     (if target = RS_PAUSED then EV_RUN_PAUSED
      else if target = RS_BLOCKED \<or> target = RS_HUMAN_REVIEW_REQUIRED then EV_RUN_BLOCKED
      else if target = RS_CANCELLED then EV_RUN_CANCELLED
      else if target = RS_FAILED then EV_RUN_FAILED
      else if target = RS_COMPLETED then EV_RUN_COMPLETED
      else if previous \<in> set suspended_states then EV_RUN_RESUMED
      else if previous = RS_RECEIVED then EV_RUN_STARTED
      else EV_RUN_STATE_CHANGED)"

definition coordinator_status :: "run_state \<Rightarrow> actor_status" where
  "coordinator_status target =
     (if target = RS_CANCELLED then ACT_CANCELLED
      else if target = RS_FAILED then ACT_FAILED
      else if target = RS_COMPLETED then ACT_COMPLETE
      else if target = RS_PAUSED then ACT_WAITING_FOR_DEPENDENCY
      else if target \<in> set suspended_states then ACT_BLOCKED
      else ACT_WORKING)"

definition phase_status_of :: "run_state \<Rightarrow> task_status" where
  "phase_status_of target =
     (if target = RS_CANCELLED then TS_CANCELLED
      else if target = RS_FAILED then TS_FAILED
      else if target = RS_COMPLETED then TS_SUCCEEDED
      else if target = RS_PAUSED then TS_WAITING
      else if target \<in> set suspended_states then TS_BLOCKED
      else TS_RUNNING)"

definition moved_run :: "run \<Rightarrow> run_state \<Rightarrow> time \<Rightarrow> run" where
  "moved_run r target now = (let ends = target \<in> set terminal_states in
     r\<lparr>run_state := target,
       run_phase := (case phase_of target of None \<Rightarrow> run_phase r | Some ph \<Rightarrow> ph),
       run_resume := next_resume (run_state r) target (run_resume r),
       run_started := (case run_started r of Some t \<Rightarrow> Some t | None \<Rightarrow> if ends then None else Some now),
       run_completed := (if ends then Some now else None)\<rparr>)"

text \<open>The part of \<^verbatim>\<open>advance\<close> that changes state, once the guards have passed.\<close>

definition move_run :: "env \<Rightarrow> run \<Rightarrow> run_state \<Rightarrow> string \<Rightarrow> unit act" where
  "move_run env r target key = bnd (utc_now env) (\<lambda>now.
     bnd (orchestrator_actor env r now) (\<lambda>first.
     bnd (if target \<in> set terminal_states then
            bnd (cancel_pending env r key now) (\<lambda>_. orchestrator_actor env r now)
          else ret first) (\<lambda>actor.
     let q = moved_run r target now in
     bnd (runs_save q) (\<lambda>_.
     bnd (emit env q (advance_event (run_state r) target) (key @ '':run'') now
       (change_payload (run_state_str (run_state r)) (run_state_str target)) (Some (actor_id actor)) None None) (\<lambda>e.
     bnd (set_actor_status env q actor (coordinator_status target) (key @ '':orchestrator'') (event_at e)) (\<lambda>_.
     bnd (update_phase env q key (event_at e) (phase_status_of target) (target \<in> set terminal_states)) (\<lambda>_.
     if target = RS_PLANNED then
       bnd (get_plan (run_id q) (run_plan_version q)) (\<lambda>plan.
       bnd (the_or AssertFail plan) (\<lambda>p.
       bnd (prepare_approval_request env q STAGE_PLAN (plan_version p) (plan_subject env p)
         ''Review the dependency plan before execution'') (\<lambda>_. ret ())))
     else ret ())))))))"

definition advance :: "env \<Rightarrow> uuid \<Rightarrow> run_state \<Rightarrow> string \<Rightarrow> run act" where
  "advance env rid target key = bnd (require_key key) (\<lambda>_.
     with_uow (bnd (locked_run rid) (\<lambda>r.
       bnd (events_by_key rid (key @ '':run'')) (\<lambda>existing. case existing of
         Some e \<Rightarrow> bnd (deny (pl_status (event_payload e) \<noteq> Some (run_state_str target)) Conflict) (\<lambda>_. ret r)
       | None \<Rightarrow>
           bnd (result_of (validate_transition (run_state r) target (run_resume r))) (\<lambda>_.
           bnd (guard env r target) (\<lambda>_.
           bnd (move_run env r target key) (\<lambda>_.
           bnd (commit env) (\<lambda>_. locked_run rid))))))))"

section \<open>Requirements and resuming\<close>

definition requirements_id :: "uuid \<Rightarrow> uuid" where
  "requirements_id rid = uuid5 rid ''requirements-task''"

definition requirements_task :: "run \<Rightarrow> time \<Rightarrow> task" where
  "requirements_task r now = \<lparr>task_id = requirements_id (run_id r), task_created = now, task_run = run_id r,
     task_plan_version = 0, task_parent = None, task_description = run_request r,
     task_outcome = ''A scoped goal with testable criteria and definition of done'', task_status = TS_READY,
     task_risk = 0, task_capabilities = [], task_role = ROLE_REQUIREMENTS, task_artifacts = [],
     task_validation = ''GoalDraft schema and immutable versioned contract'', task_weight = 1,
     task_ready = Some now, task_started = None, task_completed = None, task_attempts = 0, task_criteria = []\<rparr>"

definition ensure_requirements_task :: "env \<Rightarrow> run \<Rightarrow> task act" where
  "ensure_requirements_task env r = bnd (run_tasks (run_id r)) (\<lambda>ts.
     case find (\<lambda>t. task_id t = requirements_id (run_id r)) ts of
       Some t \<Rightarrow> ret t
     | None \<Rightarrow> bnd (utc_now env) (\<lambda>now.
         let t = requirements_task r now in
         bnd (add_task t) (\<lambda>_.
         bnd (emit env r EV_TASK_CREATED ''requirements:TASK_CREATED'' now (status_payload ''READY'') None (Some (task_id t)) None) (\<lambda>_.
         bnd (emit env r EV_TASK_READY ''requirements:TASK_READY'' now (status_payload ''READY'') None (Some (task_id t)) None) (\<lambda>_.
         bnd (commit env) (\<lambda>_. ret t))))))"

definition start_requirements :: "env \<Rightarrow> uuid \<Rightarrow> task_execution act" where
  "start_requirements env rid =
     bnd (with_uow (bnd (locked_run rid) (\<lambda>r.
       bnd (deny (run_state r \<noteq> RS_ANALYZING \<or> run_plan_version r \<noteq> 0) Conflict) (\<lambda>_.
       bnd (ensure_requirements_task env r) (\<lambda>t.
       bnd (run_executions rid) (\<lambda>xs.
       let attempts = filter (\<lambda>x. exec_task x = task_id t) xs in
       ret (t, if attempts \<noteq> [] \<and> (exec_status (last attempts) = TS_RUNNING \<or> exec_status (last attempts) = TS_SUCCEEDED)
               then Some (last attempts) else None))))))) (\<lambda>(t, attempt).
     case attempt of
       Some x \<Rightarrow> ret x
     | None \<Rightarrow> start_task env rid (requirements_id rid) (''requirements:attempt:'' @ nat_str (Suc (task_attempts t))))"

definition resume :: "env \<Rightarrow> uuid \<Rightarrow> string \<Rightarrow> run act" where
  "resume env rid key =
     bnd (with_uow (bnd (locked_run rid) (\<lambda>r.
       case run_resume r of
         Some target \<Rightarrow> ret (r, Some target)
       | None \<Rightarrow> bnd (events_by_key rid (key @ '':run'')) (\<lambda>existing.
           bnd (deny (case existing of None \<Rightarrow> True | Some e \<Rightarrow> event_kind e \<noteq> EV_RUN_RESUMED) Conflict) (\<lambda>_.
           ret (r, None)))))) (\<lambda>(r, target).
     case target of None \<Rightarrow> ret r | Some t \<Rightarrow> advance env rid t key)"

context repository_contract
begin

lemma keeps_prepared_plan: "keeps S (prepared_plan p preparation)"
  unfolding prepared_plan_def by (intro act_laws task_laws)

lemma keeps_announce: "keeps S (announce_tasks env r pk now ts)"
  unfolding announce_tasks_def by (intro act_laws runtime_laws)

lemma keeps_guard: "keeps S (guard env r target)"
  unfolding guard_def plan_guard_def
  by (intro act_laws keeps_guard_delivery approval_laws)

lemma keeps_cancel_pending: "keeps S (cancel_pending env r key now)"
  unfolding cancel_pending_def by (intro act_laws runtime_laws task_laws)

lemmas orchestrator_laws = keeps_prepared_plan keeps_announce keeps_guard keeps_cancel_pending

lemma keeps_ensure_requirements: "keeps S (ensure_requirements_task env r)"
  unfolding ensure_requirements_task_def Let_def by (intro act_laws runtime_laws)

lemma start_requirements_evolves: "keeps T (start_requirements env rid)"
  unfolding start_requirements_def Let_def
  by (intro service_laws start_task_evolves act_laws runtime_laws keeps_ensure_requirements)

end

context run_contract
begin

lemma keeps_move_run: "keeps S (move_run env r target key)"
  unfolding move_run_def Let_def
  by (intro act_laws run_laws runtime_laws approval_laws keeps_cancel_pending)

lemma install_plan_evolves: "keeps T (install_plan env p key)"
  unfolding install_plan_def require_key_def Let_def
  by (intro service_laws act_laws run_laws runtime_laws approval_laws task_laws orchestrator_laws)

lemma advance_evolves: "keeps T (advance env rid target key)"
  unfolding advance_def require_key_def
  by (intro service_laws act_laws runtime_laws task_laws orchestrator_laws keeps_move_run)

end

text \<open>Resuming only reads and advances.\<close>

context repository_contract
begin

lemma resume_by_advance:
  assumes "\<And>target. keeps T (advance env rid target key)"
  shows "keeps T (resume env rid key)"
  unfolding resume_def by (intro service_laws assms act_laws runtime_laws)

end

end
