(* ===== verification/Orq_Revision.thy ===== *)
theory Orq_Revision
  imports Orq_Orchestrator
begin

text \<open>
  The ways a plan changes after it was installed: \<^verbatim>\<open>core/plan_revision.py\<close> adds repair or delivery
  tasks to it, \<^verbatim>\<open>core/preview_revision.py\<close> replaces a plan that has not begun, and
  \<^verbatim>\<open>core/replanning.py\<close> replaces the rest of it after the goal was revised. All keep the earlier
  versions and the records of their tasks.
\<close>

definition task_by_id :: "task list \<Rightarrow> uuid \<Rightarrow> task option" where
  "task_by_id ts i = map_of (map (\<lambda>t. (task_id t, t)) ts) i"

definition added_tasks :: "task_plan \<Rightarrow> task_plan \<Rightarrow> task list" where
  "added_tasks current p = filter (\<lambda>t. task_id t \<notin> set (task_ids current)) (plan_tasks p)"

definition replay_check :: "task_plan option \<Rightarrow> task_plan \<Rightarrow> unit act" where
  "replay_check stored p = deny (case stored of None \<Rightarrow> True | Some q \<Rightarrow> plan_identity q \<noteq> plan_identity p) Conflict"

section \<open>Repair and delivery revisions\<close>

text \<open>What \<^verbatim>\<open>_install\<close> requires of the revised plan, in the order it checks.\<close>

definition revision_checks :: "env \<Rightarrow> task_plan \<Rightarrow> task_plan \<Rightarrow> goal_contract \<Rightarrow> unit act" where
  "revision_checks env current p goal =
     bnd (deny (\<exists>t \<in> set (plan_tasks current). task_by_id (plan_tasks p) (task_id t) \<noteq> Some t) PolicyDenied) (\<lambda>_.
     bnd (deny (\<not> set (plan_deps current) \<subseteq> set (plan_deps p)) PolicyDenied) (\<lambda>_.
     bnd (deny (\<exists>e \<in> set (plan_deps p) - set (plan_deps current). dep_task e \<in> set (task_ids current)) PolicyDenied) (\<lambda>_.
     let added = added_tasks current p in
     bnd (deny (added = [] \<or> (\<exists>t \<in> set added. task_status t \<noteq> TS_PENDING \<or> task_attempts t \<noteq> 0
         \<or> task_plan_version t \<noteq> plan_version p)) Conflict) (\<lambda>_.
     bnd (deny (\<exists>t \<in> set (plan_tasks current). active_attempt (task_status t)) Conflict) (\<lambda>_.
     bnd (deny (\<exists>t \<in> set added. \<not> set (task_criteria t) \<subseteq> crit_id ` set (gc_criteria goal)) Conflict) (\<lambda>_.
     deny (\<not> safe_doc env (DocPlan p)) PolicyDenied))))))"

definition install_revision :: "env \<Rightarrow> task_plan \<Rightarrow> string \<Rightarrow> bool \<Rightarrow> run act" where
  "install_revision env p key repair = bnd (require_key key) (\<lambda>_.
     with_uow (bnd (locked_run (plan_run p)) (\<lambda>r.
       bnd (events_by_key (run_id r) (key @ '':revised'')) (\<lambda>replay.
       if replay \<noteq> None then
         bnd (get_plan (run_id r) (plan_version p)) (\<lambda>stored. bnd (replay_check stored p) (\<lambda>_. ret r))
       else
         bnd (deny ((repair \<and> (run_state r \<noteq> RS_REPAIR_PLANNING \<or> run_max_repairs r \<le> run_repairs r))
             \<or> (\<not> repair \<and> run_state r \<noteq> RS_REVIEWING)) PolicyDenied) (\<lambda>_.
         bnd (deny (plan_version p \<noteq> Suc (run_plan_version r) \<or> Some (plan_goal p) \<noteq> run_goal r) Conflict) (\<lambda>_.
         bnd (get_plan (run_id r) (run_plan_version r)) (\<lambda>present.
         bnd (runs_get_goal (plan_goal p) (plan_run p)) (\<lambda>found.
         bnd (the_or Conflict present) (\<lambda>current.
         bnd (the_or Conflict found) (\<lambda>goal.
         bnd (if repair then
                bnd (execution_reviews (run_id r)) (\<lambda>reviews.
                bnd (the_or Conflict (current_failed_review r reviews)) (\<lambda>rv.
                require_approval env r STAGE_REPAIR (run_plan_version r) (repair_subject env rv) repair_reason))
              else bnd (guard_delivery r RS_CHANGE_GUARD) (\<lambda>_. require_delivery_binding env r)) (\<lambda>_.
         bnd (revision_checks env current p goal) (\<lambda>_.
         bnd (save_plan p) (\<lambda>_.
         let updated = r\<lparr>run_plan_version := plan_version p,
                         run_repairs := run_repairs r + (if repair then 1 else 0)\<rparr>;
             added = added_tasks current p in
         bnd (runs_save updated) (\<lambda>_.
         bnd (utc_now env) (\<lambda>now.
         bnd (emit env updated EV_PLAN_REVISED (key @ '':revised'') now (plan_payload p added) None None None) (\<lambda>_.
         bnd (if repair then
                bnd (emit env updated EV_REPAIR_STARTED (key @ '':started'') now
                  (no_payload\<lparr>pl_plan_version := Some (plan_version p)\<rparr>) None None None) (\<lambda>_. ret ())
              else ret ()) (\<lambda>_.
         bnd (announce_tasks env updated (key @ '':task:'') now added) (\<lambda>_.
         bnd (refresh_ready env updated key now) (\<lambda>_.
         bnd (commit env) (\<lambda>_.
         locked_run (run_id r)))))))))))))))))))))"

section \<open>Editing a plan that has not begun\<close>

definition role_rank :: "agent_role \<Rightarrow> nat option" where
  "role_rank role = (if role = ROLE_DEVELOPER then Some 0 else if role = ROLE_TESTER then Some 1
     else if role = ROLE_REVIEWER then Some 2 else None)"

text \<open>
  \<^verbatim>\<open>ancestors\<close>: the search from the prerequisites of a task; the stack is popped from its end. Each
  round either drops a stack entry or marks a new task, so the number of dependencies times the
  number of tasks, and the stack, bound the rounds.
\<close>

fun ancestor_loop :: "nat \<Rightarrow> task_plan \<Rightarrow> uuid list \<Rightarrow> uuid list \<Rightarrow> uuid list" where
  "ancestor_loop 0 p seen pending = seen"
| "ancestor_loop (Suc n) p seen pending =
     (if pending = [] then seen
      else if last pending \<in> set seen then ancestor_loop n p seen (butlast pending)
      else ancestor_loop n p (last pending # seen) (butlast pending @ remdups (prerequisites p (last pending))))"

definition ancestors :: "task_plan \<Rightarrow> uuid \<Rightarrow> uuid list" where
  "ancestors p i = ancestor_loop (Suc (length (plan_deps p) * Suc (length (plan_tasks p)))) p [] (remdups (prerequisites p i))"

definition ids_of_role :: "task_plan \<Rightarrow> agent_role \<Rightarrow> uuid list" where
  "ids_of_role p role = map task_id (filter (\<lambda>t. task_role t = role) (plan_tasks p))"

definition rank_of :: "task_plan \<Rightarrow> uuid \<Rightarrow> nat" where
  "rank_of p i = (case task_by_id (plan_tasks p) i of None \<Rightarrow> 0
     | Some t \<Rightarrow> (case role_rank (task_role t) of None \<Rightarrow> 0 | Some n \<Rightarrow> n))"

definition roles_ok :: "task_plan \<Rightarrow> bool" where
  "roles_ok p \<longleftrightarrow> set (map task_role (plan_tasks p)) = {ROLE_DEVELOPER, ROLE_TESTER, ROLE_REVIEWER}
     \<and> \<not> (\<exists>e \<in> set (plan_deps p). rank_of p (dep_task e) < rank_of p (dep_on e))
     \<and> (\<forall>t \<in> set (plan_tasks p).
          (task_role t = ROLE_TESTER \<longrightarrow> set (ids_of_role p ROLE_DEVELOPER) \<subseteq> set (ancestors p (task_id t)))
          \<and> (task_role t = ROLE_REVIEWER \<longrightarrow> set (ids_of_role p ROLE_TESTER) \<subseteq> set (ancestors p (task_id t))))"

definition fresh_edit :: "uuid list \<Rightarrow> nat \<Rightarrow> task \<Rightarrow> bool" where
  "fresh_edit known v t \<longleftrightarrow> task_id t \<notin> set known \<and> task_plan_version t = v \<and> task_status t = TS_PENDING \<and> task_attempts t = 0
     \<and> task_ready t = None \<and> task_started t = None \<and> task_completed t = None"

text \<open>Superseding the unexecuted tasks of the current plan.\<close>

definition supersede :: "env \<Rightarrow> run \<Rightarrow> string \<Rightarrow> string \<Rightarrow> time \<Rightarrow> task \<Rightarrow> unit act" where
  "supersede env r prefix_key reason now t =
     bnd (save_task (t\<lparr>task_status := TS_CANCELLED, task_completed := Some now\<rparr>)) (\<lambda>_.
     bnd (emit env r EV_TASK_CANCELLED (prefix_key @ uuid_str (task_id t)) now
       ((status_payload ''CANCELLED'')\<lparr>pl_reason := Some reason\<rparr>) None (Some (task_id t)) None) (\<lambda>_. ret ()))"

definition under_lease :: "env \<Rightarrow> uuid \<Rightarrow> 'a act \<Rightarrow> 'a act" where
  "under_lease env rid body = bnd (with_uow (bnd (load rid) (\<lambda>_. lease_free env))) (\<lambda>free.
     bnd (deny (\<not> free) Conflict) (\<lambda>_. with_uow body))"

definition preview_checks :: "task_plan \<Rightarrow> nat \<Rightarrow> run \<Rightarrow> (task_plan \<times> goal_contract) act" where
  "preview_checks p expected r =
     bnd (deny (\<not> (run_state r = RS_PLANNED \<or> (run_state r = RS_PAUSED \<and> run_resume r = Some RS_PLANNED))) Conflict) (\<lambda>_.
     bnd (deny (run_plan_version r \<noteq> expected \<or> plan_version p \<noteq> Suc expected) Conflict) (\<lambda>_.
     bnd (deny (Some (plan_goal p) \<noteq> run_goal r) Conflict) (\<lambda>_.
     bnd (execution_workspace (run_id r)) (\<lambda>ws.
     bnd (deny (ws \<noteq> None) Conflict) (\<lambda>_.
     bnd (run_tasks (run_id r)) (\<lambda>known.
     bnd (run_executions (run_id r)) (\<lambda>xs.
     bnd (deny (\<exists>x \<in> set xs. exec_task x \<in> task_id ` set (filter (\<lambda>t. 0 < task_plan_version t) known)) Conflict) (\<lambda>_.
     bnd (get_plan (run_id r) expected) (\<lambda>present.
     bnd (runs_get_goal (plan_goal p) (plan_run p)) (\<lambda>found.
     bnd (the_or Conflict present) (\<lambda>current.
     bnd (the_or Conflict found) (\<lambda>goal.
     bnd (deny (Some (plan_goal current) \<noteq> run_goal r) Conflict) (\<lambda>_.
     bnd (deny (\<not> list_all (fresh_edit (map task_id known) (plan_version p)) (plan_tasks p)) Conflict) (\<lambda>_.
     bnd (deny (\<not> roles_ok p) Conflict) (\<lambda>_.
     bnd (deny (\<not> covers_goal p goal) Conflict) (\<lambda>_.
     ret (current, goal)))))))))))))))))"

definition replace_preview_plan :: "env \<Rightarrow> task_plan \<Rightarrow> nat \<Rightarrow> string \<Rightarrow> run act" where
  "replace_preview_plan env given_plan expected key = bnd (require_key key) (\<lambda>_.
     bnd (result_of (validate_plan given_plan)) (\<lambda>p.
     let pre = ''preview-edit:'' @ key in
     under_lease env (plan_run p) (bnd (locked_run (plan_run p)) (\<lambda>r.
       bnd (events_by_key (run_id r) pre) (\<lambda>prior.
       if prior \<noteq> None then
         bnd (get_plan (run_id r) (plan_version p)) (\<lambda>stored.
         let prepared = (case stored of None \<Rightarrow> [] | Some q \<Rightarrow> filter (\<lambda>t. task_plan_version t = 0) (plan_tasks q)) in
         bnd (replay_check stored (with_preparation p prepared)) (\<lambda>_. ret r))
       else
         bnd (preview_checks p expected r) (\<lambda>(current, goal).
         bnd (result_of (validate_plan (with_preparation p (filter (\<lambda>t. task_plan_version t = 0) (plan_tasks current))))) (\<lambda>revised.
         bnd (deny (\<not> safe_doc env (DocPlan revised)) PolicyDenied) (\<lambda>_.
         bnd (utc_now env) (\<lambda>now.
         bnd (for_each (filter (\<lambda>t. task_plan_version t \<noteq> 0) (plan_tasks current)) (\<lambda>t.
           bnd (deny (task_status t \<noteq> TS_PENDING \<and> task_status t \<noteq> TS_READY) Conflict) (\<lambda>_.
           supersede env r (pre @ '':cancel:'') ''Operator edited plan'' now t))) (\<lambda>_.
         bnd (save_plan revised) (\<lambda>_.
         let updated = r\<lparr>run_plan_version := plan_version revised\<rparr> in
         bnd (runs_save updated) (\<lambda>_.
         bnd (emit env updated EV_PLAN_REVISED pre now
           ((plan_payload revised (plan_tasks p))\<lparr>pl_reason := Some ''Operator edited plan before execution''\<rparr>) None None None) (\<lambda>_.
         bnd (announce_tasks env updated (pre @ '':task:'') now (plan_tasks p)) (\<lambda>_.
         bnd (refresh_ready env updated pre now) (\<lambda>_.
         bnd (prepare_approval_request env updated STAGE_PLAN (plan_version revised) (plan_subject env revised)
           ''Review the dependency plan before execution'') (\<lambda>_.
         bnd (commit env) (\<lambda>_.
         locked_run (run_id r))))))))))))))))))"

section \<open>Replanning after a goal revision\<close>

definition replan_checks :: "env \<Rightarrow> task_plan \<Rightarrow> run \<Rightarrow> task_plan act" where
  "replan_checks env p r =
     bnd (get_plan (run_id r) (run_plan_version r)) (\<lambda>present.
     bnd (deny (run_state r \<noteq> RS_PAUSED \<and> run_state r \<noteq> RS_HUMAN_REVIEW_REQUIRED) Conflict) (\<lambda>_.
     bnd (the_or Conflict present) (\<lambda>current.
     bnd (deny (Some (plan_goal current) = run_goal r) Conflict) (\<lambda>_.
     bnd (events_by_key (run_id r) ''delivery:policy'') (\<lambda>bound.
     bnd (deny (bound \<noteq> None) PolicyDenied) (\<lambda>_.
     bnd (deny (Some (plan_goal p) \<noteq> run_goal r \<or> plan_version p \<noteq> Suc (run_plan_version r)) Conflict) (\<lambda>_.
     bnd (run_tasks (run_id r)) (\<lambda>known.
     bnd (deny (\<exists>t \<in> set (plan_tasks p). task_id t \<in> task_id ` set known \<or> task_status t \<noteq> TS_PENDING
         \<or> task_attempts t \<noteq> 0 \<or> task_plan_version t \<noteq> plan_version p) Conflict) (\<lambda>_.
     bnd (runs_get_goal (plan_goal p) (plan_run p)) (\<lambda>found.
     bnd (the_or Conflict found) (\<lambda>goal.
     bnd (require_approval env r STAGE_GOAL (goal_number (gc_goal goal)) (goal_subject env goal)
       ''Approve revised goal before replanning'') (\<lambda>_.
     bnd (deny (\<not> covers_goal p goal) Conflict) (\<lambda>_.
     bnd (deny (\<not> safe_doc env (DocPlan p)) PolicyDenied) (\<lambda>_.
     ret current))))))))))))))"

definition install_replan :: "env \<Rightarrow> task_plan \<Rightarrow> string \<Rightarrow> run act" where
  "install_replan env p key = bnd (require_key key) (\<lambda>_.
     let pre = ''replan:'' @ key in
     under_lease env (plan_run p) (bnd (locked_run (plan_run p)) (\<lambda>r.
       bnd (events_by_key (run_id r) pre) (\<lambda>replay.
       if replay \<noteq> None then
         bnd (get_plan (run_id r) (plan_version p)) (\<lambda>stored. bnd (replay_check stored p) (\<lambda>_. ret r))
       else
         bnd (replan_checks env p r) (\<lambda>current.
         bnd (utc_now env) (\<lambda>now.
         bnd (run_executions (run_id r)) (\<lambda>xs.
         bnd (for_each xs (\<lambda>x.
           bnd (deny (exec_status x = TS_RUNNING) Conflict) (\<lambda>_.
           if exec_status x = TS_WAITING \<or> exec_status x = TS_BLOCKED then
             bnd (transition_in_transaction env r (exec_id x) TS_CANCELLED (pre @ '':'' @ uuid_str (exec_id x)) now) (\<lambda>_. ret ())
           else ret ()))) (\<lambda>_.
         bnd (for_each (plan_tasks current) (\<lambda>t.
           if task_status t = TS_PENDING \<or> task_status t = TS_READY then
             supersede env r (pre @ '':cancel:'') ''Explicit goal revision'' now t
           else ret ())) (\<lambda>_.
         bnd (save_plan p) (\<lambda>_.
         let updated = r\<lparr>run_plan_version := plan_version p, run_resume := Some RS_PLANNED\<rparr> in
         bnd (runs_save updated) (\<lambda>_.
         bnd (emit env updated EV_PLAN_REVISED pre now
           ((plan_payload p (plan_tasks p))\<lparr>pl_reason := Some ''Explicit goal revision''\<rparr>) None None None) (\<lambda>_.
         bnd (announce_tasks env updated (pre @ '':task:'') now (plan_tasks p)) (\<lambda>_.
         bnd (refresh_ready env updated pre now) (\<lambda>_.
         bnd (commit env) (\<lambda>_.
         locked_run (run_id r))))))))))))))))"

context repository_contract
begin

lemma keeps_revision_checks: "keeps S (revision_checks env current p goal)"
  unfolding revision_checks_def Let_def by (intro act_laws)

lemma keeps_replay_check: "keeps S (replay_check stored p)"
  unfolding replay_check_def by (intro act_laws)

lemma keeps_supersede: "keeps S (supersede env r pk reason now t)"
  unfolding supersede_def by (intro act_laws runtime_laws)

lemma keeps_preview_checks: "keeps S (preview_checks p expected r)"
  unfolding preview_checks_def by (intro act_laws)

lemma keeps_replan_checks: "keeps S (replan_checks env p r)"
  unfolding replan_checks_def by (intro act_laws approval_laws)

lemmas revision_laws = keeps_revision_checks keeps_replay_check keeps_supersede keeps_preview_checks keeps_replan_checks

lemma under_lease_evolves: "keeps S body \<Longrightarrow> keeps T (under_lease env rid body)"
  unfolding under_lease_def by (intro service_laws act_laws)

end

context run_contract
begin

lemma install_revision_evolves: "keeps T (install_revision env p key repair)"
  unfolding install_revision_def require_key_def Let_def
  by (intro service_laws act_laws run_laws runtime_laws approval_laws task_laws orchestrator_laws revision_laws keeps_guard_delivery)

lemma replace_preview_plan_evolves: "keeps T (replace_preview_plan env p expected key)"
  unfolding replace_preview_plan_def require_key_def Let_def result_of_def
  by (intro service_laws under_lease_evolves act_laws run_laws runtime_laws approval_laws task_laws orchestrator_laws revision_laws)

lemma install_replan_evolves: "keeps T (install_replan env p key)"
  unfolding install_replan_def require_key_def Let_def
  by (intro service_laws under_lease_evolves act_laws run_laws runtime_laws approval_laws task_laws orchestrator_laws revision_laws)

end

end
