(* ===== verification/Orq_Glob.thy ===== *)
theory Orq_Glob
  imports Orq_Prelude
begin

text \<open>
  \<^verbatim>\<open>fnmatch.fnmatchcase\<close>, which decides the write scope of a run, the explicit scope of a goal and the
  approved sensitive paths: \<^verbatim>\<open>*\<close> matches any text, \<^verbatim>\<open>?\<close> any character, \<^verbatim>\<open>[seq]\<close> and \<^verbatim>\<open>[!seq]\<close> a
  character in, or not in, a set of characters and ranges; an unclosed bracket is an ordinary
  character. The parts of a POSIX path that \<^verbatim>\<open>pathlib\<close> computes without the filesystem are here too.
\<close>

section \<open>Patterns\<close>

datatype glob = Star | AnyChar | Literal char | CharSet bool "string list"

fun index_from :: "char \<Rightarrow> nat \<Rightarrow> string \<Rightarrow> nat option" where
  "index_from d n [] = None"
| "index_from d (Suc n) (c # cs) = map_option Suc (index_from d n cs)"
| "index_from d 0 (c # cs) = (if c = d then Some 0 else map_option Suc (index_from d 0 cs))"

lemma index_from_less: "index_from d n cs = Some k \<Longrightarrow> k < length cs"
  by (induction d n cs arbitrary: k rule: index_from.induct) (auto split: if_splits)

text \<open>
  The text of a bracket without its \<^verbatim>\<open>!\<close>, split at the hyphens of its ranges; a range runs from the last
  character of a chunk to the first of the next. Ranges from a greater to a smaller character are
  removed.
\<close>

function range_chunks :: "nat \<Rightarrow> string \<Rightarrow> string list" where
  "range_chunks n s = (case index_from (CHR ''-'') n s of None \<Rightarrow> [s]
     | Some k \<Rightarrow> if drop (Suc k) s = [] then [s] else take k s # range_chunks 2 (drop (Suc k) s))"
  by pat_completeness auto

termination range_chunks
  by (relation "measure (\<lambda>(n, s). length s)") (auto dest: index_from_less)

declare range_chunks.simps [simp del]

fun drop_empty_ranges :: "string list \<Rightarrow> string list" where
  "drop_empty_ranges [] = []"
| "drop_empty_ranges (c # cs) = (case drop_empty_ranges cs of [] \<Rightarrow> [c]
     | d # ds \<Rightarrow> if c \<noteq> [] \<and> d \<noteq> [] \<and> hd d < last c then (butlast c @ tl d) # ds else c # d # ds)"

fun in_ranges :: "char \<Rightarrow> string list \<Rightarrow> bool" where
  "in_ranges x (c # d # ds) = (c \<noteq> [] \<and> d \<noteq> [] \<and> last c \<le> x \<and> x \<le> hd d \<or> in_ranges x (d # ds))"
| "in_ranges x _ = False"

definition in_char_set :: "char \<Rightarrow> bool \<Rightarrow> string list \<Rightarrow> bool" where
  "in_char_set x negated chunks \<longleftrightarrow> ((\<exists>c \<in> set chunks. x \<in> set c) \<or> in_ranges x chunks) \<noteq> negated"

text \<open>The text between brackets and what follows, when the bracket is closed.\<close>

definition bracket :: "string \<Rightarrow> (string \<times> string) option" where
  "bracket s = (let n = (if take 1 s = ''!'' then 1 else 0); m = n + (if take 1 (drop n s) = '']'' then 1 else 0) in
     map_option (\<lambda>k. (take k s, drop (Suc k) s)) (index_from (CHR '']'') m s))"

lemma bracket_shorter: "bracket s = Some (b, r) \<Longrightarrow> length r < length s"
  by (auto simp: bracket_def Let_def dest: index_from_less)

function glob_of :: "string \<Rightarrow> glob list" where
  "glob_of [] = []"
| "glob_of (c # cs) =
    (if c = CHR ''*'' then Star # glob_of cs
     else if c = CHR ''?'' then AnyChar # glob_of cs
     else if c = CHR ''['' then
       (case bracket cs of None \<Rightarrow> Literal c # glob_of cs
        | Some (b, r) \<Rightarrow>
            (let negated = (take 1 b = ''!'') in
             CharSet negated (drop_empty_ranges (range_chunks 1 (if negated then tl b else b))) # glob_of r))
     else Literal c # glob_of cs)"
  by pat_completeness auto

termination glob_of
  by (relation "measure length") (auto dest: bracket_shorter)

declare glob_of.simps(2) [simp del]

fun glob_match :: "glob list \<Rightarrow> string \<Rightarrow> bool" where
  "glob_match [] s = (s = [])"
| "glob_match (Star # gs) [] = glob_match gs []"
| "glob_match (Star # gs) (c # cs) = (glob_match gs (c # cs) \<or> glob_match (Star # gs) cs)"
| "glob_match (AnyChar # gs) s = (case s of [] \<Rightarrow> False | c # cs \<Rightarrow> glob_match gs cs)"
| "glob_match (Literal d # gs) s = (case s of [] \<Rightarrow> False | c # cs \<Rightarrow> c = d \<and> glob_match gs cs)"
| "glob_match (CharSet n chunks # gs) s = (case s of [] \<Rightarrow> False | c # cs \<Rightarrow> in_char_set c n chunks \<and> glob_match gs cs)"

definition fnmatchcase :: "string \<Rightarrow> string \<Rightarrow> bool" where
  "fnmatchcase path pat = glob_match (glob_of pat) path"

text \<open>A pattern without wildcards matches exactly itself; a star matches everything.\<close>

lemma glob_match_star [simp]: "glob_match (Star # gs) s \<longleftrightarrow> (\<exists>t u. s = t @ u \<and> glob_match gs u)"
proof (induction s)
  case Nil
  then show ?case by simp
next
  case (Cons c cs)
  then show ?case by (auto simp: Cons_eq_append_conv)
qed

lemma fnmatch_literal:
  assumes "\<forall>c \<in> set pat. c \<notin> {CHR ''*'', CHR ''?'', CHR ''[''}"
  shows "fnmatchcase path pat \<longleftrightarrow> path = pat"
  using assms unfolding fnmatchcase_def
  by (induction pat arbitrary: path) (auto simp: glob_of.simps(2) split: list.splits)

lemma fnmatch_star_suffix:
  assumes "\<forall>c \<in> set pre. c \<notin> {CHR ''*'', CHR ''?'', CHR ''[''}"
  shows "fnmatchcase path (pre @ ''*'') \<longleftrightarrow> prefix pre path"
  using assms unfolding fnmatchcase_def
  by (induction pre arbitrary: path) (auto simp: glob_of.simps(2) split: list.splits)

section \<open>Pure paths\<close>

text \<open>\<^verbatim>\<open>PurePosixPath(s).parts\<close> without the root, \<^verbatim>\<open>name\<close> and \<^verbatim>\<open>suffix\<close>.\<close>

definition posix_parts :: "string \<Rightarrow> string list" where
  "posix_parts s = filter (\<lambda>p. p \<noteq> [] \<and> p \<noteq> ''.'') (split_on (CHR ''/'') s)"

definition posix_name :: "string \<Rightarrow> string" where
  "posix_name s = (if posix_parts s = [] then [] else last (posix_parts s))"

definition posix_suffix :: "string \<Rightarrow> string" where
  "posix_suffix s = (let name = posix_name s; ext = rev (takeWhile (\<lambda>c. c \<noteq> CHR ''.'') (rev name)) in
     if length ext + 1 < length name \<and> ext \<noteq> [] then CHR ''.'' # ext else [])"

text \<open>\<^verbatim>\<open>s.casefold()\<close> as far as comparisons with ASCII words go.\<close>

definition fold_char :: "char \<Rightarrow> string" where
  "fold_char c = (let n = (of_char c :: nat) in
     if 65 \<le> n \<and> n \<le> 90 then [char_of (n + 32)] else if n = 223 then ''ss'' else [c])"

definition casefold :: "string \<Rightarrow> string" where
  "casefold s = concat (map fold_char s)"

text \<open>\<^verbatim>\<open>s.rstrip("/")\<close> and \<^verbatim>\<open>s.removeprefix(p)\<close>.\<close>

definition rstrip_slash :: "string \<Rightarrow> string" where
  "rstrip_slash s = rev (dropWhile (\<lambda>c. c = CHR ''/'') (rev s))"

definition remove_prefix :: "string \<Rightarrow> string \<Rightarrow> string" where
  "remove_prefix p s = (if starts_with p s then drop (length p) s else s)"

end
