(* ===== verification/Orq_Fixtures.thy ===== *)
theory Orq_Fixtures
  imports Orq_Capsule Orq_Samples
begin

text \<open>
  A concrete environment and a concrete store for the witnesses: a clock that stands still, leases that
  are free, nothing unsafe, and one text for every document.
\<close>

definition sample_project :: project where
  "sample_project = \<lparr>proj_id = sample_id 1, proj_created = 0, proj_name = ''site'', proj_root = ''/site'', proj_branch = ''main'',
     proj_settings = \<lparr>ps_permissions = \<lparr>perm_tools = [], perm_network = False\<rparr>, ps_providers = [], ps_protected = [],
       ps_allow_push = False, ps_max_attempts = 3, ps_max_repairs = 5\<rparr>\<rparr>"

definition sample_env :: env where
  "sample_env = \<lparr>env_clock = (\<lambda>_. 0), env_lease = (\<lambda>_. True), env_safe = id, env_json = (\<lambda>_. ''{}''),
     env_sha = id, env_project = (\<lambda>_. Some sample_project)\<rparr>"

definition sample_capsule :: capsule where
  "sample_capsule = (new_capsule ''ORQ-20260101-0001'' sample_run)\<lparr>cap_dirty := False\<rparr>"

definition store_of :: "capsule \<Rightarrow> uow" where
  "store_of c = \<lparr>uow_disk = [(run_id (cap_run c), c)], uow_work = [], uow_bus = [], uow_step = 0\<rparr>"

end
