(* ===== verification/Orq_Plans.thy ===== *)
theory Orq_Plans
  imports Orq_Revision Orq_Glob Orq_Fixtures
begin

text \<open>
  The plans the code itself makes: the initial slice of \<^verbatim>\<open>core/vertical_plan.py\<close>, the repair tasks of
  \<^verbatim>\<open>RepairPlanner\<close> (\<^verbatim>\<open>core/repair.py\<close>), the delivery tasks of \<^verbatim>\<open>core/delivery_plan.py\<close> and the
  editable copy of \<^verbatim>\<open>core/plan_draft.py\<close>. The planners add a chain of new tasks to a plan;
  \<open>extended_plan_wf\<close> shows once that such a plan is well formed.
\<close>

section \<open>New tasks\<close>

definition new_task :: "env \<Rightarrow> uuid \<Rightarrow> uuid \<Rightarrow> nat \<Rightarrow> agent_role \<Rightarrow> string \<Rightarrow> string \<Rightarrow> string \<Rightarrow> string list
    \<Rightarrow> uuid list \<Rightarrow> uuid option \<Rightarrow> task act" where
  "new_task env tid rid v role description outcome validation capabilities criteria parent =
     bnd (utc_now env) (\<lambda>now.
     let t = \<lparr>task_id = tid, task_created = now, task_run = rid, task_plan_version = v, task_parent = parent,
              task_description = description, task_outcome = outcome, task_status = TS_PENDING, task_risk = 0,
              task_capabilities = capabilities, task_role = role, task_artifacts = [],
              task_validation = validation, task_weight = 1, task_ready = None, task_started = None,
              task_completed = None, task_attempts = 0, task_criteria = criteria\<rparr> in
     bnd (deny (\<not> task_ok t) ValueErr) (\<lambda>_. ret t))"

definition edge :: "uuid \<Rightarrow> uuid \<Rightarrow> task_dependency" where
  "edge child parent = \<lparr>dep_task = child, dep_on = parent, dep_type = ''finish_to_start''\<rparr>"

text \<open>\<^verbatim>\<open>zip(tasks, tasks[1:])\<close>: each task waits for the one before.\<close>

fun chain :: "uuid list \<Rightarrow> task_dependency list" where
  "chain (a # b # ids) = edge b a # chain (b # ids)"
| "chain _ = []"

section \<open>Delivery tasks\<close>

definition delivery_steps :: "(string \<times> agent_role \<times> string) list" where
  "delivery_steps =
    [(''implementation'', ROLE_CHANGE_GUARDIAN, ''Inspect accepted implementation''),
     (''documentation'', ROLE_DOCUMENTATION, ''Document accepted changes''),
     (''validation'', ROLE_TESTER, ''Validate final deliverable''),
     (''final'', ROLE_CHANGE_GUARDIAN, ''Inspect final deliverable''),
     (''git'', ROLE_GITOPS, ''Deliver validated changes to Git''),
     (''memory'', ROLE_MEMORY_CURATOR, ''Curate accepted project knowledge'')]"

definition delivery_task_id :: "uuid \<Rightarrow> string \<Rightarrow> uuid" where
  "delivery_task_id rid step = uuid5 rid (''delivery-task:'' @ step)"

definition delivery_plan :: "env \<Rightarrow> task_plan \<Rightarrow> task_plan act" where
  "delivery_plan env current =
     (let v = Suc (plan_version current); rid = plan_run current in
      bnd (collect delivery_steps (\<lambda>(step, role, description).
        new_task env (delivery_task_id rid step) rid v role description description ''Persisted delivery evidence'' [] [] None)) (\<lambda>ts.
      let ids = map task_id ts in
      result_of (validate_plan (current\<lparr>plan_version := v, plan_tasks := plan_tasks current @ ts,
        plan_deps := plan_deps current @ map (edge (hd ids)) (succeeded_ids current) @ chain ids\<rparr>))))"

section \<open>Repair tasks\<close>

definition dict_fromkeys :: "'a list \<Rightarrow> 'a list" where
  "dict_fromkeys xs = rev (remdups (rev xs))"

definition failed_reviews :: "review_record \<Rightarrow> criterion_review list" where
  "failed_reviews rv = filter (\<lambda>c. \<not> cr_pass c) (rr_criteria (rev_result rv))"

definition affected_criteria :: "review_record \<Rightarrow> uuid list \<Rightarrow> uuid list" where
  "affected_criteria rv criteria =
     (let failed = map cr_criterion (failed_reviews rv) in if failed = [] then criteria else failed)"

definition repair_reasons :: "review_record \<Rightarrow> string" where
  "repair_reasons rv = (let reasons = join_str ''; '' (map cr_reason (failed_reviews rv)) in
     if reasons = [] then join_str ''; '' (rr_blocking (rev_result rv)) else reasons)"

definition original_task :: "task_plan \<Rightarrow> uuid list \<Rightarrow> task option" where
  "original_task current affected = find (\<lambda>t. task_role t = ROLE_DEVELOPER
     \<and> set (task_criteria t) \<inter> set affected \<noteq> {}) (plan_tasks current)"

definition repair_task_id :: "uuid \<Rightarrow> nat \<Rightarrow> string \<Rightarrow> uuid" where
  "repair_task_id rid v step = uuid5 rid (''repair:'' @ nat_str v @ '':'' @ step)"

definition repair_plan :: "env \<Rightarrow> task_plan \<Rightarrow> review_record \<Rightarrow> uuid list \<Rightarrow> task_plan act" where
  "repair_plan env current rv criteria =
     (let affected = affected_criteria rv criteria; reasons = repair_reasons rv;
          v = Suc (plan_version current); rid = plan_run current; original = original_task current affected in
      bnd (new_task env (repair_task_id rid v ''diagnose'') rid v ROLE_REPAIR
        (''Diagnose failed acceptance: '' @ reasons) ''Identify the smallest correction and affected source files''
        ''Source-backed diagnosis'' [''diagnosis''] affected None) (\<lambda>diagnosis.
      bnd (new_task env (repair_task_id rid v ''implement'') rid v ROLE_DEVELOPER
        (''Repair only the affected behavior: '' @ reasons) ''Resolve failed criteria without changing the accepted goal''
        ''Affected checks and required regression suite''
        (dict_fromkeys (''implementation'' # (case original of None \<Rightarrow> [] | Some t \<Rightarrow> task_capabilities t)))
        affected (map_option task_id original)) (\<lambda>implementation.
      bnd (new_task env (repair_task_id rid v ''test'') rid v ROLE_TESTER
        ''Retest repaired behavior and required regressions'' ''Current evidence for the complete acceptance contract''
        ''Acceptance validators'' [] criteria None) (\<lambda>retest.
      bnd (new_task env (repair_task_id rid v ''review'') rid v ROLE_REVIEWER
        ''Review the repaired implementation and regression evidence'' ''Independent criterion-by-criterion review''
        ''Structured acceptance review'' [''evidence_review''] criteria None) (\<lambda>reviewer.
      let ts = [diagnosis, implementation, retest, reviewer] in
      result_of (validate_plan (current\<lparr>plan_version := v, plan_tasks := plan_tasks current @ ts,
        plan_deps := plan_deps current @ chain (map task_id ts)\<rparr>)))))))"

section \<open>The initial plan\<close>

definition capability_suffixes :: "(string \<times> string list) list" where
  "capability_suffixes =
    [(''python'', [''.py'', ''.pyi'']),
     (''typescript'', [''.ts'', ''.tsx'', ''.mts'', ''.cts'']),
     (''javascript'', [''.js'', ''.jsx'', ''.mjs'', ''.cjs'']),
     (''react'', [''.tsx'', ''.jsx'']),
     (''database'', [''.sql'', ''.ddl'', ''.prisma'']),
     (''documentation'', [''.md'', ''.mdx'', ''.rst'', ''.txt''])]"

definition database_directories :: "string list" where
  "database_directories = [''alembic'', ''database'', ''db'', ''migrations'', ''persistence'', ''prisma'']"

definition documentation_directories :: "string list" where
  "documentation_directories = [''docs'', ''documentation'']"

definition normalize_scope :: "string \<Rightarrow> string" where
  "normalize_scope value =
     (let normalized = map (\<lambda>c. if c = CHR 0x5C then CHR ''/'' else c) (py_strip value) in
      if normalized = ''.'' \<or> normalized = ''./'' then ''.'' else rstrip_slash (remove_prefix ''./'' normalized))"

definition matches_scope :: "string \<Rightarrow> string \<Rightarrow> bool" where
  "matches_scope path scope \<longleftrightarrow> scope = ''.'' \<or> fnmatchcase path scope \<or> starts_with (scope @ ''/'') path"

text \<open>The paths the goal's scope names, and the files of the context inside that scope.\<close>

definition scope_paths :: "goal_version \<Rightarrow> string list \<Rightarrow> string list" where
  "scope_paths g files = (let scopes = map normalize_scope (goal_scope g) in
     filter (\<lambda>s. s \<noteq> [] \<and> \<not> list_ex is_space s) scopes
       @ filter (\<lambda>p. p \<noteq> [] \<and> (\<exists>s \<in> set scopes. matches_scope p s)) (map normalize_scope files))"

definition path_capability :: "string \<Rightarrow> string \<Rightarrow> bool" where
  "path_capability path capability =
     (let source = casefold path; suffix = posix_suffix source; parts = set (posix_parts source);
          documented = parts \<inter> set documentation_directories \<noteq> {} in
      (\<exists>(name, suffixes) \<in> set capability_suffixes. name = capability \<and> suffix \<in> set suffixes)
      \<or> (capability = ''database'' \<and> suffix \<notin> {''.md'', ''.mdx'', ''.rst'', ''.txt''} \<and> \<not> documented
          \<and> (parts \<inter> set database_directories \<noteq> {} \<or> posix_name source = ''alembic.ini''))
      \<or> (capability = ''documentation'' \<and> (documented \<or> posix_name source \<in> {''readme'', ''changelog'', ''contributing''})))"

definition implementation_capabilities :: "goal_version \<Rightarrow> string list \<Rightarrow> string list" where
  "implementation_capabilities g files =
     (let excluded = map normalize_scope (goal_out_of_scope g);
          paths = filter (\<lambda>p. \<not> (\<exists>s \<in> set excluded. matches_scope p s)) (scope_paths g files) in
      filter (\<lambda>capability. \<exists>p \<in> set paths. path_capability p capability) (map fst capability_suffixes))"

definition vertical_roles :: "goal_version \<Rightarrow> (agent_role \<times> string \<times> string \<times> string) list" where
  "vertical_roles g =
    [(ROLE_DEVELOPER, goal_text g, ''Implement the accepted scope with focused code and test changes'',
      ''Acceptance validators''),
     (ROLE_TESTER, ''Validate the current acceptance contract'',
      ''Persist deterministic evidence for every executable criterion'', ''Acceptance validators''),
     (ROLE_REVIEWER, ''Review implementation against every acceptance criterion'',
      ''Return evidence-backed PASS/FAIL for each criterion'', ''Structured acceptance review'')]"

definition vertical_task_id :: "uuid \<Rightarrow> nat \<Rightarrow> agent_role \<Rightarrow> uuid" where
  "vertical_task_id gid v role = uuid5 gid (''vertical:'' @ nat_str v @ '':'' @ role_str role)"

definition vertical_plan :: "env \<Rightarrow> goal_contract \<Rightarrow> string list \<Rightarrow> nat \<Rightarrow> task_plan act" where
  "vertical_plan env gc files v =
     (let g = gc_goal gc; criteria = map crit_id (gc_criteria gc) in
      bnd (collect (vertical_roles g) (\<lambda>(role, description, outcome, validation).
        new_task env (vertical_task_id (goal_id g) v role) (goal_run g) v role description outcome validation
          (if role = ROLE_REVIEWER then [''evidence_review'']
           else if role = ROLE_DEVELOPER then implementation_capabilities g files else [])
          criteria None)) (\<lambda>ts.
      result_of (validate_plan \<lparr>plan_run = goal_run g, plan_goal = goal_id g, plan_version = v,
        plan_tasks = ts, plan_deps = chain (map task_id ts)\<rparr>)))"

section \<open>Editable drafts\<close>

text \<open>The copy of a task under its new identity, as it was before it was scheduled.\<close>

definition draft_task :: "(uuid \<times> uuid) list \<Rightarrow> nat \<Rightarrow> task \<Rightarrow> task" where
  "draft_task identities v t = t\<lparr>task_id := the (map_of identities (task_id t)), task_plan_version := v,
     task_status := TS_PENDING, task_ready := None, task_started := None, task_completed := None, task_attempts := 0\<rparr>"

definition draft_dependencies :: "(uuid \<times> uuid) list \<Rightarrow> task_dependency list \<Rightarrow> task_dependency list" where
  "draft_dependencies identities es =
     map (\<lambda>e. e\<lparr>dep_task := the (map_of identities (dep_task e)), dep_on := the (map_of identities (dep_on e))\<rparr>)
       (filter (\<lambda>e. dep_task e \<in> fst ` set identities \<and> dep_on e \<in> fst ` set identities) es)"

definition draft_replacement :: "task_plan \<Rightarrow> task_plan act" where
  "draft_replacement current =
     (let active = filter (\<lambda>t. 0 < task_plan_version t) (plan_tasks current); v = Suc (plan_version current) in
      bnd (collect active (\<lambda>t. bnd uuid4 (\<lambda>i. ret (task_id t, i)))) (\<lambda>identities.
      result_of (validate_plan (current\<lparr>plan_version := v, plan_tasks := map (draft_task identities v) active,
        plan_deps := draft_dependencies identities (plan_deps current)\<rparr>))))"

section \<open>Extending a plan\<close>

definition waits_for :: "task_plan \<Rightarrow> (uuid \<times> uuid) set" where
  "waits_for p = (\<lambda>e. (dep_task e, dep_on e)) ` set (plan_deps p)"

lemma waits_for_converse: "(\<lambda>e. (dep_on e, dep_task e)) ` set es = ((\<lambda>e. (dep_task e, dep_on e)) ` set es)\<inverse>"
  by force

lemma wf_finite_deps: "wf ((\<lambda>e. (dep_on e, dep_task e)) ` set es) \<longleftrightarrow> acyclic ((\<lambda>e. (dep_on e, dep_task e)) ` set es)"
  using finite_acyclic_wf wf_acyclic by blast

lemma edge_sel [simp]: "dep_task (edge a b) = a" "dep_on (edge a b) = b" "dep_type (edge a b) = ''finish_to_start''"
  by (simp_all add: edge_def)

lemma chain_ends: "e \<in> set (chain ids) \<Longrightarrow> dep_on e \<in> set ids \<and> dep_task e \<in> set (tl ids) \<and> dep_type e = ''finish_to_start''"
  by (induction ids rule: chain.induct) auto

lemma chain_new: "e \<in> set (chain ids) \<Longrightarrow> dep_task e \<in> set ids"
  using chain_ends [of e ids] by (cases ids) auto

lemma chain_distinct: "distinct ids \<Longrightarrow> distinct (map (\<lambda>e. (dep_task e, dep_on e)) (chain ids))"
proof (induction ids rule: chain.induct)
  case (1 a b ids)
  then have "dep_task e \<noteq> b" if "e \<in> set (chain (b # ids))" for e
    using chain_ends [OF that] by auto
  with 1 show ?case by auto
qed auto

lemma wf_chain: "distinct ids \<Longrightarrow> wf ((\<lambda>e. (dep_on e, dep_task e)) ` set (chain ids))"
proof (induction ids rule: chain.induct)
  case (1 a b ids)
  have "dep_task e \<noteq> a" if "e \<in> set (chain (b # ids))" for e
    using chain_ends [OF that] 1 by auto
  then have "Domain {(a, b)} \<inter> Range ((\<lambda>e. (dep_on e, dep_task e)) ` set (chain (b # ids))) = {}" by auto
  moreover have "wf {(a, b)}" using 1 by (auto simp: wf_def)
  ultimately have "wf ({(a, b)} \<union> (\<lambda>e. (dep_on e, dep_task e)) ` set (chain (b # ids)))"
    using 1 by (intro wf_Un) auto
  then show ?case by simp
qed auto

text \<open>
  New tasks, in a chain whose first task also waits for some tasks of the plan, keep a plan well formed:
  no old task waits for a new one.
\<close>

definition chained :: "task_plan \<Rightarrow> nat \<Rightarrow> task list \<Rightarrow> uuid list \<Rightarrow> task_plan" where
  "chained p v ts waits = p\<lparr>plan_version := v, plan_tasks := plan_tasks p @ ts,
     plan_deps := plan_deps p @ map (edge (hd (map task_id ts))) waits @ chain (map task_id ts)\<rparr>"

lemma chained_acyclic:
  assumes "acyclic ((\<lambda>e. (dep_on e, dep_task e)) ` set es)" and "distinct ids" and "ids \<noteq> []"
    and "\<forall>e \<in> set es. dep_on e \<notin> set ids" "\<forall>e \<in> set es. dep_task e \<notin> set ids" "set waits \<inter> set ids = {}"
  shows "acyclic ((\<lambda>e. (dep_on e, dep_task e)) ` set (es @ map (edge (hd ids)) waits @ chain ids))"
proof -
  let ?f = "\<lambda>e. (dep_on e, dep_task e)"
  let ?W = "?f ` set (map (edge (hd ids)) waits)" and ?C = "?f ` set (chain ids)"
  have hd: "hd ids \<in> set ids" and tl: "hd ids \<notin> set (tl ids)" using assms(2,3) by (cases ids; simp)+
  have "?W \<subseteq> measure (\<lambda>x. if x = hd ids then 1 else 0)" using assms(6) hd by auto
  then have "wf ?W" using wf_measure wf_subset by blast
  moreover have "Domain ?W \<inter> Range ?C = {}"
  proof -
    have "Range ?C \<subseteq> set ids" using chain_new by auto
    moreover have "Domain ?W = set waits" by (auto simp: image_iff)
    ultimately show ?thesis using assms(6) by blast
  qed
  ultimately have added: "wf (?W \<union> ?C)" using wf_chain [OF assms(2)] by (intro wf_Un)
  have old: "wf (?f ` set es)" using assms(1) by (simp add: wf_finite_deps)
  have "Domain (?f ` set es) \<inter> Range (?W \<union> ?C) = {}"
  proof -
    have "Range (?W \<union> ?C) \<subseteq> set ids"
      using chain_new hd by auto
    moreover have "Domain (?f ` set es) \<inter> set ids = {}" using assms(4) by auto
    ultimately show ?thesis by blast
  qed
  with wf_Un [OF old added] have "wf (?f ` set es \<union> (?W \<union> ?C))" by blast
  then show ?thesis using wf_acyclic by (auto simp: image_Un Un_assoc)
qed

lemma chained_well_formed:
  assumes p: "plan_well_formed p" and ids: "distinct (map task_id ts)" "task_id ` set ts \<inter> set (task_ids p) = {}" "ts \<noteq> []"
    and ts: "\<forall>t \<in> set ts. task_run t = plan_run p \<and> task_plan_version t = v" and v: "plan_version p \<le> v"
    and waits: "distinct waits" "set waits \<subseteq> set (task_ids p)"
  shows "plan_well_formed (chained p v ts waits)"
proof -
  let ?ids = "map task_id ts" and ?f = "\<lambda>e. (dep_task e, dep_on e)"
  have deps: "dep_task e \<in> set (task_ids p) \<and> dep_on e \<in> set (task_ids p)" if "e \<in> set (plan_deps p)" for e
    using p that by (simp add: plan_well_formed_def)
  have new: "dep_task e \<in> set ?ids" if "e \<in> set (map (edge (hd ?ids)) waits @ chain ?ids)" for e
  proof (cases "e \<in> set (chain ?ids)")
    case True
    then show ?thesis by (rule chain_new)
  next
    case False
    with that have "dep_task e = hd ?ids" by auto
    then show ?thesis using ids(3) by (metis hd_in_set map_is_Nil_conv)
  qed
  have hd: "hd ?ids \<notin> set (tl ?ids)" using ids(1,3) by (cases ts) auto
  define es where "es = map (edge (hd ?ids)) waits @ chain ?ids"
  have wait_pairs: "distinct (map ?f (map (edge (hd ?ids)) waits))"
    using waits(1) by (simp add: comp_def distinct_map inj_on_def)
  have pairs: "distinct (map ?f es)"
    using wait_pairs chain_distinct [OF ids(1)] chain_ends [of _ ?ids] hd by (fastforce simp: es_def comp_def)
  have apart: "set (map ?f (plan_deps p)) \<inter> set (map ?f es) = {}"
  proof -
    have "dep_task e \<noteq> dep_task d" if "e \<in> set (plan_deps p)" "d \<in> set es" for e d
      using deps [OF that(1)] new [of d] that(2) ids(2) by (auto simp: es_def)
    then show ?thesis by fastforce
  qed
  have ac: "acyclic ((\<lambda>e. (dep_on e, dep_task e)) ` set (plan_deps p @ es))"
    unfolding es_def using p ids waits(2) deps by (intro chained_acyclic) (auto simp: plan_well_formed_def)
  have ends: "dep_task e \<in> set ?ids \<and> dep_on e \<in> set (task_ids p) \<union> set ?ids \<and> dep_type e = ''finish_to_start''"
    if "e \<in> set es" for e
    using new [of e] that waits(2) chain_ends [of e ?ids] by (auto simp: es_def)
  have eq: "chained p v ts waits = p\<lparr>plan_version := v, plan_tasks := plan_tasks p @ ts, plan_deps := plan_deps p @ es\<rparr>"
    by (simp add: chained_def es_def)
  have old: "plan_version p \<le> v" "distinct (task_ids p)" "distinct (map ?f (plan_deps p))"
    "\<forall>t \<in> set (plan_tasks p). task_run t = plan_run p \<and> task_plan_version t \<le> plan_version p"
    "\<forall>e \<in> set (plan_deps p). dep_type e = ''finish_to_start''"
    using p v by (auto simp: plan_well_formed_def)
  have "distinct (task_ids (chained p v ts waits))"
    using old(2) ids(1,2) by (auto simp: eq)
  moreover have "\<forall>t \<in> set (plan_tasks (chained p v ts waits)). task_run t = plan_run p \<and> task_plan_version t \<le> v"
    using old(1,4) ts by (auto simp: eq)
  moreover have "distinct (map ?f (plan_deps (chained p v ts waits)))"
    using old(3) pairs apart by (simp add: eq)
  moreover have "\<forall>e \<in> set (plan_deps (chained p v ts waits)). dep_task e \<in> set (task_ids (chained p v ts waits))
      \<and> dep_on e \<in> set (task_ids (chained p v ts waits)) \<and> dep_type e = ''finish_to_start''"
  proof
    fix e
    assume "e \<in> set (plan_deps (chained p v ts waits))"
    then consider "e \<in> set (plan_deps p)" | "e \<in> set es" by (auto simp: eq)
    then have "dep_task e \<in> set (task_ids p) \<union> set ?ids \<and> dep_on e \<in> set (task_ids p) \<union> set ?ids
        \<and> dep_type e = ''finish_to_start''"
      by cases (use deps [of e] ends [of e] old(5) in blast)+
    then show "dep_task e \<in> set (task_ids (chained p v ts waits))
        \<and> dep_on e \<in> set (task_ids (chained p v ts waits)) \<and> dep_type e = ''finish_to_start''"
      by (simp add: eq image_Un)
  qed
  moreover have "plan_run (chained p v ts waits) = plan_run p" "plan_version (chained p v ts waits) = v"
    by (simp_all add: eq)
  ultimately show ?thesis using ac unfolding plan_well_formed_def by (simp add: eq)
qed

section \<open>What the planners return\<close>

lemma new_task_run:
  assumes "description \<noteq> []" "outcome \<noteq> []" "validation \<noteq> []"
  shows "new_task env tid rid v role description outcome validation capabilities criteria parent s =
    (Inr \<lparr>task_id = tid, task_created = env_clock env (uow_step s), task_run = rid, task_plan_version = v,
       task_parent = parent, task_description = description, task_outcome = outcome, task_status = TS_PENDING,
       task_risk = 0, task_capabilities = capabilities, task_role = role, task_artifacts = [],
       task_validation = validation, task_weight = 1, task_ready = None, task_started = None,
       task_completed = None, task_attempts = 0, task_criteria = criteria\<rparr>, env_tick s)"
  using assms by (simp add: new_task_def prog_simps utc_now_def task_ok_def)

lemma result_of_run: "result_of r s = (r, s)"
  by (cases r) (simp_all add: result_of_def prog_simps)

text \<open>A new task of a revision has not been scheduled.\<close>

definition unscheduled :: "task_plan \<Rightarrow> nat \<Rightarrow> task \<Rightarrow> bool" where
  "unscheduled p v t \<longleftrightarrow> task_ok t \<and> task_run t = plan_run p \<and> task_plan_version t = v \<and> task_status t = TS_PENDING
     \<and> task_attempts t = 0"

lemma chained_valid:
  assumes p: "validate_plan p = Inr p" and ids: "distinct (map task_id ts)" "task_id ` set ts \<inter> set (task_ids p) = {}" "ts \<noteq> []"
    and ts: "\<forall>t \<in> set ts. unscheduled p v t" and v: "plan_version p \<le> v"
    and waits: "distinct waits" "set waits \<subseteq> set (task_ids p)"
  shows "validate_plan (chained p v ts waits) = Inr (chained p v ts waits)"
proof -
  have "plan_well_formed (chained p v ts waits)"
    using assms validate_plan_iff [of p p] by (intro chained_well_formed) (auto simp: unscheduled_def)
  moreover have "1 \<le> v" "list_all task_ok (plan_tasks p @ ts)"
    using p v ts validate_plan_iff [of p p] by (auto simp: list_all_iff unscheduled_def)
  moreover have "plan_version (chained p v ts waits) = v" "plan_tasks (chained p v ts waits) = plan_tasks p @ ts"
    by (simp_all add: chained_def)
  ultimately show ?thesis using ids(3) by (simp add: validate_plan_iff)
qed

lemma distinct_succeeded: "distinct (task_ids p) \<Longrightarrow> distinct (succeeded_ids p)"
  by (simp add: succeeded_ids_def distinct_map_filter)

text \<open>A chained plan passes the checks of a revision when no task is being worked on.\<close>

lemma chained_accepted:
  assumes p: "plan_well_formed p" and ids: "task_id ` set ts \<inter> set (task_ids p) = {}" "ts \<noteq> []"
    and ts: "\<forall>t \<in> set ts. unscheduled p v t \<and> set (task_criteria t) \<subseteq> crit_id ` set (gc_criteria goal)"
    and idle: "\<forall>t \<in> set (plan_tasks p). \<not> active_attempt (task_status t)"
    and safe: "safe_doc env (DocPlan (chained p v ts waits))"
  shows "revision_checks env p (chained p v ts waits) goal s = (Inr (), s)"
proof -
  let ?q = "chained p v ts waits"
  have new: "added_tasks p ?q = ts"
    using ids(1) by (auto simp: added_tasks_def chained_def filter_empty_conv filter_id_conv)
  have kept: "task_by_id (plan_tasks ?q) (task_id t) = Some t" if "t \<in> set (plan_tasks p)" for t
  proof -
    have "map_of (map (\<lambda>t. (task_id t, t)) (plan_tasks p)) (task_id t) = Some t"
      using p that by (intro map_of_is_SomeI) (auto simp: plan_well_formed_def comp_def)
    moreover have "map_of (map (\<lambda>t. (task_id t, t)) ts) (task_id t) = None"
      using ids(1) that by (fastforce simp: map_of_eq_None_iff)
    ultimately show ?thesis by (simp add: task_by_id_def chained_def map_add_def)
  qed
  have "dep_task e \<notin> set (task_ids p)" if "e \<in> set (plan_deps ?q)" "e \<notin> set (plan_deps p)" for e
  proof -
    from that consider "e \<in> set (chain (map task_id ts))" | "dep_task e = hd (map task_id ts)"
      by (auto simp: chained_def)
    then have "dep_task e \<in> task_id ` set ts"
      by cases (use chain_new ids(2) in \<open>force intro: hd_in_set simp: hd_map\<close>)+
    with ids(1) show ?thesis by auto
  qed
  moreover have "set (plan_deps p) \<subseteq> set (plan_deps ?q)" "plan_version ?q = v" by (auto simp: chained_def)
  ultimately show ?thesis using kept ts idle ids(2) safe
    by (auto simp: revision_checks_def prog_simps Let_def new unscheduled_def)
qed

lemma collect_all:
  assumes "\<And>x s. x \<in> set xs \<Longrightarrow> \<exists>y t. f x s = (Inr y, t) \<and> P x y"
  shows "\<exists>ys t. collect xs f s = (Inr ys, t) \<and> list_all2 P xs ys"
  using assms
proof (induction xs arbitrary: s)
  case Nil
  show ?case by (simp add: prog_simps)
next
  case (Cons x xs)
  obtain y t where y: "f x s = (Inr y, t)" "P x y" using Cons.prems [of x s] by auto
  obtain ys u where "collect xs f t = (Inr ys, u)" "list_all2 P xs ys"
    using Cons.IH [of t] Cons.prems by auto
  with y show ?case by (simp add: prog_simps)
qed

text \<open>What the tasks of a planner have in common.\<close>

definition planned :: "task_plan \<Rightarrow> nat \<Rightarrow> uuid \<Rightarrow> agent_role \<Rightarrow> task \<Rightarrow> bool" where
  "planned p v i role t \<longleftrightarrow> unscheduled p v t \<and> task_id t = i \<and> task_role t = role"

lemma chain_reaches:
  assumes "i \<in> set ids" "i \<noteq> last ids"
  shows "(last ids, i) \<in> ((\<lambda>e. (dep_task e, dep_on e)) ` set (chain ids))\<^sup>+"
  using assms
proof (induction ids arbitrary: i rule: chain.induct)
  case (1 a b ids)
  let ?R = "\<lambda>ids. ((\<lambda>e. (dep_task e, dep_on e)) ` set (chain ids))"
  have mono: "(?R (b # ids))\<^sup>+ \<subseteq> (?R (a # b # ids))\<^sup>+" by (intro trancl_mono_subset) auto
  have ba: "(b, a) \<in> ?R (a # b # ids)" by auto
  consider "i \<in> set (b # ids)" "i \<noteq> last (b # ids)" | "i = a" "last (b # ids) = b"
    | "i = a" "b \<noteq> last (b # ids)"
    using 1(2,3) by fastforce
  then show ?case
  proof cases
    case 1
    then have "(last (b # ids), i) \<in> (?R (b # ids))\<^sup>+" by (rule "1.IH")
    with mono show ?thesis by auto
  next
    case 2
    with ba show ?thesis by auto
  next
    case 3
    then have "(last (b # ids), b) \<in> (?R (b # ids))\<^sup>+" by (intro "1.IH") auto
    with mono have "(last (b # ids), b) \<in> (?R (a # b # ids))\<^sup>+" by blast
    then have "(last (b # ids), a) \<in> (?R (a # b # ids))\<^sup>+" using ba by (rule trancl_into_trancl)
    with 3 show ?thesis by simp
  qed
qed auto

text \<open>The last task of the chain comes after all others of the chain and everything the chain waits for.\<close>

lemma chained_reaches:
  assumes "ts \<noteq> []" "i \<in> set waits \<union> (task_id ` set ts - {task_id (last ts)})"
  shows "(task_id (last ts), i) \<in> (waits_for (chained p v ts waits))\<^sup>+"
proof -
  let ?R = "(\<lambda>e. (dep_task e, dep_on e)) ` set (chain (map task_id ts))"
  let ?Q = "waits_for (chained p v ts waits)"
  have sub: "?R \<subseteq> ?Q" by (auto simp: waits_for_def chained_def)
  have last: "last (map task_id ts) = task_id (last ts)" using assms(1) by (simp add: last_map)
  have inner: "(task_id (last ts), j) \<in> ?Q\<^sup>+" if "j \<in> task_id ` set ts" "j \<noteq> task_id (last ts)" for j
    using chain_reaches [of j "map task_id ts"] that trancl_mono [OF _ sub] by (auto simp: last)
  show ?thesis
  proof (cases "i \<in> set waits")
    case True
    then have hop: "(hd (map task_id ts), i) \<in> ?Q" by (force simp: waits_for_def chained_def)
    show ?thesis
    proof (cases "hd (map task_id ts) = task_id (last ts)")
      case True
      with hop show ?thesis by auto
    next
      case False
      have "hd (map task_id ts) \<in> task_id ` set ts" using assms(1) by (simp add: hd_map)
      from inner [OF this False] hop show ?thesis by (rule trancl_into_trancl)
    qed
  next
    case False
    with assms(2) inner show ?thesis by blast
  qed
qed

definition delivery_ids :: "uuid \<Rightarrow> uuid list" where
  "delivery_ids rid = map (\<lambda>(step, _). delivery_task_id rid step) delivery_steps"

lemma distinct_delivery_ids: "distinct (delivery_ids rid)"
  by (simp add: delivery_ids_def delivery_steps_def delivery_task_id_def)

lemma delivery_tasks:
  "\<exists>ts t. delivery_plan env p s =
      (validate_plan (chained p (Suc (plan_version p)) ts (succeeded_ids p)), t) \<and> map task_id ts = delivery_ids (plan_run p)
    \<and> map task_role ts = map (fst \<circ> snd) delivery_steps
    \<and> (\<forall>t \<in> set ts. unscheduled p (Suc (plan_version p)) t \<and> task_criteria t = [])"
proof -
  let ?v = "Suc (plan_version p)"
  let ?P = "\<lambda>(step, role, description) t. planned p ?v (delivery_task_id (plan_run p) step) role t \<and> task_criteria t = []"
  let ?f = "\<lambda>(step, role, description). new_task env (delivery_task_id (plan_run p) step) (plan_run p) ?v role
      description description ''Persisted delivery evidence'' [] [] None"
  have "\<exists>y t. ?f x s = (Inr y, t) \<and> ?P x y" if "x \<in> set delivery_steps" for x s
    using that by (auto simp: delivery_steps_def new_task_run planned_def unscheduled_def task_ok_def)
  then obtain ts t where ts: "collect delivery_steps ?f s = (Inr ts, t)" "list_all2 ?P delivery_steps ts"
    using collect_all [of delivery_steps ?f ?P s] by blast
  have "map task_id ts = delivery_ids (plan_run p)" "map task_role ts = map (fst \<circ> snd) delivery_steps"
    "\<forall>t \<in> set ts. unscheduled p ?v t \<and> task_criteria t = []"
    using ts(2) by (auto simp: delivery_steps_def list_all2_Cons1 planned_def delivery_ids_def)
  moreover have "delivery_plan env p s = (validate_plan (chained p ?v ts (succeeded_ids p)), t)"
    using ts(1) by (simp add: delivery_plan_def Let_def prog_simps result_of_run chained_def)
  ultimately show ?thesis by blast
qed

section \<open>Prerequisites of prerequisites\<close>

lemma mem_waits_for: "(i, j) \<in> waits_for p \<longleftrightarrow> j \<in> set (prerequisites p i)"
  by (force simp: waits_for_def prerequisites_def)

lemma length_prerequisites: "length (remdups (prerequisites p i)) \<le> length (plan_deps p)"
  by (rule le_trans [OF length_remdups_leq]) (simp add: prerequisites_def)

text \<open>
  The search ends within its fuel: a round that marks a task pushes at most one entry per dependency,
  and every other round drops one.
\<close>

lemma ancestor_loop_closed:
  assumes "length pending + length (plan_deps p) * card (U - set seen) < fuel" and "finite U"
    and "set pending \<subseteq> U" and "\<forall>i. set (prerequisites p i) \<subseteq> U"
    and "\<forall>i \<in> set seen. set (prerequisites p i) \<subseteq> set seen \<union> set pending"
  shows "set seen \<union> set pending \<subseteq> set (ancestor_loop fuel p seen pending)
    \<and> (\<forall>i \<in> set (ancestor_loop fuel p seen pending). set (prerequisites p i) \<subseteq> set (ancestor_loop fuel p seen pending))"
  using assms
proof (induction fuel p seen pending rule: ancestor_loop.induct)
  case (2 n p seen pending)
  show ?case
  proof (cases "pending = []")
    case True
    with 2 show ?thesis by auto
  next
    case False
    then have split: "set pending = insert (last pending) (set (butlast pending))"
      by (metis append_butlast_last_id list.set(2) rotate1.simps(2) set_rotate1)
    have len: "length pending = Suc (length (butlast pending))" using False by (cases pending) auto
    show ?thesis
    proof (cases "last pending \<in> set seen")
      case True
      then have popped: "set pending \<subseteq> set seen \<union> set (butlast pending)" using split by auto
      have "set seen \<union> set (butlast pending) \<subseteq> set (ancestor_loop n p seen (butlast pending))
        \<and> (\<forall>i \<in> set (ancestor_loop n p seen (butlast pending)).
             set (prerequisites p i) \<subseteq> set (ancestor_loop n p seen (butlast pending)))"
      proof (rule 2(1) [OF False True])
        show "length (butlast pending) + length (plan_deps p) * card (U - set seen) < n" using 2(3) len by linarith
        show "set (butlast pending) \<subseteq> U" using 2(5) split by blast
        show "\<forall>i \<in> set seen. set (prerequisites p i) \<subseteq> set seen \<union> set (butlast pending)"
          using 2(7) popped by fast
      qed (rule 2(4) 2(6))+
      with popped show ?thesis using False True by (simp only: ancestor_loop.simps if_True if_False) blast
    next
      case new: False
      let ?i = "last pending" and ?D = "length (plan_deps p)"
      let ?k = "card (U - set (?i # seen))"
      have "?i \<in> U - set seen" using new split 2(5) by auto
      then have card: "card (U - set seen) = Suc ?k"
        using 2(4) by (metis Diff_insert card_Suc_Diff1 finite_Diff list.set(2))
      have "length (butlast pending) + (?D + ?D * ?k) < n"
        using 2(3) len unfolding card mult_Suc_right by linarith
      moreover have "length (butlast pending @ remdups (prerequisites p ?i)) \<le> length (butlast pending) + ?D"
        using length_prerequisites [of p ?i] by simp
      ultimately have fuel: "length (butlast pending @ remdups (prerequisites p ?i)) + ?D * ?k < n" by linarith
      have "set (?i # seen) \<union> set (butlast pending @ remdups (prerequisites p ?i))
          \<subseteq> set (ancestor_loop n p (?i # seen) (butlast pending @ remdups (prerequisites p ?i)))
        \<and> (\<forall>i \<in> set (ancestor_loop n p (?i # seen) (butlast pending @ remdups (prerequisites p ?i))).
             set (prerequisites p i) \<subseteq> set (ancestor_loop n p (?i # seen) (butlast pending @ remdups (prerequisites p ?i))))"
      proof (rule 2(2) [OF False new fuel])
        show "set (butlast pending @ remdups (prerequisites p ?i)) \<subseteq> U" using 2(5,6) split by auto
        have "set pending \<subseteq> set (?i # seen) \<union> set (butlast pending @ remdups (prerequisites p ?i))"
          using split by auto
        then show "\<forall>i \<in> set (?i # seen). set (prerequisites p i)
            \<subseteq> set (?i # seen) \<union> set (butlast pending @ remdups (prerequisites p ?i))"
          using 2(7) by fastforce
      qed (rule 2(4) 2(6))+
      moreover have "set pending \<subseteq> set (?i # seen) \<union> set (butlast pending @ remdups (prerequisites p ?i))"
        using split by auto
      moreover have "set seen \<subseteq> set (?i # seen)" by auto
      ultimately show ?thesis using False new by (simp only: ancestor_loop.simps if_False) blast
    qed
  qed
qed simp

lemma ancestor_loop_within:
  assumes "set seen \<union> set pending \<subseteq> C" and "\<forall>i \<in> C. set (prerequisites p i) \<subseteq> C"
  shows "set (ancestor_loop fuel p seen pending) \<subseteq> C"
  using assms
proof (induction fuel p seen pending rule: ancestor_loop.induct)
  case (2 n p seen pending)
  have butlast: "set (butlast pending) \<subseteq> C" using 2(3) by (auto dest: in_set_butlastD)
  show ?case
  proof (cases "pending = []")
    case False
    then have "last pending \<in> C" using 2(3) by auto
    then have "set (last pending # seen) \<union> set (butlast pending @ remdups (prerequisites p (last pending))) \<subseteq> C"
      using 2(3,4) butlast by auto
    with 2 False butlast show ?thesis by (simp only: ancestor_loop.simps if_False) (simp split: if_splits)
  qed (use 2(3) in simp)
qed simp

lemma set_ancestors:
  assumes "\<forall>e \<in> set (plan_deps p). dep_on e \<in> set (task_ids p)"
  shows "set (ancestors p i) = {j. (i, j) \<in> (waits_for p)\<^sup>+}"
proof
  let ?r = "set (ancestors p i)" and ?U = "set (task_ids p)" and ?D = "length (plan_deps p)"
  have "?D * card (?U - set []) \<le> ?D * length (plan_tasks p)"
    using card_length [of "task_ids p"] by (intro mult_le_mono2) simp
  then have fuel: "length (remdups (prerequisites p i)) + ?D * card (?U - set [])
      < Suc (?D * Suc (length (plan_tasks p)))"
    using length_prerequisites [of p i] unfolding mult_Suc_right by linarith
  have known: "set (prerequisites p j) \<subseteq> ?U" for j using assms by (auto simp: prerequisites_def)
  have closed: "set (prerequisites p i) \<subseteq> ?r \<and> (\<forall>j \<in> ?r. set (prerequisites p j) \<subseteq> ?r)"
    using ancestor_loop_closed [OF fuel] known by (simp add: ancestors_def)
  have "j \<in> ?r" if "(i, j) \<in> (waits_for p)\<^sup>+" for j
    using that by induction (use closed in \<open>auto simp: mem_waits_for\<close>)
  then show "{j. (i, j) \<in> (waits_for p)\<^sup>+} \<subseteq> ?r" by blast
  show "?r \<subseteq> {j. (i, j) \<in> (waits_for p)\<^sup>+}"
    unfolding ancestors_def
    by (rule ancestor_loop_within)
      (auto simp: mem_waits_for [symmetric] intro: trancl_into_trancl)
qed

definition repair_ids :: "uuid \<Rightarrow> nat \<Rightarrow> uuid list" where
  "repair_ids rid v = map (repair_task_id rid v) [''diagnose'', ''implement'', ''test'', ''review'']"

lemma distinct_repair_ids: "distinct (repair_ids rid v)"
  by (simp add: repair_ids_def repair_task_id_def)

lemma new_task_planned:
  assumes "description \<noteq> []" "outcome \<noteq> []" "validation \<noteq> []"
  shows "\<exists>t. new_task env tid (plan_run p) v role description outcome validation capabilities criteria parent s
      = (Inr t, env_tick s) \<and> planned p v tid role t \<and> task_criteria t = criteria"
  using assms by (simp add: new_task_run planned_def unscheduled_def task_ok_def)

lemma repair_tasks:
  "\<exists>ts t. repair_plan env p rv criteria s = (validate_plan (chained p (Suc (plan_version p)) ts []), t)
    \<and> map task_id ts = repair_ids (plan_run p) (Suc (plan_version p))
    \<and> map task_role ts = [ROLE_REPAIR, ROLE_DEVELOPER, ROLE_TESTER, ROLE_REVIEWER]
    \<and> map task_criteria ts = [affected_criteria rv criteria, affected_criteria rv criteria, criteria, criteria]
    \<and> (\<forall>t \<in> set ts. unscheduled p (Suc (plan_version p)) t)"
proof -
  let ?v = "Suc (plan_version p)" and ?rid = "plan_run p" and ?affected = "affected_criteria rv criteria"
  let ?id = "repair_task_id ?rid ?v" and ?original = "original_task p ?affected"
  let ?d = "''Diagnose failed acceptance: '' @ repair_reasons rv"
  let ?i = "''Repair only the affected behavior: '' @ repair_reasons rv"
  let ?caps = "dict_fromkeys (''implementation'' # (case ?original of None \<Rightarrow> [] | Some t \<Rightarrow> task_capabilities t))"
  obtain d where d: "new_task env (?id ''diagnose'') ?rid ?v ROLE_REPAIR ?d
      ''Identify the smallest correction and affected source files'' ''Source-backed diagnosis'' [''diagnosis''] ?affected None s
      = (Inr d, env_tick s)" "planned p ?v (?id ''diagnose'') ROLE_REPAIR d" "task_criteria d = ?affected"
    using new_task_planned [of ?d] by blast
  obtain i where i: "new_task env (?id ''implement'') ?rid ?v ROLE_DEVELOPER ?i
      ''Resolve failed criteria without changing the accepted goal'' ''Affected checks and required regression suite''
      ?caps ?affected (map_option task_id ?original) (env_tick s)
      = (Inr i, env_tick (env_tick s))" "planned p ?v (?id ''implement'') ROLE_DEVELOPER i" "task_criteria i = ?affected"
    using new_task_planned [of ?i] by blast
  obtain r where r: "new_task env (?id ''test'') ?rid ?v ROLE_TESTER
      ''Retest repaired behavior and required regressions'' ''Current evidence for the complete acceptance contract''
      ''Acceptance validators'' [] criteria None (env_tick (env_tick s))
      = (Inr r, env_tick (env_tick (env_tick s)))" "planned p ?v (?id ''test'') ROLE_TESTER r" "task_criteria r = criteria"
    using new_task_planned by blast
  obtain e where e: "new_task env (?id ''review'') ?rid ?v ROLE_REVIEWER
      ''Review the repaired implementation and regression evidence'' ''Independent criterion-by-criterion review''
      ''Structured acceptance review'' [''evidence_review''] criteria None (env_tick (env_tick (env_tick s)))
      = (Inr e, env_tick (env_tick (env_tick (env_tick s))))" "planned p ?v (?id ''review'') ROLE_REVIEWER e"
      "task_criteria e = criteria"
    using new_task_planned by blast
  have "repair_plan env p rv criteria s = (validate_plan (chained p ?v [d, i, r, e] []), env_tick (env_tick (env_tick (env_tick s))))"
    by (simp only: repair_plan_def Let_def bnd_run d(1) i(1) r(1) e(1) prod.case sum.case)
      (simp add: result_of_run chained_def)
  with d i r e show ?thesis
    by (intro exI [of _ "[d, i, r, e]"] exI) (auto simp: planned_def repair_ids_def)
qed

lemma vertical_tasks:
  assumes "goal_text (gc_goal gc) \<noteq> []"
  shows "\<exists>ts t. vertical_plan env gc files v s = (validate_plan \<lparr>plan_run = goal_run (gc_goal gc),
        plan_goal = goal_id (gc_goal gc), plan_version = v, plan_tasks = ts, plan_deps = chain (map task_id ts)\<rparr>, t)
    \<and> map task_id ts = map (vertical_task_id (goal_id (gc_goal gc)) v) [ROLE_DEVELOPER, ROLE_TESTER, ROLE_REVIEWER]
    \<and> map task_role ts = [ROLE_DEVELOPER, ROLE_TESTER, ROLE_REVIEWER]
    \<and> (\<forall>t \<in> set ts. task_ok t \<and> task_run t = goal_run (gc_goal gc) \<and> task_plan_version t = v \<and> task_status t = TS_PENDING
         \<and> task_attempts t = 0 \<and> task_criteria t = map crit_id (gc_criteria gc))"
proof -
  let ?g = "gc_goal gc" and ?criteria = "map crit_id (gc_criteria gc)"
  let ?P = "\<lambda>(role, description, outcome, validation) t. task_id t = vertical_task_id (goal_id ?g) v role \<and> task_role t = role
    \<and> task_ok t \<and> task_run t = goal_run ?g \<and> task_plan_version t = v \<and> task_status t = TS_PENDING
    \<and> task_attempts t = 0 \<and> task_criteria t = ?criteria"
  let ?f = "\<lambda>(role, description, outcome, validation).
    new_task env (vertical_task_id (goal_id ?g) v role) (goal_run ?g) v role description outcome validation
      (if role = ROLE_REVIEWER then [''evidence_review'']
       else if role = ROLE_DEVELOPER then implementation_capabilities ?g files else []) ?criteria None"
  have "\<exists>y t. ?f x s = (Inr y, t) \<and> ?P x y" if "x \<in> set (vertical_roles ?g)" for x s
    using that assms by (auto simp: vertical_roles_def new_task_run task_ok_def)
  then obtain ts t where ts: "collect (vertical_roles ?g) ?f s = (Inr ts, t)" "list_all2 ?P (vertical_roles ?g) ts"
    using collect_all [of "vertical_roles ?g" ?f ?P s] by blast
  have "vertical_plan env gc files v s = (validate_plan \<lparr>plan_run = goal_run ?g,
      plan_goal = goal_id ?g, plan_version = v, plan_tasks = ts, plan_deps = chain (map task_id ts)\<rparr>, t)"
    using ts(1) by (simp add: vertical_plan_def Let_def prog_simps result_of_run)
  with ts(2) show ?thesis
    by (intro exI [of _ ts] exI) (auto simp: vertical_roles_def list_all2_Cons1)
qed

section \<open>Drafts are copies\<close>

text \<open>The tasks of a plan that are not preparation, with the dependencies among them.\<close>

definition active_part :: "task_plan \<Rightarrow> task_plan" where
  "active_part p = (let active = filter (\<lambda>t. 0 < task_plan_version t) (plan_tasks p) in
     p\<lparr>plan_tasks := active, plan_deps := filter (\<lambda>e. dep_task e \<in> task_id ` set active \<and> dep_on e \<in> task_id ` set active)
       (plan_deps p)\<rparr>)"

lemma active_part_well_formed:
  assumes "plan_well_formed p"
  shows "plan_well_formed (active_part p)"
proof -
  have "set (plan_deps (active_part p)) \<subseteq> set (plan_deps p)" by (auto simp: active_part_def Let_def)
  then have "acyclic ((\<lambda>e. (dep_on e, dep_task e)) ` set (plan_deps (active_part p)))"
    using assms acyclic_subset [OF _ image_mono] unfolding plan_well_formed_def by blast
  then show ?thesis using assms
    by (auto simp: plan_well_formed_def active_part_def Let_def distinct_map_filter)
qed

text \<open>A plan under other task identities.\<close>

definition renamed :: "(uuid \<Rightarrow> uuid) \<Rightarrow> (task \<Rightarrow> task) \<Rightarrow> nat \<Rightarrow> task_plan \<Rightarrow> task_plan" where
  "renamed f h v p = p\<lparr>plan_version := v, plan_tasks := map h (plan_tasks p),
     plan_deps := map (\<lambda>e. e\<lparr>dep_task := f (dep_task e), dep_on := f (dep_on e)\<rparr>) (plan_deps p)\<rparr>"

lemma waits_for_renamed: "waits_for (renamed f h v p) = map_prod f f ` waits_for p"
  by (force simp: waits_for_def renamed_def)

lemma waits_for_converse_edges: "(\<lambda>e. (dep_on e, dep_task e)) ` set (plan_deps p) = (waits_for p)\<inverse>"
  by (force simp: waits_for_def)

lemma waits_for_within: "plan_well_formed p \<Longrightarrow> waits_for p \<subseteq> set (task_ids p) \<times> set (task_ids p)"
  by (auto simp: plan_well_formed_def waits_for_def)

lemma subset_rename: "inj_on f A \<Longrightarrow> X \<subseteq> A \<Longrightarrow> Y \<subseteq> A \<Longrightarrow> f ` X \<subseteq> f ` Y \<longleftrightarrow> X \<subseteq> Y"
proof
  assume f: "inj_on f A" "X \<subseteq> A" "Y \<subseteq> A" and sub: "f ` X \<subseteq> f ` Y"
  show "X \<subseteq> Y"
  proof
    fix x
    assume "x \<in> X"
    then have "f x \<in> f ` Y" "x \<in> A" using sub f(2) by auto
    then show "x \<in> Y" using inj_on_image_mem_iff [OF f(1) _ f(3)] by simp
  qed
qed (rule image_mono)

lemma trancl_rename:
  assumes f: "inj_on f A" and r: "r \<subseteq> A \<times> A" and i: "i \<in> A"
  shows "{j. (f i, j) \<in> (map_prod f f ` r)\<^sup>+} = f ` {j. (i, j) \<in> r\<^sup>+}"
proof
  have "(f i, f j) \<in> (map_prod f f ` r)\<^sup>+" if "(i, j) \<in> r\<^sup>+" for j
    using that by induction (auto intro: trancl_into_trancl)
  then show "f ` {j. (i, j) \<in> r\<^sup>+} \<subseteq> {j. (f i, j) \<in> (map_prod f f ` r)\<^sup>+}" by auto
  have "\<exists>k. j = f k \<and> (i, k) \<in> r\<^sup>+" if "(f i, j) \<in> (map_prod f f ` r)\<^sup>+" for j
    using that
  proof induction
    case (base y)
    then obtain a b where ab: "(a, b) \<in> r" "f i = f a" "y = f b" by auto
    then have "i = a" using f r i by (auto dest: inj_onD)
    with ab show ?case by auto
  next
    case (step y z)
    then obtain k a b where ab: "(i, k) \<in> r\<^sup>+" "y = f k" "(a, b) \<in> r" "y = f a" "z = f b" by auto
    have "k \<in> A" using ab(1) trancl_subset_Sigma [OF r] by auto
    then have "k = a" using ab r f by (auto dest: inj_onD)
    with ab show ?case by (auto intro: trancl_into_trancl)
  qed
  then show "{j. (f i, j) \<in> (map_prod f f ` r)\<^sup>+} \<subseteq> f ` {j. (i, j) \<in> r\<^sup>+}" by auto
qed

lemma acyclic_rename:
  assumes f: "inj_on f A" and r: "r \<subseteq> A \<times> A" and a: "acyclic r"
  shows "acyclic (map_prod f f ` r)"
proof (rule acyclicI, rule allI, rule notI)
  fix x
  assume loop: "(x, x) \<in> (map_prod f f ` r)\<^sup>+"
  have "(map_prod f f ` r)\<^sup>+ \<subseteq> f ` A \<times> f ` A" using r by (intro trancl_subset_Sigma) auto
  with loop obtain i where i: "i \<in> A" "x = f i" by auto
  with loop trancl_rename [OF f r i(1)] obtain j where j: "f i = f j" "(i, j) \<in> r\<^sup>+" by auto
  have "j \<in> A" using j(2) trancl_subset_Sigma [OF r] by auto
  with f i j have "i = j" by (auto dest: inj_onD)
  with j a show False by (auto simp: acyclic_def)
qed

lemma renamed_well_formed:
  assumes p: "plan_well_formed p" and f: "inj_on f (set (task_ids p))"
    and h: "\<forall>t \<in> set (plan_tasks p). task_id (h t) = f (task_id t) \<and> task_run (h t) = task_run t \<and> task_plan_version (h t) = v"
  shows "plan_well_formed (renamed f h v p)"
proof -
  let ?q = "renamed f h v p"
  have ids: "task_ids ?q = map f (task_ids p)" using h by (simp add: renamed_def)
  have "distinct (task_ids ?q)" unfolding ids using p f distinct_map [of f "task_ids p"]
    by (simp only: plan_well_formed_def)
  moreover have "distinct (map (\<lambda>e. (dep_task e, dep_on e)) (plan_deps ?q))"
  proof -
    let ?pairs = "map (\<lambda>e. (dep_task e, dep_on e)) (plan_deps p)"
    have "inj_on (map_prod f f) (set ?pairs)"
      using f waits_for_within [OF p] by (intro inj_on_subset [OF map_prod_inj_on [OF f f]]) (simp add: waits_for_def)
    then have "distinct (map (map_prod f f) ?pairs)" using p distinct_map [of "map_prod f f" ?pairs]
      by (simp only: plan_well_formed_def)
    then show ?thesis by (simp add: renamed_def comp_def)
  qed
  moreover have "acyclic ((\<lambda>e. (dep_on e, dep_task e)) ` set (plan_deps ?q))"
    using acyclic_rename [OF f waits_for_within [OF p]] p
    unfolding waits_for_converse_edges waits_for_renamed by (simp add: plan_well_formed_def waits_for_converse_edges)
  moreover have "set (task_ids ?q) = f ` set (task_ids p)" by (simp only: ids set_map)
  ultimately show ?thesis using p h unfolding plan_well_formed_def by (auto simp: renamed_def)
qed

lemma roles_ok_renamed:
  assumes p: "plan_well_formed p" and f: "inj_on f (set (task_ids p))"
    and h: "\<forall>t \<in> set (plan_tasks p). task_id (h t) = f (task_id t) \<and> task_run (h t) = task_run t
      \<and> task_plan_version (h t) = v \<and> task_role (h t) = task_role t"
  shows "roles_ok (renamed f h v p) = roles_ok p"
proof -
  let ?q = "renamed f h v p" and ?A = "set (task_ids p)"
  have q: "plan_well_formed ?q" using h by (intro renamed_well_formed p f) auto
  have role: "map task_role (plan_tasks ?q) = map task_role (plan_tasks p)" using h by (simp add: renamed_def)
  have rank: "rank_of ?q (f i) = rank_of p i" if "i \<in> ?A" for i
  proof -
    have "map_of (map (\<lambda>t. (task_id t, t)) (map h ts)) (f i) = map_option h (map_of (map (\<lambda>t. (task_id t, t)) ts) i)"
      if "set ts \<subseteq> set (plan_tasks p)" for ts
      using that
    proof (induction ts)
      case (Cons t ts)
      then have "f (task_id t) = f i \<longleftrightarrow> task_id t = i" using f \<open>i \<in> ?A\<close> by (auto dest: inj_onD)
      with Cons h show ?case by auto
    qed simp
    then have "task_by_id (plan_tasks ?q) (f i) = map_option h (task_by_id (plan_tasks p) i)"
      by (simp add: task_by_id_def renamed_def)
    moreover have "t \<in> set (plan_tasks p)" if "task_by_id (plan_tasks p) i = Some t" for t
      using that by (auto simp: task_by_id_def dest: map_of_SomeD)
    ultimately show ?thesis using h by (auto simp: rank_of_def split: option.split)
  qed
  have ids: "set (ids_of_role ?q role) = f ` set (ids_of_role p role)" for role
    using h by (force simp: ids_of_role_def renamed_def)
  have sub: "set (ids_of_role p role) \<subseteq> ?A" for role by (auto simp: ids_of_role_def)
  have anc_p: "set (ancestors p i) = {j. (i, j) \<in> (waits_for p)\<^sup>+}" for i
    using p by (intro set_ancestors) (auto simp: plan_well_formed_def)
  have anc_q: "set (ancestors ?q (f i)) = f ` set (ancestors p i)" if "i \<in> ?A" for i
  proof -
    have "set (ancestors ?q (f i)) = {j. (f i, j) \<in> (waits_for ?q)\<^sup>+}"
      using q by (intro set_ancestors) (auto simp: plan_well_formed_def)
    then show ?thesis using trancl_rename [OF f waits_for_within [OF p] that] by (simp add: waits_for_renamed anc_p)
  qed
  have anc_sub: "set (ancestors p i) \<subseteq> ?A" for i
    using trancl_subset_Sigma [OF waits_for_within [OF p]] by (auto simp: anc_p)
  have prereq: "set (ids_of_role ?q role) \<subseteq> set (ancestors ?q (task_id (h t))) \<longleftrightarrow> set (ids_of_role p role) \<subseteq> set (ancestors p (task_id t))"
    if "t \<in> set (plan_tasks p)" for t role
    using that h anc_q [of "task_id t"] subset_rename [OF f sub anc_sub] by (simp add: ids)
  have "(\<exists>e \<in> set (plan_deps ?q). rank_of ?q (dep_task e) < rank_of ?q (dep_on e))
      \<longleftrightarrow> (\<exists>e \<in> set (plan_deps p). rank_of p (dep_task e) < rank_of p (dep_on e))"
    using p rank by (auto simp: renamed_def plan_well_formed_def)
  moreover have "(\<forall>t \<in> set (plan_tasks ?q).
          (task_role t = ROLE_TESTER \<longrightarrow> set (ids_of_role ?q ROLE_DEVELOPER) \<subseteq> set (ancestors ?q (task_id t)))
          \<and> (task_role t = ROLE_REVIEWER \<longrightarrow> set (ids_of_role ?q ROLE_TESTER) \<subseteq> set (ancestors ?q (task_id t))))
      \<longleftrightarrow> (\<forall>t \<in> set (plan_tasks p).
          (task_role t = ROLE_TESTER \<longrightarrow> set (ids_of_role p ROLE_DEVELOPER) \<subseteq> set (ancestors p (task_id t)))
          \<and> (task_role t = ROLE_REVIEWER \<longrightarrow> set (ids_of_role p ROLE_TESTER) \<subseteq> set (ancestors p (task_id t))))"
  proof -
    have tasks: "set (plan_tasks ?q) = h ` set (plan_tasks p)" by (simp add: renamed_def)
    show ?thesis unfolding tasks using prereq h by auto
  qed
  ultimately show ?thesis unfolding roles_ok_def role by simp
qed

section \<open>Sample goal\<close>

definition sample_goal :: goal_version where
  "sample_goal = \<lparr>goal_id = sample_id 2, goal_created = 0, goal_run = sample_id 0, goal_number = 1,
     goal_text = ''add a page'', goal_scope = [''src/web''], goal_out_of_scope = [], goal_constraints = [],
     goal_assumptions = [], goal_done = [''page works''], goal_supersedes = None, goal_reason = None\<rparr>"

definition sample_criterion :: "nat \<Rightarrow> acceptance_criterion" where
  "sample_criterion n = \<lparr>crit_id = sample_id n, crit_created = 0, crit_goal = sample_id 2, crit_key = ''AC-1'',
     crit_description = ''page shown'', crit_priority = P_REQUIRED, crit_spec = ReviewValidation K_REVIEW ''look'',
     crit_status = AC_PENDING, crit_attempts = 0, crit_validated = None, crit_evidence = []\<rparr>"

definition sample_contract :: goal_contract where
  "sample_contract = \<lparr>gc_goal = sample_goal, gc_criteria = [sample_criterion 30]\<rparr>"

definition sample_review :: review_record where
  "sample_review = \<lparr>rev_id = sample_id 40, rev_created = 0, rev_run = sample_id 0, rev_goal = sample_id 2,
     rev_plan_version = 1, rev_actor = sample_id 41, rev_tree = ''tree'',
     rev_result = \<lparr>rr_pass = False, rr_criteria = [\<lparr>cr_criterion = sample_id 30, cr_pass = False,
       cr_reason = ''no page'', cr_evidence = [], cr_checks = []\<rparr>], rr_blocking = [], rr_non_blocking = [],
       rr_findings = []\<rparr>\<rparr>"

lemma sample_plan_valid: "validate_plan sample_plan = Inr sample_plan"
  using sample_plan_wf by (simp add: validate_plan_iff) (simp add: sample_defs task_ok_def)

lemma sample_env_safe [simp]: "safe_doc sample_env d"
  by (simp add: safe_doc_def safe_text_def sample_env_def)

section \<open>Properties\<close>





text \<open>
  C25: the initial plan for a goal is valid, covers the goal's criteria and satisfies the rules of an
  operator-edited plan (a developer, then a tester, then a reviewer), so that a preview made by the
  planner can be installed and edited like any other.
\<close>
theorem vertical_plan_accepted:
  assumes "goal_text (gc_goal gc) \<noteq> []" and "1 \<le> v"
  shows "\<exists>p t. vertical_plan env gc files v s = (Inr p, t) \<and> validate_plan p = Inr p \<and> covers_goal p gc \<and> roles_ok p
    \<and> plan_goal p = goal_id (gc_goal gc) \<and> plan_version p = v
    \<and> (\<forall>t \<in> set (plan_tasks p). task_status t = TS_PENDING \<and> task_attempts t = 0)"
proof -
  let ?g = "gc_goal gc"
  let ?q = "\<lambda>ts. \<lparr>plan_run = goal_run ?g, plan_goal = goal_id ?g, plan_version = v, plan_tasks = ts,
    plan_deps = chain (map task_id ts)\<rparr>"
  obtain ts t where run: "vertical_plan env gc files v s = (validate_plan (?q ts), t)"
    and ids: "map task_id ts = map (vertical_task_id (goal_id ?g) v) [ROLE_DEVELOPER, ROLE_TESTER, ROLE_REVIEWER]"
    and roles: "map task_role ts = [ROLE_DEVELOPER, ROLE_TESTER, ROLE_REVIEWER]"
    and ts: "\<forall>t \<in> set ts. task_ok t \<and> task_run t = goal_run ?g \<and> task_plan_version t = v \<and> task_status t = TS_PENDING
         \<and> task_attempts t = 0 \<and> task_criteria t = map crit_id (gc_criteria gc)"
    using vertical_tasks [OF assms(1), of env files v s] by (elim exE conjE) (rule that)
  obtain d r e where three: "ts = [d, r, e]" using roles by (auto simp: map_eq_Cons_conv)
  have dist: "distinct (map task_id ts)" by (simp add: ids vertical_task_id_def)
  have none: "plan_well_formed (?q ts\<lparr>plan_tasks := [], plan_deps := []\<rparr>)"
    by (simp add: plan_well_formed_def acyclic_def)
  have eq: "chained (?q ts\<lparr>plan_tasks := [], plan_deps := []\<rparr>) v ts [] = ?q ts" by (simp add: chained_def)
  have wf: "plan_well_formed (?q ts)"
    using chained_well_formed [OF none dist, of v "[]"] ts three unfolding eq by simp
  then have valid: "validate_plan (?q ts) = Inr (?q ts)"
    using assms(2) ts three by (simp add: validate_plan_iff)
  have "covers_goal (?q ts) gc" using ts three by (auto simp: covers_goal_def Let_def)
  moreover have "roles_ok (?q ts)"
  proof -
    have anc: "set (ancestors (?q ts) i) = {j. (i, j) \<in> (waits_for (?q ts))\<^sup>+}" for i
      using wf by (intro set_ancestors) (auto simp: plan_well_formed_def)
    have waits: "waits_for (?q ts) = {(task_id r, task_id d), (task_id e, task_id r)}"
      by (auto simp: waits_for_def three)
    have r: "task_role d = ROLE_DEVELOPER" "task_role r = ROLE_TESTER" "task_role e = ROLE_REVIEWER"
      using roles by (simp_all add: three)
    have "task_id d \<in> set (ancestors (?q ts) (task_id r))" "task_id r \<in> set (ancestors (?q ts) (task_id e))"
      unfolding anc by (auto simp: waits)
    moreover have "ids_of_role (?q ts) ROLE_DEVELOPER = [task_id d]" "ids_of_role (?q ts) ROLE_TESTER = [task_id r]"
      by (simp_all add: ids_of_role_def three r)
    moreover have "rank_of (?q ts) (task_id d) = 0" "rank_of (?q ts) (task_id r) = 1" "rank_of (?q ts) (task_id e) = 2"
      using dist by (auto simp: three r rank_of_def task_by_id_def role_rank_def)
    ultimately show ?thesis
      unfolding roles_ok_def by (simp add: three r)
  qed
  ultimately show ?thesis using run valid ts by (intro exI [of _ "?q ts"] exI [of _ t]) simp
qed

theorem vertical_plan_accepted_witness:
  "\<exists>p t. vertical_plan sample_env sample_contract [''src/web/page.py''] 1 (store_of sample_capsule) = (Inr p, t) \<and> roles_ok p"
  using vertical_plan_accepted [of sample_contract 1 sample_env "[''src/web/page.py'']" "store_of sample_capsule"]
  by (force simp: sample_contract_def sample_goal_def)

text \<open>The identities of a draft are drawn one after the other.\<close>

lemma draft_identities_run:
  "collect ts (\<lambda>t. bnd uuid4 (\<lambda>i. ret (task_id t, i))) s =
    (Inr (zip (map task_id ts) (map UUID4 [uow_step s..<uow_step s + length ts])), s\<lparr>uow_step := uow_step s + length ts\<rparr>)"
proof (induction ts arbitrary: s)
  case Nil
  show ?case by (simp add: prog_simps)
next
  case (Cons t ts)
  have first: "bnd uuid4 (\<lambda>i. ret (task_id t, i)) s = (Inr (task_id t, UUID4 (uow_step s)), env_tick s)"
    by (simp add: prog_simps uuid4_def)
  have upt: "[uow_step s..<uow_step s + length (t # ts)] = uow_step s # [Suc (uow_step s)..<Suc (uow_step s) + length ts]"
    by (simp add: upt_conv_Cons del: upt_Suc)
  let ?f = "\<lambda>t. bnd uuid4 (\<lambda>i. ret (task_id t, i))"
  have "collect (t # ts) ?f s = bnd (?f t) (\<lambda>y. bnd (collect ts ?f) (\<lambda>ys. ret (y # ys))) s" by simp
  also have "\<dots> = bnd (collect ts ?f) (\<lambda>ys. ret ((task_id t, UUID4 (uow_step s)) # ys)) (env_tick s)"
    by (simp only: bnd_run [of "?f t"] first prod.case sum.case)
  also have "\<dots> = (Inr ((task_id t, UUID4 (uow_step s)) # zip (map task_id ts)
      (map UUID4 [Suc (uow_step s)..<Suc (uow_step s) + length ts])), s\<lparr>uow_step := uow_step s + length (t # ts)\<rparr>)"
    by (simp only: bnd_run [of "collect ts ?f"] Cons.IH prod.case sum.case) (simp add: ret_run env_tick_def)
  finally show ?case unfolding upt by simp
qed

lemma draft_is_renamed:
  assumes p: "plan_well_formed p"
  obtains f where "inj_on f (set (task_ids (active_part p)))"
    "\<forall>i \<in> set (task_ids (active_part p)). \<exists>n\<ge>uow_step s. f i = UUID4 n"
    "fst (draft_replacement p s) = validate_plan (renamed f
       (\<lambda>t. t\<lparr>task_id := f (task_id t), task_plan_version := Suc (plan_version p), task_status := TS_PENDING, task_ready := None,
          task_started := None, task_completed := None, task_attempts := 0\<rparr>) (Suc (plan_version p)) (active_part p))"
proof -
  let ?active = "filter (\<lambda>t. 0 < task_plan_version t) (plan_tasks p)"
  let ?ids = "map task_id ?active" and ?new = "map UUID4 [uow_step s..<uow_step s + length ?active]"
  let ?f = "\<lambda>i. the (map_of (zip ?ids ?new) i)"
  have dist: "distinct ?ids" "distinct ?new"
    using p by (auto simp: plan_well_formed_def distinct_map_filter distinct_map inj_on_def)
  have look: "?f (?ids ! k) = UUID4 (uow_step s + k)" if "k < length ?active" for k
    using that map_of_zip_nth [OF _ dist(1), of ?new k] by simp
  have ids: "set ?ids = {?ids ! k | k. k < length ?active}" by (simp only: set_conv_nth length_map)
  have part: "task_ids (active_part p) = ?ids" "plan_tasks (active_part p) = ?active" by (simp_all add: active_part_def Let_def)
  have inj: "inj_on ?f (set ?ids)"
  proof (rule inj_onI)
    fix i j
    assume ij: "i \<in> set ?ids" "j \<in> set ?ids" "?f i = ?f j"
    from ij(1,2) obtain k l where "k < length ?active" "i = ?ids ! k" "l < length ?active" "j = ?ids ! l"
      unfolding ids by blast
    with look [of k] look [of l] ij(3) show "i = j" by (metis add_left_cancel uuid.inject(1))
  qed
  have fresh: "\<forall>i \<in> set ?ids. \<exists>n\<ge>uow_step s. ?f i = UUID4 n"
  proof
    fix i
    assume "i \<in> set ?ids"
    then obtain k where "k < length ?active" "i = ?ids ! k" unfolding ids by blast
    with look [of k] show "\<exists>n\<ge>uow_step s. ?f i = UUID4 n" by (metis le_add1)
  qed
  have keys: "fst ` set (zip ?ids ?new) = task_id ` set ?active"
    by (metis dist(1) length_map length_upt add_diff_cancel_left' map_fst_zip set_map)
  have "fst (draft_replacement p s) = validate_plan (renamed ?f
       (\<lambda>t. t\<lparr>task_id := ?f (task_id t), task_plan_version := Suc (plan_version p), task_status := TS_PENDING, task_ready := None,
          task_started := None, task_completed := None, task_attempts := 0\<rparr>) (Suc (plan_version p)) (active_part p))"
    by (simp add: draft_replacement_def Let_def bnd_run draft_identities_run result_of_run renamed_def active_part_def
        draft_task_def [abs_def] draft_dependencies_def keys del: map_map)
  with inj fresh show ?thesis by (intro that [of ?f]) (simp_all only: part)
qed



end
