(* ===== verification/Orq_Goals.thy ===== *)
theory Orq_Goals
  imports Orq_Approvals
begin

text \<open>
  \<^verbatim>\<open>core/goals.py\<close>: creating a run with or without its goal, the goal the requirements agent
  proposes, revising a goal, and validating a criterion. The evaluator that runs a criterion's
  validation is a parameter: it is called between two units of work, and either raises or returns an
  observation.
\<close>

section \<open>Drafts and contracts\<close>

definition lower_char :: "char \<Rightarrow> char" where
  "lower_char c = (if is_upper c then char_of (of_char c + 32 :: nat) else c)"

definition private_reasoning :: "string \<Rightarrow> bool" where
  "private_reasoning s \<longleftrightarrow> (\<exists>marker \<in> {''chain_of_thought'', ''<thinking>'', ''<analysis>''}.
     contains_sub marker (map lower_char s))"

text \<open>\<^verbatim>\<open>_contract\<close>: a fresh goal version with a pending criterion for each one drafted.\<close>

definition criterion_of :: "env \<Rightarrow> uuid \<Rightarrow> criterion_definition \<Rightarrow> acceptance_criterion act" where
  "criterion_of env gid d = bnd uuid4 (\<lambda>cid. bnd (utc_now env) (\<lambda>created.
     ret \<lparr>crit_id = cid, crit_created = created, crit_goal = gid, crit_key = cdef_key d,
       crit_description = cdef_description d, crit_priority = cdef_priority d, crit_spec = cdef_spec d,
       crit_status = AC_PENDING, crit_attempts = 0, crit_validated = None, crit_evidence = []\<rparr>))"

definition contract_of :: "env \<Rightarrow> uuid \<Rightarrow> goal_draft \<Rightarrow> nat \<Rightarrow> uuid option \<Rightarrow> string option \<Rightarrow> goal_contract act" where
  "contract_of env rid d version supersedes reason =
     bnd (deny (\<not> safe_doc env (DocDraft d) \<or> private_reasoning (env_json env (DocDraft d))) PolicyDenied) (\<lambda>_.
     bnd uuid4 (\<lambda>gid. bnd (utc_now env) (\<lambda>created.
     bnd (collect (draft_criteria d) (criterion_of env gid)) (\<lambda>criteria.
     ret \<lparr>gc_goal = \<lparr>goal_id = gid, goal_created = created, goal_run = rid, goal_number = version,
            goal_text = draft_goal d, goal_scope = draft_scope d, goal_out_of_scope = draft_out_of_scope d,
            goal_constraints = draft_constraints d, goal_assumptions = draft_assumptions d,
            goal_done = draft_done d, goal_supersedes = supersedes, goal_reason = reason\<rparr>,
          gc_criteria = criteria\<rparr>))))"

text \<open>The draft a stored contract was made from.\<close>

definition criterion_draft :: "acceptance_criterion \<Rightarrow> criterion_definition" where
  "criterion_draft k = \<lparr>cdef_key = crit_key k, cdef_description = crit_description k,
     cdef_priority = crit_priority k, cdef_spec = crit_spec k\<rparr>"

definition saved_draft :: "goal_contract \<Rightarrow> goal_draft" where
  "saved_draft gc = (let g = gc_goal gc in
     \<lparr>draft_goal = goal_text g, draft_scope = goal_scope g, draft_out_of_scope = goal_out_of_scope g,
      draft_constraints = goal_constraints g, draft_assumptions = goal_assumptions g,
      draft_done = goal_done g, draft_criteria = map criterion_draft (gc_criteria gc)\<rparr>)"

section \<open>The JSON form of a draft\<close>

text \<open>\<^verbatim>\<open>draft.model_dump(mode="json")\<close>\<close>

definition json_opt :: "string option \<Rightarrow> json" where
  "json_opt s = (case s of None \<Rightarrow> JNull | Some x \<Rightarrow> JStr x)"

definition json_strs :: "string list \<Rightarrow> json" where
  "json_strs xs = JArr (map JStr xs)"

fun spec_json :: "validation_spec \<Rightarrow> json" where
  "spec_json (CommandValidation k argv code timeout) = JObj
     [(''kind'', JStr (spec_kind (CommandValidation k argv code timeout))), (''argv'', json_strs argv),
      (''expected_exit_code'', JNum (of_nat code)), (''timeout_seconds'', JNum (of_nat timeout))]"
| "spec_json (FileValidation path must_exist contains) = JObj
     [(''kind'', JStr ''file''), (''path'', JStr path), (''must_exist'', JBool must_exist),
      (''contains'', json_opt contains)]"
| "spec_json (DiffValidation base path contains) = JObj
     [(''kind'', JStr ''diff''), (''base_commit'', JStr base), (''path'', JStr path), (''contains'', JStr contains)]"
| "spec_json (ReviewValidation k instructions) = JObj
     [(''kind'', JStr (spec_kind (ReviewValidation k instructions))), (''instructions'', JStr instructions)]"

definition criterion_json :: "criterion_definition \<Rightarrow> json" where
  "criterion_json d = JObj [(''key'', JStr (cdef_key d)), (''description'', JStr (cdef_description d)),
     (''priority'', JStr (if cdef_priority d = P_REQUIRED then ''required'' else ''optional'')),
     (''validation_spec'', spec_json (cdef_spec d))]"

definition draft_json :: "goal_draft \<Rightarrow> json" where
  "draft_json d = JObj [(''goal'', JStr (draft_goal d)), (''scope'', json_strs (draft_scope d)),
     (''out_of_scope'', json_strs (draft_out_of_scope d)), (''constraints'', json_strs (draft_constraints d)),
     (''assumptions'', json_strs (draft_assumptions d)), (''definition_of_done'', json_strs (draft_done d)),
     (''criteria'', JArr (map criterion_json (draft_criteria d)))]"

text \<open>
  Python's \<^verbatim>\<open>==\<close> on such values: the order of the keys of an object does not matter, and a Boolean
  equals the number 0 or 1.
\<close>

primrec canonical :: "json \<Rightarrow> json" where
  "canonical JNull = JNull"
| "canonical (JBool b) = JNum (of_bool b)"
| "canonical (JNum q) = JNum q"
| "canonical (JStr s) = JStr s"
| "canonical (JArr xs) = JArr (map canonical xs)"
| "canonical (JObj kvs) = JObj (sort_key fst (map (map_prod id canonical) kvs))"

definition json_equal :: "json \<Rightarrow> json \<Rightarrow> bool" where
  "json_equal a b \<longleftrightarrow> canonical a = canonical b"

section \<open>Creating a run\<close>

definition new_run :: "uuid \<Rightarrow> time \<Rightarrow> project \<Rightarrow> string \<Rightarrow> string \<Rightarrow> string \<Rightarrow> run" where
  "new_run rid created p request branch base = \<lparr>run_id = rid, run_created = created, run_project = proj_id p,
     run_request = request, run_branch = branch, run_base = base, run_goal = None, run_state = RS_RECEIVED,
     run_phase = UI_CONTEXT, run_repairs = 0, run_max_repairs = ps_max_repairs (proj_settings p),
     run_started = None, run_completed = None, run_plan_version = 0, run_resume = None, run_last_seq = 0\<rparr>"

definition make_run :: "env \<Rightarrow> project \<Rightarrow> string \<Rightarrow> string \<Rightarrow> string \<Rightarrow> run act" where
  "make_run env p request branch base =
     bnd (deny (\<not> safe_text env request) PolicyDenied) (\<lambda>_.
     bnd uuid4 (\<lambda>rid. bnd (utc_now env) (\<lambda>created.
     let r = new_run rid created p request branch base in
     bnd (deny (\<not> run_ok r) ValueErr) (\<lambda>_. ret r))))"

definition goal_payload :: "goal_contract \<Rightarrow> event_payload" where
  "goal_payload gc = no_payload\<lparr>pl_goal := Some (goal_id (gc_goal gc))\<rparr>"

definition criterion_payload :: "acceptance_criterion \<Rightarrow> event_payload" where
  "criterion_payload k = no_payload\<lparr>pl_criterion := Some (crit_id k),
     pl_status := Some (acceptance_status_str (crit_status k))\<rparr>"

definition criterion_event_key :: "acceptance_criterion \<Rightarrow> string" where
  "criterion_event_key k = ''criterion:'' @ uuid_str (crit_id k)"

text \<open>What \<^verbatim>\<open>create\<close> and \<^verbatim>\<open>create_pending\<close> do first in their unit of work, after the run is added.\<close>

definition open_run :: "env \<Rightarrow> run \<Rightarrow> unit act" where
  "open_run env r =
     bnd (emit env r EV_RUN_CREATED ''run:created'' (run_created r) (status_payload (run_state_str (run_state r))) None None None) (\<lambda>_.
     bnd (orchestrator_actor env r (run_created r)) (\<lambda>_. ret ()))"

definition create_run :: "env \<Rightarrow> string \<Rightarrow> project \<Rightarrow> string \<Rightarrow> string \<Rightarrow> string \<Rightarrow> goal_draft \<Rightarrow> control_mode
    \<Rightarrow> approval_stage list option \<Rightarrow> (run \<times> goal_contract) act" where
  "create_run env day p request branch base d mode gates =
     bnd (make_run env p request branch base) (\<lambda>r.
     bnd (contract_of env (run_id r) d 1 None None) (\<lambda>contract.
     let gid = goal_id (gc_goal contract) in
     with_uow (
       bnd (runs_add env day r) (\<lambda>_.
       bnd (runs_save_goal contract) (\<lambda>_.
       bnd (runs_set_current_goal (run_id r) gid) (\<lambda>_.
       bnd (open_run env r) (\<lambda>_.
       bnd (save_initial_control_policy env r mode gates (Some (run_created r))) (\<lambda>_.
       bnd (emit env r EV_GOAL_VERSION_CREATED ''goal:1'' (run_created r) (goal_payload contract) None None None) (\<lambda>_.
       bnd (for_each (gc_criteria contract) (\<lambda>k.
         emit env r EV_ACCEPTANCE_CREATED (criterion_event_key k) (run_created r) (criterion_payload k) None None None)) (\<lambda>_.
       bnd (commit env) (\<lambda>_.
       bnd (runs_get (run_id r)) (\<lambda>persisted.
       ret ((case persisted of None \<Rightarrow> r | Some q \<Rightarrow> q)\<lparr>run_goal := Some gid\<rparr>, contract)))))))))))))"

definition create_pending :: "env \<Rightarrow> string \<Rightarrow> project \<Rightarrow> string \<Rightarrow> string \<Rightarrow> string \<Rightarrow> control_mode
    \<Rightarrow> approval_stage list option \<Rightarrow> run act" where
  "create_pending env day p request branch base mode gates =
     bnd (make_run env p request branch base) (\<lambda>r.
     with_uow (
       bnd (runs_add env day r) (\<lambda>_.
       bnd (open_run env r) (\<lambda>_.
       bnd (save_initial_control_policy env r mode gates (Some (run_created r))) (\<lambda>_.
       bnd (commit env) (\<lambda>_. ret r))))))"

section \<open>The goal of a requirements attempt\<close>

definition proposal_recorded :: "uuid \<Rightarrow> goal_draft \<Rightarrow> provider_execution \<Rightarrow> bool" where
  "proposal_recorded xid d p \<longleftrightarrow> prov_execution p = xid \<and> prov_status p = INV_SUCCEEDED
     \<and> (case prov_result p of None \<Rightarrow> False
        | Some res \<Rightarrow> (case pr_output res of None \<Rightarrow> False | Some out \<Rightarrow> json_equal out (draft_json d)))"

text \<open>The running attempt and the requirements agent it is assigned to.\<close>

definition requirements_attempt :: "uuid \<Rightarrow> uuid \<Rightarrow> (task_execution \<times> actor_session) act" where
  "requirements_attempt rid xid =
     bnd (run_executions rid) (\<lambda>xs.
     bnd (run_actors rid) (\<lambda>acs.
     case find (\<lambda>x. exec_id x = xid) xs of None \<Rightarrow> raise_err PolicyDenied
     | Some x \<Rightarrow> (case find (\<lambda>a. actor_id a = exec_actor x) acs of None \<Rightarrow> raise_err PolicyDenied
         | Some a \<Rightarrow> bnd (deny (exec_status x \<noteq> TS_RUNNING \<or> actor_role a \<noteq> Some ROLE_REQUIREMENTS) PolicyDenied) (\<lambda>_.
             ret (x, a)))))"

definition define_initial :: "env \<Rightarrow> uuid \<Rightarrow> uuid \<Rightarrow> goal_draft \<Rightarrow> goal_contract act" where
  "define_initial env rid xid d = with_uow (
     bnd (runs_get rid) (\<lambda>found.
     bnd (the_or Conflict (case found of None \<Rightarrow> None | Some r \<Rightarrow> if run_state r = RS_ANALYZING then Some r else None)) (\<lambda>r.
     case run_goal r of
       Some gid \<Rightarrow>
         bnd (runs_get_goal gid rid) (\<lambda>existing.
         bnd (the_or AssertFail existing) (\<lambda>gc.
         bnd (deny (\<not> goal_draft_ok (saved_draft gc)) ValueErr) (\<lambda>_.
         bnd (deny (saved_draft gc \<noteq> d) Conflict) (\<lambda>_. ret gc))))
     | None \<Rightarrow>
         bnd (requirements_attempt rid xid) (\<lambda>(x, a).
         bnd (providers_list rid) (\<lambda>ps.
         bnd (deny (\<not> (\<exists>p \<in> set ps. proposal_recorded xid d p)) PolicyDenied) (\<lambda>_.
         bnd (contract_of env rid d 1 None None) (\<lambda>contract.
         bnd (runs_save_goal contract) (\<lambda>_.
         bnd (runs_set_current_goal rid (goal_id (gc_goal contract))) (\<lambda>_.
         bnd (utc_now env) (\<lambda>now.
         bnd (emit env r EV_GOAL_VERSION_CREATED ''goal:1'' now (goal_payload contract)
           (Some (actor_id a)) (Some (exec_task x)) (Some (exec_id x))) (\<lambda>_.
         bnd (for_each (gc_criteria contract) (\<lambda>k.
           emit env r EV_ACCEPTANCE_CREATED (criterion_event_key k) now (criterion_payload k)
             (Some (actor_id a)) (Some (exec_task x)) (Some (exec_id x)))) (\<lambda>_.
         bnd (commit env) (\<lambda>_. ret contract)))))))))))))"

section \<open>Reading and revising a goal\<close>

definition with_current_goal :: "uuid \<Rightarrow> (run \<times> uuid) act" where
  "with_current_goal rid = bnd (runs_get rid) (\<lambda>found.
     the_or NotFound (case found of None \<Rightarrow> None | Some r \<Rightarrow> map_option (\<lambda>gid. (r, gid)) (run_goal r)))"

definition current_goal :: "uuid \<Rightarrow> goal_contract act" where
  "current_goal rid = with_uow (bnd (with_current_goal rid) (\<lambda>(r, gid).
     bnd (runs_get_goal gid rid) (the_or NotFound)))"

definition revisable_states :: "run_state list" where
  "revisable_states = [RS_RECEIVED, RS_ANALYZING, RS_GOAL_DEFINED, RS_PAUSED, RS_HUMAN_REVIEW_REQUIRED]"

definition revise_goal :: "env \<Rightarrow> uuid \<Rightarrow> goal_draft \<Rightarrow> string \<Rightarrow> nat \<Rightarrow> goal_contract act" where
  "revise_goal env rid d reason expected =
     bnd (deny (blank reason \<or> \<not> safe_text env reason) InputInvalid) (\<lambda>_.
     with_uow (bnd (with_current_goal rid) (\<lambda>(r, gid).
       bnd (deny (run_state r \<notin> set revisable_states) Conflict) (\<lambda>_.
       bnd (events_by_key rid ''delivery:policy'') (\<lambda>bound.
       bnd (deny (bound \<noteq> None) PolicyDenied) (\<lambda>_.
       bnd (runs_get_goal gid rid) (\<lambda>found.
       bnd (the_or Conflict (case found of None \<Rightarrow> None
         | Some gc \<Rightarrow> if goal_number (gc_goal gc) = expected then Some gc else None)) (\<lambda>current.
       bnd (contract_of env rid d (Suc expected) (Some (goal_id (gc_goal current))) (Some reason)) (\<lambda>revised.
       bnd (runs_save_goal revised) (\<lambda>_.
       bnd (runs_set_current_goal rid (goal_id (gc_goal revised))) (\<lambda>_.
       bnd (utc_now env) (\<lambda>now.
       bnd (emit env r EV_GOAL_VERSION_CREATED (''goal:'' @ nat_str (goal_number (gc_goal revised))) now
         ((goal_payload revised)\<lparr>pl_reason := Some reason\<rparr>) None None None) (\<lambda>_.
       bnd (for_each (gc_criteria revised) (\<lambda>k. bnd (utc_now env) (\<lambda>now.
         emit env r EV_ACCEPTANCE_CREATED (criterion_event_key k) now (criterion_payload k) None None None))) (\<lambda>_.
       bnd (commit env) (\<lambda>_. ret revised)))))))))))))))"

section \<open>Validating a criterion\<close>

datatype validation_ticket =
    Validated evidence
  | ToValidate acceptance_criterion uuid "uuid option" "uuid option"

text \<open>The first unit of work: it marks the criterion and its start, unless there is evidence already.\<close>

definition begin_validation :: "env \<Rightarrow> uuid \<Rightarrow> string \<Rightarrow> string \<Rightarrow> uuid option \<Rightarrow> validation_ticket act" where
  "begin_validation env rid ckey key xid = with_uow (bnd (with_current_goal rid) (\<lambda>(r, gid).
     bnd (runs_get_goal gid rid) (\<lambda>found.
     bnd (the_or NotFound found) (\<lambda>contract.
     bnd (the_or NotFound (find (\<lambda>k. crit_key k = ckey) (gc_criteria contract))) (\<lambda>k.
     let eid = uuid5 (crit_id k) key; start = ''validation:'' @ uuid_str eid @ '':start'' in
     bnd (runs_get_evidence eid rid) (\<lambda>existing. case existing of
       Some e \<Rightarrow> ret (Validated e)
     | None \<Rightarrow>
         bnd (events_by_key rid start) (\<lambda>started.
         bnd (deny (started \<noteq> None) Conflict) (\<lambda>_.
         bnd (case xid of None \<Rightarrow> ret None
              | Some i \<Rightarrow> bnd (run_executions rid) (\<lambda>xs. ret (find (\<lambda>x. exec_id x = i) xs))) (\<lambda>attempt.
         bnd (deny (xid \<noteq> None \<and> (case attempt of None \<Rightarrow> True | Some x \<Rightarrow> exec_status x \<noteq> TS_RUNNING)) Conflict) (\<lambda>_.
         bnd (runs_save_criterion (k\<lparr>crit_status := AC_TESTING\<rparr>)) (\<lambda>_.
         bnd (utc_now env) (\<lambda>now.
         bnd (emit env r EV_TEST_STARTED start now (criterion_payload (k\<lparr>crit_status := AC_TESTING\<rparr>))
           (map_option exec_actor attempt) (map_option exec_task attempt) xid) (\<lambda>_.
         bnd (commit env) (\<lambda>_.
         ret (ToValidate k eid (map_option exec_actor attempt) (map_option exec_task attempt))))))))))))))))"

text \<open>The evaluator between the units of work: what it raised or observed, made an observation.\<close>

definition observed :: "env \<Rightarrow> (validation_spec \<Rightarrow> err + validation_observation) \<Rightarrow> validation_spec
    \<Rightarrow> err + validation_observation" where
  "observed env evaluate spec = (case evaluate spec of Inl e \<Rightarrow> Inl e
     | Inr obs \<Rightarrow> if obs_validator obs \<noteq> spec_kind spec then Inl Conflict
         else if \<not> safe_doc env (DocObservation obs) then Inl PolicyDenied else Inr obs)"

definition failed_observation :: "validation_spec \<Rightarrow> err \<Rightarrow> validation_observation" where
  "failed_observation spec e = \<lparr>obs_validator = spec_kind spec, obs_passed = False, obs_exit = None, obs_output = [],
     obs_source = None, obs_hash = None, obs_error = err_code e, obs_duration_ms = 0\<rparr>"

definition judged :: "run \<Rightarrow> validation_spec \<Rightarrow> validation_observation \<Rightarrow> acceptance_status" where
  "judged r spec obs =
     (if run_state r = RS_CANCELLED \<or> run_state r = RS_FAILED then AC_PENDING
      else if spec_kind spec = ''review'' \<or> spec_kind spec = ''manual'' then AC_PENDING
      else if obs_passed obs then AC_PASS else AC_FAIL)"

definition evidence_of :: "uuid \<Rightarrow> time \<Rightarrow> uuid \<Rightarrow> acceptance_criterion \<Rightarrow> uuid option \<Rightarrow> uuid option
    \<Rightarrow> validation_observation \<Rightarrow> evidence" where
  "evidence_of eid created rid k task xid obs = \<lparr>ev_id = eid, ev_created = created, ev_run = rid,
     ev_criterion = crit_id k, ev_task = task, ev_execution = xid, ev_kind = spec_kind (crit_spec k),
     ev_artifact = None, ev_data = obs, ev_valid = True\<rparr>"

definition record_validation :: "env \<Rightarrow> uuid \<Rightarrow> acceptance_criterion \<Rightarrow> uuid \<Rightarrow> uuid option \<Rightarrow> uuid option
    \<Rightarrow> uuid option \<Rightarrow> validation_observation \<Rightarrow> evidence act" where
  "record_validation env rid k eid actor task xid obs = with_uow (bnd (runs_get rid) (\<lambda>found.
     bnd (the_or Conflict (case found of None \<Rightarrow> None
       | Some r \<Rightarrow> if run_goal r = Some (crit_goal k) then Some r else None)) (\<lambda>r.
     bnd (runs_get_goal (crit_goal k) rid) (\<lambda>latest.
     bnd (the_or AssertFail latest) (\<lambda>contract.
     bnd (the_or StopIter (find (\<lambda>c. crit_id c = crit_id k) (gc_criteria contract))) (\<lambda>current.
     bnd (utc_now env) (\<lambda>created.
     bnd (utc_now env) (\<lambda>now.
     let status = judged r (crit_spec k) obs;
         ev = evidence_of eid created rid k task xid obs;
         updated = current\<lparr>crit_status := status, crit_attempts := Suc (crit_attempts current),
           crit_validated := Some now, crit_evidence := crit_evidence current @ [eid]\<rparr>;
         payload = (criterion_payload updated)\<lparr>pl_evidence := [eid]\<rparr> in
     bnd (runs_save_evaluation updated ev) (\<lambda>_.
     bnd (emit env r EV_EVIDENCE_RECORDED (''evidence:'' @ uuid_str eid) created payload actor task xid) (\<lambda>_.
     bnd (emit env r EV_TEST_COMPLETED (''validation:'' @ uuid_str eid @ '':end'') created payload actor task xid) (\<lambda>_.
     bnd (if status = AC_PASS \<or> status = AC_FAIL then
            bnd (emit env r (if status = AC_PASS then EV_CRITERION_PASSED else EV_CRITERION_FAILED)
              (''criterion-result:'' @ uuid_str eid) created payload actor task xid) (\<lambda>_. ret ())
          else ret ()) (\<lambda>_.
     bnd (commit env) (\<lambda>_. ret ev)))))))))))))"

text \<open>
  Only the errors of the code's own hierarchy count as a failed validation; they are recorded and then
  raised again.
\<close>

definition validate_criterion :: "env \<Rightarrow> uuid \<Rightarrow> string \<Rightarrow> (validation_spec \<Rightarrow> err + validation_observation) \<Rightarrow> string
    \<Rightarrow> uuid option \<Rightarrow> evidence act" where
  "validate_criterion env rid ckey evaluate key xid =
     bnd (deny (blank key) InputInvalid) (\<lambda>_.
     bnd (begin_validation env rid ckey key xid) (\<lambda>ticket. case ticket of
       Validated e \<Rightarrow> ret e
     | ToValidate k eid actor task \<Rightarrow>
         (case observed env evaluate (crit_spec k) of
            Inr obs \<Rightarrow> record_validation env rid k eid actor task xid obs
          | Inl e \<Rightarrow> if \<not> orqalis_error e then raise_err e
              else bnd (record_validation env rid k eid actor task xid (failed_observation (crit_spec k) e)) (\<lambda>_.
                raise_err e))))"

context repository_contract
begin

lemma keeps_criterion_of: "keeps S (criterion_of env gid d)"
  unfolding criterion_of_def by (intro program_laws read_laws)

lemma service_criterion_of: "keeps T (criterion_of env gid d)"
  unfolding criterion_of_def by (intro service_laws)

lemma keeps_contract_of: "keeps S (contract_of env rid d version supersedes reason)"
  unfolding contract_of_def by (intro program_laws read_laws keeps_criterion_of)

lemma service_contract_of: "keeps T (contract_of env rid d version supersedes reason)"
  unfolding contract_of_def by (intro service_laws service_criterion_of)

end

context repository_contract
begin

lemma keeps_open_run: "keeps S (open_run env r)"
  unfolding open_run_def by (intro act_laws runtime_laws)

lemma keeps_goal_reads: "keeps S (with_current_goal rid)" "keeps S (requirements_attempt rid xid)"
  unfolding with_current_goal_def requirements_attempt_def by (intro act_laws)+

lemma with_new_run:
  assumes "\<And>r. fresh_run r \<Longrightarrow> keeps T (f r)"
  shows "keeps T (bnd (make_run env p request branch base) f)"
proof -
  have "keeps T (f (new_run rid created p request branch base))" for rid created
    using assms by (simp add: new_run_def fresh_run_def)
  then show ?thesis unfolding make_run_def bnd_assoc bnd_ret Let_def
    by (intro service_laws)
qed

lemmas goal_laws = keeps_contract_of keeps_open_run keeps_goal_reads

lemma create_run_evolves: "keeps T (create_run env day p request branch base d mode gates)"
  unfolding create_run_def Let_def
  by (intro with_new_run service_laws service_contract_of act_laws runtime_laws approval_laws goal_laws runs_add_law)

lemma create_pending_evolves: "keeps T (create_pending env day p request branch base mode gates)"
  unfolding create_pending_def
  by (intro with_new_run service_laws act_laws runtime_laws approval_laws goal_laws runs_add_law)

lemma define_initial_evolves: "keeps T (define_initial env rid xid d)"
  unfolding define_initial_def by (intro service_laws act_laws runtime_laws goal_laws)

lemma revise_goal_evolves: "keeps T (revise_goal env rid d reason expected)"
  unfolding revise_goal_def by (intro service_laws act_laws runtime_laws goal_laws)

lemma begin_validation_evolves: "keeps T (begin_validation env rid ckey key xid)"
  unfolding begin_validation_def Let_def by (intro service_laws act_laws runtime_laws goal_laws)

lemma record_validation_evolves: "keeps T (record_validation env rid k eid actor task xid obs)"
  unfolding record_validation_def Let_def by (intro service_laws act_laws runtime_laws goal_laws)

lemma validate_criterion_evolves: "keeps T (validate_criterion env rid ckey evaluate key xid)"
  unfolding validate_criterion_def
  by (intro service_laws begin_validation_evolves)
    (auto intro!: service_laws record_validation_evolves split: validation_ticket.split sum.split)

end

end
