(* ===== verification/Orq_Repair.thy ===== *)
theory Orq_Repair
  imports Orq_Plans Orq_Goals
begin

text \<open>
  \<^verbatim>\<open>RepairCoordinator\<close> (\<^verbatim>\<open>core/repair.py\<close>) and \<^verbatim>\<open>PlanPreviewService\<close> (\<^verbatim>\<open>core/plan_preview.py\<close>):
  the services that drive others. A failed review is turned into a repair plan behind its
  approvals and within the repair limit of the run; a defined goal is turned into an installed plan that
  waits for the operator. Each step is a unit of work of its own and can be repeated: the keys of the
  events tell which steps have happened.
\<close>

section \<open>Repair\<close>

definition repair_key :: "review_record \<Rightarrow> string" where
  "repair_key rv = ''repair:'' @ uuid_str (rev_id rv)"

text \<open>\<^verbatim>\<open>requested is not None and requested.status != APPROVED\<close>.\<close>

definition unapproved :: "approval_request option \<Rightarrow> bool" where
  "unapproved q \<longleftrightarrow> (case q of None \<Rightarrow> False | Some a \<Rightarrow> req_status a \<noteq> AP_APPROVED)"

record repair_start =
  rs_run :: run
  rs_review :: review_record
  rs_plan :: task_plan
  rs_goal :: goal_contract
  rs_installed :: bool
  rs_limit :: bool

text \<open>The failed review the repair is for: of the current goal, and of the current plan or the one before.\<close>

definition repair_review :: "run \<Rightarrow> review_record option \<Rightarrow> review_record act" where
  "repair_review r found =
     bnd (the_or Conflict (case found of None \<Rightarrow> None | Some rv \<Rightarrow> if rr_pass (rev_result rv) then None else Some rv)) (\<lambda>rv.
     bnd (deny (Some (rev_goal rv) \<noteq> run_goal r) Conflict) (\<lambda>_. ret rv))"

definition begin_repair :: "env \<Rightarrow> uuid \<Rightarrow> repair_start act" where
  "begin_repair env rid = with_uow (bnd (locked_run rid) (\<lambda>r.
     bnd (execution_reviews rid) (\<lambda>reviews.
     bnd (get_plan rid (run_plan_version r)) (\<lambda>plan.
     bnd (case run_goal r of None \<Rightarrow> ret None | Some gid \<Rightarrow> runs_get_goal gid (run_id r)) (\<lambda>goal.
     bnd (deny (plan = None \<or> goal = None) Conflict) (\<lambda>_.
     bnd (repair_review r (if reviews = [] then None else Some (last reviews))) (\<lambda>rv.
     bnd (if run_state r = RS_REPAIR_PLANNING \<and> run_plan_version r = Suc (rev_plan_version rv) then ret True
          else bnd (deny (run_plan_version r \<noteq> rev_plan_version rv) Conflict) (\<lambda>_. ret False)) (\<lambda>installed.
     let limit = (\<not> installed \<and> run_max_repairs r \<le> run_repairs r) in
     bnd (if limit then
            bnd (utc_now env) (\<lambda>now.
            bnd (emit env r EV_REPAIR_REQUESTED (repair_key rv @ '':limit'') now
              ((status_payload ''LIMIT_REACHED'')\<lparr>pl_reason := Some ''Configured repair limit reached''\<rparr>) None None None) (\<lambda>_.
            commit env))
          else ret ()) (\<lambda>_.
     ret \<lparr>rs_run = r, rs_review = rv, rs_plan = the plan, rs_goal = the goal, rs_installed = installed, rs_limit = limit\<rparr>)))))))))"

definition request_repair :: "env \<Rightarrow> uuid \<Rightarrow> repair_start \<Rightarrow> unit act" where
  "request_repair env rid st =
     (let rv = rs_review st; key = repair_key rv in
      bnd (ensure_approval env rid STAGE_REPAIR (rev_plan_version rv) (repair_subject env rv) repair_reason) (\<lambda>requested.
      bnd (deny (unapproved requested) PolicyDenied) (\<lambda>_.
      with_uow (bnd (locked_run rid) (\<lambda>current.
        bnd (utc_now env) (\<lambda>now.
        bnd (emit env current EV_REPAIR_REQUESTED (key @ '':request'') now
          (no_payload\<lparr>pl_plan_version := Some (plan_version (rs_plan st)),
             pl_reason := Some ''Failed review requires targeted repair''\<rparr>) None None None) (\<lambda>_.
        commit env)))))))"

definition install_repair :: "env \<Rightarrow> uuid \<Rightarrow> repair_start \<Rightarrow> unit act" where
  "install_repair env rid st =
     (let key = repair_key (rs_review st); r = rs_run st in
      bnd (request_repair env rid st) (\<lambda>_.
      bnd (if run_state r = RS_REVIEWING then
             bnd (advance env rid RS_REPAIR_PLANNING (key @ '':planning'')) (\<lambda>_. ret ())
           else deny (run_state r \<noteq> RS_REPAIR_PLANNING) Conflict) (\<lambda>_.
      bnd (repair_plan env (rs_plan st) (rs_review st) (map crit_id (gc_criteria (rs_goal st)))) (\<lambda>revised.
      bnd (install_revision env revised (key @ '':plan'') True) (\<lambda>_. ret ())))))"

definition schedule_repair :: "env \<Rightarrow> uuid \<Rightarrow> bool act" where
  "schedule_repair env rid = bnd (begin_repair env rid) (\<lambda>st.
     let key = repair_key (rs_review st) in
     if rs_limit st then
       bnd (advance env rid RS_HUMAN_REVIEW_REQUIRED (key @ '':limit:'' @ nat_str (run_last_seq (rs_run st)))) (\<lambda>_. ret False)
     else
       bnd (if rs_installed st then ret () else install_repair env rid st) (\<lambda>_.
       bnd (with_uow (bnd (locked_run rid) (\<lambda>current.
              bnd (get_plan rid (run_plan_version current)) (the_or Conflict)))) (\<lambda>p.
       bnd (ensure_approval env rid STAGE_PLAN (plan_version p) (plan_subject env p)
         ''Review the targeted repair DAG before execution'') (\<lambda>requested.
       bnd (deny (unapproved requested) PolicyDenied) (\<lambda>_.
       bnd (advance env rid RS_EXECUTING (key @ '':execute'')) (\<lambda>_. ret True))))))"

section \<open>Plan preview\<close>

text \<open>
  What the preview reads of the repository and of the project memory: the commit a reference names, the
  indexed commit and the relevant files of the memory's context for a request, and the files of a
  commit.
\<close>

record repo_view =
  rv_resolve :: "string \<Rightarrow> err + string"
  rv_context :: "string \<Rightarrow> err + (string option \<times> string list)"
  rv_tracked :: "string \<Rightarrow> err + string list"

text \<open>\<^verbatim>\<open>_base_context\<close> when the memory is of another commit: the files of the pinned base.\<close>

definition relevant_files :: "repo_view \<Rightarrow> run \<Rightarrow> string list act" where
  "relevant_files view r = bnd (result_of (rv_resolve view ''HEAD'')) (\<lambda>head.
     if head = run_base r then
       bnd (result_of (rv_context view (run_request r))) (\<lambda>(indexed, files).
       if indexed \<noteq> Some (run_base r) then result_of (rv_tracked view (run_base r)) else ret files)
     else result_of (rv_tracked view (run_base r)))"

text \<open>Where a preview starts: already planned, with a stored plan to finish, or with none.\<close>

datatype preview_start = AlreadyPlanned task_plan | Installed task_plan | Unplanned run

definition begin_preview :: "env \<Rightarrow> uuid \<Rightarrow> preview_start act" where
  "begin_preview env rid = with_uow (bnd (locked_run rid) (\<lambda>r.
     if run_state r = RS_PLANNED \<and> 0 < run_plan_version r then
       bnd (get_plan rid (run_plan_version r)) (\<lambda>plan. bnd (the_or Conflict plan) (\<lambda>p. ret (AlreadyPlanned p)))
     else
       bnd (deny (run_state r \<noteq> RS_GOAL_DEFINED) Conflict) (\<lambda>_.
       if run_plan_version r \<noteq> 0 then
         bnd (get_plan rid (run_plan_version r)) (\<lambda>stored.
         bnd (the_or Conflict (case stored of None \<Rightarrow> None
           | Some p \<Rightarrow> if plan_version p \<noteq> 1 \<or> Some (plan_goal p) \<noteq> run_goal r then None else Some p)) (\<lambda>p.
         ret (Installed p)))
       else
         bnd (the_or NotFound (env_project env (run_project r))) (\<lambda>_. ret (Unplanned r)))))"

definition request_plan :: "env \<Rightarrow> bool \<Rightarrow> uuid \<Rightarrow> task_plan \<Rightarrow> unit act" where
  "request_plan env approvals rid p =
     (if approvals then bnd (ensure_approval env rid STAGE_PLAN (plan_version p) (plan_subject env p)
        ''Review the dependency plan before execution'') (\<lambda>_. ret ())
      else ret ())"

definition finish_preview :: "env \<Rightarrow> bool \<Rightarrow> uuid \<Rightarrow> string \<Rightarrow> task_plan act" where
  "finish_preview env approvals rid key =
     bnd (advance env rid RS_PLANNED (key @ '':planned'')) (\<lambda>_.
     bnd (with_uow (bnd (locked_run rid) (\<lambda>current.
            bnd (get_plan rid (run_plan_version current)) (the_or Conflict)))) (\<lambda>persisted.
     bnd (request_plan env approvals rid persisted) (\<lambda>_. ret persisted)))"

definition require_goal_approval :: "env \<Rightarrow> bool \<Rightarrow> uuid \<Rightarrow> unit act" where
  "require_goal_approval env approvals rid =
     (if approvals then
        bnd (current_goal rid) (\<lambda>gc.
        bnd (ensure_approval env rid STAGE_GOAL (goal_number (gc_goal gc)) (goal_subject env gc)
          ''Approve goal before planning'') (\<lambda>approval.
        deny (unapproved approval) PolicyDenied))
      else ret ())"

definition preview_plan :: "env \<Rightarrow> repo_view \<Rightarrow> bool \<Rightarrow> uuid \<Rightarrow> string \<Rightarrow> task_plan act" where
  "preview_plan env view approvals rid key = bnd (require_key key) (\<lambda>_.
     bnd (begin_preview env rid) (\<lambda>st. case st of
       AlreadyPlanned p \<Rightarrow> bnd (request_plan env approvals rid p) (\<lambda>_. ret p)
     | Installed p \<Rightarrow> bnd (require_goal_approval env approvals rid) (\<lambda>_. finish_preview env approvals rid key)
     | Unplanned r \<Rightarrow>
         bnd (require_goal_approval env approvals rid) (\<lambda>_.
         bnd (relevant_files view r) (\<lambda>files.
         bnd (current_goal rid) (\<lambda>gc.
         bnd (vertical_plan env gc files 1) (\<lambda>p.
         bnd (install_plan env p key) (\<lambda>_. finish_preview env approvals rid key)))))))"

definition replace_preview :: "env \<Rightarrow> bool \<Rightarrow> task_plan \<Rightarrow> nat \<Rightarrow> string \<Rightarrow> task_plan act" where
  "replace_preview env approvals p expected key =
     bnd (replace_preview_plan env p expected key) (\<lambda>_.
     bnd (with_uow (bnd (get_plan (plan_run p) (plan_version p)) (the_or Conflict))) (\<lambda>persisted.
     bnd (request_plan env approvals (plan_run p) persisted) (\<lambda>_. ret persisted)))"

section \<open>Following the contract\<close>

text \<open>
  Both drivers consist of other services and of units of work that follow the contract, so they follow
  every order those follow. \<open>drives\<close> collects what they need of it.
\<close>

locale driven = service: step_order T for T :: "uow \<Rightarrow> uow \<Rightarrow> bool" +
  assumes ticks: "keeps T (utc_now env)" "keeps T uuid4"
    and installs: "keeps T (install_plan env p key)"
    and moves: "keeps T (advance env rid target key)"
    and revises: "keeps T (install_revision env p key repair)"
    and replaces: "keeps T (replace_preview_plan env p expected key)"
    and asks: "keeps T (ensure_approval env rid stage version digest reason)"
    and reads_goal: "keeps T (current_goal rid)"
    and begins_repair: "keeps T (begin_repair env rid)"
    and requests_repair: "keeps T (request_repair env rid st)"
    and begins_preview: "keeps T (begin_preview env rid)"
    and reads_plan: "keeps T (with_uow (bnd (locked_run rid) (\<lambda>r. bnd (get_plan rid (f r)) (the_or e))))"
      "keeps T (with_uow (bnd (get_plan rid v) (the_or e)))"
begin

lemmas driver_laws = service.keeps_ret service.keeps_raise service.keeps_deny service.keeps_the_or
  service.keeps_bnd service.keeps_catch service.keeps_for_each service.keeps_collect service.keeps_if
  service.keeps_case_option service.keeps_case_prod service.keeps_case_sum service.keeps_let
  ticks installs moves revises replaces asks reads_goal begins_repair requests_repair begins_preview reads_plan

lemma drives_result: "keeps T (result_of x)"
  unfolding result_of_def by (intro driver_laws)

lemma drives_new_task: "keeps T (new_task env tid rid v role description outcome validation capabilities criteria parent)"
  unfolding new_task_def Let_def by (intro driver_laws)

lemma drives_plans: "keeps T (repair_plan env p rv criteria)" "keeps T (vertical_plan env gc files v)"
  "keeps T (delivery_plan env p)" "keeps T (draft_replacement p)"
  unfolding repair_plan_def vertical_plan_def delivery_plan_def draft_replacement_def Let_def
  by (intro driver_laws drives_new_task drives_result)+

lemma drives_schedule_repair: "keeps T (schedule_repair env rid)"
  unfolding schedule_repair_def install_repair_def Let_def by (intro driver_laws drives_plans)

lemma drives_request_plan: "keeps T (request_plan env approvals rid p)" "keeps T (require_goal_approval env approvals rid)"
  unfolding request_plan_def require_goal_approval_def by (intro driver_laws)+

lemma drives_finish_preview: "keeps T (finish_preview env approvals rid key)"
  unfolding finish_preview_def by (intro driver_laws drives_request_plan)

lemma drives_preview_plan: "keeps T (preview_plan env view approvals rid key)"
proof -
  have "keeps T (case st of
       AlreadyPlanned p \<Rightarrow> bnd (request_plan env approvals rid p) (\<lambda>_. ret p)
     | Installed p \<Rightarrow> bnd (require_goal_approval env approvals rid) (\<lambda>_. finish_preview env approvals rid key)
     | Unplanned r \<Rightarrow>
         bnd (require_goal_approval env approvals rid) (\<lambda>_.
         bnd (relevant_files view r) (\<lambda>files.
         bnd (current_goal rid) (\<lambda>gc.
         bnd (vertical_plan env gc files 1) (\<lambda>p.
         bnd (install_plan env p key) (\<lambda>_. finish_preview env approvals rid key))))))" for st
    by (cases st)
      (auto simp: relevant_files_def intro!: driver_laws drives_plans drives_result drives_request_plan drives_finish_preview)
  then show ?thesis unfolding preview_plan_def require_key_def by (intro driver_laws)
qed

lemma drives_replace_preview: "keeps T (replace_preview env approvals p expected key)"
  unfolding replace_preview_def by (intro driver_laws drives_request_plan)

lemmas driver_services = drives_schedule_repair drives_preview_plan drives_replace_preview

end

context repository_contract
begin

lemma keeps_repair_review: "keeps S (repair_review r found)"
  unfolding repair_review_def by (intro act_laws)

lemma begin_repair_evolves: "keeps T (begin_repair env rid)"
  unfolding begin_repair_def Let_def by (intro service_laws act_laws runtime_laws keeps_repair_review)

lemma request_repair_evolves: "keeps T (request_repair env rid st)"
  unfolding request_repair_def Let_def by (intro service_laws ensure_approval_evolves act_laws runtime_laws)

lemma begin_preview_evolves: "keeps T (begin_preview env rid)"
  unfolding begin_preview_def by (intro service_laws act_laws runtime_laws)

lemma current_goal_evolves: "keeps T (current_goal rid)"
  unfolding current_goal_def by (intro service_laws act_laws goal_laws)

lemma reads_plan_evolves:
  "keeps T (with_uow (bnd (locked_run rid) (\<lambda>r. bnd (get_plan rid (f r)) (the_or e))))"
  "keeps T (with_uow (bnd (get_plan rid v) (the_or e)))"
  by (intro service_laws act_laws runtime_laws)+

lemmas driver_units = begin_repair_evolves request_repair_evolves begin_preview_evolves current_goal_evolves reads_plan_evolves

end

end
