(* ===== verification/Orq_Recovery.thy ===== *)
theory Orq_Recovery
  imports Orq_Revision
begin

text \<open>
  \<^verbatim>\<open>core/recovery.py\<close>: replacing an attempt whose worker is gone, after an operator has acknowledged
  that its effects are uncertain. Its running provider and tool calls are marked interrupted, the
  attempt fails, and its task is ready again, within the attempt limit of the project. Stopping
  left-over sandboxes of the attempt acts on processes and is not modelled.
\<close>

definition interrupt_calls :: "env \<Rightarrow> run \<Rightarrow> uuid \<Rightarrow> uuid \<Rightarrow> time \<Rightarrow> unit act" where
  "interrupt_calls env r xid tid now =
     bnd (providers_list (run_id r)) (\<lambda>ps.
     bnd (for_each ps (\<lambda>p. if prov_execution p = xid \<and> prov_status p = INV_RUNNING then
         bnd (providers_save (p\<lparr>prov_status := INV_INTERRUPTED, prov_completed := Some now, prov_error := Some PE_INTERRUPTED\<rparr>)) (\<lambda>_.
         bnd (emit env r EV_PROVIDER_INVOCATION_COMPLETED (''provider:'' @ prov_key p @ '':finish'') now
           ((status_payload ''INTERRUPTED'')\<lparr>pl_provider := Some (prov_id p)\<rparr>) (Some (prov_actor p)) (Some tid) (Some xid)) (\<lambda>_. ret ()))
       else ret ())) (\<lambda>_.
     bnd (execution_tools (run_id r)) (\<lambda>ts.
     for_each ts (\<lambda>t. if tool_execution t = xid \<and> tool_status t = TOOL_RUNNING then
         bnd (save_tool (t\<lparr>tool_status := TOOL_INTERRUPTED, tool_completed := Some now\<rparr>)) (\<lambda>_.
         bnd (emit env r EV_TOOL_COMPLETED (''tool:'' @ uuid_str (tool_id t) @ '':finish'') now
           ((status_payload ''INTERRUPTED'')\<lparr>pl_tool := Some (tool_id t)\<rparr>) (Some (tool_actor t)) (Some tid) (Some xid)) (\<lambda>_. ret ()))
       else ret ()))))"

text \<open>The task and attempt a recovery is about, checked against the current plan.\<close>

definition recovery_subject :: "run \<Rightarrow> uuid \<Rightarrow> (task \<times> task_execution) act" where
  "recovery_subject r xid =
     bnd (get_plan (run_id r) (run_plan_version r)) (\<lambda>plan.
     bnd (deny (case plan of None \<Rightarrow> False | Some p \<Rightarrow> Some (plan_goal p) \<noteq> run_goal r) Conflict) (\<lambda>_.
     bnd (run_executions (run_id r)) (\<lambda>xs.
     bnd (run_tasks (run_id r)) (\<lambda>ts.
     bnd (the_or Conflict (find (\<lambda>x. exec_id x = xid) xs)) (\<lambda>x.
     bnd (the_or Conflict (find (\<lambda>t. task_id t = exec_task x) ts)) (\<lambda>t.
     bnd (deny (plan = None \<and> \<not> (task_plan_version t = 0 \<and> task_role t = ROLE_REQUIREMENTS)) Conflict) (\<lambda>_.
     ret (t, x))))))))"

definition recovery_checks :: "env \<Rightarrow> run \<Rightarrow> task \<Rightarrow> task_execution \<Rightarrow> unit act" where
  "recovery_checks env r t x =
     bnd (deny (run_state r \<in> {RS_COMPLETED, RS_CANCELLED, RS_FAILED, RS_HUMAN_REVIEW_REQUIRED}) Conflict) (\<lambda>_.
     bnd (deny (\<not> active_attempt (exec_status x)) Conflict) (\<lambda>_.
     bnd (deny (case env_project env (run_project r) of None \<Rightarrow> True
       | Some p \<Rightarrow> ps_max_attempts (proj_settings p) \<le> task_attempts t) PolicyDenied) (\<lambda>_.
     bnd (run_executions (run_id r)) (\<lambda>xs.
     deny (\<exists>y \<in> set xs. exec_task y = task_id t \<and> exec_attempt x < exec_attempt y) Conflict))))"

definition retry_attempt :: "env \<Rightarrow> run \<Rightarrow> task \<Rightarrow> task_execution \<Rightarrow> string \<Rightarrow> string \<Rightarrow> string \<Rightarrow> task act" where
  "retry_attempt env r t x digest reason pre = bnd (utc_now env) (\<lambda>now.
     bnd (interrupt_calls env r (exec_id x) (task_id t) now) (\<lambda>_.
     bnd (transition_in_transaction env r (exec_id x) TS_FAILED (pre @ '':retire'') now) (\<lambda>_.
     let ready = t\<lparr>task_status := TS_READY, task_ready := Some now, task_started := None, task_completed := None\<rparr> in
     bnd (save_task ready) (\<lambda>_.
     bnd (emit env r EV_APPROVAL_RECORDED pre now
       (no_payload\<lparr>pl_summary := Some digest, pl_reason := Some reason, pl_status := Some ''retry_authorized''\<rparr>)
       None (Some (task_id t)) (Some (exec_id x))) (\<lambda>_.
     bnd (emit env r EV_TASK_READY (pre @ '':ready'') now
       ((status_payload ''READY'')\<lparr>pl_reason := Some ''Explicit recovery authorized''\<rparr>) None (Some (task_id t)) None) (\<lambda>_.
     bnd (commit env) (\<lambda>_. ret ready)))))))"

definition recover_task :: "env \<Rightarrow> uuid \<Rightarrow> uuid \<Rightarrow> string \<Rightarrow> string \<Rightarrow> bool \<Rightarrow> task act" where
  "recover_task env rid xid reason key acknowledged = bnd (require_key key) (\<lambda>_.
     bnd (deny (\<not> acknowledged) PolicyDenied) (\<lambda>_.
     bnd (deny (blank reason \<or> \<not> safe_text env reason \<or> 2000 < length reason) InputInvalid) (\<lambda>_.
     let digest = env_sha env (uuid_str xid @ '':'' @ reason); pre = ''recovery:'' @ key in
     under_lease env rid (bnd (locked_run rid) (\<lambda>r.
       bnd (events_by_key rid pre) (\<lambda>receipt.
       bnd (deny (case receipt of None \<Rightarrow> False | Some e \<Rightarrow> pl_summary (event_payload e) \<noteq> Some digest) Conflict) (\<lambda>_.
       bnd (recovery_subject r xid) (\<lambda>(t, x).
       if receipt \<noteq> None then ret t
       else bnd (recovery_checks env r t x) (\<lambda>_. retry_attempt env r t x digest reason pre)))))))))"

context repository_contract
begin

lemma keeps_interrupt_calls: "keeps S (interrupt_calls env r xid tid now)"
  unfolding interrupt_calls_def by (intro act_laws runtime_laws)

lemma keeps_recovery_reads: "keeps S (recovery_subject r xid)" "keeps S (recovery_checks env r t x)"
  unfolding recovery_subject_def recovery_checks_def by (intro act_laws)+

lemma keeps_retry_attempt: "keeps S (retry_attempt env r t x digest reason pre)"
  unfolding retry_attempt_def Let_def by (intro act_laws runtime_laws task_laws keeps_interrupt_calls)

lemma recover_task_evolves: "keeps T (recover_task env rid xid reason key acknowledged)"
  unfolding recover_task_def require_key_def Let_def
  by (intro service_laws under_lease_evolves act_laws runtime_laws keeps_recovery_reads keeps_retry_attempt)

end

end
