(* ===== verification/Orq_History.thy ===== *)
theory Orq_History
  imports Orq_Contract
begin

text \<open>
  The audit history of a run: what no repository operation, and so no service, can take away from a
  capsule. \<open>history\<close> relates a capsule to a later one: its identity is the same, its event log, reviews,
  change reports and validations are extensions of the earlier ones, stored plans, approval
  requests and decisions are never changed, goal texts and the identities of their criteria
  neither, and no entity disappears. The interpretation shows that the repositories keep it.
\<close>

definition grows :: "('k \<times> 'v) list \<Rightarrow> ('k \<times> 'v) list \<Rightarrow> bool" where
  "grows m m' \<longleftrightarrow> dom (map_of m) \<subseteq> dom (map_of m')"

definition same_goal :: "goal_contract \<Rightarrow> goal_contract \<Rightarrow> bool" where
  "same_goal g h \<longleftrightarrow> gc_goal h = gc_goal g \<and> map crit_id (gc_criteria h) = map crit_id (gc_criteria g)"

definition goals_kept :: "(uuid \<times> goal_contract) list \<Rightarrow> (uuid \<times> goal_contract) list \<Rightarrow> bool" where
  "goals_kept m m' \<longleftrightarrow> (\<forall>i g. map_of m i = Some g \<longrightarrow> (\<exists>h. map_of m' i = Some h \<and> same_goal g h))"

definition logs_kept :: "capsule \<Rightarrow> capsule \<Rightarrow> bool" where
  "logs_kept c d \<longleftrightarrow> prefix (cap_events c) (cap_events d) \<and> prefix (cap_reviews c) (cap_reviews d)
     \<and> prefix (cap_guardians c) (cap_guardians d) \<and> prefix (cap_validations c) (cap_validations d)"

definition identity_kept :: "capsule \<Rightarrow> capsule \<Rightarrow> bool" where
  "identity_kept c d \<longleftrightarrow> cap_id d = cap_id c \<and> cap_generation c \<le> cap_generation d
     \<and> run_id (cap_run d) = run_id (cap_run c) \<and> run_project (cap_run d) = run_project (cap_run c)
     \<and> run_created (cap_run d) = run_created (cap_run c)"

definition records_kept :: "capsule \<Rightarrow> capsule \<Rightarrow> bool" where
  "records_kept c d \<longleftrightarrow> map_of (cap_plans c) \<subseteq>\<^sub>m map_of (cap_plans d)
     \<and> map_of (cap_requests c) \<subseteq>\<^sub>m map_of (cap_requests d)
     \<and> map_of (cap_decisions c) \<subseteq>\<^sub>m map_of (cap_decisions d) \<and> goals_kept (cap_goals c) (cap_goals d)"

definition entities_kept :: "capsule \<Rightarrow> capsule \<Rightarrow> bool" where
  "entities_kept c d \<longleftrightarrow> grows (cap_evidence c) (cap_evidence d) \<and> grows (cap_tasks c) (cap_tasks d)
     \<and> grows (cap_actors c) (cap_actors d) \<and> grows (cap_executions c) (cap_executions d)
     \<and> grows (cap_phases c) (cap_phases d)"

definition tables_kept :: "capsule \<Rightarrow> capsule \<Rightarrow> bool" where
  "tables_kept c d \<longleftrightarrow> prefix (map tool_id (cap_tools c)) (map tool_id (cap_tools d))
     \<and> prefix (map prov_id (cap_invocations c)) (map prov_id (cap_invocations d))
     \<and> prefix (map art_id (cap_artifacts c)) (map art_id (cap_artifacts d))
     \<and> prefix (map find_id (cap_findings c)) (map find_id (cap_findings d))"

definition history :: "capsule \<Rightarrow> capsule \<Rightarrow> bool" where
  "history c d \<longleftrightarrow> identity_kept c d \<and> logs_kept c d \<and> records_kept c d \<and> entities_kept c d \<and> tables_kept c d"

lemmas history_defs = history_def identity_kept_def logs_kept_def records_kept_def entities_kept_def tables_kept_def

definition history_rel :: capsule_rel where
  "history_rel rid x y \<longleftrightarrow> (\<forall>c. x = Some c \<longrightarrow> (\<exists>d. y = Some d \<and> history c d))"

lemma grows_refl [simp]: "grows m m"
  by (simp add: grows_def)

lemma grows_trans: "grows l m \<Longrightarrow> grows m n \<Longrightarrow> grows l n"
  by (auto simp: grows_def)

lemma grows_update [simp]: "grows m (AList.update k v m)"
  by (auto simp: grows_def update_conv')

lemma goals_kept_refl [simp]: "goals_kept m m"
  by (auto simp: goals_kept_def same_goal_def)

lemma goals_kept_trans: "goals_kept l m \<Longrightarrow> goals_kept m n \<Longrightarrow> goals_kept l n"
  unfolding goals_kept_def same_goal_def by metis

lemma goals_kept_update: "(\<And>g. map_of m i = Some g \<Longrightarrow> same_goal g h) \<Longrightarrow> goals_kept m (AList.update i h m)"
  by (auto simp: goals_kept_def update_conv' same_goal_def)

lemma map_le_alist_update: "map_of m k \<in> {None, Some v} \<Longrightarrow> map_of m \<subseteq>\<^sub>m map_of (AList.update k v m)"
  by (auto simp: map_le_def update_conv')

lemma map_le_alist_insert: "k \<notin> fst ` set m \<Longrightarrow> map_of m \<subseteq>\<^sub>m map_of (AList.update k v m)"
  by (rule map_le_alist_update) (simp add: map_of_eq_None_iff)

lemma adopt_tasks_Cons: "adopt_tasks (t # ts) m =
    adopt_tasks ts (if task_id t \<in> set (map fst m) then m else m @ [(task_id t, t)])"
  by (simp add: adopt_tasks_def)

lemma grows_append [simp]: "grows m (m @ n)"
  by (auto simp: grows_def)

lemma adopt_tasks_grows [simp]: "grows m (adopt_tasks ts m)"
proof (induction ts arbitrary: m)
  case (Cons t ts)
  show ?case
  proof (cases "task_id t \<in> set (map fst m)")
    case True
    then show ?thesis using Cons [of m] by (simp add: adopt_tasks_Cons)
  next
    case False
    then show ?thesis using grows_trans [OF grows_append Cons] by (simp add: adopt_tasks_Cons)
  qed
qed (simp add: adopt_tasks_def)

lemma with_criterion_same: "same_goal g (with_criterion k g)"
  by (simp add: same_goal_def with_criterion_def comp_def)

lemma map_replaced: "map ident (replaced ident x xs) = (if ident x \<in> ident ` set xs then map ident xs else map ident xs @ [ident x])"
  by (auto simp: replaced_def comp_def)

lemma prefix_replaced: "prefix (map ident xs) (map ident (replaced ident x xs))"
  by (simp add: map_replaced)

lemma prefix_replaced_all: "prefix (map find_id fs) (map find_id (foldl (\<lambda>fs f. replaced find_id f fs) fs gs))"
  by (induction gs arbitrary: fs) (auto intro: prefix_order.trans prefix_replaced)

lemma history_refl [simp]: "history c c"
  by (simp add: history_defs)

lemma logs_kept_trans: "logs_kept c d \<Longrightarrow> logs_kept d e \<Longrightarrow> logs_kept c e"
  unfolding logs_kept_def by (blast intro: prefix_order.trans)

lemma records_kept_trans: "records_kept c d \<Longrightarrow> records_kept d e \<Longrightarrow> records_kept c e"
  unfolding records_kept_def by (blast intro: map_le_trans goals_kept_trans)

lemma entities_kept_trans: "entities_kept c d \<Longrightarrow> entities_kept d e \<Longrightarrow> entities_kept c e"
  unfolding entities_kept_def by (blast intro: grows_trans)

lemma tables_kept_trans: "tables_kept c d \<Longrightarrow> tables_kept d e \<Longrightarrow> tables_kept c e"
  unfolding tables_kept_def by (blast intro: prefix_order.trans)

lemma identity_kept_trans: "identity_kept c d \<Longrightarrow> identity_kept d e \<Longrightarrow> identity_kept c e"
  by (simp add: identity_kept_def)

lemma history_trans: "history c d \<Longrightarrow> history d e \<Longrightarrow> history c e"
  unfolding history_def
  by (blast intro: identity_kept_trans logs_kept_trans records_kept_trans entities_kept_trans tables_kept_trans)

lemma history_rel_Some [simp]: "history_rel rid (Some c) (Some d) \<longleftrightarrow> history c d"
  by (simp add: history_rel_def)

interpretation history_order: capsule_order history_rel
proof
  show "history_rel rid x x" for rid x by (simp add: history_rel_def)
  show "history_rel rid x z" if "history_rel rid x y" "history_rel rid y z" for rid x y z
    using that history_trans by (fastforce simp: history_rel_def)
  show "history_rel rid (Some c) (Some (c\<lparr>cap_dirty := b\<rparr>))" for rid c b
    by (simp add: history_defs)
  show "history_rel rid (Some c) (Some (stamped c))" for rid c
    by (simp add: history_defs stamped_def)
qed

section \<open>The repositories keep the history\<close>

lemmas guarded = history_order.keeps_load_then history_order.deny_then history_order.put_ok

lemma with_criterion_history: "history c (put_criterion k c)"
  by (auto simp: put_criterion_def history_defs intro!: goals_kept_update with_criterion_same split: option.split)

lemma all_capsules_then:
  assumes "\<And>s. tx R s (snd (f (uow_work s) s))"
  shows "keeps (tx R) (bnd all_capsules f)"
  using assms by (simp add: keeps_def all_capsules_def prog_simps)

lemma history_runs_add: "keeps (tx history_rel) (runs_add env day r)"
proof -
  have "tx history_rel s (s\<lparr>uow_work := uow_work s @ [(run_id r, c)]\<rparr>)" for s c
    by (intro history_order.tx_work) (auto simp: stores_def history_rel_def map_add_def split: option.split)
  then show ?thesis
    by (auto simp: keeps_def runs_add_def prog_simps history_order.tx_refl split: sum.split)
qed

lemma history_runs_save: "keeps (tx history_rel) (runs_save r)"
  unfolding runs_save_def
  by (intro guarded) (auto simp: history_defs dest: map_of_SomeD)

lemma history_save_goal: "keeps (tx history_rel) (runs_save_goal gc)"
  unfolding runs_save_goal_def Let_def
  by (intro guarded) (auto simp: history_defs same_goal_def intro!: goals_kept_update)

lemma history_set_current_goal: "keeps (tx history_rel) (runs_set_current_goal rid gid)"
  unfolding runs_set_current_goal_def by (intro guarded) (auto simp: history_defs)

lemma history_save_criterion: "keeps (tx history_rel) (runs_save_criterion k)"
  unfolding runs_save_criterion_def
  by (intro history_order.transaction.program_laws history_order.transaction.keeps_all_capsules history_order.transaction.keeps_load
      history_order.keeps_put) (simp add: with_criterion_history)

lemma history_save_evaluation: "keeps (tx history_rel) (runs_save_evaluation k e)"
  unfolding runs_save_evaluation_def
  by (intro history_order.transaction.program_laws history_order.transaction.keeps_all_capsules history_order.transaction.keeps_load
      history_order.keeps_put history_save_criterion) (simp add: history_defs)

lemma history_events_append: "keeps (tx history_rel) (events_append env rid d)"
  unfolding events_append_def
  by (intro history_order.transaction.program_laws history_order.transaction.keeps_load history_order.transaction.keeps_tick history_order.keeps_put)
    (simp add: history_defs append_event_def)

lemma history_add_task: "keeps (tx history_rel) (add_task t)"
  unfolding add_task_def by (intro guarded) (auto simp: history_defs)

lemma history_save_plan: "keeps (tx history_rel) (save_plan p)"
  unfolding save_plan_def by (intro guarded) (auto simp: history_defs intro!: map_le_alist_update)

lemma history_save_task: "keeps (tx history_rel) (save_task t)"
  unfolding save_task_def
  by (intro history_order.transaction.program_laws history_order.transaction.keeps_load history_order.keeps_put)
    (simp add: history_defs put_task_def)

lemma history_save_phase: "keeps (tx history_rel) (save_phase ph)"
  unfolding save_phase_def by (intro guarded) (auto simp: history_defs)

lemma history_puts:
  "keeps (tx history_rel) (save_actor a)" "keeps (tx history_rel) (save_execution x)"
  "keeps (tx history_rel) (save_policy pol)" "keeps (tx history_rel) (save_workspace w)"
  unfolding save_actor_def save_execution_def save_policy_def save_workspace_def
  by (intro history_order.keeps_put, simp add: history_defs)+

lemma history_add_request: "keeps (tx history_rel) (add_request q)"
  unfolding add_request_def
  by (intro guarded) (auto simp: history_defs intro!: map_le_alist_insert)

lemma history_add_decision: "keeps (tx history_rel) (add_decision dec)"
  unfolding add_decision_def
  by (intro history_order.keeps_load_then history_order.deny_then history_order.put_ok
      history_order.transaction.keeps_bnd history_order.transaction.keeps_the_or history_order.transaction.keeps_all_capsules)
    (auto simp: history_defs intro!: map_le_alist_update)

lemma history_tables:
  "keeps (tx history_rel) (save_tool ti)" "keeps (tx history_rel) (providers_save pe)"
  "keeps (tx history_rel) (save_artifact art)" "keeps (tx history_rel) (save_finding fi)"
  unfolding save_tool_def providers_save_def save_artifact_def save_finding_def
  by (intro history_order.upsert_law; simp add: history_defs tools_table_def invocations_table_def
      artifacts_table_def findings_table_def prefix_replaced)+

lemma history_inserts:
  "keeps (tx history_rel) (save_review rv)" "keeps (tx history_rel) (save_validation fv)"
  unfolding save_review_def save_validation_def
  by (intro history_order.insert_new_law; simp add: history_defs reviews_table_def validations_table_def)+

lemma history_save_guardian: "keeps (tx history_rel) (save_guardian rep)"
  unfolding save_guardian_def
  by (intro history_order.transaction.program_laws history_order.transaction.keeps_ensure history_order.transaction.keeps_table_list history_order.keeps_put)
    (simp add: history_defs prefix_replaced_all)

lemma history_delivery_save: "keeps (tx history_rel) (delivery_save gd)"
  unfolding delivery_save_def
  by (intro history_order.transaction.program_laws history_order.transaction.keeps_delivery_get history_order.keeps_put)
    (simp add: history_defs)

interpretation history_contract: run_contract "tx history_rel" "evolves history_rel"
  by unfold_locales (erule history_order.discard_evolves | rule history_order.keeps_commit history_runs_add history_runs_save history_save_goal history_set_current_goal
      history_save_criterion history_save_evaluation history_events_append history_add_task history_save_plan
      history_save_task history_save_phase history_puts history_add_request history_add_decision
      history_tables history_inserts history_save_guardian history_delivery_save)+

end
