(* ===== verification/Orq_Integrity.thy ===== *)
theory Orq_Integrity
  imports Orq_History
begin

text \<open>
  Integrity of a capsule: what \<^verbatim>\<open>_load_path\<close> of \<^verbatim>\<open>task_store.py\<close> insists on when it reads a capsule
  back (contiguous event sequence of this run, event cursor equal to the length of the log), what its
  dictionaries are keyed by, and what the repositories check before they write: one event per
  idempotency key, in time order, goal versions, phase iterations and approval subjects that are
  unique, plans whose tasks exist, decisions on known requests only. The interpretation shows that
  no repository operation breaks it.
\<close>

definition keyed :: "('k \<Rightarrow> 'v \<Rightarrow> bool) \<Rightarrow> ('k \<times> 'v) list \<Rightarrow> bool" where
  "keyed P m \<longleftrightarrow> distinct (map fst m) \<and> (\<forall>(k, v) \<in> set m. P k v)"

definition unique :: "('v \<Rightarrow> 'a) \<Rightarrow> ('k \<times> 'v) list \<Rightarrow> bool" where
  "unique f m \<longleftrightarrow> (\<forall>(k, v) \<in> set m. \<forall>(l, w) \<in> set m. f v = f w \<longrightarrow> k = l)"

definition log_ok :: "uuid \<Rightarrow> run \<Rightarrow> event list \<Rightarrow> bool" where
  "log_ok rid r es \<longleftrightarrow> map event_seq es = [1..<Suc (length es)] \<and> run_last_seq r = length es
     \<and> (\<forall>e \<in> set es. event_run e = rid \<and> event_project e = run_project r)
     \<and> distinct (map event_key es) \<and> sorted (map event_at es)"

definition goals_ok :: "uuid \<Rightarrow> (uuid \<times> goal_contract) list \<Rightarrow> bool" where
  "goals_ok rid gs \<longleftrightarrow> keyed (\<lambda>i gc. goal_id (gc_goal gc) = i \<and> goal_run (gc_goal gc) = rid) gs
     \<and> unique (\<lambda>gc. goal_number (gc_goal gc)) gs"

definition plans_ok :: "uuid \<Rightarrow> (nat \<times> task_plan) list \<Rightarrow> (uuid \<times> task) list \<Rightarrow> bool" where
  "plans_ok rid ps ts \<longleftrightarrow> keyed (\<lambda>v p. plan_version p = v \<and> plan_run p = rid
       \<and> task_id ` set (plan_tasks p) \<subseteq> fst ` set ts) ps
     \<and> keyed (\<lambda>i t. task_id t = i) ts"

definition work_ok :: "uuid \<Rightarrow> (uuid \<times> actor_session) list \<Rightarrow> (uuid \<times> task_execution) list \<Rightarrow> (uuid \<times> phase_execution) list \<Rightarrow> bool" where
  "work_ok rid acs xs phs \<longleftrightarrow> keyed (\<lambda>i a. actor_id a = i \<and> actor_run a = rid) acs
     \<and> keyed (\<lambda>i x. exec_id x = i \<and> exec_run x = rid) xs
     \<and> keyed (\<lambda>i ph. phase_id ph = i \<and> phase_run ph = rid) phs
     \<and> unique (\<lambda>ph. (phase_phase ph, phase_iteration ph)) phs"

definition approvals_ok :: "uuid \<Rightarrow> (uuid \<times> approval_request) list \<Rightarrow> (uuid \<times> approval_decision) list \<Rightarrow> bool" where
  "approvals_ok rid qs ds \<longleftrightarrow> keyed (\<lambda>i q. req_id q = i \<and> req_run q = rid \<and> req_status q = AP_PENDING
       \<and> req_decision q = None) qs
     \<and> unique (\<lambda>q. (req_stage q, req_version q, req_digest q)) qs
     \<and> keyed (\<lambda>i d. dec_request d = i \<and> i \<in> fst ` set qs) ds"

definition calls_ok :: "uuid \<Rightarrow> tool_invocation list \<Rightarrow> provider_execution list \<Rightarrow> bool" where
  "calls_ok rid ts ps \<longleftrightarrow> consistent tools_table rid ts \<and> consistent invocations_table rid ps
     \<and> distinct (map (\<lambda>t. (tool_provider t, tool_call t)) ts) \<and> distinct (map prov_key ps)"

definition intact :: "uuid \<Rightarrow> capsule \<Rightarrow> bool" where
  "intact rid c \<longleftrightarrow> run_id (cap_run c) = rid \<and> log_ok rid (cap_run c) (cap_events c)
     \<and> goals_ok rid (cap_goals c) \<and> keyed (\<lambda>i e. ev_id e = i) (cap_evidence c)
     \<and> plans_ok rid (cap_plans c) (cap_tasks c)
     \<and> work_ok rid (cap_actors c) (cap_executions c) (cap_phases c)
     \<and> approvals_ok rid (cap_requests c) (cap_decisions c) \<and> pred_option (\<lambda>p. pol_run p = rid) (cap_policy c)
     \<and> calls_ok rid (cap_tools c) (cap_invocations c)
     \<and> consistent reviews_table rid (cap_reviews c) \<and> consistent guardians_table rid (cap_guardians c)
     \<and> consistent validations_table rid (cap_validations c) \<and> consistent artifacts_table rid (cap_artifacts c)
     \<and> pred_option (\<lambda>d. gd_run d = rid) (cap_git c) \<and> pred_option (\<lambda>w. ws_run w = rid) (cap_workspace c)"

definition intact_rel :: capsule_rel where
  "intact_rel rid x y \<longleftrightarrow> (case x of None \<Rightarrow> True | Some c \<Rightarrow> intact rid c) \<longrightarrow> (case y of None \<Rightarrow> True | Some c \<Rightarrow> intact rid c)"

lemma intact_rel_Some [simp]: "intact_rel rid (Some c) (Some d) \<longleftrightarrow> (intact rid c \<longrightarrow> intact rid d)"
  by (simp add: intact_rel_def)

section \<open>Keyed association lists\<close>

lemma keyed_Nil [simp]: "keyed P []"
  by (simp add: keyed_def)

lemma unique_Nil [simp]: "unique f []"
  by (simp add: unique_def)

lemma set_update: "distinct (map fst m) \<Longrightarrow>
    set (AList.update k v m) = insert (k, v) {(l, w) \<in> set m. l \<noteq> k}"
proof (induction m)
  case (Cons p m)
  then show ?case by (cases p) (auto simp: image_iff)
qed simp

lemma keyed_update: "keyed P m \<Longrightarrow> P k v \<Longrightarrow> keyed P (AList.update k v m)"
  by (auto simp: keyed_def set_update AList.distinct_update)

lemma keyed_mono: "keyed P m \<Longrightarrow> (\<And>k v. P k v \<Longrightarrow> Q k v) \<Longrightarrow> keyed Q m"
  by (auto simp: keyed_def)

lemma keyed_distinct: "keyed P m \<Longrightarrow> distinct (map fst m)"
  by (simp add: keyed_def)

lemma keyed_lookup: "keyed P m \<Longrightarrow> map_of m k = Some v \<Longrightarrow> P k v"
  by (auto simp: keyed_def dest: map_of_SomeD)

lemma unique_update:
  assumes "distinct (map fst m)" and "unique f m" and "\<And>l w. (l, w) \<in> set m \<Longrightarrow> f w = f v \<Longrightarrow> l = k"
  shows "unique f (AList.update k v m)"
  using assms unfolding unique_def set_update [OF assms(1)] by fastforce

lemma fst_update: "fst ` set (AList.update k v m) = insert k (fst ` set m)"
  by (induction m) auto

lemma adopt_tasks_snoc: "adopt_tasks (ts @ [t]) m = (let n = adopt_tasks ts m in
    if task_id t \<in> set (map fst n) then n else n @ [(task_id t, t)])"
  by (simp add: adopt_tasks_def Let_def)

lemma adopt_tasks_keys: "fst ` set (adopt_tasks ts m) = fst ` set m \<union> task_id ` set ts"
  by (induction ts rule: rev_induct) (auto simp: adopt_tasks_snoc adopt_tasks_def Let_def)

lemma adopt_tasks_ok: "keyed (\<lambda>i t. task_id t = i) m \<Longrightarrow> keyed (\<lambda>i t. task_id t = i) (adopt_tasks ts m)"
proof (induction ts rule: rev_induct)
  case (snoc t ts)
  then show ?case by (auto simp: adopt_tasks_snoc Let_def keyed_def)
qed (simp add: adopt_tasks_def)

interpretation intact_order: capsule_order intact_rel
proof
  show "intact_rel rid x x" for rid x by (simp add: intact_rel_def)
  show "intact_rel rid x z" if "intact_rel rid x y" "intact_rel rid y z" for rid x y z
    using that by (simp add: intact_rel_def)
  show "intact_rel rid (Some c) (Some (c\<lparr>cap_dirty := b\<rparr>))" for rid c b by (simp add: intact_def)
  show "intact_rel rid (Some c) (Some (stamped c))" for rid c by (simp add: intact_def stamped_def)
qed

section \<open>The repositories keep capsules intact\<close>

lemmas guarded = intact_order.keeps_load_then intact_order.deny_then intact_order.put_ok

lemma intact_runs_add: "run_last_seq r = 0 \<Longrightarrow> keeps (tx intact_rel) (runs_add env day r)"
proof -
  assume "run_last_seq r = 0"
  then have new: "intact (run_id r) (new_capsule cid r)" for cid
    by (simp add: intact_def new_capsule_def log_ok_def goals_ok_def plans_ok_def work_ok_def approvals_ok_def
        calls_ok_def consistent_def)
  have "tx intact_rel s (s\<lparr>uow_work := uow_work s @ [(run_id r, new_capsule cid r)]\<rparr>)" for s cid
    by (intro intact_order.tx_work)
      (auto simp: stores_def intact_rel_def map_add_def new split: option.split)
  then show ?thesis
    by (auto simp: keeps_def runs_add_def prog_simps intact_order.tx_refl split: sum.split)
qed

lemma log_ok_cong: "run_last_seq q = run_last_seq r \<Longrightarrow> run_project q = run_project r \<Longrightarrow> log_ok rid q es = log_ok rid r es"
  by (simp only: log_ok_def)

lemma intact_runs_save: "keeps (tx intact_rel) (runs_save r)"
  unfolding runs_save_def
  by (intro guarded) (auto simp: intact_def elim!: log_ok_cong [THEN iffD1, rotated 2])

lemma unique_key:
  assumes "keyed (\<lambda>l w. ident w = l) m" and "unique f m"
    and "\<not> (\<exists>w \<in> snd ` set m. f w = f v \<and> ident w \<noteq> ident v)"
  shows "unique f (AList.update (ident v) v m)"
proof (rule unique_update [OF keyed_distinct [OF assms(1)] assms(2)])
  fix l w
  assume lw: "(l, w) \<in> set m" "f w = f v"
  then have "ident w = l" using assms(1) by (auto simp: keyed_def)
  with lw assms(3) show "l = ident v" by force
qed

lemma goals_ok_update:
  assumes "goals_ok rid gs" and "goal_run (gc_goal gc) = rid"
    and "\<not> (\<exists>h \<in> snd ` set gs. goal_number (gc_goal h) = goal_number (gc_goal gc) \<and> goal_id (gc_goal h) \<noteq> goal_id (gc_goal gc))"
  shows "goals_ok rid (AList.update (goal_id (gc_goal gc)) gc gs)"
  using assms unfolding goals_ok_def
  by (intro conjI keyed_update unique_key [where ident = "\<lambda>gc. goal_id (gc_goal gc)"]) (auto elim: keyed_mono)

lemma intact_save_goal: "keeps (tx intact_rel) (runs_save_goal gc)"
  unfolding runs_save_goal_def Let_def
  by (intro guarded) (auto simp: intact_def intro!: goals_ok_update)

lemma intact_set_current_goal: "keeps (tx intact_rel) (runs_set_current_goal rid gid)"
  unfolding runs_set_current_goal_def 
  by (intro guarded) (auto simp: intact_def elim!: log_ok_cong [THEN iffD1, rotated 2])

lemma intact_put_criterion: "intact rid c \<Longrightarrow> intact rid (put_criterion k c)"
proof (cases "map_of (cap_goals c) (crit_goal k)")
  case (Some gc)
  assume c: "intact rid c"
  then have ok: "goals_ok rid (cap_goals c)" by (simp add: intact_def)
  have mem: "(crit_goal k, gc) \<in> set (cap_goals c)" using Some by (rule map_of_SomeD)
  from ok have keys: "keyed (\<lambda>i gc. goal_id (gc_goal gc) = i \<and> goal_run (gc_goal gc) = rid) (cap_goals c)"
    and numbers: "unique (\<lambda>gc. goal_number (gc_goal gc)) (cap_goals c)" by (auto simp: goals_ok_def)
  have "goals_ok rid (AList.update (crit_goal k) (with_criterion k gc) (cap_goals c))"
    unfolding goals_ok_def
  proof
    show "keyed (\<lambda>i gc. goal_id (gc_goal gc) = i \<and> goal_run (gc_goal gc) = rid)
        (AList.update (crit_goal k) (with_criterion k gc) (cap_goals c))"
      using keyed_lookup [OF keys Some] by (intro keyed_update [OF keys]) (simp add: with_criterion_def)
    show "unique (\<lambda>gc. goal_number (gc_goal gc)) (AList.update (crit_goal k) (with_criterion k gc) (cap_goals c))"
      using numbers mem
      by (intro unique_update keyed_distinct [OF keys]) (auto simp: with_criterion_def unique_def)
  qed
  with c Some show ?thesis by (simp add: intact_def put_criterion_def)
qed (simp add: put_criterion_def)

lemma intact_save_criterion: "keeps (tx intact_rel) (runs_save_criterion k)"
  unfolding runs_save_criterion_def
  by (intro intact_order.transaction.program_laws intact_order.transaction.keeps_all_capsules intact_order.transaction.keeps_load
      intact_order.keeps_put) (simp add: intact_put_criterion)

lemma intact_save_evaluation: "keeps (tx intact_rel) (runs_save_evaluation k e)"
  unfolding runs_save_evaluation_def
  by (intro intact_order.transaction.program_laws intact_order.transaction.keeps_all_capsules intact_order.transaction.keeps_load
      intact_order.keeps_put intact_save_criterion) (simp add: intact_def keyed_update)

lemma intact_append_event:
  assumes "intact rid c" and "event_by_key (evd_key d) (cap_events c) = None"
  shows "intact rid (append_event (event_of c rid d eid created) c)"
proof -
  let ?es = "cap_events c"
  from assms have ok: "log_ok rid (cap_run c) ?es" by (simp add: intact_def)
  have "evd_key d \<notin> event_key ` set ?es" using assms(2) by (auto simp: event_by_key_def find_None_iff)
  moreover have "\<forall>e \<in> set ?es. event_at e \<le> event_at (event_of c rid d eid created)"
  proof (cases "?es = []")
    case False
    then obtain es e where es: "?es = es @ [e]" by (metis append_butlast_last_id)
    with ok show ?thesis by (fastforce simp: event_of_def log_ok_def sorted_append)
  qed simp
  moreover have "event_seq (event_of c rid d eid created) = Suc (length ?es)"
    using ok by (simp add: event_of_def log_ok_def)
  ultimately have "log_ok rid ((cap_run c)\<lparr>run_last_seq := event_seq (event_of c rid d eid created)\<rparr>)
      (?es @ [event_of c rid d eid created])"
    using ok by (simp add: log_ok_def sorted_append) (simp add: event_of_def)
  with assms(1) show ?thesis by (simp add: intact_def append_event_def)
qed

lemma intact_events_append: "keeps (tx intact_rel) (events_append env rid d)"
proof -
  have "tx intact_rel s (snd (bnd (deny (\<not> safe_doc env (DocPayload (evd_payload d))) Conflict) (\<lambda>_.
      bnd uuid4 (\<lambda>eid. bnd (utc_now env) (\<lambda>created. bnd (put rid (append_event (event_of c rid d eid created)))
        (\<lambda>_. ret (event_of c rid d eid created))))) s))"
    if "map_of (uow_work s) rid = Some c" and "event_by_key (evd_key d) (cap_events c) = None" for s c
    using that by (intro intact_order.deny_then intact_order.tick_then intact_order.then_ret intact_order.put_ok)
      (auto simp: env_tick_def intact_append_event)
  then show ?thesis unfolding events_append_def
    by (intro intact_order.transaction.program_laws(6) intact_order.transaction.program_laws(4) intact_order.keeps_load_then)
      (auto simp: prog_simps intact_order.tx_refl split: option.split)
qed

lemma plans_ok_tasks:
  assumes "plans_ok rid ps ts" and "keyed (\<lambda>i t. task_id t = i) us" and "fst ` set ts \<subseteq> fst ` set us"
  shows "plans_ok rid ps us"
proof -
  have "keyed (\<lambda>v p. plan_version p = v \<and> plan_run p = rid \<and> task_id ` set (plan_tasks p) \<subseteq> fst ` set ts) ps"
    using assms(1) by (simp add: plans_ok_def)
  then have "keyed (\<lambda>v p. plan_version p = v \<and> plan_run p = rid \<and> task_id ` set (plan_tasks p) \<subseteq> fst ` set us) ps"
    by (rule keyed_mono) (use assms(3) in blast)
  with assms(2) show ?thesis by (simp add: plans_ok_def)
qed

lemma plans_ok_task: "plans_ok rid ps ts \<Longrightarrow> plans_ok rid ps (AList.update (task_id t) t ts)"
  by (rule plans_ok_tasks) (auto simp: plans_ok_def fst_update intro: keyed_update)

lemma intact_add_task: "keeps (tx intact_rel) (add_task t)"
  unfolding add_task_def by (intro guarded) (auto simp: intact_def plans_ok_task)

lemma intact_save_task: "keeps (tx intact_rel) (save_task t)"
  unfolding save_task_def
  by (intro intact_order.transaction.program_laws intact_order.transaction.keeps_load intact_order.keeps_put)
    (auto simp: intact_def put_task_def plans_ok_task)

lemma plans_ok_save:
  assumes "plans_ok (plan_run p) ps ts"
  shows "plans_ok (plan_run p) (AList.update (plan_version p) p ps) (adopt_tasks (plan_tasks p) ts)"
proof -
  from assms have "plans_ok (plan_run p) ps (adopt_tasks (plan_tasks p) ts)"
    by (intro plans_ok_tasks [OF assms] adopt_tasks_ok) (auto simp: plans_ok_def adopt_tasks_keys)
  then show ?thesis by (auto simp: plans_ok_def adopt_tasks_keys intro!: keyed_update)
qed

lemma intact_save_plan: "keeps (tx intact_rel) (save_plan p)"
  unfolding save_plan_def by (intro guarded) (auto simp: intact_def plans_ok_save)

lemma intact_puts:
  "keeps (tx intact_rel) (save_actor a)" "keeps (tx intact_rel) (save_execution x)"
  "keeps (tx intact_rel) (save_policy pol)" "keeps (tx intact_rel) (save_workspace w)"
  unfolding save_actor_def save_execution_def save_policy_def save_workspace_def
  by (intro intact_order.keeps_put, auto simp: intact_def work_ok_def intro!: keyed_update)+

lemma intact_save_phase: "keeps (tx intact_rel) (save_phase ph)"
proof -
  have "work_ok (phase_run ph) acs xs (AList.update (phase_id ph) ph phs)"
    if "work_ok (phase_run ph) acs xs phs"
      and "\<not> (\<exists>q \<in> snd ` set phs. phase_id q \<noteq> phase_id ph \<and> phase_phase q = phase_phase ph
         \<and> phase_iteration q = phase_iteration ph)" for acs xs phs
    using that unfolding work_ok_def
    by (intro conjI keyed_update unique_key [where ident = phase_id]) (auto elim: keyed_mono)
  then show ?thesis unfolding save_phase_def by (intro guarded) (auto simp: intact_def)
qed

lemma approvals_ok_request:
  assumes "approvals_ok (req_run q) qs ds" and "req_status q = AP_PENDING" "req_decision q = None"
    and "\<not> (\<exists>p \<in> snd ` set qs. req_stage p = req_stage q \<and> req_version p = req_version q \<and> req_digest p = req_digest q)"
  shows "approvals_ok (req_run q) (AList.update (req_id q) q qs) ds"
  using assms unfolding approvals_ok_def
  by (intro conjI keyed_update unique_key [where ident = req_id]) (auto simp: fst_update elim: keyed_mono)

lemma intact_add_request: "keeps (tx intact_rel) (add_request q)"
proof -
  have "approvals_ok (req_run q) (AList.update (req_id q) (q\<lparr>req_status := AP_PENDING, req_decision := None\<rparr>) qs) ds"
    if "approvals_ok (req_run q) qs ds"
      "\<not> (\<exists>p \<in> snd ` set qs. req_stage p = req_stage q \<and> req_version p = req_version q \<and> req_digest p = req_digest q)"
    for qs ds
    using approvals_ok_request [of "q\<lparr>req_status := AP_PENDING, req_decision := None\<rparr>" qs ds] that by simp
  then show ?thesis unfolding add_request_def by (intro guarded) (auto simp: intact_def)
qed

lemma request_owner_has: "request_owner qid cs = Some rid \<Longrightarrow> map_of cs rid = Some c \<Longrightarrow> qid \<in> fst ` set (cap_requests c)"
  by (auto simp: request_owner_def find_Some_iff)

lemma approvals_ok_decision: "approvals_ok rid qs ds \<Longrightarrow> dec_request d \<in> fst ` set qs \<Longrightarrow>
    approvals_ok rid qs (AList.update (dec_request d) d ds)"
  by (auto simp: approvals_ok_def intro!: keyed_update)

lemma intact_add_decision: "keeps (tx intact_rel) (add_decision dec)"
proof -
  have "tx intact_rel s (snd (add_decision dec s))" for s
  proof (cases "request_owner (dec_request dec) (uow_work s)")
    case (Some rid)
    have "tx intact_rel s (snd (bnd (load rid) (\<lambda>c.
        bnd (deny (map_of (cap_decisions c) (dec_request dec) \<notin> {None, Some dec}) Conflict) (\<lambda>_.
        put rid (\<lambda>c. c\<lparr>cap_decisions := AList.update (dec_request dec) dec (cap_decisions c)\<rparr>))) s))"
    proof (cases "map_of (uow_work s) rid")
      case None
      then show ?thesis by (simp add: prog_simps load_def intact_order.tx_refl)
    next
      case (Some c)
      then have "tx intact_rel s (snd (bnd (deny (map_of (cap_decisions c) (dec_request dec) \<notin> {None, Some dec}) Conflict)
          (\<lambda>_. put rid (\<lambda>c. c\<lparr>cap_decisions := AList.update (dec_request dec) dec (cap_decisions c)\<rparr>)) s))"
        using request_owner_has [OF \<open>request_owner (dec_request dec) (uow_work s) = Some rid\<close> Some]
        by (intro intact_order.deny_then intact_order.put_ok) (auto simp: intact_def intro: approvals_ok_decision rev_image_eqI)
      with Some show ?thesis by (simp add: bnd_load intact_order.tx_refl)
    qed
    with Some show ?thesis by (simp add: add_decision_def all_capsules_def the_or_def bnd_run [of "reads f" for f] reads_run)
  next
    case None
    then show ?thesis by (simp add: add_decision_def all_capsules_def prog_simps intact_order.tx_refl)
  qed
  then show ?thesis by (simp add: keeps_def)
qed

lemma set_replaced: "set (replaced ident x xs) \<subseteq> insert x (set xs)"
  by (auto simp: replaced_def)

lemma consistent_replaced: "consistent T rid xs \<Longrightarrow> tab_run T x = rid \<Longrightarrow> consistent T rid (replaced (tab_id T) x xs)"
  using set_replaced [of "tab_id T" x xs] map_replaced [of "tab_id T" x xs]
  by (auto simp: consistent_def)

lemma distinct_replaced_key:
  assumes "distinct (map f xs)" and "distinct (map ident xs)"
    and "\<not> (\<exists>y \<in> set xs. ident y \<noteq> ident x \<and> f y = f x)"
  shows "distinct (map f (replaced ident x xs))"
proof (cases "ident x \<in> ident ` set xs")
  case True
  have inj: "inj_on f (set xs)" "inj_on ident (set xs)" using assms(1,2) by (simp_all add: distinct_map)
  have "inj_on (\<lambda>y. f (if ident y = ident x then x else y)) (set xs)"
  proof (rule inj_onI)
    fix y z
    assume "y \<in> set xs" "z \<in> set xs"
      and "f (if ident y = ident x then x else y) = f (if ident z = ident x then x else z)"
    then show "y = z" using inj_onD [OF inj(1), of y z] inj_onD [OF inj(2), of y z] assms(3)
      by (metis (full_types))
  qed
  with True assms(2) show ?thesis by (simp add: replaced_def distinct_map comp_def)
next
  case False
  have "f x \<notin> f ` set xs"
  proof
    assume "f x \<in> f ` set xs"
    then obtain y where y: "y \<in> set xs" "f y = f x" by auto
    with assms(3) have "ident y = ident x" by blast
    then have "ident x \<in> ident ` set xs" using imageI [OF y(1), of ident] by simp
    with False show False ..
  qed
  with False assms(1) show ?thesis by (auto simp: replaced_def)
qed

lemma consistent_ids: "consistent T rid xs \<Longrightarrow> distinct (map (tab_id T) xs)"
  by (simp add: consistent_def)

lemma table_ids: "tab_id tools_table = tool_id" "tab_id invocations_table = prov_id" "tab_id artifacts_table = art_id"
  "tab_id findings_table = find_id" "tab_run tools_table = tool_run" "tab_run invocations_table = prov_run"
  "tab_run artifacts_table = art_run" "tab_run findings_table = find_run"
  by (simp_all add: tools_table_def invocations_table_def artifacts_table_def findings_table_def)

lemma table_fields: "tab_get tools_table = cap_tools" "tab_get invocations_table = cap_invocations"
  "tab_get artifacts_table = cap_artifacts" "tab_get findings_table = cap_findings"
  "tab_put tools_table xs c = c\<lparr>cap_tools := xs\<rparr>" "tab_put invocations_table ys c = c\<lparr>cap_invocations := ys\<rparr>"
  "tab_put artifacts_table zs c = c\<lparr>cap_artifacts := zs\<rparr>" "tab_put findings_table us c = c\<lparr>cap_findings := us\<rparr>"
  by (simp_all add: tools_table_def invocations_table_def artifacts_table_def findings_table_def)

lemma calls_ok_tool:
  assumes "calls_ok (tool_run x) ts ps"
    and "\<not> (\<exists>y \<in> set ts. tool_id y \<noteq> tool_id x \<and> tool_provider y = tool_provider x \<and> tool_call y = tool_call x)"
  shows "calls_ok (tool_run x) (replaced tool_id x ts) ps"
  using assms consistent_replaced [of tools_table "tool_run x" ts x]
    distinct_replaced_key [of "\<lambda>t. (tool_provider t, tool_call t)" ts tool_id x]
    consistent_ids [of tools_table "tool_run x" ts]
  by (simp add: calls_ok_def table_ids)

lemma calls_ok_invocation:
  assumes "calls_ok (prov_run x) ts ps"
    and "\<not> (\<exists>y \<in> set ps. prov_id y \<noteq> prov_id x \<and> prov_key y = prov_key x)"
  shows "calls_ok (prov_run x) ts (replaced prov_id x ps)"
  using assms consistent_replaced [of invocations_table "prov_run x" ps x]
    distinct_replaced_key [of prov_key ps prov_id x] consistent_ids [of invocations_table "prov_run x" ps]
  by (simp add: calls_ok_def table_ids)

lemma intact_save_tool: "keeps (tx intact_rel) (save_tool x)"
  unfolding save_tool_def
  by (rule intact_order.upsert_law) (auto simp: intact_def table_ids table_fields intro!: calls_ok_tool)

lemma intact_providers_save: "keeps (tx intact_rel) (providers_save x)"
  unfolding providers_save_def
  by (rule intact_order.upsert_law) (auto simp: intact_def table_ids table_fields intro!: calls_ok_invocation)

lemma intact_save_artifact: "keeps (tx intact_rel) (save_artifact x)"
  unfolding save_artifact_def
  by (rule intact_order.upsert_law)
    (auto simp: intact_def table_ids table_fields consistent_replaced [of artifacts_table, unfolded table_ids])

lemma intact_save_finding: "keeps (tx intact_rel) (save_finding x)"
  unfolding save_finding_def
  by (rule intact_order.upsert_law) (simp add: intact_def table_fields)

lemma intact_inserts:
  "keeps (tx intact_rel) (save_review rv)" "keeps (tx intact_rel) (save_validation fv)"
  unfolding save_review_def save_validation_def
  by (rule intact_order.insert_new_law,
      auto simp: intact_def consistent_def reviews_table_def validations_table_def)+

lemma intact_delivery_save: "keeps (tx intact_rel) (delivery_save gd)"
  unfolding delivery_save_def
  by (intro intact_order.transaction.program_laws intact_order.transaction.keeps_delivery_get intact_order.keeps_put)
    (simp add: intact_def)

lemma intact_save_guardian: "keeps (tx intact_rel) (save_guardian rep)"
  unfolding save_guardian_def
  by (intro intact_order.fresh_then intact_order.table_then intact_order.read_loop_then ensure_owner_state intact_order.put_ok)
    (auto simp: intact_def consistent_def guardians_table_def dest!: map_of_SomeD)

lemma fresh_last: "fresh_run r \<Longrightarrow> run_last_seq r = 0"
  by (simp add: fresh_run_def)

interpretation intact_contract: run_contract "tx intact_rel" "evolves intact_rel"
  by unfold_locales (auto intro: intact_order.discard_evolves intact_order.keeps_commit intact_runs_add [OF fresh_last] intact_runs_save intact_save_goal intact_set_current_goal
      intact_save_criterion intact_save_evaluation intact_events_append intact_add_task intact_save_plan
      intact_save_task intact_save_phase intact_puts intact_add_request intact_add_decision
      intact_save_tool intact_providers_save intact_save_artifact intact_save_finding intact_inserts
      intact_save_guardian intact_delivery_save)

end
