(* ===== verification/Orq_Services.thy ===== *)
theory Orq_Services
  imports Orq_Repair Orq_Recovery Orq_Integrity Orq_Samples
begin

text \<open>
  The core services together. A \<open>command\<close> is one call of a service method that works on the store alone,
  with its arguments; each follows the contracts of the repositories.
\<close>

datatype (plugins only: code) command =
    Create string project string string string goal_draft control_mode "approval_stage list option"
  | CreatePending string project string string string control_mode "approval_stage list option"
  | DefineInitial uuid uuid goal_draft
  | Revise uuid goal_draft string nat
  | Validate uuid string "validation_spec \<Rightarrow> err + validation_observation" string "uuid option"
  | Configure uuid control_mode "approval_stage list option"
  | Ensure uuid approval_stage nat string string
  | Decide uuid uuid decision_kind string string string
  | InstallPlan task_plan string
  | Advance uuid run_state string
  | Resume uuid string
  | StartRequirements uuid
  | StartTask uuid uuid string
  | TransitionTask uuid uuid task_status string
  | InstallRevision task_plan string bool
  | ReplacePreview task_plan nat string
  | InstallReplan task_plan string
  | RecoverTask uuid uuid string string bool
  | PreviewPlan repo_view bool uuid string
  | ReplacePlan bool task_plan nat string
  | ScheduleRepair uuid

definition ignore_result :: "'a act \<Rightarrow> unit act" where
  "ignore_result m = bnd m (\<lambda>_. ret ())"

fun run_command :: "env \<Rightarrow> command \<Rightarrow> unit act" where
  "run_command env (Create day p request branch base d mode gates) =
     ignore_result (create_run env day p request branch base d mode gates)"
| "run_command env (CreatePending day p request branch base mode gates) =
     ignore_result (create_pending env day p request branch base mode gates)"
| "run_command env (DefineInitial rid xid d) = ignore_result (define_initial env rid xid d)"
| "run_command env (Revise rid d reason expected) = ignore_result (revise_goal env rid d reason expected)"
| "run_command env (Validate rid ckey evaluate key xid) = ignore_result (validate_criterion env rid ckey evaluate key xid)"
| "run_command env (Configure rid mode gates) = ignore_result (configure_control env rid mode gates)"
| "run_command env (Ensure rid stage version digest reason) = ignore_result (ensure_approval env rid stage version digest reason)"
| "run_command env (Decide rid qid decision actor digest reason) =
     ignore_result (decide_approval env rid qid decision actor digest reason)"
| "run_command env (InstallPlan p key) = ignore_result (install_plan env p key)"
| "run_command env (Advance rid target key) = ignore_result (advance env rid target key)"
| "run_command env (Resume rid key) = ignore_result (resume env rid key)"
| "run_command env (StartRequirements rid) = ignore_result (start_requirements env rid)"
| "run_command env (StartTask rid tid key) = ignore_result (start_task env rid tid key)"
| "run_command env (TransitionTask rid xid status key) = ignore_result (transition_task env rid xid status key)"
| "run_command env (InstallRevision p key repair) = ignore_result (install_revision env p key repair)"
| "run_command env (ReplacePreview p expected key) = ignore_result (replace_preview_plan env p expected key)"
| "run_command env (InstallReplan p key) = ignore_result (install_replan env p key)"
| "run_command env (RecoverTask rid xid reason key acknowledged) =
     ignore_result (recover_task env rid xid reason key acknowledged)"
| "run_command env (PreviewPlan view approvals rid key) = ignore_result (preview_plan env view approvals rid key)"
| "run_command env (ReplacePlan approvals p expected key) = ignore_result (replace_preview env approvals p expected key)"
| "run_command env (ScheduleRepair rid) = ignore_result (schedule_repair env rid)"

definition empty_store :: uow where
  "empty_store = \<lparr>uow_disk = [], uow_work = [], uow_bus = [], uow_step = 0\<rparr>"

definition committed :: "uow \<Rightarrow> uuid \<Rightarrow> capsule option" where
  "committed s = map_of (uow_disk s)"

lemma committed_empty [simp]: "committed empty_store rid = None"
  by (simp add: committed_def empty_store_def)

section \<open>Every service follows the contracts\<close>

context repository_contract
begin

lemma ignore_evolves: "keeps T m \<Longrightarrow> keeps T (ignore_result m)"
  unfolding ignore_result_def by (intro service_laws)

lemmas base_services = create_run_evolves create_pending_evolves define_initial_evolves revise_goal_evolves
  validate_criterion_evolves configure_control_evolves ensure_approval_evolves decide_approval_evolves
  start_requirements_evolves start_task_evolves transition_task_evolves recover_task_evolves

end

sublocale run_contract \<subseteq> driver: driven T
  by unfold_locales
    (rule service.keeps_tick install_plan_evolves advance_evolves install_revision_evolves replace_preview_plan_evolves
      ensure_approval_evolves driver_units)+

context run_contract
begin

lemma command_evolves: "keeps T (run_command env c)"
  by (cases c) (simp_all add: ignore_evolves base_services install_plan_evolves advance_evolves install_revision_evolves
      replace_preview_plan_evolves install_replan_evolves resume_by_advance driver.driver_services)

end

end
