(* ===== verification/Orq_Bytes.thy ===== *)
theory Orq_Bytes
  imports Orq_Program "HOL-Library.Word"
begin

text \<open>
  Bytes and text, as the filesystem layer uses them: UTF-8 (\<^verbatim>\<open>str.encode\<close>, \<^verbatim>\<open>bytes.decode\<close>),
  \<^verbatim>\<open>bytes.splitlines\<close> and \<^verbatim>\<open>base64\<close>. A Python \<^verbatim>\<open>str\<close> is here the list of its code points, a \<^verbatim>\<open>bytes\<close>
  object a list of 8-bit words.
\<close>

type_synonym byte = "8 word"
type_synonym bytes = "byte list"
type_synonym ustring = "nat list"

text \<open>The code points of an ASCII literal.\<close>

definition ascii :: "string \<Rightarrow> ustring" where
  "ascii s = map of_char s"

definition byte_of :: "nat \<Rightarrow> byte" where
  "byte_of n = of_nat n"

lemma unat_byte_of [simp]: "n < 256 \<Longrightarrow> unat (byte_of n) = n"
  by (simp add: byte_of_def unat_of_nat)

lemma byte_of_unat [simp]: "byte_of (unat b) = b"
  by (simp add: byte_of_def)

lemma byte_bound [simp]: "unat (b :: byte) < 256"
  using unsigned_less [of b] by simp

lemma byte_of_eq: "m < 256 \<Longrightarrow> n < 256 \<Longrightarrow> byte_of m = byte_of n \<longleftrightarrow> m = n"
  by (metis unat_byte_of)

section \<open>UTF-8\<close>

definition scalar :: "nat \<Rightarrow> bool" where
  "scalar c \<longleftrightarrow> c < 0xD800 \<or> 0xE000 \<le> c \<and> c \<le> 0x10FFFF"

definition utf8_char :: "nat \<Rightarrow> bytes" where
  "utf8_char c = map byte_of
    (if c < 0x80 then [c]
     else if c < 0x800 then [0xC0 + c div 64, 0x80 + c mod 64]
     else if c < 0x10000 then [0xE0 + c div 4096, 0x80 + c div 64 mod 64, 0x80 + c mod 64]
     else [0xF0 + c div 262144, 0x80 + c div 4096 mod 64, 0x80 + c div 64 mod 64, 0x80 + c mod 64])"

text \<open>\<^verbatim>\<open>text.encode("utf-8")\<close>: surrogates cannot be encoded.\<close>

definition utf8_encode :: "ustring \<Rightarrow> bytes option" where
  "utf8_encode cs = (if list_all scalar cs then Some (concat (map utf8_char cs)) else None)"

text \<open>\<^verbatim>\<open>content.decode("utf-8")\<close>: truncated, overlong and surrogate sequences are errors.\<close>

definition continuation :: "byte \<Rightarrow> bool" where
  "continuation b \<longleftrightarrow> 0x80 \<le> unat b \<and> unat b < 0xC0"

definition checked :: "nat \<Rightarrow> nat \<Rightarrow> ustring option \<Rightarrow> ustring option" where
  "checked least c rest = (if least \<le> c \<and> scalar c then map_option (Cons c) rest else None)"

fun utf8_decode :: "bytes \<Rightarrow> ustring option" where
  "utf8_decode [] = Some []"
| "utf8_decode (b # bs) =
    (if unat b < 0x80 then map_option (Cons (unat b)) (utf8_decode bs)
     else if unat b < 0xC0 then None
     else if unat b < 0xE0 then
       (case bs of b1 # r \<Rightarrow> if continuation b1
            then checked 0x80 ((unat b - 0xC0) * 64 + (unat b1 - 0x80)) (utf8_decode r) else None
        | [] \<Rightarrow> None)
     else if unat b < 0xF0 then
       (case bs of b1 # b2 # r \<Rightarrow> if continuation b1 \<and> continuation b2
            then checked 0x800 ((unat b - 0xE0) * 4096 + (unat b1 - 0x80) * 64 + (unat b2 - 0x80)) (utf8_decode r) else None
        | _ \<Rightarrow> None)
     else
       (case bs of b1 # b2 # b3 # r \<Rightarrow> if continuation b1 \<and> continuation b2 \<and> continuation b3
            then checked 0x10000 ((unat b - 0xF0) * 262144 + (unat b1 - 0x80) * 4096 + (unat b2 - 0x80) * 64 + (unat b3 - 0x80))
                   (utf8_decode r) else None
        | _ \<Rightarrow> None))"

lemma continuation_byte: "n < 64 \<Longrightarrow> continuation (byte_of (0x80 + n))"
  by (simp add: continuation_def)

lemma digits64:
  fixes c :: nat
  shows "c div 4096 * 4096 + c div 64 mod 64 * 64 + c mod 64 = c"
    and "c div 262144 * 262144 + c div 4096 mod 64 * 4096 + c div 64 mod 64 * 64 + c mod 64 = c"
proof -
  have d: "c div 4096 = c div 64 div 64" "c div 262144 = c div 64 div 64 div 64"
    by (simp_all flip: div_mult2_eq)
  have "c = c div 64 * 64 + c mod 64" "c div 64 = c div 64 div 64 * 64 + c div 64 mod 64"
    "c div 64 div 64 = c div 64 div 64 div 64 * 64 + c div 64 div 64 mod 64" by simp_all
  then show "c div 4096 * 4096 + c div 64 mod 64 * 64 + c mod 64 = c"
    and "c div 262144 * 262144 + c div 4096 mod 64 * 4096 + c div 64 mod 64 * 64 + c mod 64 = c"
    unfolding d by linarith+
qed

lemma low64: "(n :: nat) mod 64 < 64" "0x80 + n mod 64 < 256"
proof -
  show "n mod 64 < 64" by simp
  then show "0x80 + n mod 64 < 256" by linarith
qed

lemma utf8_cases:
  fixes c :: nat
  assumes "c \<le> 0x10FFFF"
  obtains (one) "c < 0x80"
    | (two) "0x80 \<le> c" "c < 0x800" "c div 64 < 32" "2 \<le> c div 64"
    | (three) "0x800 \<le> c" "c < 0x10000" "c div 4096 < 16"
    | (four) "0x10000 \<le> c" "c div 262144 < 8"
proof -
  have "c div 64 < 32" if "c < 0x800" using that by (simp add: less_mult_imp_div_less)
  moreover have "2 \<le> c div 64" if "0x80 \<le> c" using that by (simp add: less_eq_div_iff_mult_less_eq)
  moreover have "c div 4096 < 16" if "c < 0x10000" using that by (simp add: less_mult_imp_div_less)
  moreover have "c div 262144 < 8" using assms by (simp add: less_mult_imp_div_less)
  ultimately show thesis using that by (meson not_le)
qed

lemma utf8_decode_char:
  assumes "scalar c"
  shows "utf8_decode (utf8_char c @ bs) = map_option (Cons c) (utf8_decode bs)"
proof -
  have cont: "continuation (byte_of (0x80 + n mod 64))" for n by (rule continuation_byte) (rule low64)
  have tail: "unat (byte_of (0x80 + n mod 64)) = 0x80 + n mod 64" for n by (rule unat_byte_of) (rule low64)
  have "c \<le> 0x10FFFF" using assms by (auto simp: scalar_def)
  then show ?thesis
  proof (cases rule: utf8_cases)
    case one
    then show ?thesis by (simp add: utf8_char_def)
  next
    case two
    moreover have "unat (byte_of (0xC0 + c div 64)) = 0xC0 + c div 64" using two by (intro unat_byte_of) linarith
    ultimately show ?thesis using assms
      by (simp add: utf8_char_def checked_def cont tail)
  next
    case three
    moreover have "unat (byte_of (0xE0 + c div 4096)) = 0xE0 + c div 4096" using three by (intro unat_byte_of) linarith
    ultimately show ?thesis using assms
      by (simp add: utf8_char_def checked_def cont tail digits64)
  next
    case four
    moreover have "unat (byte_of (0xF0 + c div 262144)) = 0xF0 + c div 262144" using four by (intro unat_byte_of) linarith
    ultimately show ?thesis using assms
      by (simp add: utf8_char_def checked_def cont tail digits64)
  qed
qed

lemma utf8_round_trip: "utf8_encode cs = Some bs \<Longrightarrow> utf8_decode bs = Some cs"
proof (induction cs arbitrary: bs)
  case Nil
  then show ?case by (simp add: utf8_encode_def)
next
  case (Cons c cs)
  then have "scalar c" and "list_all scalar cs" and bs: "bs = utf8_char c @ concat (map utf8_char cs)"
    by (auto simp: utf8_encode_def split: if_splits)
  with Cons.IH have "utf8_decode (concat (map utf8_char cs)) = Some cs" by (simp add: utf8_encode_def)
  with \<open>scalar c\<close> bs show ?case by (simp add: utf8_decode_char)
qed

lemma utf8_encode_append: "utf8_encode (cs @ ds) =
    (case (utf8_encode cs, utf8_encode ds) of (Some x, Some y) \<Rightarrow> Some (x @ y) | _ \<Rightarrow> None)"
  by (simp add: utf8_encode_def)

lemma utf8_encode_total: "list_all scalar cs \<Longrightarrow> utf8_encode cs = Some (concat (map utf8_char cs))"
  by (simp add: utf8_encode_def)

lemma utf8_char_ascii: "c < 0x80 \<Longrightarrow> utf8_char c = [byte_of c]"
  by (simp add: utf8_char_def)

text \<open>Bytes below 0x80 only encode the code points that they are.\<close>

lemma utf8_char_high:
  assumes c: "0x80 \<le> c" "c \<le> 0x10FFFF" and b: "b \<in> set (utf8_char c)"
  shows "0x80 \<le> unat b"
  using c(2)
proof (cases rule: utf8_cases)
  case one
  with c show ?thesis by simp
next
  case two
  with b low64 [of c] show ?thesis by (auto simp: utf8_char_def)
next
  case three
  with b low64 [of c] low64 [of "c div 64"] show ?thesis by (auto simp: utf8_char_def)
next
  case four
  with b low64 [of c] low64 [of "c div 64"] low64 [of "c div 4096"] show ?thesis by (auto simp: utf8_char_def)
qed

lemma utf8_encode_plain:
  assumes "utf8_encode cs = Some bs" and "\<forall>c \<in> set cs. c \<noteq> n" and "n < 0x80"
  shows "byte_of n \<notin> set bs"
proof
  assume "byte_of n \<in> set bs"
  with assms(1) obtain c where c: "c \<in> set cs" "scalar c" "byte_of n \<in> set (utf8_char c)"
    by (auto simp: utf8_encode_def list_all_iff split: if_splits)
  have "c < 0x80" using utf8_char_high [OF _ _ c(3)] c(2) assms(3) by (cases "0x80 \<le> c") (auto simp: scalar_def)
  with c(3) assms(3) have "c = n" by (simp add: utf8_char_ascii byte_of_eq)
  with assms(2) c(1) show False by blast
qed

section \<open>Lines\<close>

text \<open>\<^verbatim>\<open>content.splitlines(keepends=True)\<close> of bytes: lines end with LF, CR or CR LF.\<close>

abbreviation LF :: byte where "LF \<equiv> 10"
abbreviation CR :: byte where "CR \<equiv> 13"

fun split_lines :: "bytes \<Rightarrow> bytes list" where
  "split_lines [] = []"
| "split_lines (b # bs) =
    (if b = LF then [LF] # split_lines bs
     else if b = CR then (case bs of c # r \<Rightarrow> if c = LF then [CR, LF] # split_lines r else [CR] # split_lines bs
                          | [] \<Rightarrow> [[CR]])
     else (case split_lines bs of [] \<Rightarrow> [[b]] | l # ls \<Rightarrow> (b # l) # ls))"

text \<open>A line without its ending; \<^verbatim>\<open>splitlines()\<close>.\<close>

definition line_body :: "bytes \<Rightarrow> bytes" where
  "line_body l = takeWhile (\<lambda>b. b \<noteq> LF \<and> b \<noteq> CR) l"

lemma split_lines_line:
  "LF \<notin> set l \<Longrightarrow> CR \<notin> set l \<Longrightarrow> split_lines (l @ LF # bs) = (l @ [LF]) # split_lines bs"
  by (induction l) auto

lemma split_lines_lines:
  assumes "\<forall>l \<in> set ls. LF \<notin> set l \<and> CR \<notin> set l"
  shows "split_lines (concat (map (\<lambda>l. l @ [LF]) ls) @ bs) = map (\<lambda>l. l @ [LF]) ls @ split_lines bs"
  using assms by (induction ls) (auto simp: split_lines_line)

lemma line_body_line: "LF \<notin> set l \<Longrightarrow> CR \<notin> set l \<Longrightarrow> line_body (l @ [LF]) = l"
  by (induction l) (auto simp: line_body_def)

lemma newlines: "byte_of 10 = LF" "byte_of 13 = CR"
  by (simp_all add: byte_of_def)

section \<open>Base64\<close>

definition b64_char :: "nat \<Rightarrow> nat" where
  "b64_char n = (if n < 26 then 65 + n else if n < 52 then 71 + n else if n < 62 then n - 4
     else if n = 62 then 43 else 47)"

definition b64_value :: "nat \<Rightarrow> nat option" where
  "b64_value c = (if 65 \<le> c \<and> c \<le> 90 then Some (c - 65) else if 97 \<le> c \<and> c \<le> 122 then Some (c - 71)
     else if 48 \<le> c \<and> c \<le> 57 then Some (c + 4) else if c = 43 then Some 62 else if c = 47 then Some 63 else None)"

lemma b64_value_char [simp]:
  assumes "n < 64"
  shows "b64_value (b64_char n) = Some n"
proof -
  have "list_all (\<lambda>n. b64_value (b64_char n) = Some n) [0..<64]" by code_simp
  with assms show ?thesis by (simp add: list_all_iff)
qed

text \<open>\<^verbatim>\<open>base64.b64encode(content).decode("ascii")\<close>: 61 is the padding character.\<close>

fun b64_encode :: "bytes \<Rightarrow> ustring" where
  "b64_encode [] = []"
| "b64_encode [a] = [b64_char (unat a div 4), b64_char (unat a mod 4 * 16), 61, 61]"
| "b64_encode [a, b] = [b64_char (unat a div 4), b64_char (unat a mod 4 * 16 + unat b div 16),
     b64_char (unat b mod 16 * 4), 61]"
| "b64_encode (a # b # c # r) = b64_char (unat a div 4) # b64_char (unat a mod 4 * 16 + unat b div 16)
     # b64_char (unat b mod 16 * 4 + unat c div 64) # b64_char (unat c mod 64) # b64_encode r"

text \<open>
  \<^verbatim>\<open>base64.b64decode(encoded, validate=True)\<close>: only the alphabet, in groups of four, the last of which
  may be padded.
\<close>

fun b64_decode :: "ustring \<Rightarrow> bytes option" where
  "b64_decode [] = Some []"
| "b64_decode (w # x # y # z # r) =
    (case (b64_value w, b64_value x) of
       (Some w', Some x') \<Rightarrow>
         (case (b64_value y, b64_value z) of
            (Some y', Some z') \<Rightarrow> map_option (\<lambda>bs. byte_of (w' * 4 + x' div 16) # byte_of (x' mod 16 * 16 + y' div 4)
                # byte_of (y' mod 4 * 64 + z') # bs) (b64_decode r)
          | (Some y', None) \<Rightarrow> if z = 61 \<and> r = []
              then Some [byte_of (w' * 4 + x' div 16), byte_of (x' mod 16 * 16 + y' div 4)] else None
          | _ \<Rightarrow> if y = 61 \<and> z = 61 \<and> r = [] then Some [byte_of (w' * 4 + x' div 16)] else None)
     | _ \<Rightarrow> None)"
| "b64_decode _ = None"

lemma unpack:
  fixes a b :: nat
  shows "b < 16 \<Longrightarrow> a div 4 * 4 + (a mod 4 * 16 + b) div 16 = a"
    and "a < 256 \<Longrightarrow> b < 4 \<Longrightarrow> (m * 16 + a div 16) mod 16 * 16 + (a mod 16 * 4 + b) div 4 = a"
    and "(m * 4 + a div 64) mod 4 * 64 + a mod 64 = a mod 256"
proof -
  show "a div 4 * 4 + (a mod 4 * 16 + b) div 16 = a" if "b < 16" using that by simp
  have "a div 16 < 16" if "a < 256" using that by (simp add: less_mult_imp_div_less)
  then show "(m * 16 + a div 16) mod 16 * 16 + (a mod 16 * 4 + b) div 4 = a" if "a < 256" "b < 4"
    using that by simp
  have "a mod (64 * 4) = 64 * (a div 64 mod 4) + a mod 64" by (rule mod_mult2_eq)
  then show "(m * 4 + a div 64) mod 4 * 64 + a mod 64 = a mod 256" by simp
qed

lemma byte_parts: "unat (b :: byte) div 4 < 64" "unat b div 16 < 16" "unat b div 64 < 4"
  using byte_bound [of b] by (simp_all add: less_mult_imp_div_less)

lemma sextets:
  "n < 16 \<Longrightarrow> (k :: nat) mod 4 * 16 + n < 64" "n < 4 \<Longrightarrow> k mod 16 * 4 + n < 64" "k mod 64 < 64"
proof -
  have "k mod 4 < 4" "k mod 16 < 16" by simp_all
  then show "n < 16 \<Longrightarrow> (k :: nat) mod 4 * 16 + n < 64" "n < 4 \<Longrightarrow> k mod 16 * 4 + n < 64" "k mod 64 < 64"
    by linarith+
qed

lemma b64_round_trip: "b64_decode (b64_encode bs) = Some bs"
proof (induction bs rule: b64_encode.induct)
  case (2 a)
  have "b64_value 61 = None" by (simp add: b64_value_def)
  then show ?case
    using sextets(1) [of 0 "unat a"] unpack(1) [of 0 "unat a"] by (simp add: byte_parts)
next
  case (3 a b)
  have "b64_value 61 = None" by (simp add: b64_value_def)
  then show ?case
    using sextets(2) [of 0 "unat b"] unpack(2) [of "unat b" 0 "unat a mod 4"]
    by (simp add: byte_parts sextets unpack(1))
next
  case (4 a b c r)
  then show ?case
    by (simp add: byte_parts sextets unpack)
qed simp

end
