(* ===== verification/Orq_Paths.thy ===== *)
theory Orq_Paths
  imports Orq_Bytes
begin

text \<open>
  Repository-relative paths: \<^verbatim>\<open>validate_relative_path\<close> of \<^verbatim>\<open>git/service.py\<close>, the gate every path that
  comes from a plan, a provider or a stored document goes through before it is joined to a root, and
  \<open>resolve\<close>, what a POSIX system makes of a relative path below a directory without links.
\<close>

section \<open>Validation\<close>

definition lower :: "nat \<Rightarrow> nat" where
  "lower c = (if 65 \<le> c \<and> c \<le> 90 then c + 32 else c)"

text \<open>
  Whether \<^verbatim>\<open>part.casefold()\<close> is an ASCII word without \<^verbatim>\<open>f\<close>, \<^verbatim>\<open>k\<close> and \<^verbatim>\<open>s\<close>: only ASCII letters fold to
  the letters of such a word.
\<close>

definition folds_to :: "ustring \<Rightarrow> string \<Rightarrow> bool" where
  "folds_to part word \<longleftrightarrow> map lower part = ascii word"

text \<open>
  The reserved device names: \<^verbatim>\<open>(?i)(con|prn|aux|nul|com[1-9]|lpt[1-9])(?:\..*)?\<close>, matched against the
  whole part.
\<close>

definition device_names :: "string list" where
  "device_names = [''con'', ''prn'', ''aux'', ''nul''] @ map (\<lambda>d. ''com'' @ [d]) ''123456789'' @ map (\<lambda>d. ''lpt'' @ [d]) ''123456789''"

definition device_name :: "ustring \<Rightarrow> bool" where
  "device_name part \<longleftrightarrow> list_ex (folds_to (takeWhile (\<lambda>c. c \<noteq> 46) part)) device_names
     \<and> 10 \<notin> set (dropWhile (\<lambda>c. c \<noteq> 46) part)"

definition unsafe_part :: "ustring \<Rightarrow> bool" where
  "unsafe_part part \<longleftrightarrow> list_ex (folds_to part) ['''', ''.'', ''..'', ''.git'']
     \<or> last part = 46 \<or> last part = 32 \<or> device_name part"

definition validate_relative_path :: "ustring \<Rightarrow> err + unit" where
  "validate_relative_path path =
    (if path = [] \<or> hd path = 47 \<or> 92 \<in> set path then Inl PolicyDenied
     else if list_ex unsafe_part (split_on 47 path) \<or> 58 \<in> set path \<or> list_ex (\<lambda>c. c < 32) path
     then Inl PolicyDenied else Inr ())"

section \<open>Resolution\<close>

text \<open>\<^verbatim>\<open>PurePosixPath(path).parts\<close>: empty and \<^verbatim>\<open>.\<close> parts disappear.\<close>

definition path_parts :: "ustring \<Rightarrow> ustring list" where
  "path_parts path = filter (\<lambda>p. p \<noteq> [] \<and> p \<noteq> [46]) (split_on 47 path)"

text \<open>Walking from a directory, given by its parts: \<^verbatim>\<open>..\<close> leads to the parent.\<close>

fun resolve :: "ustring list \<Rightarrow> ustring list \<Rightarrow> ustring list" where
  "resolve dir [] = dir"
| "resolve dir (p # ps) = resolve (if p = [46, 46] then butlast dir else dir @ [p]) ps"

lemma resolve_plain: "\<forall>p \<in> set ps. p \<noteq> [46, 46] \<Longrightarrow> resolve dir ps = dir @ ps"
  by (induction ps arbitrary: dir) auto

lemma split_on_nonempty [simp]: "split_on d cs \<noteq> []"
  by (induction cs) (auto split: list.split)

lemma join_split: "join_str [d] (split_on d cs) = cs"
proof (induction cs)
  case (Cons c cs)
  obtain w ws where "split_on d cs = w # ws" by (cases "split_on d cs") auto
  with Cons show ?case by (cases ws) auto
qed simp

lemma split_parts: "p \<in> set (split_on d cs) \<Longrightarrow> d \<notin> set p"
  by (induction cs arbitrary: p) (auto split: list.splits if_splits)

lemma lower_dot [simp]: "lower c = 46 \<longleftrightarrow> c = 46"
  by (auto simp: lower_def)

lemma folds_to_dots [simp]: "folds_to part '''' \<longleftrightarrow> part = []"
  "folds_to part ''.'' \<longleftrightarrow> part = [46]" "folds_to part ''..'' \<longleftrightarrow> part = [46, 46]"
  by (auto simp: folds_to_def ascii_def map_eq_Cons_conv)

lemma valid_parts:
  assumes "validate_relative_path path = Inr ()"
  shows "path_parts path = split_on 47 path" and "path_parts path \<noteq> []"
    and "\<forall>p \<in> set (path_parts path). p \<noteq> [46, 46] \<and> \<not> unsafe_part p"
proof -
  have safe: "\<forall>p \<in> set (split_on 47 path). \<not> unsafe_part p"
    using assms by (auto simp: validate_relative_path_def list_ex_iff split: if_splits)
  then have parts: "\<forall>p \<in> set (split_on 47 path). p \<noteq> [] \<and> p \<noteq> [46] \<and> p \<noteq> [46, 46]"
    by (auto simp: unsafe_part_def)
  then show eq: "path_parts path = split_on 47 path" by (simp add: path_parts_def)
  then show "path_parts path \<noteq> []" by simp
  from eq parts safe show "\<forall>p \<in> set (path_parts path). p \<noteq> [46, 46] \<and> \<not> unsafe_part p" by simp
qed

text \<open>
  C22: a validated path names something strictly inside the directory it is joined to. From any
  directory it resolves to a proper descendant of it, found by appending the path's parts in order; no
  part is a \<^verbatim>\<open>.git\<close> directory in any case; and joining the parts gives the path back, so it has no
  second spelling.
\<close>
theorem validated_path_stays_inside:
  assumes "validate_relative_path path = Inr ()"
  shows "resolve dir (split_on 47 path) = dir @ path_parts path \<and> path_parts path \<noteq> []
    \<and> (\<forall>p \<in> set (path_parts path). \<not> folds_to p ''.git'') \<and> join_str [47] (path_parts path) = path"
  using valid_parts [OF assms] resolve_plain [of "split_on 47 path" dir] join_split [of 47 path]
  by (auto simp: unsafe_part_def)

theorem validated_path_stays_inside_witness:
  "validate_relative_path (ascii ''src/Main.py'') = Inr ()
    \<and> resolve [ascii ''repo''] (split_on 47 (ascii ''src/Main.py'')) = [ascii ''repo'', ascii ''src'', ascii ''Main.py'']"
proof -
  have valid: "validate_relative_path (ascii ''src/Main.py'') = Inr ()" by code_simp
  moreover have "path_parts (ascii ''src/Main.py'') = [ascii ''src'', ascii ''Main.py'']" by code_simp
  ultimately show ?thesis using validated_path_stays_inside [OF valid, of "[ascii ''repo'']"] by simp
qed

end
