(* ===== verification/Orq_Machine.thy ===== *)
theory Orq_Machine
  imports Orq_Paths Orq_Glob Orq_Capsule
begin

text \<open>
  The machine the program works on beside its store: files, and the Git executable. The files are a map
  from absolute paths to nodes; above a workspace there are no links. Git is a parameter: a command run
  in a directory gives a reply and leaves some files and some repository behind, whatever these are, so
  that what is proved holds for every Git and for changes other processes make while it runs. The
  commands issued and their replies are kept in a trace, which no code reads. Text of a command's output
  is over the characters of the model; the content of a file is bytes, or code points once decoded.

  On it: \<^verbatim>\<open>LocalGitService\<close> (\<^verbatim>\<open>git/service.py\<close>), whose operations are fixed argument lists, and
  the checks of a run's workspace (\<^verbatim>\<open>execution/workspaces.py\<close>, \<^verbatim>\<open>execution/review.py\<close>).
\<close>

section \<open>Files\<close>

text \<open>A regular file has its content, its number of hard links and whether it is executable.\<close>

datatype node = File bytes nat bool | Folder | Symlink

type_synonym files = "string \<Rightarrow> node option"

fun is_file :: "node option \<Rightarrow> bool" where
  "is_file (Some (File b k x)) = True"
| "is_file _ = False"

fun content_of :: "node option \<Rightarrow> bytes" where
  "content_of (Some (File b k x)) = b"
| "content_of _ = []"

fun link_count :: "node option \<Rightarrow> nat" where
  "link_count (Some (File b k x)) = k"
| "link_count _ = 0"

fun executable :: "node option \<Rightarrow> bool" where
  "executable (Some (File b k x)) = x"
| "executable _ = False"

definition below :: "string \<Rightarrow> string \<Rightarrow> string" where
  "below dir name = dir @ CHR ''/'' # name"

definition parent_path :: "string \<Rightarrow> string" where
  "parent_path p = (case rev (tl (dropWhile (\<lambda>c. c \<noteq> CHR ''/'') (rev p))) of [] \<Rightarrow> ''/'' | d \<Rightarrow> d)"

text \<open>\<^verbatim>\<open>text.encode()\<close> of the characters of the model.\<close>

definition encode :: "string \<Rightarrow> bytes" where
  "encode s = concat (map utf8_char (ascii s))"

section \<open>Git\<close>

record git_identity =
  gi_name :: "string option"
  gi_email :: "string option"
  gi_date :: time

datatype git_command =
    RevParseTop | RevParseCommonDir | RevParseCommit string | RevParseHeadTree | MergeBase string string
  | StatusV2 | DiffNames string string | LsTreeNames string | LsTreeLong string string | LsTreeEntry string string
  | RevList string string | CheckRefFormat string | WorktreeAdd string string string | WorktreeRemove string
  | ConfigGet string | DiffCached string | ForceRemove string | HashObject string | AddEntry string string string
  | WriteTree | CommitTree string string string git_identity | UpdateRef string string string
  | RemoteUrl string | PushRef string string string

datatype blob_command = Show string string | DiffText string string

datatype git_reply = Failed | Undecodable | Output string

record 'g machine =
  m_files :: files
  m_git :: 'g
  m_trace :: "(string \<times> git_command \<times> git_reply) list"

text \<open>
  \<open>h_git\<close> and \<open>h_blob\<close> run Git (text and file contents), \<open>h_sha\<close> is \<^verbatim>\<open>sha256\<close> on bytes and \<open>h_hex\<close> the
  text of a digest, \<open>h_safe\<close> is \<^verbatim>\<open>safe_diagnostic\<close> on decoded text.
\<close>

record 'g host =
  h_git :: "string \<Rightarrow> git_command \<Rightarrow> files \<Rightarrow> 'g \<Rightarrow> git_reply \<times> files \<times> 'g"
  h_blob :: "string \<Rightarrow> blob_command \<Rightarrow> files \<Rightarrow> 'g \<Rightarrow> bytes option"
  h_sha :: "bytes \<Rightarrow> bytes"
  h_hex :: "bytes \<Rightarrow> string"
  h_safe :: "ustring \<Rightarrow> ustring"

type_synonym ('g, 'a) io = "('g machine, 'a) prog"

definition sha_hex :: "'g host \<Rightarrow> bytes \<Rightarrow> string" where
  "sha_hex h b = h_hex h (h_sha h b)"

text \<open>\<^verbatim>\<open>_execute(path, args).decode()\<close>: any failure of the command is a \<^verbatim>\<open>GitError\<close>.\<close>

definition git :: "'g host \<Rightarrow> string \<Rightarrow> git_command \<Rightarrow> ('g, string) io" where
  "git h dir c = (\<lambda>m. case h_git h dir c (m_files m) (m_git m) of (reply, files, g) \<Rightarrow>
     (case reply of Failed \<Rightarrow> Inl GitErr | Undecodable \<Rightarrow> Inl ValueErr | Output s \<Rightarrow> Inr s,
      m\<lparr>m_files := files, m_git := g, m_trace := m_trace m @ [(dir, c, reply)]\<rparr>))"

definition git_blob :: "'g host \<Rightarrow> string \<Rightarrow> blob_command \<Rightarrow> ('g, bytes) io" where
  "git_blob h dir c = (\<lambda>m. (case h_blob h dir c (m_files m) (m_git m) of None \<Rightarrow> Inl GitErr | Some b \<Rightarrow> Inr b, m))"

definition git_word :: "'g host \<Rightarrow> string \<Rightarrow> git_command \<Rightarrow> ('g, string) io" where
  "git_word h dir c = bnd (git h dir c) (\<lambda>s. ret (py_strip s))"

definition lookup :: "string \<Rightarrow> ('g, node option) io" where
  "lookup p = reads (\<lambda>m. m_files m p)"

text \<open>\<^verbatim>\<open>path.resolve(strict=True)\<close>: the path, when it exists.\<close>

definition resolved :: "string \<Rightarrow> ('g, string) io" where
  "resolved p = bnd (lookup p) (\<lambda>n. bnd (deny (n = None) OsErr) (\<lambda>_. ret p))"

definition git_root :: "'g host \<Rightarrow> string \<Rightarrow> ('g, string) io" where
  "git_root h p = bnd (resolved p) (\<lambda>q. bnd (lookup q) (\<lambda>n.
     bnd (git_word h (if is_file n then parent_path q else q) RevParseTop) resolved))"

definition resolve_commit :: "'g host \<Rightarrow> string \<Rightarrow> string \<Rightarrow> ('g, string) io" where
  "resolve_commit h dir revision =
     bnd (deny (revision = [] \<or> hd revision = CHR ''-'' \<or> char_of (0::nat) \<in> set revision) PolicyDenied) (\<lambda>_.
     git_word h dir (RevParseCommit revision))"

definition has_commit :: "'g host \<Rightarrow> string \<Rightarrow> string \<Rightarrow> ('g, bool) io" where
  "has_commit h dir revision =
     catch (bnd (resolve_commit h dir revision) (\<lambda>_. ret True)) (\<lambda>e. e = GitErr) (\<lambda>_. ret False)"

definition is_ancestor :: "'g host \<Rightarrow> string \<Rightarrow> string \<Rightarrow> string \<Rightarrow> ('g, bool) io" where
  "is_ancestor h dir old new =
     catch (bnd (resolve_commit h dir old) (\<lambda>a. bnd (resolve_commit h dir new) (\<lambda>b.
       bnd (git_word h dir (MergeBase a b)) (\<lambda>base. ret (base = a))))) (\<lambda>e. e = GitErr) (\<lambda>_. ret False)"

section \<open>The status document\<close>

record git_status =
  st_root :: string
  st_branch :: "string option"
  st_head :: string
  st_changed :: "string list"

text \<open>\<^verbatim>\<open>record.split(" ", n)[n]\<close>.\<close>

fun after_spaces :: "nat \<Rightarrow> string \<Rightarrow> string option" where
  "after_spaces 0 s = Some s"
| "after_spaces (Suc n) s = (case dropWhile (\<lambda>c. c \<noteq> CHR '' '') s of [] \<Rightarrow> None | _ # rest \<Rightarrow> after_spaces n rest)"

text \<open>The loop over the records: what is known of the head and the branch, and the paths found.\<close>

fun status_records :: "string list \<Rightarrow> string option \<Rightarrow> string option \<Rightarrow> string list
    \<Rightarrow> (string option \<times> string option \<times> string list) option" where
  "status_records [] head branch paths = Some (head, branch, paths)"
| "status_records (r # rs) head branch paths =
    (if r = [] then None
     else if starts_with ''# branch.oid '' r then
       (if head \<noteq> None then None else status_records rs (Some (drop 13 r)) branch paths)
     else if starts_with ''# branch.head '' r then
       (if branch \<noteq> None then None else status_records rs head (Some (drop 14 r)) paths)
     else if starts_with ''# '' r then status_records rs head branch paths
     else if starts_with ''1 '' r then
       (case after_spaces 8 r of None \<Rightarrow> None | Some p \<Rightarrow> status_records rs head branch (p # paths))
     else if starts_with ''2 '' r then
       (case after_spaces 9 r of None \<Rightarrow> None
        | Some p \<Rightarrow> (case rs of [] \<Rightarrow> None
          | original # left \<Rightarrow> if original = [] then None else status_records left head branch (original # p # paths)))
     else if starts_with ''u '' r then
       (case after_spaces 10 r of None \<Rightarrow> None | Some p \<Rightarrow> status_records rs head branch (p # paths))
     else if starts_with ''? '' r then status_records rs head branch (drop 2 r # paths)
     else None)"

definition object_name :: "string \<Rightarrow> bool" where
  "object_name s \<longleftrightarrow> (length s = 40 \<or> length s = 64) \<and> list_all is_hex s"

definition parse_status :: "string \<Rightarrow> string \<Rightarrow> git_status option" where
  "parse_status home raw =
    (if raw = [] \<or> last raw \<noteq> char_of (0::nat) then None
     else case status_records (butlast (split_on (char_of (0::nat)) raw)) None None [] of
       Some (Some head, Some branch, paths) \<Rightarrow>
         if object_name head \<and> branch \<noteq> [] \<and> [] \<notin> set paths
         then Some \<lparr>st_root = home, st_branch = (if branch = ''(detached)'' then None else Some branch),
                    st_head = head, st_changed = sort (remdups paths)\<rparr>
         else None
     | _ \<Rightarrow> None)"

definition worktree_status :: "'g host \<Rightarrow> string \<Rightarrow> ('g, git_status) io" where
  "worktree_status h dir = bnd (git_root h dir) (\<lambda>home. bnd (git h home StatusV2) (\<lambda>raw. the_or GitErr (parse_status home raw)))"

section \<open>Reading commits\<close>

definition nul_fields :: "string \<Rightarrow> string list" where
  "nul_fields s = filter (\<lambda>x. x \<noteq> []) (split_on (char_of (0::nat)) s)"

definition changed_files :: "'g host \<Rightarrow> string \<Rightarrow> string \<Rightarrow> string \<Rightarrow> ('g, string list) io" where
  "changed_files h dir base head = bnd (resolve_commit h dir base) (\<lambda>b. bnd (resolve_commit h dir head) (\<lambda>c.
     bnd (git h dir (DiffNames b c)) (\<lambda>raw. ret (nul_fields raw))))"

definition tracked_files :: "'g host \<Rightarrow> string \<Rightarrow> string \<Rightarrow> ('g, string list) io" where
  "tracked_files h dir revision = bnd (resolve_commit h dir revision) (\<lambda>c.
     bnd (git h dir (LsTreeNames c)) (\<lambda>raw. ret (nul_fields raw)))"

definition checked_path :: "string \<Rightarrow> ('g, unit) io" where
  "checked_path path = (case validate_relative_path (ascii path) of Inl e \<Rightarrow> raise_err e | Inr u \<Rightarrow> ret ())"

definition read_file :: "'g host \<Rightarrow> string \<Rightarrow> string \<Rightarrow> string \<Rightarrow> ('g, bytes) io" where
  "read_file h dir revision path = bnd (checked_path path) (\<lambda>_. bnd (resolve_commit h dir revision) (\<lambda>c.
     git_blob h dir (Show c path)))"

definition common_directory :: "'g host \<Rightarrow> string \<Rightarrow> ('g, string) io" where
  "common_directory h dir = git_word h dir RevParseCommonDir"

text \<open>\<^verbatim>\<open>bytes.split()\<close> and \<^verbatim>\<open>str.splitlines()\<close>.\<close>

definition ascii_space :: "char \<Rightarrow> bool" where
  "ascii_space c \<longleftrightarrow> c = CHR '' '' \<or> (9 \<le> (of_char c :: nat) \<and> (of_char c :: nat) \<le> 13)"

fun words_from :: "string \<Rightarrow> string \<Rightarrow> string list" where
  "words_from [] w = (if w = [] then [] else [w])"
| "words_from (c # cs) w = (if ascii_space c then (if w = [] then words_from cs [] else w # words_from cs [])
     else words_from cs (w @ [c]))"

definition byte_words :: "string \<Rightarrow> string list" where
  "byte_words s = words_from s []"

definition line_break :: "nat \<Rightarrow> bool" where
  "line_break c \<longleftrightarrow> (10 \<le> c \<and> c \<le> 13) \<or> (28 \<le> c \<and> c \<le> 30) \<or> c = 133 \<or> c = 8232 \<or> c = 8233"

fun lines_from :: "ustring \<Rightarrow> ustring \<Rightarrow> ustring list" where
  "lines_from [] l = (if l = [] then [] else [l])"
| "lines_from [c] l = (if line_break c then [l] else [l @ [c]])"
| "lines_from (c # d # cs) l = (if c = 13 \<and> d = 10 then l # lines_from cs []
     else if line_break c then l # lines_from (d # cs) [] else lines_from (d # cs) (l @ [c]))"

definition py_lines :: "ustring \<Rightarrow> ustring list" where
  "py_lines s = lines_from s []"

definition text_lines :: "string \<Rightarrow> string list" where
  "text_lines s = map (map char_of) (py_lines (ascii s))"

definition log_range :: "'g host \<Rightarrow> string \<Rightarrow> string \<Rightarrow> string \<Rightarrow> ('g, string list) io" where
  "log_range h dir base head = bnd (resolve_commit h dir base) (\<lambda>b. bnd (resolve_commit h dir head) (\<lambda>c.
     bnd (git h dir (RevList b c)) (\<lambda>raw. ret (text_lines raw))))"

text \<open>The decimal numbers Git prints.\<close>

definition decimal_text :: "string \<Rightarrow> nat option" where
  "decimal_text s = (if s \<noteq> [] \<and> list_all is_digit s then Some (digits_value s) else None)"

definition nth_word :: "nat \<Rightarrow> string list \<Rightarrow> ('g, string) io" where
  "nth_word n ws = (if n < length ws then ret (ws ! n) else raise_err IndexErr)"

definition read_file_if_present :: "'g host \<Rightarrow> string \<Rightarrow> string \<Rightarrow> string \<Rightarrow> nat \<Rightarrow> ('g, bytes option) io" where
  "read_file_if_present h dir revision path limit = bnd (checked_path path) (\<lambda>_. bnd (resolve_commit h dir revision) (\<lambda>c.
     bnd (git h dir (LsTreeLong c path)) (\<lambda>metadata.
     if metadata = [] then ret None
     else (let ws = byte_words (hd (split_on (char_of (9::nat)) metadata)) in
       bnd (nth_word 0 ws) (\<lambda>mode.
       if mode \<noteq> ''100644'' \<and> mode \<noteq> ''100755'' then ret None
       else bnd (nth_word 1 ws) (\<lambda>kind.
         if kind \<noteq> ''blob'' then ret None
         else bnd (nth_word 3 ws) (\<lambda>size. bnd (the_or ValueErr (decimal_text size)) (\<lambda>n.
           if limit < n then ret None
           else bnd (read_file h dir c path) (\<lambda>b. ret (Some b))))))))))"

definition diff_text :: "'g host \<Rightarrow> string \<Rightarrow> string \<Rightarrow> string \<Rightarrow> ('g, bytes) io" where
  "diff_text h dir base path = bnd (checked_path path) (\<lambda>_. bnd (resolve_commit h dir base) (\<lambda>c.
     git_blob h dir (DiffText c path)))"

section \<open>Branches and worktrees\<close>

definition branch_char :: "char \<Rightarrow> bool" where
  "branch_char c \<longleftrightarrow> is_alnum c \<or> c \<in> set ''_./-''"

definition branch_ok :: "string list \<Rightarrow> string \<Rightarrow> bool" where
  "branch_ok protected branch \<longleftrightarrow> branch \<notin> set protected \<and> branch \<noteq> [] \<and> hd branch \<noteq> CHR ''-'' \<and> list_all branch_char branch"

definition validate_branch :: "'g host \<Rightarrow> string \<Rightarrow> string \<Rightarrow> string list \<Rightarrow> ('g, unit) io" where
  "validate_branch h dir branch protected = bnd (deny (\<not> branch_ok protected branch) PolicyDenied) (\<lambda>_.
     bnd (git h dir (CheckRefFormat branch)) (\<lambda>_. ret ()))"

definition create_worktree :: "'g host \<Rightarrow> string \<Rightarrow> string \<Rightarrow> string \<Rightarrow> string \<Rightarrow> string list \<Rightarrow> ('g, unit) io" where
  "create_worktree h repo target branch base protected = bnd (validate_branch h repo branch protected) (\<lambda>_.
     bnd (resolve_commit h repo base) (\<lambda>c.
     bnd (git h repo (WorktreeAdd branch target c)) (\<lambda>_. ret ())))"

definition remove_worktree :: "'g host \<Rightarrow> string \<Rightarrow> string \<Rightarrow> ('g, unit) io" where
  "remove_worktree h repo target = bnd (worktree_status h target) (\<lambda>st.
     bnd (deny (st_changed st \<noteq> []) PolicyDenied) (\<lambda>_.
     bnd (git h repo (WorktreeRemove target)) (\<lambda>_. ret ())))"

end
