(* ===== verification/Orq_Workspace.thy ===== *)
theory Orq_Workspace
  imports Orq_Machine
begin

text \<open>
  A run's workspace: \<^verbatim>\<open>ScopedFilesystem\<close> (\<^verbatim>\<open>execution/filesystem.py\<close>), through which every tool and
  service reaches its files, \<^verbatim>\<open>verify_workspace\<close> (\<^verbatim>\<open>execution/workspaces.py\<close>), \<^verbatim>\<open>workspace_digest\<close>
  (\<^verbatim>\<open>execution/review.py\<close>) and the evaluators of acceptance criteria (\<^verbatim>\<open>evaluation/validators.py\<close>,
  \<^verbatim>\<open>execution/evaluator.py\<close>) around the runner of commands, which is a parameter.
\<close>

section \<open>Scoped files\<close>

definition protected_names :: "string list" where
  "protected_names = [''.git'', ''.env'', ''.ssh'', ''.aws'', ''.codex'', ''.agents'']"

definition protected_part :: "string \<Rightarrow> bool" where
  "protected_part part \<longleftrightarrow> casefold part \<in> set protected_names \<or> starts_with ''.env.'' (casefold part)"

definition path_pieces :: "string \<Rightarrow> string list" where
  "path_pieces path = split_on (CHR ''/'') path"

text \<open>The directories on the way and the target itself.\<close>

definition stations :: "string \<Rightarrow> string list \<Rightarrow> string list" where
  "stations home pieces = map (\<lambda>n. home @ concat (map (Cons (CHR ''/'')) (take n pieces))) [1..<Suc (length pieces)]"

definition in_write_scope :: "execution_policy \<Rightarrow> string \<Rightarrow> bool" where
  "in_write_scope policy path \<longleftrightarrow> list_ex (fnmatchcase path) (xp_write_paths policy)"

definition contained :: "string \<Rightarrow> string list \<Rightarrow> bool" where
  "contained home pieces \<longleftrightarrow>
     prefix (path_parts (ascii home)) (resolve (path_parts (ascii home)) (map ascii pieces))"

definition scoped_target :: "files \<Rightarrow> string \<Rightarrow> execution_policy \<Rightarrow> string \<Rightarrow> bool \<Rightarrow> err + string" where
  "scoped_target fs home policy path write = (let pieces = path_pieces path in
     case validate_relative_path (ascii path) of Inl e \<Rightarrow> Inl e
     | Inr _ \<Rightarrow>
       if list_ex protected_part pieces then Inl PolicyDenied
       else if list_ex (\<lambda>p. fs p = Some Symlink) (stations home pieces) then Inl PolicyDenied
       else if \<not> contained home pieces then Inl PolicyDenied
       else if is_file (fs (below home path)) \<and> 1 < link_count (fs (below home path)) then Inl PolicyDenied
       else if write \<and> \<not> in_write_scope policy path then Inl PolicyDenied
       else Inr (below home path))"

record scope =
  sf_root :: string
  sf_policy :: execution_policy

text \<open>\<^verbatim>\<open>ScopedFilesystem(home, policy)\<close> needs the home to exist.\<close>

definition scoped :: "string \<Rightarrow> execution_policy \<Rightarrow> ('g, scope) io" where
  "scoped home policy = bnd (resolved home) (\<lambda>r. ret \<lparr>sf_root = r, sf_policy = policy\<rparr>)"

definition scoped_path :: "scope \<Rightarrow> string \<Rightarrow> bool \<Rightarrow> ('g, string) io" where
  "scoped_path sf path write = bnd (reads (\<lambda>m. scoped_target (m_files m) (sf_root sf) (sf_policy sf) path write))
     (\<lambda>r. case r of Inl e \<Rightarrow> raise_err e | Inr p \<Rightarrow> ret p)"

definition scoped_read :: "'g host \<Rightarrow> scope \<Rightarrow> string \<Rightarrow> ('g, ustring) io" where
  "scoped_read h sf path = bnd (scoped_path sf path False) (\<lambda>p. bnd (lookup p) (\<lambda>n.
     bnd (deny (\<not> is_file n \<or> xp_file_bytes (sf_policy sf) < length (content_of n)) PolicyDenied) (\<lambda>_.
     bnd (the_or PolicyDenied (utf8_decode (content_of n))) (\<lambda>text. ret (h_safe h text)))))"

text \<open>
  \<^verbatim>\<open>target.parent.mkdir(parents=True, exist_ok=True)\<close>: a directory is made at every missing station
  but the last; a file in the way is an error of the system, which makes nothing.
\<close>

definition make_parents :: "scope \<Rightarrow> string \<Rightarrow> ('g, unit) io" where
  "make_parents sf path = bnd (reads (\<lambda>m. butlast (stations (sf_root sf) (path_pieces path)))) (\<lambda>dirs.
     bnd (reads (\<lambda>m. list_ex (\<lambda>d. is_file (m_files m d)) dirs)) (\<lambda>blocked.
     bnd (deny blocked OsErr) (\<lambda>_.
     modify (\<lambda>m. m\<lparr>m_files := \<lambda>p. if p \<in> set dirs \<and> m_files m p = None then Some Folder else m_files m p\<rparr>))))"

text \<open>
  \<^verbatim>\<open>write\<close>: a temporary file replaces the target, or disappears; it is not visible between the steps of
  the model. Replacing a directory fails. The new file is not executable.
\<close>

definition scoped_write :: "'g host \<Rightarrow> scope \<Rightarrow> string \<Rightarrow> ustring \<Rightarrow> ('g, string) io" where
  "scoped_write h sf path text = bnd (the_or ValueErr (utf8_encode text)) (\<lambda>raw.
     bnd (deny (xp_file_bytes (sf_policy sf) < length raw \<or> h_safe h text \<noteq> text) PolicyDenied) (\<lambda>_.
     bnd (scoped_path sf path True) (\<lambda>_.
     bnd (make_parents sf path) (\<lambda>_.
     bnd (scoped_path sf path True) (\<lambda>_.
     bnd (scoped_path sf path True) (\<lambda>p.
     bnd (lookup p) (\<lambda>n.
     bnd (deny (n = Some Folder) OsErr) (\<lambda>_.
     bnd (modify (\<lambda>m. m\<lparr>m_files := (m_files m)(p \<mapsto> File raw 1 False)\<rparr>)) (\<lambda>_.
     ret (sha_hex h raw))))))))))"

section \<open>Identity and digest of a workspace\<close>

definition verify_workspace :: "'g host \<Rightarrow> run_workspace \<Rightarrow> ('g, unit) io" where
  "verify_workspace h w = bnd (worktree_status h (ws_path w)) (\<lambda>st.
     bnd (deny (st_root st \<noteq> ws_path w \<or> st_branch st \<noteq> Some (ws_branch w)) PolicyDenied) (\<lambda>_.
     deny (st_head st \<noteq> ws_base w) PolicyDenied))"

definition review_limit :: nat where
  "review_limit = 10000000"

definition digest_entry :: "'g host \<Rightarrow> scope \<Rightarrow> string \<Rightarrow> ('g, bytes) io" where
  "digest_entry h sf path = bnd (scoped_path sf path False) (\<lambda>p. bnd (lookup p) (\<lambda>n.
     case n of None \<Rightarrow> ret (encode path @ 0 # encode ''deleted'')
     | Some _ \<Rightarrow> bnd (deny (\<not> is_file n \<or> review_limit < length (content_of n)) PolicyDenied) (\<lambda>_.
         ret (encode path @ 0 # h_sha h (content_of n)))))"

definition workspace_digest :: "'g host \<Rightarrow> run_workspace \<Rightarrow> ('g, string) io" where
  "workspace_digest h w = bnd (verify_workspace h w) (\<lambda>_.
     bnd (scoped (ws_path w) (ws_policy w)) (\<lambda>sf.
     bnd (worktree_status h (ws_path w)) (\<lambda>st.
     bnd (collect (st_changed st) (digest_entry h sf)) (\<lambda>entries.
     ret (sha_hex h (encode (ws_base w) @ concat entries))))))"

section \<open>Evaluating criteria\<close>

text \<open>
  The runner of an approved command in a directory, under a policy: an observation or an error. The
  duration of the other validations is left at zero.
\<close>

type_synonym 'g runner = "string \<Rightarrow> execution_policy \<Rightarrow> approved_command \<Rightarrow> string \<Rightarrow> nat \<Rightarrow> ('g, validation_observation) io"

definition seen :: "string \<Rightarrow> bool \<Rightarrow> string option \<Rightarrow> string option \<Rightarrow> string option \<Rightarrow> validation_observation" where
  "seen kind passed source digest error = \<lparr>obs_validator = kind, obs_passed = passed, obs_exit = None, obs_output = [],
     obs_source = source, obs_hash = digest, obs_error = error, obs_duration_ms = 0\<rparr>"

definition validation_limit :: nat where
  "validation_limit = 1000000"

text \<open>\<^verbatim>\<open>ExecutionPolicy(write_paths=("*",), max_file_bytes=1_000_000)\<close>: nothing but its defaults.\<close>

definition open_policy :: "approved_command list \<Rightarrow> command_mode \<Rightarrow> nat \<Rightarrow> execution_policy" where
  "open_policy commands mode limit = \<lparr>xp_write_paths = [''*''], xp_commands = commands, xp_mode = mode, xp_image = None,
     xp_parallel = 4, xp_tool_calls = 40, xp_turns = 12, xp_file_bytes = limit\<rparr>"

definition evaluate_file :: "'g host \<Rightarrow> string \<Rightarrow> string \<Rightarrow> bool \<Rightarrow> string option \<Rightarrow> ('g, validation_observation) io" where
  "evaluate_file h home path must_exist contains =
     bnd (scoped home (open_policy [] MODE_DOCKER validation_limit)) (\<lambda>sf.
     bnd (scoped_path sf path False) (\<lambda>p. bnd (lookup p) (\<lambda>n. ret (
       if is_file n \<noteq> must_exist then seen ''file'' False (Some path) None None
       else case contains of None \<Rightarrow> seen ''file'' True (Some path) None None
       | Some c \<Rightarrow>
         if \<not> is_file n then seen ''file'' False (Some path) None (Some ''file_unreadable'')
         else if validation_limit < length (content_of n) then seen ''file'' False (Some path) None (Some ''file_too_large'')
         else (case utf8_decode (content_of n) of
             None \<Rightarrow> seen ''file'' False (Some path) (Some (sha_hex h (content_of n))) (Some ''file_unreadable'')
           | Some text \<Rightarrow> seen ''file'' (contains_sub (ascii c) text) (Some path) (Some (sha_hex h (content_of n))) None)))))"

text \<open>
  \<^verbatim>\<open>raw.decode("utf-8", errors="replace")\<close>: the ranges of the bytes that may follow a leading byte, and one
  replacement character for the longest start of a sequence that is cut short.
\<close>

definition tail_ranges :: "nat \<Rightarrow> (nat \<times> nat) list option" where
  "tail_ranges b = (if b < 0x80 then Some []
     else if 0xC2 \<le> b \<and> b \<le> 0xDF then Some [(0x80, 0xBF)]
     else if b = 0xE0 then Some [(0xA0, 0xBF), (0x80, 0xBF)]
     else if b = 0xED then Some [(0x80, 0x9F), (0x80, 0xBF)]
     else if 0xE1 \<le> b \<and> b \<le> 0xEF then Some [(0x80, 0xBF), (0x80, 0xBF)]
     else if b = 0xF0 then Some [(0x90, 0xBF), (0x80, 0xBF), (0x80, 0xBF)]
     else if b = 0xF4 then Some [(0x80, 0x8F), (0x80, 0xBF), (0x80, 0xBF)]
     else if 0xF1 \<le> b \<and> b \<le> 0xF3 then Some [(0x80, 0xBF), (0x80, 0xBF), (0x80, 0xBF)]
     else None)"

fun following :: "(nat \<times> nat) list \<Rightarrow> bytes \<Rightarrow> nat list" where
  "following ((lo, hi) # rs) (b # bs) = (if lo \<le> unat b \<and> unat b \<le> hi then unat b # following rs bs else [])"
| "following _ _ = []"

definition code_point :: "nat \<Rightarrow> nat list \<Rightarrow> nat" where
  "code_point b cs = foldl (\<lambda>v c. 64 * v + (c - 0x80))
     (if cs = [] then b else if length cs = 1 then b - 0xC0 else if length cs = 2 then b - 0xE0 else b - 0xF0) cs"

function utf8_replace :: "bytes \<Rightarrow> ustring" where
  "utf8_replace [] = []"
| "utf8_replace (b # bs) = (case tail_ranges (unat b) of None \<Rightarrow> 0xFFFD # utf8_replace bs
     | Some rs \<Rightarrow> (let cs = following rs bs in
         (if length cs = length rs then code_point (unat b) cs else 0xFFFD) # utf8_replace (drop (length cs) bs)))"
  by pat_completeness auto

termination utf8_replace
  by (relation "measure length") auto

definition evaluate_local :: "'g host \<Rightarrow> 'g runner \<Rightarrow> string \<Rightarrow> string list list \<Rightarrow> validation_spec \<Rightarrow> ('g, validation_observation) io" where
  "evaluate_local h run_it home allowed spec = (case spec of
     CommandValidation k argv code timeout \<Rightarrow>
       bnd (deny (argv \<notin> set allowed) PolicyDenied) (\<lambda>_.
       let c = \<lparr>cmd_id = ''criterion-check'', cmd_argv = argv, cmd_timeout = timeout\<rparr> in
       run_it home (open_policy [c] MODE_TRUSTED_LOCAL 200000) c (spec_kind spec) code)
   | FileValidation path must_exist contains \<Rightarrow> evaluate_file h home path must_exist contains
   | DiffValidation base path contains \<Rightarrow> bnd (diff_text h home base path) (\<lambda>raw.
       ret (seen ''diff'' (contains_sub (ascii contains) (utf8_replace raw)) (Some path) (Some (sha_hex h raw)) None))
   | ReviewValidation k instructions \<Rightarrow> ret (seen (spec_kind spec) False None None (Some ''review_evidence_required'')))"

text \<open>\<^verbatim>\<open>LocalEvaluator(workspace).evaluate\<close> and \<^verbatim>\<open>WorkspaceEvaluator(workspace, policy).evaluate\<close>.\<close>

definition local_evaluator :: "'g host \<Rightarrow> 'g runner \<Rightarrow> string \<Rightarrow> string list list \<Rightarrow> validation_spec \<Rightarrow> ('g, validation_observation) io" where
  "local_evaluator h run_it workspace allowed spec = bnd (resolved workspace) (\<lambda>home. evaluate_local h run_it home allowed spec)"

definition workspace_evaluator :: "'g host \<Rightarrow> 'g runner \<Rightarrow> string \<Rightarrow> execution_policy \<Rightarrow> validation_spec \<Rightarrow> ('g, validation_observation) io" where
  "workspace_evaluator h run_it workspace policy spec = bnd (resolved workspace) (\<lambda>home. case spec of
     CommandValidation k argv code timeout \<Rightarrow>
       (case find (\<lambda>c. cmd_argv c = argv) (xp_commands policy) of
          None \<Rightarrow> raise_err PolicyDenied
        | Some c \<Rightarrow> if timeout < cmd_timeout c then raise_err PolicyDenied
            else run_it workspace policy c (spec_kind spec) code)
   | _ \<Rightarrow> evaluate_local h run_it home [] spec)"

section \<open>What a scoped write does\<close>

lemma scoped_path_run [prog_simps]:
  "scoped_path sf path write m = (scoped_target (m_files m) (sf_root sf) (sf_policy sf) path write, m)"
  by (simp add: scoped_path_def prog_simps split: sum.split)

lemma scoped_target_ok: "scoped_target fs home policy path write = Inr p \<longleftrightarrow> p = below home path
    \<and> validate_relative_path (ascii path) = Inr () \<and> (\<forall>x \<in> set (path_pieces path). \<not> protected_part x)
    \<and> (\<forall>q \<in> set (stations home (path_pieces path)). fs q \<noteq> Some Symlink) \<and> contained home (path_pieces path)
    \<and> (is_file (fs p) \<longrightarrow> link_count (fs p) \<le> 1) \<and> (write \<longrightarrow> in_write_scope policy path)"
  by (auto simp: scoped_target_def Let_def list_ex_iff split: sum.splits)

lemma scoped_target_denied: "scoped_target fs home policy path write = Inl e \<Longrightarrow> e = PolicyDenied"
  by (auto simp: scoped_target_def Let_def validate_relative_path_def split: sum.splits if_splits)

lemma join_prefixed: "ws \<noteq> [] \<Longrightarrow> concat (map (Cons c) ws) = c # join_str [c] ws"
proof (induction ws)
  case (Cons w ws)
  then show ?case by (cases ws) simp_all
qed simp

lemma target_station: "last (stations home (path_pieces path)) = below home path"
  by (simp add: stations_def path_pieces_def below_def last_map join_prefixed join_split Suc_le_eq)

lemma stations_nonempty [simp]: "stations home (path_pieces path) \<noteq> []"
  by (simp add: stations_def path_pieces_def Suc_le_eq)

lemma target_in_stations: "below home path \<in> set (stations home (path_pieces path))"
  using last_in_set [OF stations_nonempty] by (simp add: target_station)

lemma length_prefixed: "m < n \<Longrightarrow> n \<le> length ws \<Longrightarrow>
    length (concat (map (Cons c) (take m ws))) < length (concat (map (Cons c) (take n ws)))"
proof (induction ws arbitrary: m n)
  case (Cons w ws)
  then show ?case by (cases m; cases n) auto
qed simp

lemma parents_shorter: "d \<in> set (butlast (stations home (path_pieces path))) \<Longrightarrow> d \<noteq> below home path"
proof
  assume d: "d \<in> set (butlast (stations home (path_pieces path)))" and eq: "d = below home path"
  define ws where "ws = path_pieces path"
  have "ws \<noteq> []" by (simp add: ws_def path_pieces_def)
  then have "butlast (stations home ws) = map (\<lambda>n. home @ concat (map (Cons (CHR ''/'')) (take n ws))) [1..<length ws]"
    by (simp add: stations_def map_butlast [symmetric] Suc_le_eq)
  with d obtain n where n: "n < length ws" "d = home @ concat (map (Cons (CHR ''/'')) (take n ws))"
    by (auto simp: ws_def)
  have "below home path = home @ concat (map (Cons (CHR ''/'')) (take (length ws) ws))"
    by (simp add: below_def ws_def path_pieces_def join_prefixed join_split)
  with eq n(2) have "concat (map (Cons (CHR ''/'')) (take n ws)) = concat (map (Cons (CHR ''/'')) (take (length ws) ws))"
    by (simp only: same_append_eq)
  with length_prefixed [OF n(1) order.refl, of "CHR ''/''"] show False by (simp only: less_irrefl)
qed

text \<open>The files when the parents of a path have been made.\<close>

definition with_parents :: "string \<Rightarrow> string \<Rightarrow> files \<Rightarrow> files" where
  "with_parents home path fs = (\<lambda>p. if p \<in> set (butlast (stations home (path_pieces path))) \<and> fs p = None then Some Folder else fs p)"

lemma make_parents_run: "make_parents sf path m =
    (if list_ex (\<lambda>d. is_file (m_files m d)) (butlast (stations (sf_root sf) (path_pieces path))) then (Inl OsErr, m)
     else (Inr (), m\<lparr>m_files := with_parents (sf_root sf) path (m_files m)\<rparr>))"
  by (simp add: make_parents_def prog_simps with_parents_def)

lemma with_parents_target: "scoped_target (with_parents home path fs) home policy path write = scoped_target fs home policy path write"
proof -
  have "with_parents home path fs (below home path) = fs (below home path)"
    using parents_shorter by (auto simp: with_parents_def)
  moreover have "with_parents home path fs p = Some Symlink \<longleftrightarrow> fs p = Some Symlink" for p by (simp add: with_parents_def)
  ultimately show ?thesis unfolding scoped_target_def Let_def by (simp only:)
qed

lemma scoped_write_run: "scoped_write h sf path text m = (case utf8_encode text of None \<Rightarrow> (Inl ValueErr, m)
    | Some raw \<Rightarrow> if xp_file_bytes (sf_policy sf) < length raw \<or> h_safe h text \<noteq> text then (Inl PolicyDenied, m)
      else (case scoped_target (m_files m) (sf_root sf) (sf_policy sf) path True of Inl e \<Rightarrow> (Inl e, m)
        | Inr p \<Rightarrow> if list_ex (\<lambda>d. is_file (m_files m d)) (butlast (stations (sf_root sf) (path_pieces path))) then (Inl OsErr, m)
          else (let fs = with_parents (sf_root sf) path (m_files m) in
            if fs p = Some Folder then (Inl OsErr, m\<lparr>m_files := fs\<rparr>)
            else (Inr (sha_hex h raw), m\<lparr>m_files := fs(p \<mapsto> File raw 1 False)\<rparr>))))"
  by (auto simp: scoped_write_def prog_simps make_parents_run with_parents_target lookup_def Let_def
      split: option.splits sum.splits prod.splits)

lemma scoped_read_run: "scoped_read h sf path m = (case scoped_target (m_files m) (sf_root sf) (sf_policy sf) path False of
      Inl e \<Rightarrow> (Inl e, m)
    | Inr p \<Rightarrow> (let n = m_files m p in
        if \<not> is_file n \<or> xp_file_bytes (sf_policy sf) < length (content_of n) then (Inl PolicyDenied, m)
        else (case utf8_decode (content_of n) of None \<Rightarrow> (Inl PolicyDenied, m) | Some text \<Rightarrow> (Inr (h_safe h text), m))))"
  by (auto simp: scoped_read_def prog_simps lookup_def Let_def split: option.splits sum.splits)

lemma code_of_char: "(of_char c :: nat) = of_char d \<longleftrightarrow> c = d"
  by (rule of_char_eq_iff)

lemma split_ascii: "split_on 47 (ascii path) = map ascii (split_on (CHR ''/'') path)"
proof (induction path)
  case (Cons c path)
  have "(of_char c :: nat) = 47 \<longleftrightarrow> c = CHR ''/''" using code_of_char [of c "CHR ''/''"] by simp
  with Cons show ?case by (simp add: ascii_def split: list.split)
qed (simp add: ascii_def)

lemma plain_pieces: "validate_relative_path (ascii path) = Inr () \<Longrightarrow> p \<in> set (path_pieces path) \<Longrightarrow> p \<notin> {[], ''.'', ''..''}"
proof -
  assume valid: "validate_relative_path (ascii path) = Inr ()" and p: "p \<in> set (path_pieces path)"
  have split: "split_on 47 (ascii path) = map ascii (path_pieces path)"
    unfolding path_pieces_def by (rule split_ascii)
  from valid_parts [OF valid] split have "\<forall>q \<in> set (map ascii (path_pieces path)). q \<noteq> [] \<and> q \<noteq> [46] \<and> q \<noteq> [46, 46]"
    by (auto simp: path_parts_def unsafe_part_def)
  with p have "ascii p \<noteq> []" "ascii p \<noteq> [46]" "ascii p \<noteq> [46, 46]" by auto
  then show ?thesis by (auto simp: ascii_def)
qed

text \<open>
  C29: a scoped write changes one file. Whatever it returns or raises, every path holds what it held
  before, except that missing directories may have been made on the way to the target and that, when it
  returns, the target holds the text. The target lies below the workspace without going up, is in the
  write scope, is not protected and is not reached through a link; reading it back gives the text.
\<close>
theorem scoped_write_confined:
  assumes "scoped_write h sf path text m = (r, m')"
  shows "(\<forall>p. m_files m' p = m_files m p
      \<or> (m_files m p = None \<and> m_files m' p = Some Folder \<and> p \<in> set (butlast (stations (sf_root sf) (path_pieces path))))
      \<or> (p = below (sf_root sf) path \<and> (\<exists>d. r = Inr d)))
    \<and> ((\<exists>d. r = Inr d) \<longrightarrow> in_write_scope (sf_policy sf) path
      \<and> (\<forall>x \<in> set (path_pieces path). x \<notin> {[], ''.'', ''..''} \<and> \<not> protected_part x)
      \<and> (\<forall>q \<in> set (stations (sf_root sf) (path_pieces path)). m_files m q \<noteq> Some Symlink)
      \<and> scoped_read h sf path m' = (Inr text, m'))"
proof (intro conjI impI)
  let ?p = "below (sf_root sf) path" and ?fs = "with_parents (sf_root sf) path (m_files m)"
  show "\<forall>p. m_files m' p = m_files m p
      \<or> (m_files m p = None \<and> m_files m' p = Some Folder \<and> p \<in> set (butlast (stations (sf_root sf) (path_pieces path))))
      \<or> (p = ?p \<and> (\<exists>d. r = Inr d))"
    using assms by (auto simp: scoped_write_run with_parents_def scoped_target_ok Let_def
        split: option.splits sum.splits if_splits)
  assume r: "\<exists>d. r = Inr d"
  with assms obtain raw where raw: "utf8_encode text = Some raw" "length raw \<le> xp_file_bytes (sf_policy sf)" "h_safe h text = text"
    and ok: "scoped_target (m_files m) (sf_root sf) (sf_policy sf) path True = Inr ?p"
    and m': "m' = m\<lparr>m_files := ?fs(?p \<mapsto> File raw 1 False)\<rparr>"
    by (auto simp: scoped_write_run Let_def scoped_target_ok split: option.splits sum.splits if_splits)
  have "scoped_target (m_files m') (sf_root sf) (sf_policy sf) path False = Inr ?p"
    using ok by (auto simp: scoped_target_ok m' with_parents_def)
  then have "scoped_read h sf path m' = (Inr text, m')"
    using raw utf8_round_trip [OF raw(1)] by (simp add: scoped_read_run m')
  with ok plain_pieces [of path]
  have "in_write_scope (sf_policy sf) path
      \<and> (\<forall>x \<in> set (path_pieces path). x \<notin> {[], ''.'', ''..''} \<and> \<not> protected_part x)
      \<and> (\<forall>q \<in> set (stations (sf_root sf) (path_pieces path)). m_files m q \<noteq> Some Symlink)
      \<and> scoped_read h sf path m' = (Inr text, m')"
    by (auto simp: scoped_target_ok)
  then show "in_write_scope (sf_policy sf) path"
    and "\<forall>x \<in> set (path_pieces path). x \<notin> {[], ''.'', ''..''} \<and> \<not> protected_part x"
    and "\<forall>q \<in> set (stations (sf_root sf) (path_pieces path)). m_files m q \<noteq> Some Symlink"
    and "scoped_read h sf path m' = (Inr text, m')" by auto
qed

text \<open>A machine with an empty workspace, where Git fails.\<close>

definition sample_host :: "unit host" where
  "sample_host = \<lparr>h_git = \<lambda>dir c fs g. (Failed, fs, g), h_blob = \<lambda>dir c fs g. None, h_sha = \<lambda>b. b,
     h_hex = \<lambda>b. [], h_safe = \<lambda>t. t\<rparr>"

definition sample_machine :: "unit machine" where
  "sample_machine = \<lparr>m_files = [''/w'' \<mapsto> Folder], m_git = (), m_trace = []\<rparr>"

definition sample_scope :: scope where
  "sample_scope = \<lparr>sf_root = ''/w'', sf_policy = open_policy [] MODE_DOCKER 100\<rparr>"

lemma sample_write: "\<exists>d m. scoped_write sample_host sample_scope ''src/a.py'' [104, 105] sample_machine = (Inr d, m)"
proof -
  have "utf8_encode [104, 105] = Some [104, 105]" by (simp add: utf8_encode_def scalar_def utf8_char_def byte_of_def)
  moreover have "validate_relative_path (ascii ''src/a.py'') = Inr ()" by code_simp
  moreover have "path_pieces ''src/a.py'' = [''src'', ''a.py'']" by code_simp
  moreover have "protected_part ''src'' = False" "protected_part ''a.py'' = False" by code_simp+
  moreover have "contained ''/w'' [''src'', ''a.py'']" by code_simp
  moreover have "in_write_scope (open_policy [] MODE_DOCKER 100) ''src/a.py''" by code_simp
  moreover have "below ''/w'' ''src/a.py'' = ''/w/src/a.py''" by code_simp
  moreover have "stations ''/w'' [''src'', ''a.py''] = [''/w/src'', ''/w/src/a.py'']" by code_simp
  ultimately show ?thesis
    by (simp add: scoped_write_run sample_host_def sample_machine_def sample_scope_def scoped_target_def with_parents_def
        open_policy_def)
qed

theorem scoped_write_confined_witness:
  "\<exists>m. scoped_read sample_host sample_scope ''src/a.py'' m = (Inr [104, 105], m)"
proof -
  obtain d m where run: "scoped_write sample_host sample_scope ''src/a.py'' [104, 105] sample_machine = (Inr d, m)"
    using sample_write by (elim exE) (rule that)
  then show ?thesis using scoped_write_confined [OF run] by (intro exI [of _ m]) (elim conjE mp, blast)
qed

end
