(* ===== verification/Orq_World.thy ===== *)
theory Orq_World
  imports Orq_Workspace Orq_Goals Orq_Gates
begin

text \<open>
  Services that work on the store and on the machine. Their state is a pair; \<open>db\<close> and \<open>on_host\<close> run a
  program of either part, \<open>with_unit\<close> is a unit of work in whose body both are used. A contract of the
  store lifts to such services: what they do to the machine does not matter to it.
\<close>

type_synonym ('g, 'a) job = "(uow \<times> 'g machine, 'a) prog"

definition db :: "('s, 'a) prog \<Rightarrow> ('s \<times> 'w, 'a) prog" where
  "db m = (\<lambda>(u, w). case m u of (r, v) \<Rightarrow> (r, (v, w)))"

definition on_host :: "('w, 'a) prog \<Rightarrow> ('s \<times> 'w, 'a) prog" where
  "on_host m = (\<lambda>(u, w). case m w of (r, v) \<Rightarrow> (r, (u, v)))"

definition with_unit :: "('g, 'a) job \<Rightarrow> ('g, 'a) job" where
  "with_unit body = (\<lambda>(u, w). case body (discard u, w) of (r, (v, w')) \<Rightarrow> (r, (discard v, w')))"

text \<open>The value or the error of a program, as a value.\<close>

definition outcome :: "('s, 'a) prog \<Rightarrow> ('s, err + 'a) prog" where
  "outcome m = (\<lambda>s. case m s of (r, t) \<Rightarrow> (Inr r, t))"

lemma db_run [prog_simps]: "db m (u, w) = (case m u of (r, v) \<Rightarrow> (r, (v, w)))"
  by (simp add: db_def)

lemma on_host_run [prog_simps]: "on_host m (u, w) = (case m w of (r, v) \<Rightarrow> (r, (u, v)))"
  by (simp add: on_host_def)

lemma with_unit_run [prog_simps]: "with_unit body (u, w) = (case body (discard u, w) of (r, (v, w')) \<Rightarrow> (r, (discard v, w')))"
  by (simp add: with_unit_def)

lemma outcome_run [prog_simps]: "outcome m s = (case m s of (r, t) \<Rightarrow> (Inr r, t))"
  by (simp add: outcome_def)

text \<open>The current goal of a run, if any.\<close>

definition current_contract :: "run \<Rightarrow> ('g, goal_contract option) job" where
  "current_contract r = (case run_goal r of None \<Rightarrow> ret None | Some gid \<Rightarrow> db (runs_get_goal gid (run_id r)))"

section \<open>Contracts of the store\<close>

definition on_store :: "('s \<Rightarrow> 's \<Rightarrow> bool) \<Rightarrow> 's \<times> 'w \<Rightarrow> 's \<times> 'w \<Rightarrow> bool" where
  "on_store S p q \<longleftrightarrow> S (fst p) (fst q)"

context step_order
begin

lemma keeps_outcome: "keeps S m \<Longrightarrow> keeps S (outcome m)"
  by (subst keeps_def) (auto simp: prog_simps split: prod.split intro: keepsD)

lemma paired: "step_order (on_store S)"
  by unfold_locales (auto simp: on_store_def S_refl intro: S_trans)

lemma keeps_db: "keeps S m \<Longrightarrow> keeps (on_store S) (db m)"
  by (subst keeps_def) (auto simp: on_store_def prog_simps split: prod.split intro: keepsD)

lemma keeps_host: "keeps (on_store S) (on_host m)"
  by (auto simp: keeps_def on_store_def prog_simps S_refl split: prod.split)

lemmas job_laws = step_order.keeps_ret [OF paired] step_order.keeps_raise [OF paired] step_order.keeps_reads [OF paired]
  step_order.keeps_deny [OF paired] step_order.keeps_the_or [OF paired] step_order.keeps_bnd [OF paired]
  step_order.keeps_catch [OF paired] step_order.keeps_for_each [OF paired] step_order.keeps_collect [OF paired]
  step_order.keeps_if [OF paired] step_order.keeps_case_option [OF paired] step_order.keeps_case_prod [OF paired]
  step_order.keeps_case_sum [OF paired] step_order.keeps_let [OF paired] step_order.keeps_outcome [OF paired]
  keeps_host keeps_db

end

lemma on_store_mono: "(\<And>s t. S s t \<Longrightarrow> S' s t) \<Longrightarrow> keeps (on_store S) m \<Longrightarrow> keeps (on_store S') m"
  by (simp add: keeps_def on_store_def)

context repository_contract
begin

lemma job_unit: "keeps (on_store S) body \<Longrightarrow> keeps (on_store T) (with_unit body)"
  unfolding keeps_def with_unit_def on_store_def
  by (auto split: prod.split simp del: split_paired_All) (metis discard_law fst_conv snd_conv)

end

end
