(* ===== verification/Orq_Redaction.thy ===== *)
theory Orq_Redaction
  imports Orq_Bytes
begin

text \<open>
  \<^verbatim>\<open>security/redaction.py\<close>: which names of fields hold credentials.
\<close>

section \<open>Credential fields\<close>

definition ulower :: "ustring \<Rightarrow> ustring" where
  "ulower = map (\<lambda>c. if 65 \<le> c \<and> c \<le> 90 then c + 32 else c)"

text \<open>\<^verbatim>\<open>re.sub(r"([a-z0-9])([A-Z])", r"\1_\2", name)\<close>: a separator before each capital inside a name.\<close>

fun separated :: "ustring \<Rightarrow> ustring" where
  "separated (c # d # cs) = (if (97 \<le> c \<and> c \<le> 122 \<or> 48 \<le> c \<and> c \<le> 57) \<and> 65 \<le> d \<and> d \<le> 90
     then c # 95 # separated (d # cs) else c # separated (d # cs))"
| "separated cs = cs"

text \<open>The alternatives of \<^verbatim>\<open>_CREDENTIAL_FIELD\<close>; two words are joined by nothing, \<^verbatim>\<open>_\<close> or \<^verbatim>\<open>-\<close>.\<close>

definition credential_names :: "string list" where
  "credential_names = [''password'', ''passwd'', ''passphrase'', ''token'', ''secret'', ''authorization'', ''cookie'']
     @ concat (map (\<lambda>(a, b). [a @ b, a @ ''_'' @ b, a @ ''-'' @ b])
         [(''api'', ''key''), (''private'', ''key''), (''secret'', ''key''), (''access'', ''token''), (''refresh'', ''token''),
          (''auth'', ''token''), (''id'', ''token''), (''client'', ''secret'')])"

text \<open>The word ends the name, which may have one line feed more, and starts it or follows a separator.\<close>

definition ends_credential :: "ustring \<Rightarrow> bool" where
  "ends_credential name \<longleftrightarrow> list_ex (\<lambda>w. ulower name = ascii w
     \<or> list_ex (\<lambda>sep. starts_with (rev (sep # ascii w)) (rev (ulower name))) [95, 45]) credential_names"

definition is_credential_field :: "ustring \<Rightarrow> bool" where
  "is_credential_field name = (let n = separated name in
     ends_credential n \<or> (n \<noteq> [] \<and> last n = 10 \<and> ends_credential (butlast n)))"

end
