(* ===== verification/Orq_Review.thy ===== *)
theory Orq_Review
  imports Orq_World Orq_Redaction
begin

text \<open>
  The acceptance review: \<^verbatim>\<open>ReviewService.record\<close> (\<^verbatim>\<open>execution/review.py\<close>) and the disposition of the
  findings external workers reported (\<^verbatim>\<open>execution/finding_review.py\<close>). A review is recorded only as the
  result its Reviewer's provider returned, and only when every verdict is backed by evidence of the
  run or by the text of its files.
\<close>

section \<open>The JSON form of a review\<close>

definition json_ids :: "uuid list \<Rightarrow> json" where
  "json_ids us = JArr (map (\<lambda>u. JStr (uuid_str u)) us)"

definition check_json :: "source_check \<Rightarrow> json" where
  "check_json c = JObj [(''path'', JStr (sc_path c)), (''contains'', JStr (sc_contains c))]"

definition criterion_review_json :: "criterion_review \<Rightarrow> json" where
  "criterion_review_json c = JObj [(''criterion_id'', JStr (uuid_str (cr_criterion c))),
     (''status'', JStr (if cr_pass c then ''PASS'' else ''FAIL'')), (''reason'', JStr (cr_reason c)),
     (''evidence_refs'', json_ids (cr_evidence c)), (''source_checks'', JArr (map check_json (cr_checks c)))]"

definition finding_review_json :: "finding_review \<Rightarrow> json" where
  "finding_review_json f = JObj [(''finding_id'', JStr (uuid_str (fr_finding f))), (''resolved'', JBool (fr_resolved f)),
     (''reason'', JStr (fr_reason f)), (''evidence_refs'', json_ids (fr_evidence f)),
     (''source_checks'', JArr (map check_json (fr_checks f)))]"

definition review_json :: "review_result \<Rightarrow> json" where
  "review_json r = JObj [(''overall'', JStr (if rr_pass r then ''PASS'' else ''FAIL'')),
     (''criteria'', JArr (map criterion_review_json (rr_criteria r))), (''blocking_findings'', json_strs (rr_blocking r)),
     (''non_blocking_findings'', json_strs (rr_non_blocking r)),
     (''finding_reviews'', JArr (map finding_review_json (rr_findings r)))]"

section \<open>Safe values\<close>

text \<open>\<^verbatim>\<open>safe_value\<close> (\<^verbatim>\<open>providers/validation.py\<close>): no private or credential key, no unsafe text, anywhere.\<close>

definition private_keys :: "string list" where
  "private_keys = [''chain_of_thought'', ''reasoning'', ''scratchpad'', ''analysis'', ''thinking'']"

definition unsafe_key :: "env \<Rightarrow> string \<Rightarrow> bool" where
  "unsafe_key env k \<longleftrightarrow> map lower_char k \<in> set private_keys \<or> is_credential_field (ascii k) \<or> \<not> safe_text env k"

fun value_safe :: "env \<Rightarrow> json \<Rightarrow> bool" where
  "value_safe env (JObj kvs) = (\<forall>(k, v) \<in> set kvs. \<not> unsafe_key env k \<and> value_safe env v)"
| "value_safe env (JArr xs) = (\<forall>x \<in> set xs. value_safe env x)"
| "value_safe env (JStr s) = safe_text env s"
| "value_safe env _ = True"

definition safe_value :: "env \<Rightarrow> json \<Rightarrow> ('s, unit) prog" where
  "safe_value env j = deny (\<not> value_safe env j) (ProviderFailed PE_INVALID_OUTPUT)"

section \<open>Worker findings\<close>

definition open_worker_finding :: "finding \<Rightarrow> bool" where
  "open_worker_finding f \<longleftrightarrow> find_category f = ''external_worker'' \<and> find_open f"

text \<open>Evidence a finding may be resolved by: valid, passed, not before the finding, the last of its criterion.\<close>

definition resolving_evidence :: "uuid \<Rightarrow> finding \<Rightarrow> uuid \<Rightarrow> evidence \<Rightarrow> acceptance_criterion \<Rightarrow> bool" where
  "resolving_evidence rid f ref e k \<longleftrightarrow> ev_run e = rid \<and> ev_valid e \<and> obs_passed (ev_data e) \<and> find_created f \<le> ev_created e
     \<and> crit_evidence k \<noteq> [] \<and> last (crit_evidence k) = ref
     \<and> (case find_criterion f of None \<Rightarrow> True | Some c \<Rightarrow> ev_criterion e = c)"

text \<open>The file criterion whose evidence inspected the source of the finding.\<close>

definition source_spec :: "finding \<Rightarrow> evidence \<Rightarrow> acceptance_criterion \<Rightarrow> (string \<times> bool \<times> string option) option" where
  "source_spec f e k = (case crit_spec k of
       FileValidation path must_exist contains \<Rightarrow>
         if given (find_source f) \<and> Some path = find_source f \<and> obs_source (ev_data e) = find_source f
         then Some (path, must_exist, contains) else None
     | _ \<Rightarrow> None)"

text \<open>One reference of a resolved finding; whether it verified the source of the finding.\<close>

definition review_reference :: "'g host \<Rightarrow> scope \<Rightarrow> uuid \<Rightarrow> goal_contract \<Rightarrow> finding \<Rightarrow> uuid \<Rightarrow> ('g, bool) job" where
  "review_reference h sf rid goal f ref = bnd (db (runs_get_evidence ref rid)) (\<lambda>found.
     bnd (the_or PolicyDenied found) (\<lambda>e.
     bnd (the_or PolicyDenied (find (\<lambda>k. crit_id k = ev_criterion e) (gc_criteria goal))) (\<lambda>k.
     bnd (deny (\<not> resolving_evidence rid f ref e k) PolicyDenied) (\<lambda>_.
     case source_spec f e k of None \<Rightarrow> ret False
     | Some (path, must_exist, contains) \<Rightarrow>
         bnd (on_host (bnd (resolved (sf_root sf)) (\<lambda>dir. evaluate_file h dir path must_exist contains))) (\<lambda>obs.
         bnd (deny (\<not> obs_passed obs) Conflict) (\<lambda>_. ret True))))))"

definition assert_source :: "'g host \<Rightarrow> scope \<Rightarrow> source_check \<Rightarrow> ('g, unit) job" where
  "assert_source h sf c = bnd (on_host (scoped_read h sf (sc_path c))) (\<lambda>text.
     deny (\<not> contains_sub (ascii (sc_contains c)) text) Conflict)"

definition resolve_finding :: "env \<Rightarrow> 'g host \<Rightarrow> scope \<Rightarrow> run \<Rightarrow> uuid \<Rightarrow> uuid \<Rightarrow> goal_contract \<Rightarrow> finding \<Rightarrow> finding_review \<Rightarrow> ('g, unit) job" where
  "resolve_finding env h sf r actor review goal f v =
     bnd (deny (fr_evidence v = [] \<and> fr_checks v = []) PolicyDenied) (\<lambda>_.
     bnd (collect (fr_evidence v) (review_reference h sf (run_id r) goal f)) (\<lambda>verified.
     bnd (deny (given (find_source f) \<and> True \<notin> set verified
       \<and> (\<forall>c \<in> set (fr_checks v). Some (sc_path c) \<noteq> find_source f)) PolicyDenied) (\<lambda>_.
     bnd (for_each (fr_checks v) (assert_source h sf)) (\<lambda>_.
     bnd (db (save_finding (f\<lparr>find_open := False\<rparr>))) (\<lambda>_.
     bnd (db (utc_now env)) (\<lambda>now.
     bnd (db (emit env r EV_FINDING_RESOLVED (''review:'' @ uuid_str review @ '':finding:'' @ uuid_str (find_id f)) now
       (no_payload\<lparr>pl_summary := Some (fr_reason v), pl_review := Some review, pl_findings := [find_id f],
          pl_evidence := fr_evidence v, pl_status := Some ''resolved''\<rparr>) (Some actor) (find_task f) None)) (\<lambda>_.
     ret ())))))))"

text \<open>One verdict; whether it leaves a blocking finding open.\<close>

definition review_finding :: "env \<Rightarrow> 'g host \<Rightarrow> scope \<Rightarrow> run \<Rightarrow> uuid \<Rightarrow> uuid \<Rightarrow> goal_contract \<Rightarrow> finding list \<Rightarrow> finding_review \<Rightarrow> ('g, bool) job" where
  "review_finding env h sf r actor review goal findings v =
     bnd (the_or KeyErr (find (\<lambda>f. find_id f = fr_finding v) findings)) (\<lambda>f.
     bnd (deny (blank (fr_reason v)) Conflict) (\<lambda>_.
     if \<not> fr_resolved v then ret (find_severity f = SEV_BLOCKING)
     else bnd (resolve_finding env h sf r actor review goal f v) (\<lambda>_. ret False)))"

definition review_external_findings :: "env \<Rightarrow> 'g host \<Rightarrow> run \<Rightarrow> uuid \<Rightarrow> uuid \<Rightarrow> review_result \<Rightarrow> goal_contract \<Rightarrow> scope \<Rightarrow> ('g, bool) job" where
  "review_external_findings env h r actor review result goal sf =
     bnd (db (delivery_findings (run_id r))) (\<lambda>all.
     let findings = filter open_worker_finding all; reviewed = map fr_finding (rr_findings result) in
     bnd (deny (set reviewed \<noteq> set (map find_id findings) \<or> length reviewed \<noteq> length findings) Conflict) (\<lambda>_.
     bnd (collect (rr_findings result) (review_finding env h sf r actor review goal findings)) (\<lambda>left_open.
     bnd (deny (True \<in> set left_open \<and> rr_blocking result = []) Conflict) (\<lambda>_. ret (True \<in> set left_open)))))"

section \<open>Verdicts on criteria\<close>

definition valid_reference :: "uuid \<Rightarrow> acceptance_criterion \<Rightarrow> evidence option \<Rightarrow> bool" where
  "valid_reference rid k found \<longleftrightarrow> (case found of None \<Rightarrow> False
     | Some e \<Rightarrow> ev_run e = rid \<and> ev_criterion e = crit_id k \<and> ev_valid e)"

text \<open>The proof of a verdict, and the criterion with it.\<close>

definition review_proof :: "run \<Rightarrow> uuid \<Rightarrow> acceptance_criterion \<Rightarrow> time \<Rightarrow> validation_observation \<Rightarrow> evidence" where
  "review_proof r review k created obs = \<lparr>ev_id = uuid5 review (uuid_str (crit_id k)), ev_created = created, ev_run = run_id r,
     ev_criterion = crit_id k, ev_task = None, ev_execution = None, ev_kind = ''review'', ev_artifact = None,
     ev_data = obs, ev_valid = True\<rparr>"

definition reviewed_criterion :: "acceptance_criterion \<Rightarrow> acceptance_status \<Rightarrow> time \<Rightarrow> uuid \<Rightarrow> acceptance_criterion" where
  "reviewed_criterion k status now proof_id = k\<lparr>crit_status := status, crit_validated := Some now,
     crit_attempts := Suc (crit_attempts k), crit_evidence := crit_evidence k @ [proof_id]\<rparr>"

definition source_digest :: "'g host \<Rightarrow> scope \<Rightarrow> source_check \<Rightarrow> ('g, string) job" where
  "source_digest h sf c = bnd (on_host (scoped_path sf (sc_path c) False)) (\<lambda>p.
     bnd (on_host (scoped_read h sf (sc_path c))) (\<lambda>text.
     bnd (deny (\<not> contains_sub (ascii (sc_contains c)) text) Conflict) (\<lambda>_.
     bnd (on_host (lookup p)) (\<lambda>n. ret (sha_hex h (content_of n))))))"

definition passed_review :: "env \<Rightarrow> 'g host \<Rightarrow> scope \<Rightarrow> run \<Rightarrow> uuid \<Rightarrow> uuid \<Rightarrow> acceptance_criterion \<Rightarrow> criterion_review \<Rightarrow> review_kind \<Rightarrow> ('g, unit) job" where
  "passed_review env h sf r actor review k v kind =
     bnd (deny (kind = K_MANUAL \<or> cr_checks v = []) PolicyDenied) (\<lambda>_.
     bnd (collect (cr_checks v) (source_digest h sf)) (\<lambda>digests.
     let obs = \<lparr>obs_validator = ''review'', obs_passed = True, obs_exit = None, obs_output = cr_reason v,
           obs_source = Some (join_str '';'' (map sc_path (cr_checks v))),
           obs_hash = Some (sha_hex h (encode (concat digests))), obs_error = None, obs_duration_ms = 0\<rparr> in
     bnd (db (utc_now env)) (\<lambda>created.
     bnd (db (utc_now env)) (\<lambda>now.
     let e = review_proof r review k created obs; updated = reviewed_criterion k AC_PASS now (ev_id e) in
     bnd (deny (\<not> criterion_ok updated) ValueErr) (\<lambda>_.
     bnd (db (runs_save_evaluation updated e)) (\<lambda>_.
     bnd (db (utc_now env)) (\<lambda>noted.
     bnd (db (emit env r EV_EVIDENCE_RECORDED (''review:'' @ uuid_str (ev_id e)) noted
       (no_payload\<lparr>pl_criterion := Some (crit_id k), pl_evidence := [ev_id e]\<rparr>) (Some actor) None None)) (\<lambda>_.
     bnd (db (utc_now env)) (\<lambda>later.
     bnd (db (emit env r EV_CRITERION_PASSED (''review:pass:'' @ uuid_str (ev_id e)) later
       (no_payload\<lparr>pl_criterion := Some (crit_id k), pl_status := Some ''PASS'', pl_evidence := [ev_id e]\<rparr>) (Some actor) None None)) (\<lambda>_.
     ret ()))))))))))"

definition failed_review :: "env \<Rightarrow> run \<Rightarrow> uuid \<Rightarrow> uuid \<Rightarrow> acceptance_criterion \<Rightarrow> criterion_review \<Rightarrow> ('g, unit) job" where
  "failed_review env r actor review k v =
     bnd (deny (blank (cr_reason v)) Conflict) (\<lambda>_.
     let obs = \<lparr>obs_validator = ''review'', obs_passed = False, obs_exit = None, obs_output = cr_reason v,
           obs_source = None, obs_hash = None, obs_error = None, obs_duration_ms = 0\<rparr> in
     bnd (db (utc_now env)) (\<lambda>created.
     bnd (db (utc_now env)) (\<lambda>now.
     let e = review_proof r review k created obs; updated = reviewed_criterion k AC_FAIL now (ev_id e) in
     bnd (db (runs_save_evaluation updated e)) (\<lambda>_.
     bnd (db (utc_now env)) (\<lambda>noted.
     bnd (db (emit env r EV_CRITERION_FAILED (''review:fail:'' @ uuid_str (ev_id e)) noted
       (no_payload\<lparr>pl_criterion := Some (crit_id k), pl_status := Some ''FAIL'', pl_evidence := [ev_id e]\<rparr>) (Some actor) None None)) (\<lambda>_.
     ret ()))))))"

text \<open>A deterministic criterion passes on the evidence of its last validation.\<close>

definition deterministic_pass :: "acceptance_criterion \<Rightarrow> criterion_review \<Rightarrow> evidence option list \<Rightarrow> ('g, unit) job" where
  "deterministic_pass k v found =
     bnd (deny (crit_status k \<noteq> AC_PASS \<or> found = []) PolicyDenied) (\<lambda>_.
     bnd (deny (crit_evidence k = []) IndexErr) (\<lambda>_.
     deny (last (crit_evidence k) \<notin> set (cr_evidence v)
       \<or> (\<exists>e \<in> set found. case e of None \<Rightarrow> True | Some x \<Rightarrow> \<not> obs_passed (ev_data x))) PolicyDenied))"

fun reviewed_by :: "validation_spec \<Rightarrow> review_kind option" where
  "reviewed_by (ReviewValidation kind instructions) = Some kind"
| "reviewed_by _ = None"

definition review_criterion :: "env \<Rightarrow> 'g host \<Rightarrow> scope \<Rightarrow> run \<Rightarrow> uuid \<Rightarrow> uuid \<Rightarrow> goal_contract \<Rightarrow> criterion_review \<Rightarrow> ('g, unit) job" where
  "review_criterion env h sf r actor review goal v =
     bnd (the_or StopIter (find (\<lambda>k. crit_id k = cr_criterion v) (gc_criteria goal))) (\<lambda>k.
     bnd (collect (cr_evidence v) (\<lambda>ref. db (runs_get_evidence ref (run_id r)))) (\<lambda>found.
     bnd (deny (\<not> list_all (valid_reference (run_id r) k) found) PolicyDenied) (\<lambda>_.
     if \<not> cr_pass v then failed_review env r actor review k v
     else (case reviewed_by (crit_spec k) of
         Some kind \<Rightarrow> passed_review env h sf r actor review k v kind
       | None \<Rightarrow> deterministic_pass k v found))))"

section \<open>Recording a review\<close>

definition required_criterion :: "goal_contract \<Rightarrow> uuid \<Rightarrow> bool" where
  "required_criterion goal i \<longleftrightarrow> (case find (\<lambda>k. crit_id k = i) (gc_criteria goal) of None \<Rightarrow> False
     | Some k \<Rightarrow> crit_priority k = P_REQUIRED)"

definition expected_pass :: "goal_contract \<Rightarrow> review_result \<Rightarrow> bool \<Rightarrow> bool" where
  "expected_pass goal result unresolved \<longleftrightarrow> \<not> unresolved \<and> rr_blocking result = []
     \<and> (\<forall>v \<in> set (rr_criteria result). required_criterion goal (cr_criterion v) \<longrightarrow> cr_pass v)"

text \<open>The active Reviewer, and the provider result the review must be.\<close>

definition reviewer_checks :: "run \<Rightarrow> uuid \<Rightarrow> review_result \<Rightarrow> ('g, unit) job" where
  "reviewer_checks r actor result = bnd (db (run_actors (run_id r))) (\<lambda>acs.
     bnd (the_or PolicyDenied (find (\<lambda>a. actor_id a = actor) acs)) (\<lambda>a.
     bnd (deny (run_state r \<noteq> RS_REVIEWING \<or> actor_role a \<noteq> Some ROLE_REVIEWER) PolicyDenied) (\<lambda>_.
     bnd (deny (actor_status a \<noteq> ACT_WORKING \<or> actor_task a = None) PolicyDenied) (\<lambda>_.
     bnd (db (providers_list (run_id r))) (\<lambda>ps.
     deny (\<not> (\<exists>p \<in> set ps. prov_actor p = actor \<and> (case prov_result p of None \<Rightarrow> False
         | Some res \<Rightarrow> (case pr_output res of None \<Rightarrow> False | Some out \<Rightarrow> json_equal out (review_json result))))) PolicyDenied)))))"

definition new_review :: "env \<Rightarrow> 'g host \<Rightarrow> run \<Rightarrow> uuid \<Rightarrow> uuid \<Rightarrow> review_result \<Rightarrow> ('g, review_record) job" where
  "new_review env h r actor review result =
     bnd (reviewer_checks r actor result) (\<lambda>_.
     bnd (current_contract r) (\<lambda>goal. bnd (db (execution_workspace (run_id r))) (\<lambda>ws.
     bnd (the_or NotFound goal) (\<lambda>gc. bnd (the_or NotFound ws) (\<lambda>w.
     bnd (deny (set (map cr_criterion (rr_criteria result)) \<noteq> set (map crit_id (gc_criteria gc))
       \<or> length (rr_criteria result) \<noteq> length (gc_criteria gc)) Conflict) (\<lambda>_.
     bnd (on_host (scoped (ws_path w) (ws_policy w))) (\<lambda>sf.
     bnd (review_external_findings env h r actor review result gc sf) (\<lambda>unresolved.
     bnd (deny (rr_pass result \<noteq> expected_pass gc result unresolved) Conflict) (\<lambda>_.
     bnd (for_each (rr_criteria result) (review_criterion env h sf r actor review gc)) (\<lambda>_.
     bnd (on_host (workspace_digest h w)) (\<lambda>tree.
     bnd (db (utc_now env)) (\<lambda>created.
     let rv = \<lparr>rev_id = review, rev_created = created, rev_run = run_id r, rev_goal = goal_id (gc_goal gc),
           rev_plan_version = run_plan_version r, rev_actor = actor, rev_tree = tree, rev_result = result\<rparr> in
     bnd (db (save_review rv)) (\<lambda>_.
     bnd (db (utc_now env)) (\<lambda>now.
     bnd (db (emit env r EV_REVIEW_COMPLETED (''review:'' @ uuid_str review @ '':completed'') now
       (no_payload\<lparr>pl_review := Some review, pl_status := Some (if rr_pass result then ''PASS'' else ''FAIL'')\<rparr>)
       (Some actor) None None)) (\<lambda>_.
     bnd (db (commit env)) (\<lambda>_. ret rv))))))))))))))))"

definition record_review :: "env \<Rightarrow> 'g host \<Rightarrow> uuid \<Rightarrow> uuid \<Rightarrow> review_result \<Rightarrow> string \<Rightarrow> ('g, review_record) job" where
  "record_review env h rid actor result key = bnd (safe_value env (review_json result)) (\<lambda>_.
     let review = uuid5 rid (''review:'' @ key) in
     with_unit (bnd (db (locked_run rid)) (\<lambda>r.
       bnd (db (execution_reviews rid)) (\<lambda>reviews. case find (\<lambda>x. rev_id x = review) reviews of
         Some previous \<Rightarrow> bnd (deny (rev_result previous \<noteq> result \<or> rev_actor previous \<noteq> actor) Conflict) (\<lambda>_. ret previous)
       | None \<Rightarrow> new_review env h r actor review result))))"

section \<open>The contract of the store\<close>

context repository_contract
begin

lemma job_safe_value: "keeps (on_store T) (safe_value env j)"
  unfolding safe_value_def by (intro service.job_laws)

lemma job_review_finding: "keeps (on_store S) (review_finding env h sf r actor review goal findings v)"
  unfolding review_finding_def resolve_finding_def review_reference_def assert_source_def Let_def
  by (intro job_laws act_laws keeps_emit)

lemma job_review_criterion: "keeps (on_store S) (review_criterion env h sf r actor review goal v)"
  unfolding review_criterion_def passed_review_def failed_review_def deterministic_pass_def source_digest_def Let_def
  by (intro job_laws act_laws keeps_emit)

lemma record_review_evolves: "keeps (on_store T) (record_review env h rid actor result key)"
  unfolding record_review_def new_review_def reviewer_checks_def current_contract_def review_external_findings_def Let_def
  by (intro service.job_laws job_unit job_safe_value job_laws act_laws runtime_laws job_review_finding job_review_criterion)

end

end
