(* ===== verification/Orq_TestIntegrity.thy ===== *)
theory Orq_TestIntegrity
  imports Orq_Glob
begin

text \<open>
  \<^verbatim>\<open>delivery/test_integrity.py\<close>: signals that an edit weakens a test file. The source is compared by its
  syntax tree; \<^verbatim>\<open>ast.parse\<close> is a parameter, which has no value where it raises. A node is its class name
  with its fields in order; source positions are not part of it, as they are not part of \<^verbatim>\<open>ast.dump\<close>, so
  that a node stands for its own dump.
\<close>

section \<open>Syntax trees\<close>

datatype py_node = PyNode (node_class: string) (node_fields: "(string \<times> py_field) list")
  and py_field = FNode py_node | FNodes "py_node list" | FText string | FNone

definition field_of :: "string \<Rightarrow> py_node \<Rightarrow> py_field" where
  "field_of name n = (case map_of (node_fields n) name of None \<Rightarrow> FNone | Some f \<Rightarrow> f)"

definition text_of :: "string \<Rightarrow> py_node \<Rightarrow> string" where
  "text_of name n = (case field_of name n of FText s \<Rightarrow> s | _ \<Rightarrow> [])"

fun field_nodes :: "py_field \<Rightarrow> py_node list" where
  "field_nodes (FNode n) = [n]"
| "field_nodes (FNodes ns) = ns"
| "field_nodes _ = []"

text \<open>\<^verbatim>\<open>ast.iter_child_nodes\<close> and \<^verbatim>\<open>ast.walk\<close>, which takes nodes from the front of its queue.\<close>

definition child_nodes :: "py_node \<Rightarrow> py_node list" where
  "child_nodes n = concat (map (field_nodes \<circ> snd) (node_fields n))"

lemma size_field_nodes: "m \<in> set (field_nodes f) \<Longrightarrow> size m < size f"
  by (cases f) (auto dest: size_list_estimation' [OF _ order.refl, of _ _ size])

lemma size_child: "m \<in> set (child_nodes n) \<Longrightarrow> size m < size n"
proof -
  assume "m \<in> set (child_nodes n)"
  then obtain x where x: "x \<in> set (node_fields n)" "m \<in> set (field_nodes (snd x))" by (auto simp: child_nodes_def)
  have "size m < size (snd x)" using x(2) by (rule size_field_nodes)
  also have "\<dots> \<le> size_prod (\<lambda>_. 0) size x" by (cases x) simp
  also have "\<dots> \<le> size_list (size_prod (\<lambda>_. 0) size) (node_fields n)" using x(1) by (rule size_list_estimation') simp
  also have "\<dots> < size n" by (cases n) simp
  finally show ?thesis .
qed

lemma sizes_field_nodes: "sum_list (map size (field_nodes f)) \<le> size f"
  by (cases f) (simp_all add: size_list_conv_sum_list)

lemma sizes_children: "sum_list (map size (child_nodes n)) < size n"
proof -
  have "sum_list (map size (concat (map (field_nodes \<circ> snd) fs))) \<le> size_list (size_prod (\<lambda>_. 0) size) fs" for fs
  proof (induction fs)
    case (Cons x fs)
    with sizes_field_nodes [of "snd x"] show ?case by (cases x) simp
  qed simp
  from this [of "node_fields n"] show ?thesis by (cases n) (simp add: child_nodes_def le_imp_less_Suc)
qed

function walk_queue :: "py_node list \<Rightarrow> py_node list" where
  "walk_queue [] = []"
| "walk_queue (n # ns) = n # walk_queue (ns @ child_nodes n)"
  by pat_completeness auto

termination walk_queue
proof (relation "measure (\<lambda>ns. sum_list (map size ns))")
  fix n ns
  show "(ns @ child_nodes n, n # ns) \<in> measure (\<lambda>ns. sum_list (map size ns))"
    using sizes_children [of n] by simp
qed simp

definition walk :: "py_node \<Rightarrow> py_node list" where
  "walk n = walk_queue [n]"

section \<open>Disabling constructs\<close>

definition skip_names :: "string list" where
  "skip_names = [''skip'', ''skipif'', ''xfail'', ''skiptest'', ''expectedfailure'']"

text \<open>The attribute or name a node is, or the empty text.\<close>

definition reference_name :: "py_node \<Rightarrow> string" where
  "reference_name n = (if node_class n = ''Attribute'' then text_of ''attr'' n
     else if node_class n = ''Name'' then text_of ''id'' n else [])"

definition names_skip :: "py_node \<Rightarrow> bool" where
  "names_skip n \<longleftrightarrow> casefold (reference_name n) \<in> set skip_names"

text \<open>The keys of the counter: a dump, or the dump of an assignment.\<close>

datatype marker = Dumped py_node | Assigned py_node

definition call_markers :: "py_node \<Rightarrow> marker list" where
  "call_markers n = (if node_class n = ''Call'' \<and> (\<exists>f \<in> set (field_nodes (field_of ''func'' n)). names_skip f)
     then [Dumped n] else [])"

definition assignment_markers :: "py_node \<Rightarrow> marker list" where
  "assignment_markers n = (if node_class n \<in> {''Assign'', ''AnnAssign'', ''NamedExpr''}
       \<and> (\<exists>v \<in> set (field_nodes (field_of ''value'' n)). \<exists>c \<in> set (walk v). names_skip c)
     then [Assigned n] else [])"

definition decorator_markers :: "py_node \<Rightarrow> marker list" where
  "decorator_markers n = (if node_class n \<in> {''FunctionDef'', ''AsyncFunctionDef'', ''ClassDef''}
     then map Dumped (filter names_skip (field_nodes (field_of ''decorator_list'' n))) else [])"

definition disabled :: "py_node \<Rightarrow> marker list" where
  "disabled tree = concat (map (\<lambda>n. call_markers n @ assignment_markers n @ decorator_markers n) (walk tree))"

section \<open>Assertions of a test\<close>

definition assertion_helpers :: "string list" where
  "assertion_helpers = [''raises'', ''warns'', ''fail'']"

definition asserts :: "py_node \<Rightarrow> bool" where
  "asserts n \<longleftrightarrow> node_class n = ''Assert''
     \<or> (node_class n = ''Call'' \<and> (\<exists>f \<in> set (field_nodes (field_of ''func'' n)).
          (node_class f = ''Attribute'' \<and> (starts_with ''assert'' (text_of ''attr'' f) \<or> text_of ''attr'' f \<in> set assertion_helpers))
          \<or> (node_class f = ''Name'' \<and> text_of ''id'' f \<in> set assertion_helpers)))"

function test_assertions :: "py_node \<Rightarrow> string \<Rightarrow> (string \<times> nat) list" where
  "test_assertions tree pre = fold (\<lambda>n result.
       if node_class n = ''ClassDef'' then fold (\<lambda>(k, v). AList.update k v)
         (test_assertions n (pre @ text_of ''name'' n @ ''.'')) result
       else if node_class n \<in> {''FunctionDef'', ''AsyncFunctionDef''} \<and> starts_with ''test'' (text_of ''name'' n)
         then AList.update (pre @ text_of ''name'' n) (length (filter asserts (walk n))) result
       else result) (child_nodes tree) []"
  by pat_completeness auto

termination test_assertions
  by (relation "measure (\<lambda>(t, p). size t)") (auto dest: size_child)

declare test_assertions.simps [simp del]

section \<open>Weakening\<close>

definition signals :: "('a \<Rightarrow> py_node option) \<Rightarrow> 'a \<Rightarrow> (marker list \<times> (string \<times> nat) list) option" where
  "signals parse source = map_option (\<lambda>tree. (disabled tree, test_assertions tree [])) (parse source)"

text \<open>
  \<^verbatim>\<open>test_weakening\<close>: a file that no longer parses is weakened; one that did not parse before is not;
  otherwise, when a disabling construct occurs more often than before, or a test is gone or has fewer
  assertions.
\<close>

definition test_weakening :: "('a \<Rightarrow> py_node option) \<Rightarrow> 'a \<Rightarrow> 'a \<Rightarrow> bool" where
  "test_weakening parse before after = (case signals parse after of None \<Rightarrow> True
     | Some (new_disabled, new_tests) \<Rightarrow> (case signals parse before of None \<Rightarrow> False
         | Some (old_disabled, old_tests) \<Rightarrow>
             (\<exists>m \<in> set new_disabled. count_list old_disabled m < count_list new_disabled m)
             \<or> (\<exists>(name, n) \<in> set old_tests. (case map_of new_tests name of None \<Rightarrow> 0 | Some k \<Rightarrow> k) < n)))"

text \<open>What an edit keeps that is not a weakening.\<close>

definition as_strong :: "marker list \<times> (string \<times> nat) list \<Rightarrow> marker list \<times> (string \<times> nat) list \<Rightarrow> bool" where
  "as_strong old new \<longleftrightarrow> (\<forall>m. count_list (fst new) m \<le> count_list (fst old) m)
     \<and> (\<forall>(name, n) \<in> set (snd old). n \<le> (case map_of (snd new) name of None \<Rightarrow> 0 | Some k \<Rightarrow> k))"

lemma not_weakened: "\<not> test_weakening parse before after \<longleftrightarrow> (\<exists>new. signals parse after = Some new
    \<and> (\<forall>old. signals parse before = Some old \<longrightarrow> as_strong old new))"
proof -
  have "(\<exists>m \<in> set xs. count_list ys m < count_list xs m) \<longleftrightarrow> \<not> (\<forall>m. count_list xs m \<le> count_list ys m)"
    for xs ys :: "marker list"
  proof
    assume "\<not> (\<forall>m. count_list xs m \<le> count_list ys m)"
    then obtain m where m: "count_list ys m < count_list xs m" by (auto simp: not_le)
    then have "m \<in> set xs" by (cases "m \<in> set xs") auto
    with m show "\<exists>m \<in> set xs. count_list ys m < count_list xs m" by blast
  qed (auto simp: not_le)
  then show ?thesis
    by (auto simp: test_weakening_def as_strong_def not_less split: option.splits)
qed

lemma fold_keys_distinct:
  "distinct (map fst result) \<Longrightarrow> distinct (map fst (fold (\<lambda>(k, v). AList.update k v) xs result))"
  by (induction xs arbitrary: result) (auto intro: distinct_update)

lemma distinct_tests: "distinct (map fst (test_assertions tree pre))"
proof -
  have "distinct (map fst (fold (\<lambda>n result.
       if node_class n = ''ClassDef'' then fold (\<lambda>(k, v). AList.update k v) (f n) result
       else if P n then AList.update (g n) (h n) result else result) ns result))" if "distinct (map fst result)"
    for f :: "py_node \<Rightarrow> (string \<times> nat) list" and P g h ns result
    using that by (induction ns arbitrary: result) (auto intro: distinct_update fold_keys_distinct)
  then show ?thesis by (subst test_assertions.simps) simp
qed

lemma as_strong_trans:
  assumes "as_strong a b" "as_strong b c" "distinct (map fst (snd a))"
  shows "as_strong a c"
proof -
  have "n \<le> (case map_of (snd c) name of None \<Rightarrow> 0 | Some k \<Rightarrow> k)" if "(name, n) \<in> set (snd a)" for name n
  proof (cases "map_of (snd b) name")
    case None
    with assms(1) that show ?thesis by (force simp: as_strong_def)
  next
    case (Some k)
    then have "(name, k) \<in> set (snd b)" by (rule map_of_SomeD)
    with assms(1,2) that Some show ?thesis by (fastforce simp: as_strong_def)
  qed
  with assms(1,2) show ?thesis by (auto simp: as_strong_def intro: le_trans)
qed

lemma chain_as_strong:
  assumes "successively (\<lambda>a b. \<not> test_weakening parse a b) (v # vs)" and "signals parse v = Some old"
  shows "\<exists>new. signals parse (last (v # vs)) = Some new \<and> as_strong old new"
  using assms
proof (induction vs arbitrary: v old)
  case Nil
  then show ?case by (auto simp: as_strong_def signals_def distinct_tests)
next
  case (Cons w vs)
  then have "\<not> test_weakening parse v w" and rest: "successively (\<lambda>a b. \<not> test_weakening parse a b) (w # vs)" by auto
  then obtain mid where mid: "signals parse w = Some mid" "as_strong old mid"
    using Cons.prems(2) not_weakened by metis
  obtain new where "signals parse (last (w # vs)) = Some new" "as_strong mid new"
    using Cons.IH [OF rest mid(1)] by blast
  moreover have "distinct (map fst (snd old))" using Cons.prems(2) by (auto simp: signals_def distinct_tests)
  ultimately show ?case using mid(2) as_strong_trans [of old mid new] by auto
qed

section \<open>Sample trees\<close>

definition sample_test :: "nat \<Rightarrow> py_node" where
  "sample_test n = PyNode ''Module'' [(''body'', FNodes [PyNode ''FunctionDef'' [(''name'', FText ''test_page''),
     (''body'', FNodes (replicate n (PyNode ''Assert'' []))), (''decorator_list'', FNodes [])]])]"

definition sample_parse :: "string \<Rightarrow> py_node option" where
  "sample_parse s = (if s = ''one'' then Some (sample_test 1) else if s = ''two'' then Some (sample_test 2) else None)"

lemma sample_strength: "\<not> test_weakening sample_parse ''one'' ''two''" "test_weakening sample_parse ''two'' ''one''"
  by (simp_all add: test_weakening_def signals_def sample_parse_def sample_test_def disabled_def walk_def
      child_nodes_def call_markers_def assignment_markers_def decorator_markers_def test_assertions.simps
      text_of_def field_of_def asserts_def numeral_2_eq_2)

section \<open>Properties\<close>



end
