(* ===== verification/Orq_Guardian.thy ===== *)
theory Orq_Guardian
  imports Orq_World Orq_TestIntegrity Orq_Float
begin

text \<open>
  The Change Guardian (\<^verbatim>\<open>delivery/guardian.py\<close>): it inspects every changed path of the workspace against
  the base commit, the write scope, the goal's scope and the delivery policy, and certifies the tree only
  when nothing is flagged. \<^verbatim>\<open>difflib.ndiff\<close> and \<^verbatim>\<open>ast.parse\<close> are parameters.
\<close>

record diff_tools =
  dt_ndiff :: "ustring list \<Rightarrow> ustring list \<Rightarrow> ustring list"
  dt_parse :: "ustring \<Rightarrow> py_node option"

section \<open>What is flagged by its name\<close>

definition sensitive_names :: "string list" where
  "sensitive_names = [''pyproject.toml'', ''package.json'', ''package-lock.json'', ''uv.lock'', ''poetry.lock'',
     ''requirements.txt'', ''dockerfile'', ''compose.yaml'', ''.gitmodules'', ''.gitattributes'']"

definition generated_names :: "string list" where
  "generated_names = [''node_modules'', ''dist'', ''build'', ''__pycache__'', ''.venv'']"

definition governed_roots :: "string list" where
  "governed_roots = [''.github'', ''.gitlab'', ''.husky'']"

definition test_markers :: "string list" where
  "test_markers = [''def test_'', ''async def test_'', ''test('', ''it('', ''describe('']"

definition scope_prefix :: "string \<Rightarrow> string" where
  "scope_prefix scope = rstrip_slash scope @ ''/''"

text \<open>An entry of the goal's scope that is a path: of the base commit, of a directory of it, or by its looks.\<close>

definition path_scope :: "string list \<Rightarrow> string \<Rightarrow> bool" where
  "path_scope base_paths scope \<longleftrightarrow> scope \<in> set base_paths \<or> list_ex (starts_with (scope_prefix scope)) base_paths
     \<or> (\<not> list_ex is_space scope \<and> (posix_suffix scope \<noteq> [] \<or> CHR ''/'' \<in> set scope
          \<or> list_ex (\<lambda>c. c \<in> set scope) ''*?[''))"

definition explicit_scope :: "string list \<Rightarrow> string list \<Rightarrow> bool" where
  "explicit_scope base_paths allowed \<longleftrightarrow> allowed \<noteq> [] \<and> list_all (path_scope base_paths) allowed"

definition in_goal_scope :: "string list \<Rightarrow> string \<Rightarrow> bool" where
  "in_goal_scope allowed path \<longleftrightarrow> list_ex (\<lambda>s. fnmatchcase path s \<or> starts_with (scope_prefix s) path) allowed"

definition lowered_parts :: "string \<Rightarrow> string list" where
  "lowered_parts path = split_on (CHR ''/'') (map lower_char path)"

definition sensitive_path :: "string \<Rightarrow> bool" where
  "sensitive_path path \<longleftrightarrow> last (lowered_parts path) \<in> set sensitive_names \<or> hd (lowered_parts path) \<in> set governed_roots"

definition if_flag :: "bool \<Rightarrow> string \<Rightarrow> string \<Rightarrow> (string \<times> string) list" where
  "if_flag b category summary = (if b then [(category, summary)] else [])"

definition name_flags :: "env \<Rightarrow> execution_policy \<Rightarrow> delivery_policy \<Rightarrow> string list \<Rightarrow> bool \<Rightarrow> string \<Rightarrow> (string \<times> string) list" where
  "name_flags env scope policy allowed explicit path =
     if_flag (\<not> safe_text env path) ''secret'' ''Sensitive content appears in a file name''
     @ if_flag (\<not> in_write_scope scope path) ''scope'' ''File lies outside the accepted write scope''
     @ if_flag (explicit \<and> \<not> in_goal_scope allowed path) ''goal_scope'' ''File lies outside the explicit goal scope''
     @ if_flag (list_ex (\<lambda>p. p \<in> set generated_names) (lowered_parts path)) ''generated'' ''Generated/build output must not be delivered''
     @ if_flag (sensitive_path path \<and> \<not> list_ex (fnmatchcase path) (dp_sensitive policy)) ''sensitive_configuration''
         ''Build, dependency or governance change needs explicit policy''"

section \<open>What is flagged by its content\<close>

definition change_limit :: nat where
  "change_limit = 10000000"

text \<open>The file as it is and as it was, when both can be inspected.\<close>

definition read_versions :: "'g host \<Rightarrow> scope \<Rightarrow> run_workspace \<Rightarrow> string \<Rightarrow> ('g, bytes option \<times> bytes option) io" where
  "read_versions h sf w path = bnd (scoped_path sf path False) (\<lambda>p. bnd (lookup p) (\<lambda>n.
     bnd (deny (is_file n \<and> change_limit < length (content_of n)) PolicyDenied) (\<lambda>_.
     bnd (read_file_if_present h (ws_path w) (ws_base w) path change_limit) (\<lambda>before.
     ret (before, if is_file n then Some (content_of n) else None)))))"

definition version_bytes :: "bytes option \<Rightarrow> bytes" where
  "version_bytes b = (case b of None \<Rightarrow> [] | Some x \<Rightarrow> x)"

text \<open>Both texts, or none for binary content.\<close>

definition version_texts :: "bytes option \<Rightarrow> bytes option \<Rightarrow> (ustring \<times> ustring) option" where
  "version_texts before after = (case (utf8_decode (version_bytes before), utf8_decode (version_bytes after)) of
     (Some old, Some new) \<Rightarrow> if 0 \<in> set (version_bytes before @ version_bytes after) then None else Some (old, new)
   | _ \<Rightarrow> None)"

definition marked :: "string \<Rightarrow> ustring list \<Rightarrow> ustring list" where
  "marked mark diff = filter (starts_with (ascii mark)) diff"

definition deletion_spike :: "delivery_policy \<Rightarrow> nat \<Rightarrow> nat \<Rightarrow> bool" where
  "deletion_spike policy deleted lines \<longleftrightarrow> 5 < deleted \<and> dp_max_deleted policy < fl (of_nat deleted / of_nat (max lines 1))"

definition is_test_path :: "string \<Rightarrow> bool" where
  "is_test_path path \<longleftrightarrow> contains_sub ''test'' (last (lowered_parts path)) \<or> ''tests'' \<in> set (lowered_parts path)"

definition removed_declaration :: "ustring list \<Rightarrow> bool" where
  "removed_declaration diff \<longleftrightarrow> list_ex (\<lambda>line. list_ex (\<lambda>m. contains_sub (ascii m) (drop 2 line)) test_markers) (marked ''- '' diff)"

definition weakened :: "diff_tools \<Rightarrow> string \<Rightarrow> ustring \<Rightarrow> ustring \<Rightarrow> ustring list \<Rightarrow> bool" where
  "weakened tools path old new diff \<longleftrightarrow> is_test_path path
     \<and> (removed_declaration diff \<or> (suffix ''.py'' path \<and> test_weakening (dt_parse tools) old new))"

definition reviewed_change :: "delivery_policy \<Rightarrow> string \<Rightarrow> string option \<Rightarrow> string option \<Rightarrow> bool" where
  "reviewed_change policy path old_hash new_hash \<longleftrightarrow>
     list_ex (\<lambda>c. rtc_path c = path \<and> Some (rtc_old c) = old_hash \<and> Some (rtc_new c) = new_hash) (dp_tests policy)"

definition version_hash :: "'g host \<Rightarrow> bytes option \<Rightarrow> string option" where
  "version_hash h b = map_option (sha_hex h) b"

definition content_flags :: "'g host \<Rightarrow> diff_tools \<Rightarrow> delivery_policy \<Rightarrow> string list \<Rightarrow> string \<Rightarrow> bytes option \<Rightarrow> bytes option
    \<Rightarrow> (string \<times> string) list" where
  "content_flags h tools policy base_paths path before after = (let
       texts = version_texts before after; old = (case texts of None \<Rightarrow> [] | Some (a, b) \<Rightarrow> a);
       new = (case texts of None \<Rightarrow> [] | Some (a, b) \<Rightarrow> b); diff = dt_ndiff tools (py_lines old) (py_lines new) in
     if_flag (before = None \<and> path \<in> set base_paths) ''unsupported_source'' ''Original file is too large or is not a regular file''
     @ if_flag (texts = None) ''binary'' ''Binary changes require explicit human inspection''
     @ if_flag (h_safe h new \<noteq> new) ''secret'' ''Secret-like or private diagnostic content detected''
     @ if_flag (deletion_spike policy (length (marked ''- '' diff)) (length (py_lines old))) ''deletion_spike''
         ''Change removes a large fraction of this file''
     @ if_flag (weakened tools path old new diff \<and> \<not> reviewed_change policy path (version_hash h before) (version_hash h after))
         ''test_reduction'' ''Existing test checks were removed or disabled'')"

definition change_of :: "env \<Rightarrow> 'g host \<Rightarrow> diff_tools \<Rightarrow> string \<Rightarrow> bytes option \<Rightarrow> bytes option \<Rightarrow> changed_file" where
  "change_of env h tools path before after = (let
       texts = version_texts before after; old = (case texts of None \<Rightarrow> [] | Some (a, b) \<Rightarrow> a);
       new = (case texts of None \<Rightarrow> [] | Some (a, b) \<Rightarrow> b); diff = dt_ndiff tools (py_lines old) (py_lines new) in
     \<lparr>cf_path = env_safe env path,
      cf_status = (if after = None then CHANGE_DELETED else if before = None then CHANGE_ADDED else CHANGE_MODIFIED),
      cf_old = version_hash h before, cf_new = version_hash h after, cf_added = length (marked ''+ '' diff),
      cf_deleted = length (marked ''- '' diff), cf_binary = (texts = None)\<rparr>)"

section \<open>Inspection\<close>

definition raise_flag :: "env \<Rightarrow> uuid \<Rightarrow> string \<Rightarrow> string \<times> string \<Rightarrow> ('g, finding) job" where
  "raise_flag env rid path f = bnd (db uuid4) (\<lambda>i. bnd (db (utc_now env)) (\<lambda>now.
     ret \<lparr>find_id = i, find_created = now, find_run = rid, find_task = None, find_criterion = None,
       find_severity = SEV_BLOCKING, find_category = fst f, find_summary = snd f,
       find_source = Some (env_safe env path), find_open = True\<rparr>))"

definition inspect_path :: "env \<Rightarrow> 'g host \<Rightarrow> diff_tools \<Rightarrow> run_workspace \<Rightarrow> delivery_policy \<Rightarrow> string list \<Rightarrow> string list \<Rightarrow> scope
    \<Rightarrow> string \<Rightarrow> ('g, finding list \<times> changed_file list) job" where
  "inspect_path env h tools w policy allowed base_paths sf path =
     bnd (collect (name_flags env (ws_policy w) policy allowed (explicit_scope base_paths allowed) path)
       (raise_flag env (ws_run w) path)) (\<lambda>named.
     bnd (catch (bnd (on_host (read_versions h sf w path)) (\<lambda>v. ret (Some v))) (\<lambda>e. e = OsErr \<or> e = PolicyDenied) (\<lambda>_. ret None)) (\<lambda>found.
     case found of
       None \<Rightarrow> bnd (raise_flag env (ws_run w) path (''unsafe_path'', ''File cannot be safely inspected'')) (\<lambda>f. ret (named @ [f], []))
     | Some (before, after) \<Rightarrow>
         bnd (collect (content_flags h tools policy base_paths path before after) (raise_flag env (ws_run w) path)) (\<lambda>seen_in.
         ret (named @ seen_in, [change_of env h tools path before after]))))"

text \<open>\<^verbatim>\<open>ChangeGuardian.inspect\<close>: a tree whose digest cannot be taken is reported, but not certified.\<close>

definition inspect_changes :: "env \<Rightarrow> 'g host \<Rightarrow> diff_tools \<Rightarrow> run_workspace \<Rightarrow> delivery_policy \<Rightarrow> uuid \<Rightarrow> checkpoint \<Rightarrow> string list
    \<Rightarrow> ('g, change_report) job" where
  "inspect_changes env h tools w policy actor checkpoint allowed =
     bnd (on_host (scoped (ws_path w) (ws_policy w))) (\<lambda>sf.
     bnd (on_host (tracked_files h (ws_path w) (ws_base w))) (\<lambda>base_paths.
     bnd (on_host (worktree_status h (ws_path w))) (\<lambda>st.
     bnd (collect (st_changed st) (inspect_path env h tools w policy allowed base_paths sf)) (\<lambda>inspected.
     bnd (catch (on_host (workspace_digest h w)) (\<lambda>e. e = PolicyDenied) (\<lambda>_. ret ''unverified'')) (\<lambda>tree.
     bnd (db uuid4) (\<lambda>i. bnd (db (utc_now env)) (\<lambda>now.
     let findings = concat (map fst inspected) in
     ret \<lparr>rep_id = i, rep_created = now, rep_run = ws_run w, rep_actor = actor, rep_checkpoint = checkpoint,
       rep_base = ws_base w, rep_tree = tree, rep_passed = (findings = [] \<and> tree \<noteq> ''unverified''),
       rep_changes = concat (map snd inspected), rep_findings = findings\<rparr>)))))))"

section \<open>The guardian service\<close>

text \<open>The last hash recorded for a path; nothing for a path without one.\<close>

definition hash_of :: "changed_file list \<Rightarrow> string \<Rightarrow> string option" where
  "hash_of cs path = (case map_of (rev (map (\<lambda>c. (cf_path c, cf_new c)) cs)) path of None \<Rightarrow> None | Some x \<Rightarrow> x)"

text \<open>Paths other than the documentation whose content differs; the order of the two sets is not specified.\<close>

definition differing_paths :: "delivery_policy \<Rightarrow> changed_file list \<Rightarrow> changed_file list \<Rightarrow> string list" where
  "differing_paths policy old new = filter (\<lambda>p. Some p \<noteq> dp_doc_path policy \<and> hash_of old p \<noteq> hash_of new p)
     (remdups (map cf_path old @ map cf_path new))"

definition late_change :: "env \<Rightarrow> uuid \<Rightarrow> string \<Rightarrow> ('g, finding) job" where
  "late_change env rid path = bnd (db uuid4) (\<lambda>i. bnd (db (utc_now env)) (\<lambda>now.
     ret \<lparr>find_id = i, find_created = now, find_run = rid, find_task = None, find_criterion = None,
       find_severity = SEV_BLOCKING, find_category = ''post_review_change'',
       find_summary = ''Non-documentation content changed after acceptance'', find_source = Some path, find_open = True\<rparr>))"

definition implementation_reports :: "change_report list \<Rightarrow> change_report list" where
  "implementation_reports reports = filter (\<lambda>p. rep_checkpoint p = CP_IMPLEMENTATION) reports"

text \<open>The final report also rejects what changed since the implementation was certified.\<close>

definition against_accepted :: "env \<Rightarrow> uuid \<Rightarrow> delivery_policy \<Rightarrow> change_report \<Rightarrow> ('g, change_report) job" where
  "against_accepted env rid policy report = bnd (db (delivery_guardians rid)) (\<lambda>reports.
     let accepted = implementation_reports reports in
     bnd (deny (accepted = []) PolicyDenied) (\<lambda>_.
     bnd (collect (differing_paths policy (rep_changes (last accepted)) (rep_changes report)) (late_change env rid)) (\<lambda>late.
     let findings = rep_findings report @ late in
     ret (report\<lparr>rep_findings := findings, rep_passed := (rep_passed report \<and> findings = [])\<rparr>))))"

definition checkpoint_str :: "checkpoint \<Rightarrow> string" where
  "checkpoint_str c = (if c = CP_FINAL then ''final'' else ''implementation'')"

definition active_actor :: "uuid \<Rightarrow> uuid \<Rightarrow> agent_role \<Rightarrow> ('g, actor_session) job" where
  "active_actor rid actor role = bnd (db (run_actors rid)) (\<lambda>acs.
     bnd (the_or PolicyDenied (find (\<lambda>a. actor_id a = actor) acs)) (\<lambda>a.
     bnd (deny (actor_role a \<noteq> Some role \<or> actor_status a \<noteq> ACT_WORKING) PolicyDenied) (\<lambda>_. ret a)))"

definition guardian_key :: "env \<Rightarrow> uuid \<Rightarrow> checkpoint \<Rightarrow> string \<Rightarrow> delivery_policy \<Rightarrow> string" where
  "guardian_key env actor checkpoint tree policy = ''guardian:'' @ uuid_str actor @ '':'' @ checkpoint_str checkpoint
     @ '':'' @ tree @ '':'' @ fingerprint env (DocPolicy policy)"

definition certify :: "env \<Rightarrow> 'g host \<Rightarrow> diff_tools \<Rightarrow> uuid \<Rightarrow> uuid \<Rightarrow> delivery_policy \<Rightarrow> checkpoint \<Rightarrow> ('g, change_report) job" where
  "certify env h tools rid actor policy checkpoint = with_unit (bnd (db (locked_run rid)) (\<lambda>r.
     bnd (active_actor rid actor ROLE_CHANGE_GUARDIAN) (\<lambda>_.
     bnd (db (execution_workspace rid)) (\<lambda>ws. bnd (the_or NotFound ws) (\<lambda>w.
     bnd (current_contract r) (\<lambda>goal. bnd (the_or NotFound goal) (\<lambda>gc.
     bnd (inspect_changes env h tools w policy actor checkpoint (goal_scope (gc_goal gc))) (\<lambda>inspected.
     bnd (if checkpoint = CP_FINAL then against_accepted env rid policy inspected else ret inspected) (\<lambda>compared.
     let report = compared\<lparr>rep_id := uuid5 rid (guardian_key env actor checkpoint (rep_tree compared) policy)\<rparr> in
     bnd (db (delivery_guardians rid)) (\<lambda>reports. case find (\<lambda>x. rep_id x = rep_id report) reports of
       Some existing \<Rightarrow> ret existing
     | None \<Rightarrow>
         bnd (db (save_guardian report)) (\<lambda>_.
         bnd (db (utc_now env)) (\<lambda>now.
         bnd (db (emit env r EV_CHANGE_GUARD_COMPLETED (''guardian:'' @ uuid_str (rep_id report)) now
           (no_payload\<lparr>pl_status := Some (if rep_passed report then ''PASS'' else ''FAIL''),
              pl_summary := Some (''Inspected '' @ nat_str (length (rep_changes report)) @ '' changed files'')\<rparr>)
           (Some actor) None None)) (\<lambda>_.
         bnd (db (commit env)) (\<lambda>_. ret report))))))))))))))"

section \<open>The contract of the store\<close>

context repository_contract
begin

lemma job_active_actor: "keeps (on_store S) (active_actor rid actor role)"
  unfolding active_actor_def by (intro job_laws act_laws)

lemma job_current_contract: "keeps (on_store S) (current_contract r)"
  unfolding current_contract_def by (intro job_laws act_laws)

lemma job_inspect: "keeps (on_store S) (inspect_changes env h tools w policy actor checkpoint scope)"
  unfolding inspect_changes_def inspect_path_def raise_flag_def Let_def by (intro job_laws act_laws)

lemma certify_evolves: "keeps (on_store T) (certify env h tools rid actor policy checkpoint)"
  unfolding certify_def against_accepted_def late_change_def Let_def
  by (intro job_unit job_laws act_laws runtime_laws job_active_actor job_current_contract job_inspect)

end

end
