(* ===== verification/Orq_GitDelivery.thy ===== *)
theory Orq_GitDelivery
  imports Orq_Workspace
begin

text \<open>
  \<^verbatim>\<open>GitDeliveryService\<close> (\<^verbatim>\<open>git/delivery.py\<close>): the only operations that change the repository of a run.
  The changes of a certified report are staged blob by blob, a commit object is made, the run's branch
  is moved to it by compare and swap, and pushed without force to a permitted destination.
\<close>

section \<open>Staging\<close>

definition delivered_modes :: "string list" where
  "delivered_modes = [''100644'', ''100755'']"

definition stage_change :: "'g host \<Rightarrow> run_workspace \<Rightarrow> scope \<Rightarrow> changed_file \<Rightarrow> ('g, unit) io" where
  "stage_change h w sf c = (let dir = ws_path w; path = cf_path c in
     if cf_status c = CHANGE_DELETED then bnd (git h dir (ForceRemove path)) (\<lambda>_. ret ())
     else bnd (scoped_path sf path False) (\<lambda>p.
       bnd (git_word h dir (HashObject path)) (\<lambda>blob.
       bnd (git h dir (LsTreeEntry (ws_base w) path)) (\<lambda>previous.
       bnd (if previous \<noteq> [] then nth_word 0 (byte_words previous)
            else bnd (lookup p) (\<lambda>n. ret (if executable n then ''100755'' else ''100644''))) (\<lambda>mode.
       bnd (deny (mode \<notin> set delivered_modes) PolicyDenied) (\<lambda>_.
       bnd (git h dir (AddEntry mode blob path)) (\<lambda>_. ret ())))))))"

definition stage_report :: "'g host \<Rightarrow> run_workspace \<Rightarrow> change_report \<Rightarrow> string list \<Rightarrow> ('g, string) io" where
  "stage_report h w report protected = bnd (validate_branch h (ws_path w) (ws_branch w) protected) (\<lambda>_.
     bnd (deny (\<not> rep_passed report) PolicyDenied) (\<lambda>_.
     bnd (workspace_digest h w) (\<lambda>before.
     bnd (deny (rep_tree report \<noteq> before) PolicyDenied) (\<lambda>_.
     bnd (git h (ws_path w) (DiffCached (ws_base w))) (\<lambda>raw.
     bnd (deny (\<exists>p \<in> set (split_on (char_of (0::nat)) raw). p \<noteq> [] \<and> p \<notin> set (map cf_path (rep_changes report))) PolicyDenied) (\<lambda>_.
     bnd (scoped (ws_path w) (ws_policy w)) (\<lambda>sf.
     bnd (for_each (rep_changes report) (stage_change h w sf)) (\<lambda>_.
     bnd (workspace_digest h w) (\<lambda>after.
     bnd (deny (after \<noteq> rep_tree report) Conflict) (\<lambda>_.
     git_word h (ws_path w) WriteTree))))))))))"

section \<open>Commit, branch and push\<close>

definition commit_identity :: "delivery_policy \<Rightarrow> time \<Rightarrow> git_identity" where
  "commit_identity policy moment = (if given (dp_author_name policy) \<and> given (dp_author_email policy)
     then \<lparr>gi_name = dp_author_name policy, gi_email = dp_author_email policy, gi_date = moment\<rparr>
     else \<lparr>gi_name = None, gi_email = None, gi_date = moment\<rparr>)"

definition create_commit :: "'g host \<Rightarrow> run_workspace \<Rightarrow> string \<Rightarrow> string \<Rightarrow> time \<Rightarrow> delivery_policy \<Rightarrow> ('g, string) io" where
  "create_commit h w tree message moment policy =
     bnd (deny (h_safe h (ascii message) \<noteq> ascii message \<or> blank message) PolicyDenied) (\<lambda>_.
     git_word h (ws_path w) (CommitTree tree (ws_base w) message (commit_identity policy moment)))"

definition attach_commit :: "'g host \<Rightarrow> run_workspace \<Rightarrow> string \<Rightarrow> string list \<Rightarrow> ('g, unit) io" where
  "attach_commit h w sha protected = bnd (validate_branch h (ws_path w) (ws_branch w) protected) (\<lambda>_.
     bnd (worktree_status h (ws_path w)) (\<lambda>st.
     bnd (deny (st_branch st \<noteq> Some (ws_branch w)) PolicyDenied) (\<lambda>_.
     if st_head st = sha then ret ()
     else bnd (deny (st_head st \<noteq> ws_base w) Conflict) (\<lambda>_.
       bnd (git h (ws_path w) (UpdateRef (ws_branch w) sha (ws_base w))) (\<lambda>_. ret ())))))"

text \<open>
  \<^verbatim>\<open>urlsplit(remote).scheme\<close>: what is before the first colon, in lower case, when it starts with a letter
  and has only the characters of a scheme. \<^verbatim>\<open>urlsplit\<close> drops leading control characters and every tab
  and line break, and raises \<^verbatim>\<open>ValueError\<close> for an unpaired bracket in the host part.
\<close>

definition url_text :: "string \<Rightarrow> string" where
  "url_text s = filter (\<lambda>c. (of_char c :: nat) \<notin> {9, 10, 13})
     (dropWhile (\<lambda>c. (of_char c :: nat) \<le> 32) s)"

definition scheme_char :: "char \<Rightarrow> bool" where
  "scheme_char c \<longleftrightarrow> is_alnum c \<or> c \<in> set ''+-.''"

definition url_scheme :: "string \<Rightarrow> string" where
  "url_scheme url = (let s = takeWhile (\<lambda>c. c \<noteq> CHR '':'') url in
     if s \<noteq> [] \<and> length s < length url \<and> (is_lower (hd s) \<or> is_upper (hd s)) \<and> list_all scheme_char s
     then casefold s else [])"

definition url_host_part :: "string \<Rightarrow> string" where
  "url_host_part url = (let rest = (if url_scheme url = [] then url else drop (Suc (length (url_scheme url))) url) in
     if starts_with ''//'' rest then takeWhile (\<lambda>c. c \<notin> set ''/?#'') (drop 2 rest) else [])"

definition unpaired_bracket :: "string \<Rightarrow> bool" where
  "unpaired_bracket s \<longleftrightarrow> (CHR ''['' \<in> set s) \<noteq> (CHR '']'' \<in> set s)"

definition ssh_style :: "string \<Rightarrow> bool" where
  "ssh_style remote \<longleftrightarrow> CHR ''@'' \<in> set remote \<and> CHR '':'' \<in> set remote \<and> \<not> contains_sub ''::'' remote
     \<and> url_scheme (url_text remote) = []"

definition transport_permitted :: "bool \<Rightarrow> string \<Rightarrow> bool" where
  "transport_permitted allow_local remote \<longleftrightarrow> url_scheme (url_text remote) \<in> {''https'', ''ssh''} \<or> ssh_style remote
     \<or> ((starts_with ''/'' remote \<or> url_scheme (url_text remote) = ''file'') \<and> allow_local)"

text \<open>Where a push may go: one destination, without credentials, by a permitted transport.\<close>

definition push_destination :: "'g host \<Rightarrow> delivery_policy \<Rightarrow> string \<Rightarrow> ('g, unit) io" where
  "push_destination h policy remote =
     bnd (deny (length (text_lines remote) \<noteq> 1) PolicyDenied) (\<lambda>_.
     bnd (deny (h_safe h (ascii remote) \<noteq> ascii remote) PolicyDenied) (\<lambda>_.
     bnd (deny (unpaired_bracket (url_host_part (url_text remote))) ValueErr) (\<lambda>_.
     deny (\<not> transport_permitted (dp_local_remote policy) remote) PolicyDenied)))"

definition push_commit :: "'g host \<Rightarrow> run_workspace \<Rightarrow> string \<Rightarrow> delivery_policy \<Rightarrow> string list \<Rightarrow> ('g, unit) io" where
  "push_commit h w sha policy protected = bnd (deny (\<not> dp_push policy) PolicyDenied) (\<lambda>_.
     bnd (validate_branch h (ws_path w) (ws_branch w) protected) (\<lambda>_.
     bnd (worktree_status h (ws_path w)) (\<lambda>st.
     bnd (deny (st_branch st \<noteq> Some (ws_branch w) \<or> st_head st \<noteq> sha \<or> st_changed st \<noteq> []) PolicyDenied) (\<lambda>_.
     bnd (git_word h (ws_path w) (RemoteUrl (dp_remote policy))) (\<lambda>remote.
     bnd (push_destination h policy remote) (\<lambda>_.
     bnd (git h (ws_path w) (PushRef remote sha (ws_branch w))) (\<lambda>_. ret ())))))))"

end
