(* ===== verification/Orq_Delivery.thy ===== *)
theory Orq_Delivery
  imports Orq_Guardian Orq_GitDelivery Orq_Repair
begin

text \<open>
  Delivery: the final validation (\<^verbatim>\<open>delivery/validation.py\<close>), the documentation of accepted changes
  (\<^verbatim>\<open>delivery/documentation.py\<close>), the commit and the push (\<^verbatim>\<open>delivery/commits.py\<close>), the curation of what
  was delivered (\<^verbatim>\<open>memory/curation.py\<close>) and the coordinator that drives the six delivery tasks
  through them (\<^verbatim>\<open>core/delivery.py\<close>).
\<close>

section \<open>Validation around an evaluator of the machine\<close>

definition validate_with :: "env \<Rightarrow> uuid \<Rightarrow> string \<Rightarrow> (validation_spec \<Rightarrow> ('g, validation_observation) io) \<Rightarrow> string
    \<Rightarrow> uuid option \<Rightarrow> ('g, evidence) job" where
  "validate_with env rid ckey evaluate key xid =
     bnd (deny (blank key) InputInvalid) (\<lambda>_.
     bnd (db (begin_validation env rid ckey key xid)) (\<lambda>ticket. case ticket of
       Validated e \<Rightarrow> ret e
     | ToValidate k eid actor task \<Rightarrow>
         bnd (outcome (on_host (evaluate (crit_spec k)))) (\<lambda>r.
         case observed env (\<lambda>_. r) (crit_spec k) of
           Inr obs \<Rightarrow> db (record_validation env rid k eid actor task xid obs)
         | Inl e \<Rightarrow> if \<not> orqalis_error e then raise_err e
             else bnd (db (record_validation env rid k eid actor task xid (failed_observation (crit_spec k) e))) (\<lambda>_.
               raise_err e))))"

section \<open>Final validation\<close>

record final_start =
  fs_workspace :: run_workspace
  fs_id :: uuid
  fs_before :: string

text \<open>The active tester assigned to the persisted attempt.\<close>

definition tester_attempt :: "uuid \<Rightarrow> task_execution \<Rightarrow> ('g, unit) job" where
  "tester_attempt rid x = bnd (db (run_actors rid)) (\<lambda>acs. bnd (db (run_executions rid)) (\<lambda>xs.
     deny (case find (\<lambda>a. actor_id a = exec_actor x) acs of None \<Rightarrow> True
       | Some a \<Rightarrow> actor_role a \<noteq> Some ROLE_TESTER \<or> actor_status a \<noteq> ACT_WORKING
           \<or> find (\<lambda>y. exec_id y = exec_id x) xs \<noteq> Some x) PolicyDenied))"

definition begin_final :: "env \<Rightarrow> 'g host \<Rightarrow> uuid \<Rightarrow> task_execution \<Rightarrow> ('g, final_validation + final_start) job" where
  "begin_final env h rid x = with_unit (bnd (db (locked_run rid)) (\<lambda>r.
     bnd (the_or NotFound (env_project env (run_project r))) (\<lambda>_.
     bnd (db (execution_workspace rid)) (\<lambda>ws. bnd (the_or NotFound ws) (\<lambda>w.
     bnd (tester_attempt rid x) (\<lambda>_.
     bnd (on_host (workspace_digest h w)) (\<lambda>before.
     let vid = uuid5 rid (''final:'' @ uuid_str (exec_id x) @ '':'' @ before) in
     bnd (db (delivery_validations rid)) (\<lambda>vs. case find (\<lambda>v. fv_id v = vid) vs of
       Some v \<Rightarrow> ret (Inl v)
     | None \<Rightarrow> ret (Inr \<lparr>fs_workspace = w, fs_id = vid, fs_before = before\<rparr>)))))))))"

definition deterministic :: "acceptance_criterion \<Rightarrow> bool" where
  "deterministic k \<longleftrightarrow> spec_kind (crit_spec k) \<noteq> ''review'' \<and> spec_kind (crit_spec k) \<noteq> ''manual''"

text \<open>The resolved verdicts on findings in the reviews of a goal, and the criteria their evidence belongs to.\<close>

definition resolved_verdicts :: "uuid \<Rightarrow> review_record list \<Rightarrow> finding_review list" where
  "resolved_verdicts gid reviews =
     concat (map (\<lambda>rv. filter fr_resolved (rr_findings (rev_result rv))) (filter (\<lambda>rv. rev_goal rv = gid) reviews))"

definition relied_criteria :: "uuid \<Rightarrow> finding_review list \<Rightarrow> ('g, uuid list) job" where
  "relied_criteria rid verdicts = bnd (collect (concat (map fr_evidence verdicts)) (\<lambda>ref. db (runs_get_evidence ref rid))) (\<lambda>found.
     ret (map ev_criterion (List.map_filter id found)))"

definition unchanged_document :: "'g host \<Rightarrow> artifact \<Rightarrow> ('g, bool) io" where
  "unchanged_document h a = bnd (lookup (art_path a)) (\<lambda>n. bnd (deny (\<not> is_file n) OsErr) (\<lambda>_.
     ret (sha_hex h (content_of n) = art_hash a)))"

definition source_holds :: "'g host \<Rightarrow> scope \<Rightarrow> source_check \<Rightarrow> ('g, bool) io" where
  "source_holds h sf c = bnd (scoped_read h sf (sc_path c)) (\<lambda>text. ret (contains_sub (ascii (sc_contains c)) text))"

definition asserted_sources :: "uuid \<Rightarrow> review_record list \<Rightarrow> source_check list" where
  "asserted_sources gid reviews = concat (map cr_checks (rr_criteria (rev_result (last reviews))))
     @ concat (map fr_checks (resolved_verdicts gid reviews))"

text \<open>Whether the final tree passes: each condition is looked at, whatever the others gave.\<close>

definition final_verdict :: "'g host \<Rightarrow> run_workspace \<Rightarrow> uuid \<Rightarrow> goal_contract \<Rightarrow> bool \<Rightarrow> ('g, bool) job" where
  "final_verdict h w rid gc unchanged = bnd (db (execution_reviews rid)) (\<lambda>reviews.
     bnd (relied_criteria rid (resolved_verdicts (goal_id (gc_goal gc)) reviews)) (\<lambda>relied.
     let criteria_pass = list_all (\<lambda>k. (crit_priority k = P_REQUIRED \<or> crit_id k \<in> set relied) \<longrightarrow> crit_status k = AC_PASS) (gc_criteria gc) in
     bnd (db (delivery_artifacts rid)) (\<lambda>artifacts.
     bnd (on_host (collect (filter (\<lambda>a. art_type a = ''documentation'') artifacts) (unchanged_document h))) (\<lambda>documents.
     if reviews = [] \<or> \<not> rr_pass (rev_result (last reviews)) then ret False
     else bnd (on_host (scoped (ws_path w) (ws_policy w))) (\<lambda>sf.
       bnd (on_host (collect (asserted_sources (goal_id (gc_goal gc)) reviews) (source_holds h sf))) (\<lambda>sources.
       ret (unchanged \<and> criteria_pass \<and> False \<notin> set documents \<and> False \<notin> set sources)))))))"

definition finish_final :: "env \<Rightarrow> 'g host \<Rightarrow> uuid \<Rightarrow> task_execution \<Rightarrow> final_start \<Rightarrow> goal_contract \<Rightarrow> uuid list \<Rightarrow> ('g, final_validation) job" where
  "finish_final env h rid x st contract evidence = with_unit (bnd (db (locked_run rid)) (\<lambda>r.
     bnd (current_contract r) (\<lambda>goal. bnd (the_or PolicyDenied goal) (\<lambda>gc.
     bnd (deny (goal_id (gc_goal gc) \<noteq> goal_id (gc_goal contract)) PolicyDenied) (\<lambda>_.
     bnd (on_host (workspace_digest h (fs_workspace st))) (\<lambda>after.
     bnd (final_verdict h (fs_workspace st) rid gc (fs_before st = after)) (\<lambda>passed.
     bnd (db (utc_now env)) (\<lambda>created.
     let v = \<lparr>fv_id = fs_id st, fv_created = created, fv_run = rid, fv_actor = exec_actor x, fv_goal = goal_id (gc_goal gc),
           fv_tree = after, fv_passed = passed, fv_evidence = evidence\<rparr> in
     bnd (db (save_validation v)) (\<lambda>_.
     bnd (db (utc_now env)) (\<lambda>now.
     bnd (db (emit env r EV_FINAL_VALIDATION_COMPLETED (''final:'' @ uuid_str (fs_id st)) now
       (no_payload\<lparr>pl_status := Some (if passed then ''PASS'' else ''FAIL''), pl_evidence := evidence\<rparr>)
       (Some (exec_actor x)) (Some (exec_task x)) (Some (exec_id x)))) (\<lambda>_.
     bnd (db (commit env)) (\<lambda>_. ret v))))))))))))"

definition final_validate :: "env \<Rightarrow> 'g host \<Rightarrow> 'g runner \<Rightarrow> uuid \<Rightarrow> task_execution \<Rightarrow> ('g, final_validation) job" where
  "final_validate env h run_it rid x = bnd (begin_final env h rid x) (\<lambda>start. case start of
     Inl v \<Rightarrow> ret v
   | Inr st \<Rightarrow> bnd (db (current_goal rid)) (\<lambda>contract.
       bnd (collect (filter deterministic (gc_criteria contract)) (\<lambda>k.
         bnd (validate_with env rid (crit_key k)
           (workspace_evaluator h run_it (ws_path (fs_workspace st)) (ws_policy (fs_workspace st)))
           (''final:'' @ uuid_str (fs_id st) @ '':'' @ uuid_str (crit_id k)) (Some (exec_id x))) (\<lambda>e. ret (ev_id e)))) (\<lambda>evidence.
       finish_final env h rid x st contract evidence)))"

section \<open>Documentation\<close>

definition change_status_str :: "change_status \<Rightarrow> string" where
  "change_status_str s = (case s of CHANGE_ADDED \<Rightarrow> ''added'' | CHANGE_MODIFIED \<Rightarrow> ''modified'' | CHANGE_DELETED \<Rightarrow> ''deleted'')"

definition document_lines :: "run \<Rightarrow> goal_contract \<Rightarrow> review_record \<Rightarrow> change_report \<Rightarrow> string list" where
  "document_lines r gc rv report =
     [''## Orqalis run '' @ uuid_str (run_id r), [], goal_text (gc_goal gc), [], ''Base commit: '' @ run_base r,
      ''Goal version: '' @ nat_str (goal_number (gc_goal gc)), ''Accepted review: '' @ uuid_str (rev_id rv), [], ''Changes:'', []]
     @ map (\<lambda>c. ''- '' @ change_status_str (cf_status c) @ '': '' @ cf_path c @ '' (+'' @ nat_str (cf_added c) @ ''/-''
         @ nat_str (cf_deleted c) @ '')'') (rep_changes report)
     @ [[], ''Validation:'', []]
     @ map (\<lambda>k. ''- '' @ crit_key k @ '': '' @ acceptance_status_str (crit_status k) @ '' ('' @ spec_kind (crit_spec k)
         @ ''); evidence: '' @ join_str '', '' (map uuid_str (crit_evidence k))) (gc_criteria gc)"

definition line_feed :: string where
  "line_feed = [char_of (10::nat)]"

definition document_text :: "run \<Rightarrow> goal_contract \<Rightarrow> review_record \<Rightarrow> change_report \<Rightarrow> string" where
  "document_text r gc rv report = join_str line_feed (document_lines r gc rv report) @ line_feed"

text \<open>\<^verbatim>\<open>read_text\<close> translates line ends; \<^verbatim>\<open>text.index(sub)\<close> and \<^verbatim>\<open>text.rstrip()\<close>.\<close>

fun translated :: "ustring \<Rightarrow> ustring" where
  "translated [] = []"
| "translated [c] = [if c = 13 then 10 else c]"
| "translated (c # d # cs) = (if c = 13 \<and> d = 10 then 10 # translated cs
     else (if c = 13 then 10 else c) # translated (d # cs))"

fun find_text :: "ustring \<Rightarrow> ustring \<Rightarrow> nat option" where
  "find_text p [] = (if p = [] then Some 0 else None)"
| "find_text p (c # cs) = (if starts_with p (c # cs) then Some 0 else map_option Suc (find_text p cs))"

definition uspace :: "nat \<Rightarrow> bool" where
  "uspace c \<longleftrightarrow> (9 \<le> c \<and> c \<le> 13) \<or> (28 \<le> c \<and> c \<le> 32) \<or> c \<in> {133, 160, 0x1680, 0x2028, 0x2029, 0x202F, 0x205F, 0x3000}
     \<or> (0x2000 \<le> c \<and> c \<le> 0x200A)"

definition rstrip :: "ustring \<Rightarrow> ustring" where
  "rstrip s = rev (dropWhile uspace (rev s))"

definition block_begin :: "uuid \<Rightarrow> ustring" where
  "block_begin rid = ascii (''<!-- orqalis:'' @ uuid_str rid @ '':begin -->'')"

definition block_end :: "uuid \<Rightarrow> ustring" where
  "block_end rid = ascii (''<!-- orqalis:'' @ uuid_str rid @ '':end -->'')"

text \<open>The documentation file with the run's block put in place, or nothing when the block it has is cut.\<close>

definition with_block :: "uuid \<Rightarrow> ustring \<Rightarrow> ustring \<Rightarrow> ustring option" where
  "with_block rid original content = (let block = block_begin rid @ 10 # content @ block_end rid in
     case find_text (block_begin rid) original of
       None \<Rightarrow> Some (rstrip original @ [10, 10] @ block @ [10])
     | Some start \<Rightarrow> (case find_text (block_end rid) (drop start original) of
         None \<Rightarrow> None
       | Some n \<Rightarrow> Some (take start original @ block @ drop (start + n + length (block_end rid)) original)))"

definition document_suffixes :: "string list" where
  "document_suffixes = [''.md'', ''.rst'', ''.txt'']"

text \<open>Into the documentation file of the policy.\<close>

definition write_block :: "'g host \<Rightarrow> run_workspace \<Rightarrow> uuid \<Rightarrow> string \<Rightarrow> ustring \<Rightarrow> ('g, string \<times> string) io" where
  "write_block h w rid path content =
     bnd (deny (casefold (posix_suffix path) \<notin> set document_suffixes) PolicyDenied) (\<lambda>_.
     bnd (scoped (ws_path w) (ws_policy w)) (\<lambda>sf.
     bnd (scoped_path sf path True) (\<lambda>p. bnd (lookup p) (\<lambda>n.
     bnd (if is_file n then the_or ValueErr (utf8_decode (content_of n)) else ret []) (\<lambda>raw.
     let original = translated raw in
     bnd (deny (h_safe h original \<noteq> original) PolicyDenied) (\<lambda>_.
     bnd (the_or Conflict (with_block rid original content)) (\<lambda>text.
     bnd (scoped_write h sf path text) (\<lambda>digest. ret (p, digest)))))))))"

text \<open>A directory made when missing; and \<^verbatim>\<open>open(p, "w")\<close>, which keeps what is known of an existing file.\<close>

definition make_folder :: "string \<Rightarrow> ('g, unit) io" where
  "make_folder p = bnd (lookup p) (\<lambda>n. bnd (deny (is_file n) OsErr) (\<lambda>_.
     modify (\<lambda>m. if m_files m p = None then m\<lparr>m_files := (m_files m)(p \<mapsto> Folder)\<rparr> else m)))"

definition overwrite :: "string \<Rightarrow> bytes \<Rightarrow> ('g, unit) io" where
  "overwrite p raw = bnd (lookup p) (\<lambda>n. bnd (deny (n = Some Folder) OsErr) (\<lambda>_.
     modify (\<lambda>m. m\<lparr>m_files := (m_files m)(p \<mapsto> File raw (if is_file n then link_count n else 1) (executable n))\<rparr>)))"

text \<open>Into an artifact beside the workspace.\<close>

definition write_artifact :: "'g host \<Rightarrow> run_workspace \<Rightarrow> uuid \<Rightarrow> uuid \<Rightarrow> ustring \<Rightarrow> ('g, string \<times> string) io" where
  "write_artifact h w rid review content =
     (let base = below (parent_path (ws_path w)) ''.artifacts''; dir = below base (uuid_str rid);
          p = below dir (uuid_str review @ ''.md'') in
      bnd (make_folder base) (\<lambda>_. bnd (make_folder dir) (\<lambda>_.
      bnd (lookup p) (\<lambda>n. bnd (lookup dir) (\<lambda>d.
      bnd (deny (n = Some Symlink \<or> d = Some Symlink) PolicyDenied) (\<lambda>_.
      bnd (the_or ValueErr (utf8_encode content)) (\<lambda>raw.
      bnd (overwrite p raw) (\<lambda>_. ret (p, sha_hex h raw)))))))))"

definition document_changes :: "env \<Rightarrow> 'g host \<Rightarrow> uuid \<Rightarrow> uuid \<Rightarrow> change_report \<Rightarrow> delivery_policy \<Rightarrow> ('g, artifact) job" where
  "document_changes env h rid actor report policy = with_unit (bnd (db (locked_run rid)) (\<lambda>r.
     bnd (db (run_actors rid)) (\<lambda>acs. bnd (db (execution_workspace rid)) (\<lambda>ws. bnd (current_contract r) (\<lambda>goal.
     bnd (db (execution_reviews rid)) (\<lambda>reviews.
     bnd (the_or NotFound ws) (\<lambda>w. bnd (the_or NotFound goal) (\<lambda>gc.
     bnd (deny (reviews = [] \<or> \<not> rep_passed report) NotFound) (\<lambda>_.
     bnd (the_or PolicyDenied (find (\<lambda>a. actor_id a = actor) acs)) (\<lambda>a.
     bnd (deny (actor_role a \<noteq> Some ROLE_DOCUMENTATION \<or> actor_status a \<noteq> ACT_WORKING) PolicyDenied) (\<lambda>_.
     let rv = last reviews; aid = uuid5 rid (''documentation:'' @ uuid_str (rev_id rv)) in
     bnd (deny (\<not> rr_pass (rev_result rv)) PolicyDenied) (\<lambda>_.
     bnd (db (delivery_artifacts rid)) (\<lambda>artifacts. case find (\<lambda>x. art_id x = aid) artifacts of
       Some existing \<Rightarrow> bnd (on_host (unchanged_document h existing)) (\<lambda>same. bnd (deny (\<not> same) Conflict) (\<lambda>_. ret existing))
     | None \<Rightarrow> (let content = ascii (document_text r gc rv report) in
         bnd (deny (h_safe h content \<noteq> content) PolicyDenied) (\<lambda>_.
         bnd (on_host (if given (dp_doc_path policy) then write_block h w rid (the (dp_doc_path policy)) content
              else write_artifact h w rid (rev_id rv) content)) (\<lambda>(p, digest).
         bnd (db (utc_now env)) (\<lambda>created.
         let art = \<lparr>art_id = aid, art_created = created, art_run = rid, art_task = actor_task a, art_type = ''documentation'',
               art_path = p, art_hash = digest\<rparr> in
         bnd (db (save_artifact art)) (\<lambda>_.
         bnd (db (utc_now env)) (\<lambda>now.
         bnd (db (emit env r EV_DOCUMENTATION_UPDATED (''documentation:'' @ uuid_str aid) now
           (no_payload\<lparr>pl_summary := Some ''Documented accepted changes and validation references''\<rparr>) (Some actor) None None)) (\<lambda>_.
         bnd (db (commit env)) (\<lambda>_. ret art)))))))))))))))))))))"

section \<open>Commit and push\<close>

definition git_operator :: "uuid \<Rightarrow> uuid \<Rightarrow> ('g, unit) job" where
  "git_operator rid actor = bnd (db (run_actors rid)) (\<lambda>acs.
     deny (case find (\<lambda>a. actor_id a = actor) acs of None \<Rightarrow> True
       | Some a \<Rightarrow> actor_role a \<noteq> Some ROLE_GITOPS \<or> actor_status a \<noteq> ACT_WORKING) PolicyDenied)"

text \<open>The author, resolved once from the policy or from Git's configuration and then kept in the run's log.\<close>

definition author_field :: "'g host \<Rightarrow> run_workspace \<Rightarrow> string option \<Rightarrow> string \<Rightarrow> ('g, string) io" where
  "author_field h w configured key = (if given configured then ret (the configured) else git_word h (ws_path w) (ConfigGet key))"

definition resolve_identity :: "env \<Rightarrow> 'g host \<Rightarrow> run \<Rightarrow> run_workspace \<Rightarrow> delivery_policy \<Rightarrow> uuid \<Rightarrow> ('g, event) job" where
  "resolve_identity env h r w policy actor =
     bnd (on_host (author_field h w (dp_author_name policy) ''user.name'')) (\<lambda>name.
     bnd (on_host (author_field h w (dp_author_email policy) ''user.email'')) (\<lambda>email.
     bnd (deny (\<not> delivery_policy_ok (policy\<lparr>dp_author_name := Some name, dp_author_email := Some email\<rparr>)) ValueErr) (\<lambda>_.
     bnd (db (utc_now env)) (\<lambda>now.
     db (emit env r EV_APPROVAL_RECORDED ''git:identity'' now
       (no_payload\<lparr>pl_git_author_name := Some name, pl_git_author_email := Some email,
          pl_summary := Some ''Git author identity resolved''\<rparr>) (Some actor) None None)))))"

definition commit_message :: "uuid \<Rightarrow> run_workspace \<Rightarrow> goal_contract \<Rightarrow> change_report \<Rightarrow> string" where
  "commit_message rid w gc report = ''feat: '' @ take 100 (hd (text_lines (goal_text (gc_goal gc)))) @ line_feed @ line_feed
     @ ''Orqalis-Run: '' @ uuid_str rid @ line_feed @ ''Goal-Version: '' @ nat_str (goal_number (gc_goal gc)) @ line_feed
     @ ''Base-Commit: '' @ ws_base w @ line_feed @ line_feed @ ''Changes:'' @ line_feed
     @ join_str line_feed (map (\<lambda>c. ''- '' @ change_status_str (cf_status c) @ '': '' @ cf_path c) (rep_changes report))
     @ line_feed @ line_feed
     @ ''Validation: all required criteria passed; independent review, Change Guardian, documentation and final validation passed.''
     @ line_feed"

definition new_delivery :: "uuid \<Rightarrow> run_workspace \<Rightarrow> goal_contract \<Rightarrow> change_report \<Rightarrow> string \<Rightarrow> delivery_policy \<Rightarrow> time \<Rightarrow> git_delivery" where
  "new_delivery rid w gc report tree policy created = \<lparr>gd_id = uuid5 rid ''git-delivery'', gd_created = created,
     gd_run = rid, gd_base = ws_base w, gd_branch = ws_branch w, gd_tree = rep_tree report, gd_git_tree = tree,
     gd_message = commit_message rid w gc report, gd_attached = False, gd_commit = None,
     gd_push = (if dp_push policy then PUSH_PENDING else PUSH_NOT_REQUESTED),
     gd_remote = (if dp_push policy then Some (dp_remote policy) else None), gd_policy = policy\<rparr>"

record commit_start =
  cs_workspace :: run_workspace
  cs_project :: project
  cs_identity :: "event option"
  cs_delivery :: git_delivery

definition last_final :: "uuid \<Rightarrow> ('g, change_report) job" where
  "last_final rid = bnd (db (delivery_guardians rid)) (\<lambda>reports.
     the_or IndexErr (if final_reports reports = [] then None else Some (last (final_reports reports))))"

text \<open>The commit intent: the staged tree and the message, persisted before any commit object is made.\<close>

definition record_intent :: "env \<Rightarrow> 'g host \<Rightarrow> run \<Rightarrow> run_workspace \<Rightarrow> project \<Rightarrow> delivery_policy \<Rightarrow> ('g, git_delivery) job" where
  "record_intent env h r w project policy =
     bnd (last_final (run_id r)) (\<lambda>report.
     bnd (on_host (stage_report h w report (ps_protected (proj_settings project)))) (\<lambda>tree.
     bnd (current_contract r) (\<lambda>goal. bnd (the_or AssertFail goal) (\<lambda>gc.
     bnd (deny (text_lines (goal_text (gc_goal gc)) = []) IndexErr) (\<lambda>_.
     bnd (db (utc_now env)) (\<lambda>created.
     let d = new_delivery (run_id r) w gc report tree policy created in
     bnd (db (delivery_save d)) (\<lambda>_. bnd (db (commit env)) (\<lambda>_. ret d))))))))"

definition begin_commit :: "env \<Rightarrow> 'g host \<Rightarrow> uuid \<Rightarrow> delivery_policy \<Rightarrow> uuid \<Rightarrow> ('g, commit_start) job" where
  "begin_commit env h rid policy actor = with_unit (bnd (db (locked_run rid)) (\<lambda>r.
     bnd (deny (run_state r \<noteq> RS_COMMITTING) PolicyDenied) (\<lambda>_.
     bnd (git_operator rid actor) (\<lambda>_.
     bnd (db (guard_delivery r RS_COMMITTING)) (\<lambda>_.
     bnd (db (execution_workspace rid)) (\<lambda>ws. bnd (the_or NotFound ws) (\<lambda>w.
     bnd (the_or NotFound (env_project env (run_project r))) (\<lambda>project.
     bnd (deny (dp_push policy \<and> \<not> ps_allow_push (proj_settings project)) PolicyDenied) (\<lambda>_.
     bnd (db (delivery_get rid)) (\<lambda>existing.
     bnd (deny (case existing of None \<Rightarrow> False | Some d \<Rightarrow> gd_policy d \<noteq> policy) Conflict) (\<lambda>_.
     bnd (db (events_by_key rid ''git:identity'')) (\<lambda>known.
     bnd (if known = None \<and> (case existing of None \<Rightarrow> True | Some d \<Rightarrow> gd_commit d = None)
          then bnd (resolve_identity env h r w policy actor) (\<lambda>e. ret (Some e)) else ret known) (\<lambda>identity.
     bnd (case existing of
          None \<Rightarrow> record_intent env h r w project policy
        | Some d \<Rightarrow> bnd (if identity \<noteq> None then db (commit env) else ret ()) (\<lambda>_. ret d)) (\<lambda>d.
     ret \<lparr>cs_workspace = w, cs_project = project, cs_identity = identity, cs_delivery = d\<rparr>))))))))))))))"

text \<open>The workspace is still at its base with the staged tree of the intent, or at the commit, unchanged.\<close>

definition check_worktree :: "'g host \<Rightarrow> uuid \<Rightarrow> commit_start \<Rightarrow> ('g, unit) job" where
  "check_worktree h rid st = bnd (on_host (worktree_status h (ws_path (cs_workspace st)))) (\<lambda>state.
     if st_head state = ws_base (cs_workspace st) then
       bnd (with_unit (last_final rid)) (\<lambda>report.
       bnd (on_host (stage_report h (cs_workspace st) report (ps_protected (proj_settings (cs_project st))))) (\<lambda>tree.
       deny (tree \<noteq> gd_git_tree (cs_delivery st)) Conflict))
     else deny (Some (st_head state) \<noteq> gd_commit (cs_delivery st) \<or> st_changed state \<noteq> []) Conflict)"

text \<open>The commit object, made once from the intent and its persisted time and author.\<close>

definition ensure_commit :: "env \<Rightarrow> 'g host \<Rightarrow> uuid \<Rightarrow> delivery_policy \<Rightarrow> commit_start \<Rightarrow> ('g, git_delivery \<times> string) job" where
  "ensure_commit env h rid policy st = (let d = cs_delivery st in case gd_commit d of
       Some sha \<Rightarrow> ret (d, sha)
     | None \<Rightarrow> bnd (the_or AssertFail (cs_identity st)) (\<lambda>e.
         bnd (on_host (create_commit h (cs_workspace st) (gd_git_tree d) (gd_message d) (gd_created d)
           (policy\<lparr>dp_author_name := pl_git_author_name (event_payload e),
                    dp_author_email := pl_git_author_email (event_payload e)\<rparr>))) (\<lambda>sha.
         let made = d\<lparr>gd_commit := Some sha\<rparr> in
         bnd (with_unit (bnd (db (locked_run rid)) (\<lambda>_. bnd (db (delivery_save made)) (\<lambda>_. db (commit env))))) (\<lambda>_.
         ret (made, sha)))))"

definition deliver_commit :: "env \<Rightarrow> 'g host \<Rightarrow> uuid \<Rightarrow> delivery_policy \<Rightarrow> uuid \<Rightarrow> ('g, git_delivery) job" where
  "deliver_commit env h rid policy actor = bnd (begin_commit env h rid policy actor) (\<lambda>st.
     bnd (check_worktree h rid st) (\<lambda>_.
     bnd (ensure_commit env h rid policy st) (\<lambda>(made, sha).
     bnd (on_host (attach_commit h (cs_workspace st) sha (ps_protected (proj_settings (cs_project st))))) (\<lambda>_.
     with_unit (bnd (db (locked_run rid)) (\<lambda>r.
       let attached = made\<lparr>gd_attached := True\<rparr> in
       bnd (db (delivery_save attached)) (\<lambda>_.
       bnd (db (utc_now env)) (\<lambda>now.
       bnd (db (emit env r EV_COMMIT_CREATED (''commit:'' @ uuid_str (gd_id made)) now
         (no_payload\<lparr>pl_summary := Some sha\<rparr>) (Some actor) None None)) (\<lambda>_.
       bnd (db (commit env)) (\<lambda>_. ret attached))))))))))"

record push_start =
  ps_delivery :: git_delivery
  ps_sha :: string
  ps_workspace :: run_workspace
  ps_of :: project

definition begin_push :: "env \<Rightarrow> uuid \<Rightarrow> uuid \<Rightarrow> ('g, push_start) job" where
  "begin_push env rid actor = with_unit (bnd (db (locked_run rid)) (\<lambda>r.
     bnd (deny (run_state r \<noteq> RS_PUSHING) PolicyDenied) (\<lambda>_.
     bnd (git_operator rid actor) (\<lambda>_.
     bnd (db (guard_delivery r RS_PUSHING)) (\<lambda>_.
     bnd (db (delivery_get rid)) (\<lambda>existing. bnd (db (execution_workspace rid)) (\<lambda>ws.
     bnd (the_or AssertFail existing) (\<lambda>d.
     bnd (the_or AssertFail (if given (gd_commit d) then gd_commit d else None)) (\<lambda>sha.
     bnd (the_or AssertFail ws) (\<lambda>w.
     bnd (the_or AssertFail (env_project env (run_project r))) (\<lambda>project.
     bnd (deny (\<not> ps_allow_push (proj_settings project)) PolicyDenied) (\<lambda>_.
     ret \<lparr>ps_delivery = d, ps_sha = sha, ps_workspace = w, ps_of = project\<rparr>))))))))))))"

definition deliver_push :: "env \<Rightarrow> 'g host \<Rightarrow> uuid \<Rightarrow> uuid \<Rightarrow> ('g, git_delivery) job" where
  "deliver_push env h rid actor = bnd (begin_push env rid actor) (\<lambda>st. let d = ps_delivery st in
     if gd_push d = PUSH_PUSHED then ret d
     else bnd (on_host (push_commit h (ps_workspace st) (ps_sha st) (gd_policy d) (ps_protected (proj_settings (ps_of st))))) (\<lambda>_.
       with_unit (bnd (db (locked_run rid)) (\<lambda>r.
         let pushed = d\<lparr>gd_push := PUSH_PUSHED\<rparr> in
         bnd (db (delivery_save pushed)) (\<lambda>_.
         bnd (db (utc_now env)) (\<lambda>now.
         bnd (db (emit env r EV_PUSH_COMPLETED (''push:'' @ uuid_str (gd_id d)) now
           (no_payload\<lparr>pl_summary := Some (ps_sha st)\<rparr>) (Some actor) None None)) (\<lambda>_.
         bnd (db (commit env)) (\<lambda>_. ret pushed))))))))"

section \<open>Curation\<close>

text \<open>
  The curated memory store is reached through \<open>propose\<close>: task capsule, title, content, commit and evidence
  give the identifier of the proposed record and whether the policy of the project approved it.
\<close>

type_synonym 'g propose = "string \<Rightarrow> string \<Rightarrow> string \<Rightarrow> string \<Rightarrow> string list \<Rightarrow> ('g, string \<times> bool) io"

definition outcome_text :: "uuid \<Rightarrow> goal_contract \<Rightarrow> string \<Rightarrow> final_validation \<Rightarrow> string" where
  "outcome_text rid gc sha final = ''Delivered goal: '' @ goal_text (gc_goal gc) @ line_feed @ ''Commit: '' @ sha @ line_feed
     @ ''Run: '' @ uuid_str rid @ line_feed @ ''Goal version: '' @ nat_str (goal_number (gc_goal gc))
     @ ''; required acceptance passed.'' @ line_feed @ ''Final validation: '' @ uuid_str (fv_id final) @ ''; evidence: ''
     @ join_str '', '' (map uuid_str (fv_evidence final))"

record curation_start =
  cu_sha :: string
  cu_content :: string
  cu_final :: uuid
  cu_replayed :: "uuid list option"

definition replayed_ids :: "event option \<Rightarrow> uuid list option" where
  "replayed_ids e = map_option (\<lambda>x. pl_memory (event_payload x)) e"

definition begin_curation :: "env \<Rightarrow> 'g host \<Rightarrow> uuid \<Rightarrow> uuid \<Rightarrow> ('g, curation_start) job" where
  "begin_curation env h rid actor = with_unit (bnd (db (locked_run rid)) (\<lambda>r.
     bnd (deny (run_state r \<noteq> RS_MEMORY_FINALIZATION) PolicyDenied) (\<lambda>_.
     bnd (db (guard_delivery r RS_MEMORY_FINALIZATION)) (\<lambda>_.
     bnd (active_actor rid actor ROLE_MEMORY_CURATOR) (\<lambda>_.
     bnd (db (delivery_get rid)) (\<lambda>existing. bnd (db (execution_workspace rid)) (\<lambda>ws.
     bnd (the_or AssertFail existing) (\<lambda>d.
     bnd (the_or AssertFail (if given (gd_commit d) then gd_commit d else None)) (\<lambda>sha.
     bnd (the_or AssertFail ws) (\<lambda>w.
     bnd (the_or AssertFail (env_project env (run_project r))) (\<lambda>_.
     bnd (on_host (worktree_status h (ws_path w))) (\<lambda>state.
     bnd (on_host (git_word h (ws_path w) RevParseHeadTree)) (\<lambda>tree.
     bnd (deny (st_head state \<noteq> sha \<or> st_changed state \<noteq> [] \<or> tree \<noteq> gd_git_tree d) PolicyDenied) (\<lambda>_.
     bnd (db (events_by_key rid ''curation:promoted'')) (\<lambda>replay.
     bnd (current_contract r) (\<lambda>goal.
     bnd (db (delivery_validations rid)) (\<lambda>vs.
     bnd (the_or IndexErr (if vs = [] then None else Some (last vs))) (\<lambda>final.
     bnd (the_or AssertFail goal) (\<lambda>gc.
     let content = outcome_text rid gc sha final in
     bnd (deny (\<not> safe_text env content) PolicyDenied) (\<lambda>_.
     ret \<lparr>cu_sha = sha, cu_content = content, cu_final = fv_id final, cu_replayed = replayed_ids replay\<rparr>))))))))))))))))))))"

definition finish_curation :: "env \<Rightarrow> uuid \<Rightarrow> uuid \<Rightarrow> string \<Rightarrow> bool \<Rightarrow> ('g, uuid list) job" where
  "finish_curation env rid actor record_id approved = with_unit (bnd (db (locked_run rid)) (\<lambda>r.
     bnd (deny (run_state r \<noteq> RS_MEMORY_FINALIZATION) PolicyDenied) (\<lambda>_.
     bnd (db (guard_delivery r RS_MEMORY_FINALIZATION)) (\<lambda>_.
     bnd (db (events_by_key rid ''curation:promoted'')) (\<lambda>replay. case replayed_ids replay of
       Some ids \<Rightarrow> ret ids
     | None \<Rightarrow> (let receipt = uuid5 rid (''curated-memory:'' @ record_id) in
         bnd (db (utc_now env)) (\<lambda>now.
         bnd (db (emit env r EV_MEMORY_PROMOTED ''curation:promoted'' now
           (no_payload\<lparr>pl_memory := [receipt], pl_summary := Some (if approved then ''Approved curated memory '' @ record_id
              else ''Staged curated memory '' @ record_id @ '' for review'')\<rparr>) (Some actor) None None)) (\<lambda>_.
         bnd (db (commit env)) (\<lambda>_. ret [receipt])))))))))"

definition promote :: "env \<Rightarrow> 'g host \<Rightarrow> 'g propose \<Rightarrow> uuid \<Rightarrow> uuid \<Rightarrow> ('g, uuid list) job" where
  "promote env h propose rid actor = bnd (begin_curation env h rid actor) (\<lambda>st.
     bnd (db (with_uow (optional (\<lambda>c. Some (cap_id c)) rid))) (\<lambda>found. bnd (the_or PolicyDenied found) (\<lambda>capsule_id.
     bnd (on_host (propose capsule_id (''Accepted task '' @ capsule_id) (cu_content st) (cu_sha st)
       [''commit:'' @ cu_sha st, ''final-validation:'' @ uuid_str (cu_final st)])) (\<lambda>(record_id, approved).
     case cu_replayed st of Some ids \<Rightarrow> ret ids
     | None \<Rightarrow> finish_curation env rid actor record_id approved))))"

section \<open>The coordinator\<close>

text \<open>What the coordinator is built with: the parameters of its services, and the policy of the call.\<close>

record 'g delivering =
  dl_env :: env
  dl_host :: "'g host"
  dl_tools :: diff_tools
  dl_runner :: "'g runner"
  dl_propose :: "'g propose"

text \<open>\<^verbatim>\<open>_check_report\<close>: an implementation report is for the reviewed tree, a final one for the validated tree.\<close>

definition check_report :: "uuid \<Rightarrow> change_report \<Rightarrow> delivery_policy \<Rightarrow> ('g, unit) job" where
  "check_report rid report policy = bnd (deny (\<not> rep_passed report) PolicyDenied) (\<lambda>_. with_unit (
     if rep_checkpoint report = CP_IMPLEMENTATION then
       bnd (db (execution_reviews rid)) (\<lambda>reviews. bnd (deny (reviews = []) IndexErr) (\<lambda>_.
       deny (rep_tree report \<noteq> rev_tree (last reviews)) PolicyDenied))
     else bnd (db (delivery_guardians rid)) (\<lambda>reports.
       bnd (deny (implementation_reports reports = []) IndexErr) (\<lambda>_.
       bnd (deny (differing_paths policy (rep_changes (last (implementation_reports reports))) (rep_changes report) \<noteq> []) PolicyDenied) (\<lambda>_.
       bnd (db (delivery_validations rid)) (\<lambda>vs.
       deny (vs = [] \<or> fv_tree (last vs) \<noteq> rep_tree report) PolicyDenied))))))"

definition deliver_git :: "'g delivering \<Rightarrow> uuid \<Rightarrow> task_execution \<Rightarrow> delivery_policy \<Rightarrow> ('g, unit) job" where
  "deliver_git D rid x policy = bnd (db (with_uow (locked_run rid))) (\<lambda>r.
     bnd (if run_state r = RS_COMMITTING
          then bnd (deliver_commit (dl_env D) (dl_host D) rid policy (exec_actor x)) (\<lambda>_. ret ()) else ret ()) (\<lambda>_.
     if dp_push policy then
       bnd (if run_state r \<noteq> RS_PUSHING
            then bnd (db (advance (dl_env D) rid RS_PUSHING ''delivery:state:PUSHING'')) (\<lambda>_. ret ()) else ret ()) (\<lambda>_.
       bnd (deliver_push (dl_env D) (dl_host D) rid (exec_actor x)) (\<lambda>_. ret ()))
     else ret ()))"

definition step_target :: "string \<Rightarrow> run_state" where
  "step_target step = (if step = ''implementation'' then RS_CHANGE_GUARD else if step = ''documentation'' then RS_DOCUMENTING
     else if step = ''validation'' \<or> step = ''final'' then RS_DELIVERY_VALIDATION else if step = ''git'' then RS_COMMITTING
     else RS_MEMORY_FINALIZATION)"

text \<open>The work of one delivery task.\<close>

definition step_work :: "'g delivering \<Rightarrow> uuid \<Rightarrow> task_execution \<Rightarrow> delivery_policy \<Rightarrow> string \<Rightarrow> ('g, unit) job" where
  "step_work D rid x policy step = (let env = dl_env D; h = dl_host D; actor = exec_actor x in
     if step = ''implementation'' \<or> step = ''final'' then
       bnd (certify env h (dl_tools D) rid actor policy (if step = ''final'' then CP_FINAL else CP_IMPLEMENTATION)) (\<lambda>report.
       check_report rid report policy)
     else if step = ''documentation'' then
       bnd (with_unit (bnd (db (delivery_guardians rid)) (\<lambda>reports.
         the_or IndexErr (if implementation_reports reports = [] then None else Some (last (implementation_reports reports)))))) (\<lambda>accepted.
       bnd (document_changes env h rid actor accepted policy) (\<lambda>_. ret ()))
     else if step = ''validation'' then
       bnd (final_validate env h (dl_runner D) rid x) (\<lambda>v. deny (\<not> fv_passed v) PolicyDenied)
     else if step = ''memory'' then bnd (promote env h (dl_propose D) rid actor) (\<lambda>_. ret ())
     else deliver_git D rid x policy)"

text \<open>An error of the code's own hierarchy blocks the task and the run, unless the run has ended, and is raised again.\<close>

definition block_step :: "'g delivering \<Rightarrow> uuid \<Rightarrow> task_execution \<Rightarrow> err \<Rightarrow> ('g, unit) job" where
  "block_step D rid x e = bnd (db (with_uow (locked_run rid))) (\<lambda>r.
     if run_state r \<in> {RS_CANCELLED, RS_FAILED, RS_COMPLETED} then raise_err e
     else bnd (db (transition_task (dl_env D) rid (exec_id x) TS_BLOCKED (''delivery:blocked:'' @ uuid_str (exec_id x)))) (\<lambda>_.
       bnd (db (advance (dl_env D) rid RS_BLOCKED (''delivery:blocked:'' @ uuid_str (exec_id x)))) (\<lambda>_.
       raise_err e)))"

definition step_task :: "uuid \<Rightarrow> string \<Rightarrow> (run \<times> task) act" where
  "step_task rid step = with_uow (bnd (locked_run rid) (\<lambda>r. bnd (get_plan rid (run_plan_version r)) (\<lambda>plan.
     bnd (the_or AssertFail plan) (\<lambda>p.
     bnd (the_or RuntimeErr (find (\<lambda>t. task_id t = delivery_task_id rid step) (plan_tasks p))) (\<lambda>t.
     bnd (deny (task_status t \<notin> {TS_SUCCEEDED, TS_READY, TS_RUNNING}) Conflict) (\<lambda>_. ret (r, t)))))))"

definition step_attempt :: "'g delivering \<Rightarrow> uuid \<Rightarrow> string \<Rightarrow> task \<Rightarrow> ('g, task_execution) job" where
  "step_attempt D rid step t = bnd (db (with_uow (run_executions rid))) (\<lambda>xs.
     case find (\<lambda>x. exec_task x = task_id t \<and> exec_status x = TS_RUNNING) xs of
       Some x \<Rightarrow> ret x
     | None \<Rightarrow> db (start_task (dl_env D) rid (task_id t)
         (''delivery:start:'' @ step @ '':attempt:'' @ nat_str (Suc (task_attempts t)))))"

definition deliver_step :: "'g delivering \<Rightarrow> uuid \<Rightarrow> delivery_policy \<Rightarrow> string \<Rightarrow> ('g, unit) job" where
  "deliver_step D rid policy step = bnd (db (step_task rid step)) (\<lambda>(r, t).
     if task_status t = TS_SUCCEEDED then ret ()
     else bnd (if run_state r \<noteq> step_target step \<and> \<not> (step = ''git'' \<and> run_state r = RS_PUSHING)
          then bnd (db (advance (dl_env D) rid (step_target step) (''delivery:state:'' @ run_state_str (step_target step)))) (\<lambda>_. ret ())
          else ret ()) (\<lambda>_.
       bnd (step_attempt D rid step t) (\<lambda>x.
       catch (bnd (step_work D rid x policy step) (\<lambda>_.
           bnd (db (transition_task (dl_env D) rid (exec_id x) TS_SUCCEEDED
             (''delivery:done:'' @ step @ '':'' @ uuid_str (exec_id x)))) (\<lambda>_. ret ())))
         orqalis_error (block_step D rid x))))"

text \<open>The approval of the delivery: the policy is bound to the run once, with the approval it was granted by.\<close>

definition delivery_checkpoints :: "run_state list" where
  "delivery_checkpoints = [RS_REVIEWING, RS_CHANGE_GUARD, RS_DOCUMENTING, RS_DELIVERY_VALIDATION, RS_COMMITTING, RS_PUSHING,
     RS_MEMORY_FINALIZATION, RS_COMPLETED]"

definition bool_str :: "bool \<Rightarrow> string" where
  "bool_str b = (if b then ''True'' else ''False'')"

definition delivery_reason :: "review_record \<Rightarrow> delivery_policy \<Rightarrow> string" where
  "delivery_reason rv policy = ''Review tree '' @ take 16 (rev_tree rv) @ '', push='' @ bool_str (dp_push policy) @ '', remote=''
     @ dp_remote policy @ '', docs='' @ (if given (dp_doc_path policy) then the (dp_doc_path policy) else ''none'')
     @ '', sensitive paths='' @ nat_str (length (dp_sensitive policy)) @ '', reviewed test changes=''
     @ nat_str (length (dp_tests policy)) @ ''. Inspect the delivery policy and repository diff before approval.''"

definition begin_delivery :: "env \<Rightarrow> uuid \<Rightarrow> delivery_policy \<Rightarrow> (run \<times> review_record option) act" where
  "begin_delivery env rid policy = with_uow (bnd (locked_run rid) (\<lambda>r.
     bnd (deny (run_state r \<notin> set delivery_checkpoints) Conflict) (\<lambda>_.
     bnd (events_by_key rid ''delivery:policy'') (\<lambda>bound. case bound of
       Some e \<Rightarrow> bnd (deny (pl_summary (event_payload e) \<noteq> Some (fingerprint env (DocPolicy policy))) Conflict) (\<lambda>_. ret (r, None))
     | None \<Rightarrow> bnd (execution_reviews rid) (\<lambda>reviews.
         bnd (deny (reviews = [] \<or> \<not> rr_pass (rev_result (last reviews))) Conflict) (\<lambda>_. ret (r, Some (last reviews))))))))"

definition approve_delivery :: "env \<Rightarrow> uuid \<Rightarrow> delivery_policy \<Rightarrow> run \<Rightarrow> review_record option \<Rightarrow> approval_request option act" where
  "approve_delivery env rid policy r review = (case review of None \<Rightarrow> ret None
     | Some rv \<Rightarrow> bnd (ensure_approval env rid STAGE_DELIVERY (run_plan_version r) (delivery_subject env r rv policy)
         (delivery_reason rv policy)) (\<lambda>q.
       bnd (deny (unapproved q) PolicyDenied) (\<lambda>_. ret q)))"

definition bind_policy :: "env \<Rightarrow> uuid \<Rightarrow> delivery_policy \<Rightarrow> approval_request option \<Rightarrow> task_plan act" where
  "bind_policy env rid policy requested = with_uow (bnd (locked_run rid) (\<lambda>r.
     bnd (events_by_key rid ''delivery:policy'') (\<lambda>bound.
     bnd (if bound = None then
            bnd (utc_now env) (\<lambda>now.
            bnd (emit env r EV_APPROVAL_RECORDED ''delivery:policy'' now
              (no_payload\<lparr>pl_summary := Some (fingerprint env (DocPolicy policy)), pl_reason := Some ''Explicit delivery policy'',
                 pl_approval_request := map_option req_id requested, pl_approval_digest := map_option req_digest requested\<rparr>)
              None None None) (\<lambda>_. commit env))
          else ret ()) (\<lambda>_.
     bnd (get_plan rid (run_plan_version r)) (\<lambda>plan. the_or NotFound plan)))))"

record delivery_result =
  dr_run :: uuid
  dr_state :: run_state
  dr_commit :: "string option"
  dr_pushed :: bool
  dr_paths :: "string list"

definition finish_delivery :: "'g delivering \<Rightarrow> uuid \<Rightarrow> ('g, delivery_result) job" where
  "finish_delivery D rid = bnd (db (with_uow (locked_run rid))) (\<lambda>r.
     bnd (if run_state r = RS_MEMORY_FINALIZATION
          then bnd (db (advance (dl_env D) rid RS_COMPLETED ''delivery:completed'')) (\<lambda>_. ret ()) else ret ()) (\<lambda>_.
     with_unit (bnd (db (locked_run rid)) (\<lambda>ended. bnd (db (delivery_get rid)) (\<lambda>found.
       bnd (last_final rid) (\<lambda>report. bnd (the_or AssertFail found) (\<lambda>d.
       ret \<lparr>dr_run = rid, dr_state = run_state ended, dr_commit = gd_commit d, dr_pushed = (gd_push d = PUSH_PUSHED),
            dr_paths = map cf_path (rep_changes report)\<rparr>)))))))"

definition finalize_run :: "'g delivering \<Rightarrow> uuid \<Rightarrow> delivery_policy \<Rightarrow> ('g, delivery_result) job" where
  "finalize_run D rid policy = (let env = dl_env D in
     bnd (db (begin_delivery env rid policy)) (\<lambda>(r, review).
     bnd (db (approve_delivery env rid policy r review)) (\<lambda>requested.
     bnd (db (bind_policy env rid policy requested)) (\<lambda>plan.
     bnd (if find (\<lambda>t. task_id t = delivery_task_id rid ''git'') (plan_tasks plan) = None
          then bnd (db (delivery_plan env plan)) (\<lambda>p. bnd (db (install_revision env p ''delivery:plan'' False)) (\<lambda>_. ret ()))
          else ret ()) (\<lambda>_.
     bnd (for_each (map fst delivery_steps) (deliver_step D rid policy)) (\<lambda>_.
     finish_delivery D rid))))))"

text \<open>\<^verbatim>\<open>finalize\<close>: only one worker drives a run at a time.\<close>

definition finalize :: "'g delivering \<Rightarrow> uuid \<Rightarrow> delivery_policy \<Rightarrow> ('g, delivery_result) job" where
  "finalize D rid policy = bnd (db (with_uow (bnd (load rid) (\<lambda>_. lease_free (dl_env D))))) (\<lambda>free.
     bnd (deny (\<not> free) Conflict) (\<lambda>_.
     bnd (db (with_uow (locked_run rid))) (\<lambda>_. finalize_run D rid policy)))"

section \<open>The contract of the store\<close>

text \<open>
  Every unit of work of delivery follows the contract of the repositories; the coordinator follows every
  order those units and the services it drives follow.
\<close>

lemma keeps_ticket:
  "(\<And>e. keeps S (f e)) \<Longrightarrow> (\<And>k i a t. keeps S (g k i a t)) \<Longrightarrow>
    keeps S (case x of Validated e \<Rightarrow> f e | ToValidate k i a t \<Rightarrow> g k i a t)"
  by (simp split: validation_ticket.split)

context repository_contract
begin

lemma validate_with_evolves: "keeps (on_store T) (validate_with env rid ckey evaluate key xid)"
  unfolding validate_with_def
  by (intro service.job_laws keeps_ticket begin_validation_evolves record_validation_evolves)

lemma job_last_final: "keeps (on_store S) (last_final rid)"
  unfolding last_final_def by (intro job_laws act_laws)

lemma final_units_evolve: "keeps (on_store T) (begin_final env h rid x)"
  "keeps (on_store T) (finish_final env h rid x st contract evidence)"
  unfolding begin_final_def finish_final_def tester_attempt_def final_verdict_def relied_criteria_def Let_def
  by (intro job_unit job_laws act_laws runtime_laws job_current_contract)+

lemma final_validate_evolves: "keeps (on_store T) (final_validate env h run_it rid x)"
  unfolding final_validate_def
  by (intro service.job_laws final_units_evolve validate_with_evolves current_goal_evolves)

lemma document_changes_evolves: "keeps (on_store T) (document_changes env h rid actor report policy)"
  unfolding document_changes_def Let_def by (intro job_unit job_laws act_laws runtime_laws job_current_contract)

lemma commit_units_evolve: "keeps (on_store T) (begin_commit env h rid policy actor)"
  "keeps (on_store T) (with_unit (bnd (db (locked_run rid)) (\<lambda>_. bnd (db (delivery_save d)) (\<lambda>_. db (commit env)))))"
  "keeps (on_store T) (with_unit (last_final rid))"
  unfolding begin_commit_def git_operator_def resolve_identity_def record_intent_def Let_def
  by (intro job_unit job_laws act_laws runtime_laws job_current_contract job_last_final keeps_guard_delivery)+

lemma deliver_commit_evolves: "keeps (on_store T) (deliver_commit env h rid policy actor)"
  unfolding deliver_commit_def check_worktree_def ensure_commit_def Let_def
  by (intro service.job_laws commit_units_evolve job_unit job_laws act_laws runtime_laws)

lemma deliver_push_evolves: "keeps (on_store T) (deliver_push env h rid actor)"
  unfolding deliver_push_def begin_push_def git_operator_def Let_def
  by (intro service.job_laws job_unit job_laws act_laws runtime_laws keeps_guard_delivery)

lemma promote_evolves: "keeps (on_store T) (promote env h propose rid actor)"
  unfolding promote_def begin_curation_def finish_curation_def Let_def
  by (intro service.job_laws job_unit unit_law job_laws act_laws runtime_laws keeps_optional keeps_guard_delivery job_active_actor job_current_contract)

lemma check_report_evolves: "keeps (on_store T) (check_report rid report policy)"
  unfolding check_report_def by (intro service.job_laws job_unit job_laws act_laws)

lemma delivery_reads_evolve: "keeps T (with_uow (locked_run rid))" "keeps T (with_uow (run_executions rid))"
  "keeps T (step_task rid step)" "keeps T (begin_delivery env rid policy)" "keeps T (bind_policy env rid policy q)"
  "keeps T (with_uow (bnd (load rid) (\<lambda>_. lease_free env)))"
  unfolding step_task_def begin_delivery_def bind_policy_def by (intro unit_law act_laws runtime_laws)+

end

locale delivery_driver = repository_contract S U + driver: driven T for S U T :: "uow \<Rightarrow> uow \<Rightarrow> bool" +
  assumes unit_step: "U s t \<Longrightarrow> T s t"
begin

lemma by_unit: "keeps U m \<Longrightarrow> keeps T m"
  using unit_step by (simp add: keeps_def)

lemma by_job: "keeps (on_store U) m \<Longrightarrow> keeps (on_store T) m"
  using unit_step by (rule on_store_mono)

lemma drives_git: "keeps (on_store T) (deliver_git D rid x policy)"
  unfolding deliver_git_def
  by (intro driver.service.job_laws by_unit [OF delivery_reads_evolve(1)] by_job [OF deliver_commit_evolves]
      by_job [OF deliver_push_evolves] driver.moves)

lemma drives_work: "keeps (on_store T) (step_work D rid x policy step)"
  unfolding step_work_def Let_def
  by (intro driver.service.job_laws drives_git by_job [OF certify_evolves] by_job [OF check_report_evolves]
      by_job [OF document_changes_evolves] by_job [OF final_validate_evolves] by_job [OF promote_evolves]
      by_job [OF job_unit] job_laws act_laws)

lemma drives_step: "keeps (on_store T) (deliver_step D rid policy step)"
  unfolding deliver_step_def block_step_def step_attempt_def
  by (intro driver.service.job_laws drives_work driver.moves by_unit [OF delivery_reads_evolve(1)]
      by_unit [OF delivery_reads_evolve(2)] by_unit [OF delivery_reads_evolve(3)] by_unit [OF start_task_evolves]
      by_unit [OF transition_task_evolves])

lemma drives_finalize: "keeps (on_store T) (finalize D rid policy)"
  unfolding finalize_def finalize_run_def approve_delivery_def finish_delivery_def Let_def
  by (intro driver.service.job_laws drives_step driver.driver_laws driver.drives_plans by_unit [OF delivery_reads_evolve(1)]
      by_unit [OF delivery_reads_evolve(4)] by_unit [OF delivery_reads_evolve(5)] by_unit [OF delivery_reads_evolve(6)]
      by_job [OF job_unit] job_laws act_laws runtime_laws job_last_final)

end

end
