(* ===== verification/Orq_Agents.thy ===== *)
theory Orq_Agents
  imports Orq_Review Orq_Plans
begin

text \<open>
  Providers as workers: what each role may do (\<^verbatim>\<open>agents/roles.py\<close>), the choice of a provider and its
  request (\<^verbatim>\<open>agents/routing.py\<close>), the checks of requests and results (\<^verbatim>\<open>providers/validation.py\<close>) and the
  invocation with its persisted record (\<^verbatim>\<open>agents/service.py\<close>). A provider is a parameter: while it is
  called, files and the repository may change in any way. JSON schemas, the serialisation of contracts
  and the selection of skills are parameters too.
\<close>

section \<open>Roles\<close>

definition read_tools :: "tool_name list" where
  "read_tools = [FILE_READ, GIT_DIFF, MEMORY_QUERY]"

definition write_tools :: "tool_name list" where
  "write_tools = read_tools @ [FILE_WRITE, TEST_RUN]"

fun role_capabilities :: "agent_role \<Rightarrow> string list" where
  "role_capabilities ROLE_REQUIREMENTS = [''requirements'']"
| "role_capabilities ROLE_ARCHITECT = [''architecture'']"
| "role_capabilities ROLE_PLANNER = [''planning'']"
| "role_capabilities ROLE_DEVELOPER = [''implementation'']"
| "role_capabilities ROLE_TESTER = [''validation'']"
| "role_capabilities ROLE_REVIEWER = [''acceptance_review'']"
| "role_capabilities ROLE_CHANGE_GUARDIAN = [''scope_review'']"
| "role_capabilities ROLE_REPAIR = [''diagnosis'']"
| "role_capabilities ROLE_DOCUMENTATION = [''documentation'']"
| "role_capabilities ROLE_GITOPS = [''delivery_metadata'']"
| "role_capabilities ROLE_MEMORY_CURATOR = [''memory_curation'']"

definition role_permissions :: "agent_role \<Rightarrow> tool_name list" where
  "role_permissions role = (if role \<in> {ROLE_DEVELOPER, ROLE_TESTER, ROLE_DOCUMENTATION} then write_tools
     else if role = ROLE_REVIEWER then read_tools @ [TEST_RUN] else read_tools)"

definition effective_tools :: "agent_role \<Rightarrow> permission_profile \<Rightarrow> tool_name list" where
  "effective_tools role profile = filter (\<lambda>t. t \<in> set (perm_tools profile)) (role_permissions role)"

fun tool_str :: "tool_name \<Rightarrow> string" where
  "tool_str FILE_READ = ''filesystem.read''"
| "tool_str FILE_WRITE = ''filesystem.write''"
| "tool_str SHELL_RUN = ''shell.run''"
| "tool_str TEST_RUN = ''test.run''"
| "tool_str GIT_DIFF = ''git.diff''"
| "tool_str MEMORY_QUERY = ''memory.query''"

text \<open>The roles a provider may act in; the others are backed by services.\<close>

definition provider_roles :: "agent_role list" where
  "provider_roles = [ROLE_REQUIREMENTS, ROLE_ARCHITECT, ROLE_PLANNER, ROLE_DEVELOPER, ROLE_REVIEWER, ROLE_REPAIR]"

section \<open>Requests\<close>

record tool_definition =
  td_name :: tool_name
  td_description :: string
  td_parameters :: json

record loaded_skill =
  sk_id :: string
  sk_version :: string
  sk_hash :: string
  sk_instructions :: string

text \<open>What the code reads of a context pack; the rest of it is its text.\<close>

record context_pack =
  cp_project :: uuid
  cp_items :: "uuid list"
  cp_indexed :: "string option"
  cp_inspect :: bool
  cp_files :: "string list"
  cp_text :: string

text \<open>\<^verbatim>\<open>ExecutionBudget\<close>, with the timeout as a span of time.\<close>

record execution_budget =
  eb_timeout :: int
  eb_output :: nat
  eb_input :: nat

definition default_budget :: execution_budget where
  "default_budget = \<lparr>eb_timeout = 120000000, eb_output = 4096, eb_input = 150000\<rparr>"

record request =
  rq_invocation :: uuid
  rq_actor :: uuid
  rq_execution :: uuid
  rq_task :: task
  rq_context :: context_pack
  rq_skills :: "loaded_skill list"
  rq_tools :: "tool_definition list"
  rq_constraints :: "string list"
  rq_observations :: "tool_observation list"
  rq_acceptance :: "goal_contract option"
  rq_evidence :: "evidence list"
  rq_findings :: "finding list"
  rq_schema :: json
  rq_budget :: execution_budget

record descriptor =
  pd_id :: string
  pd_model :: string
  pd_capabilities :: "string list"
  pd_available :: bool
  pd_auto :: bool
  pd_max_input :: nat

text \<open>How a provider ends: with a result, by one of its errors, by the timeout, or by any other exception.\<close>

datatype provider_reply = Reply provider_result | Erring provider_error | Expired | Crashed

record 'g provider =
  pv_descriptor :: descriptor
  pv_execute :: "request \<Rightarrow> files \<Rightarrow> 'g \<Rightarrow> provider_reply \<times> files \<times> 'g"

text \<open>
  What the agent service is built with. \<open>ag_providers\<close> is the dictionary of providers in its order,
  \<open>ag_select\<close> is \<^verbatim>\<open>SkillRegistry.select\<close> on capabilities, tools, tags, the role's own capabilities and pins;
  \<open>ag_schema_ok\<close> and \<open>ag_conforms\<close> are the JSON schema library, \<open>ag_prompt\<close> and \<open>ag_result\<close> the JSON of a request
  and of a result, and \<open>ag_length\<close> the length of its text.
\<close>

record 'g agents =
  ag_env :: env
  ag_host :: "'g host"
  ag_providers :: "'g provider list"
  ag_select :: "string list \<Rightarrow> tool_name list \<Rightarrow> string list \<Rightarrow> string list \<Rightarrow> (string \<times> string) list \<Rightarrow> err + loaded_skill list"
  ag_languages :: "project \<Rightarrow> string list"
  ag_pins :: "project \<Rightarrow> (string \<times> string) list"
  ag_schema_ok :: "json \<Rightarrow> bool"
  ag_conforms :: "json \<Rightarrow> json \<Rightarrow> bool"
  ag_prompt :: "request \<Rightarrow> json"
  ag_result :: "provider_result \<Rightarrow> json"
  ag_length :: "json \<Rightarrow> nat"
  ag_fingerprint :: "request \<Rightarrow> string \<Rightarrow> string \<Rightarrow> string"
  ag_policy_text :: "execution_policy \<Rightarrow> string"
  ag_output_schema :: "agent_role \<Rightarrow> json"
  ag_tool_schema :: "tool_name \<Rightarrow> json"

section \<open>Checks\<close>

text \<open>Schema references stay inside the document.\<close>

fun local_references :: "json \<Rightarrow> bool" where
  "local_references (JObj ps) \<longleftrightarrow> (\<forall>p \<in> set ps.
     (fst p \<in> {''$ref'', ''$dynamicRef''} \<longrightarrow> (case snd p of JStr s \<Rightarrow> starts_with ''#'' s | _ \<Rightarrow> False)) \<and> local_references (snd p))"
| "local_references (JArr xs) \<longleftrightarrow> (\<forall>x \<in> set xs. local_references x)"
| "local_references _ \<longleftrightarrow> True"

definition check_schema :: "'g agents \<Rightarrow> json \<Rightarrow> err + unit" where
  "check_schema A schema = (if local_references schema \<and> ag_schema_ok A schema then Inr () else Inl (ProviderFailed PE_INVALID_OUTPUT))"

definition conforming :: "'g agents \<Rightarrow> json \<Rightarrow> json \<Rightarrow> err + unit" where
  "conforming A schema v = (case check_schema A schema of Inl e \<Rightarrow> Inl e
     | Inr _ \<Rightarrow> if ag_conforms A schema v then Inr () else Inl (ProviderFailed PE_INVALID_OUTPUT))"

text \<open>The last definition of a name is the one in the dictionary.\<close>

definition definition_of :: "tool_definition list \<Rightarrow> tool_name \<Rightarrow> tool_definition option" where
  "definition_of tools name = find (\<lambda>d. td_name d = name) (rev tools)"

fun conforming_calls :: "'g agents \<Rightarrow> tool_definition list \<Rightarrow> provider_tool_call list \<Rightarrow> err + unit" where
  "conforming_calls A tools [] = Inr ()"
| "conforming_calls A tools (c # cs) = (case definition_of tools (ptc_name c) of
     None \<Rightarrow> Inl (ProviderFailed PE_INVALID_OUTPUT)
   | Some d \<Rightarrow> (case conforming A (td_parameters d) (ptc_arguments c) of Inl e \<Rightarrow> Inl e | Inr _ \<Rightarrow> conforming_calls A tools cs))"

definition validate_result :: "'g agents \<Rightarrow> request \<Rightarrow> provider_result \<Rightarrow> err + provider_result" where
  "validate_result A q result =
     (if 1000000 < ag_length A (ag_result A result) then Inl (ProviderFailed PE_BUDGET)
      else if \<not> value_safe (ag_env A) (ag_result A result) then Inl (ProviderFailed PE_INVALID_OUTPUT)
      else case (case pr_output result of Some out \<Rightarrow> conforming A (rq_schema q) out
                 | None \<Rightarrow> conforming_calls A (rq_tools q) (pr_calls result)) of
        Inl e \<Rightarrow> Inl e | Inr _ \<Rightarrow> Inr result)"

definition prompt_input :: "'g agents \<Rightarrow> request \<Rightarrow> err + unit" where
  "prompt_input A q = (if eb_input (rq_budget q) < ag_length A (ag_prompt A q) then Inl (ProviderFailed PE_BUDGET)
     else if value_safe (ag_env A) (ag_prompt A q) then Inr () else Inl (ProviderFailed PE_INVALID_OUTPUT))"

section \<open>Routing\<close>

definition provider_named :: "'g agents \<Rightarrow> string \<Rightarrow> 'g provider option" where
  "provider_named A i = find (\<lambda>p. pd_id (pv_descriptor p) = i) (ag_providers A)"

definition candidates :: "'g agents \<Rightarrow> string \<Rightarrow> string list \<Rightarrow> err + 'g provider list" where
  "candidates A wanted allowed =
     (if wanted = ''auto'' then
        Inr (filter (\<lambda>p. pd_available (pv_descriptor p) \<and> pd_auto (pv_descriptor p))
          (List.map_filter (provider_named A) (if allowed = [] then map (pd_id \<circ> pv_descriptor) (ag_providers A) else allowed)))
      else if allowed \<noteq> [] \<and> wanted \<notin> set allowed then Inl PolicyDenied
      else Inr (case provider_named A wanted of None \<Rightarrow> [] | Some p \<Rightarrow> if pd_available (pv_descriptor p) then [p] else []))"

definition capable :: "'g provider \<Rightarrow> tool_definition list \<Rightarrow> bool" where
  "capable p tools \<longleftrightarrow> ''structured_output'' \<in> set (pd_capabilities (pv_descriptor p))
     \<and> (tools \<noteq> [] \<longrightarrow> ''tool_calls'' \<in> set (pd_capabilities (pv_descriptor p)))"

definition fitted :: "request \<Rightarrow> 'g provider \<Rightarrow> request" where
  "fitted q p = q\<lparr>rq_budget := (rq_budget q)\<lparr>eb_input := min (eb_input (rq_budget q)) (pd_max_input (pv_descriptor p))\<rparr>\<rparr>"

text \<open>The request's own constraint: no two definitions of a tool.\<close>

definition request_ok :: "request \<Rightarrow> bool" where
  "request_ok q \<longleftrightarrow> distinct (map td_name (rq_tools q))"

text \<open>The first capable candidate the request fits; in automatic choice one too small for it is passed over.\<close>

fun first_fit :: "'g agents \<Rightarrow> bool \<Rightarrow> request \<Rightarrow> bool \<Rightarrow> 'g provider list \<Rightarrow> err + ('g provider \<times> request)" where
  "first_fit A auto_choice q exceeded [] = Inl (ProviderFailed (if exceeded then PE_BUDGET else PE_UNAVAILABLE))"
| "first_fit A auto_choice q exceeded (p # ps) =
     (if \<not> capable p (rq_tools q) then first_fit A auto_choice q exceeded ps
      else if \<not> request_ok (fitted q p) then Inl ValueErr
      else case prompt_input A (fitted q p) of
        Inr _ \<Rightarrow> Inr (p, fitted q p)
      | Inl e \<Rightarrow> if auto_choice \<and> e = ProviderFailed PE_BUDGET then first_fit A auto_choice q True ps else Inl e)"

definition prepare_request :: "'g agents \<Rightarrow> project \<Rightarrow> string \<Rightarrow> request \<Rightarrow> err + ('g provider \<times> request)" where
  "prepare_request A project wanted q = (let t = rq_task q; names = map td_name (rq_tools q) in
     if \<exists>n \<in> set names. n \<notin> set (effective_tools (task_role t) (ps_permissions (proj_settings project))) then Inl PolicyDenied
     else case ag_select A (task_capabilities t) names (dict_fromkeys (ag_languages A project @ task_capabilities t))
         (role_capabilities (task_role t)) (ag_pins A project) of
       Inl e \<Rightarrow> Inl e
     | Inr skills \<Rightarrow> (case check_schema A (rq_schema q) of Inl e \<Rightarrow> Inl e
       | Inr _ \<Rightarrow> (case candidates A wanted (ps_providers (proj_settings project)) of Inl e \<Rightarrow> Inl e
         | Inr ps \<Rightarrow> if ps = [] then Inl (ProviderFailed PE_UNAVAILABLE)
             else first_fit A (wanted = ''auto'') (q\<lparr>rq_skills := skills\<rparr>) False ps)))"

section \<open>Invocations\<close>

definition invocation_states :: "run_state list" where
  "invocation_states = [RS_ANALYZING, RS_EXECUTING, RS_TESTING, RS_REVIEWING, RS_CHANGE_GUARD, RS_DOCUMENTING]"

fun invocation_status_str :: "invocation_status \<Rightarrow> string" where
  "invocation_status_str INV_RUNNING = ''RUNNING''"
| "invocation_status_str INV_SUCCEEDED = ''SUCCEEDED''"
| "invocation_status_str INV_FAILED = ''FAILED''"
| "invocation_status_str INV_CANCELLED = ''CANCELLED''"
| "invocation_status_str INV_INTERRUPTED = ''INTERRUPTED''"

fun provider_error_str :: "provider_error \<Rightarrow> string" where
  "provider_error_str PE_UNAVAILABLE = ''unavailable''"
| "provider_error_str PE_AUTHENTICATION = ''authentication''"
| "provider_error_str PE_RATE_LIMIT = ''rate_limit''"
| "provider_error_str PE_TIMEOUT = ''timeout''"
| "provider_error_str PE_CANCELLED = ''cancelled''"
| "provider_error_str PE_INVALID_OUTPUT = ''invalid_output''"
| "provider_error_str PE_REFUSED = ''refused''"
| "provider_error_str PE_BUDGET = ''budget''"
| "provider_error_str PE_TRANSPORT = ''transport''"
| "provider_error_str PE_INTERRUPTED = ''interrupted''"
| "provider_error_str PE_INTERNAL = ''internal''"

text \<open>What an invocation is asked for by its caller.\<close>

record order =
  od_execution :: uuid
  od_provider :: string
  od_context :: context_pack
  od_schema :: json
  od_key :: string
  od_tools :: "tool_definition list"
  od_budget :: execution_budget
  od_observations :: "tool_observation list"

definition finished_status :: "provider_error option \<Rightarrow> invocation_status" where
  "finished_status error = (case error of None \<Rightarrow> INV_SUCCEEDED | Some e \<Rightarrow>
     if e = PE_CANCELLED then INV_CANCELLED else if e = PE_INTERRUPTED then INV_INTERRUPTED else INV_FAILED)"

definition finish_invocation :: "env \<Rightarrow> provider_execution \<Rightarrow> provider_result option \<Rightarrow> provider_error option \<Rightarrow> unit act" where
  "finish_invocation env i result error = bnd (locked_run (prov_run i)) (\<lambda>r.
     bnd (utc_now env) (\<lambda>now.
     let at_time = max now (prov_started i); status = finished_status error in
     bnd (providers_save (i\<lparr>prov_status := status, prov_completed := Some at_time, prov_result := result, prov_error := error\<rparr>)) (\<lambda>_.
     bnd (emit env r EV_PROVIDER_INVOCATION_COMPLETED (''provider:'' @ prov_key i @ '':finish'') at_time
       (no_payload\<lparr>pl_provider := Some (prov_id i), pl_status := Some (invocation_status_str status),
          pl_reason := map_option provider_error_str error\<rparr>)
       (Some (prov_actor i)) None (Some (prov_execution i))) (\<lambda>_. ret ()))))"

text \<open>The attempt, the task and the actor of an order, the current goal and the plan of the run.\<close>

record assignment =
  as_run :: run
  as_project :: project
  as_attempt :: task_execution
  as_task :: task
  as_actor :: actor_session
  as_goal :: "goal_contract option"
  as_plan :: "task_plan option"
  as_preparing :: bool

definition assigned :: "env \<Rightarrow> uuid \<Rightarrow> order \<Rightarrow> assignment act" where
  "assigned env rid od = bnd (locked_run rid) (\<lambda>r.
     bnd (the_or NotFound (env_project env (run_project r))) (\<lambda>project.
     bnd (deny (cp_project (od_context od) \<noteq> run_project r) NotFound) (\<lambda>_.
     let allowed = ps_providers (proj_settings project) in
     bnd (deny (od_provider od \<noteq> ''auto'' \<and> allowed \<noteq> [] \<and> od_provider od \<notin> set allowed) PolicyDenied) (\<lambda>_.
     bnd (run_executions rid) (\<lambda>xs.
     bnd (get_plan rid (run_plan_version r)) (\<lambda>plan.
     bnd (the_or NotFound (find (\<lambda>x. exec_id x = od_execution od) xs)) (\<lambda>x.
     bnd (run_tasks rid) (\<lambda>ts. bnd (run_actors rid) (\<lambda>acs.
     bnd (case run_goal r of None \<Rightarrow> ret None | Some gid \<Rightarrow> runs_get_goal gid (run_id r)) (\<lambda>goal.
     bnd (the_or NotFound (find (\<lambda>t. task_id t = exec_task x) ts)) (\<lambda>t.
     bnd (the_or NotFound (find (\<lambda>a. actor_id a = exec_actor x) acs)) (\<lambda>a.
     bnd (deny (task_role t \<notin> set provider_roles) PolicyDenied) (\<lambda>_.
     let preparing = (task_role t = ROLE_REQUIREMENTS \<and> task_plan_version t = 0) in
     bnd (if preparing then deny (run_state r \<noteq> RS_ANALYZING \<or> od_tools od \<noteq> []) PolicyDenied
          else deny (goal = None \<or> plan = None \<or> run_state r = RS_ANALYZING) NotFound) (\<lambda>_.
     ret \<lparr>as_run = r, as_project = project, as_attempt = x, as_task = t, as_actor = a, as_goal = goal, as_plan = plan,
          as_preparing = preparing\<rparr>))))))))))))))"

definition request_constraints :: "'g agents \<Rightarrow> goal_contract option \<Rightarrow> run_workspace option \<Rightarrow> finding list \<Rightarrow> string list" where
  "request_constraints A goal ws findings =
     (case goal of Some g \<Rightarrow> goal_constraints (gc_goal g)
      | None \<Rightarrow> [''Define testable acceptance for the user request; do not assert PASS.''])
     @ (case ws of None \<Rightarrow> [] | Some w \<Rightarrow> [''Approved workspace policy: '' @ ag_policy_text A (ws_policy w)])
     @ (if findings = [] then [] else [''Independently evaluate every open worker finding in finding_reviews. '' @
          ''Resolution requires current passing evidence or verifiable source checks. '' @
          ''Unresolved blocking findings require overall FAIL '' @ ''and actionable blocking_findings.''])"

definition draft_request :: "'g agents \<Rightarrow> uuid \<Rightarrow> order \<Rightarrow> assignment \<Rightarrow> request act" where
  "draft_request A rid od c =
     bnd (collect (concat (map crit_evidence (case as_goal c of None \<Rightarrow> [] | Some g \<Rightarrow> gc_criteria g)))
       (\<lambda>ref. runs_get_evidence ref (run_id (as_run c)))) (\<lambda>proofs.
     bnd (execution_workspace rid) (\<lambda>ws.
     bnd (if actor_role (as_actor c) = Some ROLE_REVIEWER
          then bnd (delivery_findings rid) (\<lambda>fs. ret (filter open_worker_finding fs)) else ret []) (\<lambda>findings.
     ret \<lparr>rq_invocation = uuid5 rid (''provider:'' @ od_key od), rq_actor = actor_id (as_actor c),
          rq_execution = exec_id (as_attempt c), rq_task = as_task c, rq_context = od_context od, rq_skills = [],
          rq_tools = od_tools od, rq_constraints = request_constraints A (as_goal c) ws findings,
          rq_observations = od_observations od, rq_acceptance = as_goal c, rq_evidence = List.map_filter id proofs,
          rq_findings = findings, rq_schema = od_schema od, rq_budget = od_budget od\<rparr>)))"

definition new_invocation :: "uuid \<Rightarrow> order \<Rightarrow> 'g provider \<Rightarrow> request \<Rightarrow> string \<Rightarrow> time \<Rightarrow> provider_execution" where
  "new_invocation rid od p q hash now = \<lparr>prov_id = rq_invocation q, prov_created = now, prov_run = rid,
     prov_execution = rq_execution q, prov_actor = rq_actor q, prov_provider = pd_id (pv_descriptor p),
     prov_model = pd_model (pv_descriptor p), prov_request_hash = hash, prov_key = od_key od, prov_status = INV_RUNNING,
     prov_started = now, prov_deadline = now + eb_timeout (rq_budget q), prov_completed = None, prov_result = None,
     prov_error = None\<rparr>"

definition skill_ref :: "loaded_skill \<Rightarrow> string" where
  "skill_ref k = sk_id k @ ''@'' @ sk_version k"

definition context_summary :: "context_pack \<Rightarrow> string" where
  "context_summary cp = ''Context: '' @ nat_str (length (cp_items cp)) @ '' memory references; '' @ ''indexed commit ''
     @ (case cp_indexed cp of None \<Rightarrow> ''unindexed'' | Some c \<Rightarrow> if c = [] then ''unindexed'' else c) @ ''; '' @ ''targeted inspection ''
     @ (if cp_inspect cp then ''required'' else ''not required'')"

text \<open>The invocation is recorded before the provider is called.\<close>

definition record_start :: "'g agents \<Rightarrow> order \<Rightarrow> assignment \<Rightarrow> 'g provider \<Rightarrow> request \<Rightarrow> provider_execution \<Rightarrow> unit act" where
  "record_start A od c p q i = (let env = ag_env A; r = as_run c; refs = map skill_ref (rq_skills q);
       actor = Some (actor_id (as_actor c)); task = Some (task_id (as_task c)); attempt = Some (exec_id (as_attempt c)) in
     bnd (providers_save i) (\<lambda>_.
     bnd (save_actor ((as_actor c)\<lparr>actor_provider := Some (pd_id (pv_descriptor p)),
       actor_model := Some (pd_model (pv_descriptor p)), actor_skills := refs,
       actor_tools := map (tool_str \<circ> td_name) (rq_tools q)\<rparr>)) (\<lambda>_.
     bnd (if refs = [] then ret () else
       bnd (emit env r EV_SKILL_LOADED (''provider:'' @ od_key od @ '':skills'') (prov_started i) (no_payload\<lparr>pl_skills := refs\<rparr>)
         actor task attempt) (\<lambda>_. ret ())) (\<lambda>_.
     bnd (emit env r EV_PROVIDER_INVOCATION_STARTED (''provider:'' @ od_key od @ '':start'') (prov_started i)
       (no_payload\<lparr>pl_provider := Some (prov_id i), pl_status := Some (invocation_status_str (prov_status i)), pl_skills := refs,
          pl_memory := cp_items (od_context od), pl_summary := Some (context_summary (od_context od))\<rparr>) actor task attempt) (\<lambda>_.
     commit env)))))"

text \<open>A key used before: its result, or the error it ended with; a call that outlived its deadline was interrupted.\<close>

definition replay_invocation :: "env \<Rightarrow> provider_execution \<Rightarrow> string \<Rightarrow> provider_result act" where
  "replay_invocation env i hash = bnd (deny (prov_request_hash i \<noteq> hash) Conflict) (\<lambda>_.
     case (if prov_status i = INV_SUCCEEDED then prov_result i else None) of Some result \<Rightarrow> ret result
     | None \<Rightarrow>
       if prov_status i = INV_RUNNING then
         bnd (utc_now env) (\<lambda>now. bnd (deny (now \<le> prov_deadline i) Conflict) (\<lambda>_.
         bnd (finish_invocation env i None (Some PE_INTERRUPTED)) (\<lambda>_.
         bnd (commit env) (\<lambda>_. raise_err (ProviderFailed PE_INTERRUPTED)))))
       else raise_err (ProviderFailed (case prov_error i of None \<Rightarrow> PE_INTERNAL | Some e \<Rightarrow> e)))"

definition begin_invocation :: "'g agents \<Rightarrow> uuid \<Rightarrow> order \<Rightarrow> (provider_result + ('g provider \<times> request)) act" where
  "begin_invocation A rid od = with_uow (bnd (assigned (ag_env A) rid od) (\<lambda>c.
     bnd (draft_request A rid od c) (\<lambda>draft.
     bnd (result_of (prepare_request A (as_project c) (od_provider od) draft)) (\<lambda>(p, q).
     let hash = ag_fingerprint A q (pd_id (pv_descriptor p)) (pd_model (pv_descriptor p)) in
     bnd (providers_get (rq_invocation q) rid) (\<lambda>existing. case existing of
       Some i \<Rightarrow> bnd (replay_invocation (ag_env A) i hash) (\<lambda>result. ret (Inl result))
     | None \<Rightarrow>
         bnd (deny (run_state (as_run c) \<notin> set invocation_states \<or> exec_status (as_attempt c) \<noteq> TS_RUNNING
           \<or> (\<not> as_preparing c \<and> (as_plan c = None \<or> Some (plan_goal (the (as_plan c))) \<noteq> run_goal (as_run c)))) Conflict) (\<lambda>_.
         bnd (utc_now (ag_env A)) (\<lambda>now.
         bnd (record_start A od c p q (new_invocation rid od p q hash now)) (\<lambda>_. ret (Inr (p, q))))))))))"

text \<open>The call: nothing of an exception but its code is kept.\<close>

definition call_provider :: "'g agents \<Rightarrow> 'g provider \<Rightarrow> request \<Rightarrow> ('g, provider_error + provider_result) io" where
  "call_provider A p q = (\<lambda>m. case pv_execute p q (m_files m) (m_git m) of (reply, files, g) \<Rightarrow>
     (Inr (case reply of
        Reply result \<Rightarrow> (case validate_result A q result of Inr x \<Rightarrow> Inr x
          | Inl e \<Rightarrow> Inl (case e of ProviderFailed code \<Rightarrow> code | _ \<Rightarrow> PE_INTERNAL))
      | Erring code \<Rightarrow> Inl code | Expired \<Rightarrow> Inl PE_TIMEOUT | Crashed \<Rightarrow> Inl PE_INTERNAL),
      m\<lparr>m_files := files, m_git := g\<rparr>))"

text \<open>Work that is no longer active when the provider answers is cancelled, whatever the answer.\<close>

definition end_invocation :: "env \<Rightarrow> uuid \<Rightarrow> uuid \<Rightarrow> request \<Rightarrow> provider_error + provider_result \<Rightarrow> provider_result act" where
  "end_invocation env rid xid q answer =
     bnd (with_uow (bnd (locked_run rid) (\<lambda>r.
       bnd (providers_get (rq_invocation q) rid) (\<lambda>found. bnd (the_or AssertFail found) (\<lambda>i.
       bnd (if prov_status i \<noteq> INV_RUNNING
            then raise_err (ProviderFailed (case prov_error i of None \<Rightarrow> PE_INTERRUPTED | Some e \<Rightarrow> e)) else ret ()) (\<lambda>_.
       bnd (run_executions rid) (\<lambda>xs. bnd (the_or StopIter (find (\<lambda>x. exec_id x = xid) xs)) (\<lambda>x.
       let final = (if run_state r \<notin> set invocation_states \<or> exec_status x \<noteq> TS_RUNNING then Inl PE_CANCELLED else answer) in
       bnd (case final of Inl e \<Rightarrow> finish_invocation env i None (Some e)
            | Inr result \<Rightarrow> finish_invocation env i (Some result) None) (\<lambda>_.
       bnd (commit env) (\<lambda>_. ret final)))))))))) (\<lambda>final.
     case final of Inl e \<Rightarrow> raise_err (ProviderFailed e) | Inr result \<Rightarrow> ret result)"

definition invoke :: "'g agents \<Rightarrow> uuid \<Rightarrow> order \<Rightarrow> ('g, provider_result) job" where
  "invoke A rid od = bnd (db (require_key (od_key od))) (\<lambda>_.
     bnd (db (begin_invocation A rid od)) (\<lambda>start. case start of
       Inl result \<Rightarrow> ret result
     | Inr (p, q) \<Rightarrow> bnd (on_host (call_provider A p q)) (\<lambda>answer.
         db (end_invocation (ag_env A) rid (od_execution od) q answer))))"

end
