(* ===== verification/Orq_Worktrees.thy ===== *)
theory Orq_Worktrees
  imports Orq_World
begin

text \<open>
  \<^verbatim>\<open>workspace/manager.py\<close> and \<^verbatim>\<open>execution/workspaces.py\<close>: the worktree a run works in. Each is claimed by
  an ownership manifest beside it, and is bound to the run in the store. The text form of a manifest is
  Pydantic's and a parameter; containers left behind by an earlier process are not modelled.
\<close>

section \<open>Ownership manifests\<close>

record worktree =
  wt_run :: uuid
  wt_project :: uuid
  wt_repo :: string
  wt_path :: string
  wt_branch :: string
  wt_base :: string

record worktree_manager =
  wm_root :: string
  wm_dump :: "worktree \<Rightarrow> bytes"
  wm_load :: "bytes \<Rightarrow> worktree option"

definition manifest_path :: "worktree_manager \<Rightarrow> uuid \<Rightarrow> string" where
  "manifest_path M rid = below (wm_root M) (uuid_str rid @ ''.json'')"

definition worktree_path :: "worktree_manager \<Rightarrow> uuid \<Rightarrow> string" where
  "worktree_path M rid = below (wm_root M) (uuid_str rid)"

text \<open>A directory and the directories above it.\<close>

definition directories :: "string \<Rightarrow> string list" where
  "directories p = (let ps = split_on (CHR ''/'') p in map (\<lambda>n. join_str ''/'' (take n ps)) [2..<Suc (length ps)])"

text \<open>\<^verbatim>\<open>mkdir(parents=True, exist_ok=True)\<close>\<close>

definition make_root :: "string \<Rightarrow> ('g, unit) io" where
  "make_root p = bnd (reads (\<lambda>m. list_ex (\<lambda>d. is_file (m_files m d)) (directories p))) (\<lambda>blocked.
     bnd (deny blocked OsErr) (\<lambda>_.
     modify (\<lambda>m. m\<lparr>m_files := \<lambda>q. if q \<in> set (directories p) \<and> m_files m q = None then Some Folder else m_files m q\<rparr>)))"

definition lies_in :: "string \<Rightarrow> string \<Rightarrow> bool" where
  "lies_in dir p \<longleftrightarrow> p = dir \<or> starts_with (dir @ ''/'') p"

text \<open>The exclusive claim: \<^verbatim>\<open>open("x")\<close>.\<close>

definition claim_manifest :: "worktree_manager \<Rightarrow> worktree \<Rightarrow> ('g, unit) io" where
  "claim_manifest M w = bnd (lookup (manifest_path M (wt_run w))) (\<lambda>n. bnd (deny (n \<noteq> None) Conflict) (\<lambda>_.
     modify (\<lambda>m. m\<lparr>m_files := (m_files m)(manifest_path M (wt_run w) \<mapsto> File (wm_dump M w) 1 False)\<rparr>)))"

definition create_owned :: "'g host \<Rightarrow> worktree_manager \<Rightarrow> project \<Rightarrow> uuid \<Rightarrow> string \<Rightarrow> string \<Rightarrow> ('g, worktree) io" where
  "create_owned h M project rid branch base = (let protected = ps_protected (proj_settings project); target = worktree_path M rid in
     bnd (git_root h (proj_root project)) (\<lambda>repo.
     bnd (deny (lies_in repo (wm_root M)) PolicyDenied) (\<lambda>_.
     bnd (make_root (wm_root M)) (\<lambda>_.
     bnd (lookup target) (\<lambda>there. bnd (lookup (manifest_path M rid)) (\<lambda>claimed.
     bnd (deny (there \<noteq> None \<or> claimed \<noteq> None) Conflict) (\<lambda>_.
     bnd (validate_branch h repo branch protected) (\<lambda>_.
     bnd (resolve_commit h repo base) (\<lambda>c.
     let w = \<lparr>wt_run = rid, wt_project = proj_id project, wt_repo = repo, wt_path = target, wt_branch = branch, wt_base = c\<rparr> in
     bnd (claim_manifest M w) (\<lambda>_.
     bnd (create_worktree h repo target branch c protected) (\<lambda>_. ret w)))))))))))"

definition read_manifest :: "worktree_manager \<Rightarrow> uuid \<Rightarrow> ('g, worktree) io" where
  "read_manifest M rid = bnd (lookup (manifest_path M rid)) (\<lambda>n. bnd (deny (\<not> is_file n) OsErr) (\<lambda>_.
     the_or ValueErr (wm_load M (content_of n))))"

definition get_owned :: "'g host \<Rightarrow> worktree_manager \<Rightarrow> uuid \<Rightarrow> ('g, worktree option) io" where
  "get_owned h M rid = bnd (lookup (manifest_path M rid)) (\<lambda>there.
     if there = None then ret None
     else bnd (read_manifest M rid) (\<lambda>w.
       bnd (deny (wt_run w \<noteq> rid \<or> wt_path w \<noteq> worktree_path M rid) PolicyDenied) (\<lambda>_.
       bnd (lookup (wt_path w)) (\<lambda>dir. bnd (deny (dir \<noteq> Some Folder) Conflict) (\<lambda>_.
       bnd (worktree_status h (wt_path w)) (\<lambda>st.
       bnd (deny (st_root st \<noteq> wt_path w \<or> st_branch st \<noteq> Some (wt_branch w)) PolicyDenied) (\<lambda>_.
       bnd (common_directory h (wt_path w)) (\<lambda>mine. bnd (common_directory h (wt_repo w)) (\<lambda>theirs.
       bnd (deny (mine \<noteq> theirs) PolicyDenied) (\<lambda>_. ret (Some w)))))))))))"

definition remove_owned :: "'g host \<Rightarrow> worktree_manager \<Rightarrow> worktree \<Rightarrow> ('g, unit) io" where
  "remove_owned h M w = (let target = wt_path w in
     bnd (deny (target \<noteq> worktree_path M (wt_run w)) PolicyDenied) (\<lambda>_.
     bnd (lookup (manifest_path M (wt_run w))) (\<lambda>n. bnd (deny (\<not> is_file n) PolicyDenied) (\<lambda>_.
     bnd (read_manifest M (wt_run w)) (\<lambda>owned.
     bnd (deny (owned \<noteq> w) PolicyDenied) (\<lambda>_.
     bnd (worktree_status h target) (\<lambda>st.
     bnd (deny (st_root st \<noteq> target \<or> st_branch st \<noteq> Some (wt_branch w)) PolicyDenied) (\<lambda>_.
     bnd (common_directory h target) (\<lambda>common. bnd (common_directory h (wt_repo w)) (\<lambda>expected.
     bnd (deny (common \<noteq> expected) PolicyDenied) (\<lambda>_.
     bnd (remove_worktree h (wt_repo w) target) (\<lambda>_.
     bnd (lookup (manifest_path M (wt_run w))) (\<lambda>left. bnd (deny (\<not> is_file left) OsErr) (\<lambda>_.
     modify (\<lambda>m. m\<lparr>m_files := (m_files m)(manifest_path M (wt_run w) := None)\<rparr>)))))))))))))))"

section \<open>The workspace of a run\<close>

definition owned_for :: "'g host \<Rightarrow> worktree_manager \<Rightarrow> project \<Rightarrow> run \<Rightarrow> ('g, worktree) io" where
  "owned_for h M project r = bnd (get_owned h M (run_id r)) (\<lambda>found. case found of
     Some w \<Rightarrow> ret w
   | None \<Rightarrow> create_owned h M project (run_id r) (run_branch r) (run_base r))"

definition ensure_workspace :: "env \<Rightarrow> 'g host \<Rightarrow> worktree_manager \<Rightarrow> uuid \<Rightarrow> execution_policy \<Rightarrow> ('g, run_workspace) job" where
  "ensure_workspace env h M rid policy = with_unit (bnd (db (locked_run rid)) (\<lambda>r.
     bnd (the_or NotFound (env_project env (run_project r))) (\<lambda>project.
     bnd (db (execution_workspace rid)) (\<lambda>existing.
     bnd (deny (existing \<noteq> None \<and> ws_policy (the existing) \<noteq> policy) Conflict) (\<lambda>_.
     bnd (on_host (owned_for h M project r)) (\<lambda>w.
     bnd (deny (wt_project w \<noteq> proj_id project \<or> wt_repo w \<noteq> proj_root project \<or> wt_branch w \<noteq> run_branch r
       \<or> wt_base w \<noteq> run_base r) PolicyDenied) (\<lambda>_.
     let binding = \<lparr>ws_run = rid, ws_path = wt_path w, ws_base = wt_base w, ws_branch = wt_branch w, ws_policy = policy\<rparr> in
     bnd (deny (existing \<noteq> None \<and> existing \<noteq> Some binding) Conflict) (\<lambda>_.
     bnd (if existing = None then bnd (db (save_workspace binding)) (\<lambda>_. db (commit env)) else ret ()) (\<lambda>_.
     ret binding)))))))))"

section \<open>Contracts\<close>

context repository_contract
begin

lemma ensure_workspace_evolves: "keeps (on_store T) (ensure_workspace env h M rid policy)"
  unfolding ensure_workspace_def Let_def by (intro service.job_laws job_unit job_laws act_laws runtime_laws)

end

end
