(* ===== verification/Orq_Workers.thy ===== *)
theory Orq_Workers
  imports Orq_Agents Orq_Worktrees
begin

text \<open>
  The work of a provider in a run's workspace: the tools it may call (\<^verbatim>\<open>execution/tools.py\<close>,
  \<^verbatim>\<open>execution/tool_definitions.py\<close>, the diff of \<^verbatim>\<open>delivery/inspection.py\<close>), the loop of turns between
  provider and tools (\<^verbatim>\<open>execution/worker.py\<close>), and the artifacts it reports (\<^verbatim>\<open>execution/artifacts.py\<close>).
  Running an approved command and \<^verbatim>\<open>difflib.unified_diff\<close> are parameters, as is what Pydantic makes of a
  JSON value; cancellation checkpoints are not modelled.
\<close>

section \<open>Parameters\<close>

text \<open>
  The arguments of the tools as Pydantic decodes them, without the bounds of their fields; the results of
  the provider roles; the hash of a call; an approved command with whether the role may only read, its
  success and the text of its result.
\<close>

record 'g workers =
  wk_agents :: "'g agents"
  wk_read :: "json \<Rightarrow> (string \<times> int \<times> int) option"
  wk_write :: "json \<Rightarrow> (string \<times> ustring) option"
  wk_text :: "string \<Rightarrow> json \<Rightarrow> string option"
  wk_result :: "json \<Rightarrow> worker_result option"
  wk_review :: "json \<Rightarrow> review_result option"
  wk_goal :: "json \<Rightarrow> goal_draft option"
  wk_call_hash :: "provider_tool_call \<Rightarrow> string"
  wk_command :: "string \<Rightarrow> execution_policy \<Rightarrow> bool \<Rightarrow> approved_command \<Rightarrow> ('g, bool \<times> ustring) io"
  wk_unified :: "ustring list \<Rightarrow> ustring list \<Rightarrow> string \<Rightarrow> string \<Rightarrow> ustring list"

abbreviation wk_env :: "'g workers \<Rightarrow> env" where
  "wk_env W \<equiv> ag_env (wk_agents W)"

abbreviation wk_host :: "'g workers \<Rightarrow> 'g host" where
  "wk_host W \<equiv> ag_host (wk_agents W)"

definition tool_definitions :: "'g agents \<Rightarrow> tool_name list \<Rightarrow> tool_definition list" where
  "tool_definitions A names = List.map_filter (\<lambda>n. map_option
     (\<lambda>d. \<lparr>td_name = n, td_description = d, td_parameters = ag_tool_schema A n\<rparr>)
     (case n of FILE_READ \<Rightarrow> Some ''Read bounded lines of a workspace file''
      | FILE_WRITE \<Rightarrow> Some ''Replace an explicitly scoped file with UTF-8 text''
      | TEST_RUN \<Rightarrow> Some ''Run a command ID from the approved policy''
      | GIT_DIFF \<Rightarrow> Some ''Read the diff of one workspace file against the recorded base''
      | _ \<Rightarrow> None)) names"

section \<open>Tools\<close>

text \<open>\<^verbatim>\<open>text.splitlines(keepends=True)\<close>\<close>

fun kept_from :: "ustring \<Rightarrow> ustring \<Rightarrow> ustring list" where
  "kept_from [] l = (if l = [] then [] else [l])"
| "kept_from [c] l = [l @ [c]]"
| "kept_from (c # d # cs) l = (if c = 13 \<and> d = 10 then (l @ [c, d]) # kept_from cs []
     else if line_break c then (l @ [c]) # kept_from (d # cs) [] else kept_from (d # cs) (l @ [c]))"

definition kept_lines :: "ustring \<Rightarrow> ustring list" where
  "kept_lines s = kept_from s []"

text \<open>The lines of a diff up to a size.\<close>

fun cut_diff :: "nat \<Rightarrow> ustring list \<Rightarrow> ustring list" where
  "cut_diff free [] = []"
| "cut_diff free (l # ls) = (if free < length l then [take free l] else l # cut_diff (free - length l) ls)"

definition inspect_diff :: "'g workers \<Rightarrow> uuid \<Rightarrow> string \<Rightarrow> ('g, ustring) job" where
  "inspect_diff W rid path = (let h = wk_host W in
     bnd (db (with_uow (execution_workspace rid))) (\<lambda>ws. bnd (the_or NotFound ws) (\<lambda>w.
     bnd (on_host (scoped (ws_path w) (ws_policy w))) (\<lambda>sf.
     bnd (on_host (scoped_path sf path False)) (\<lambda>p.
     bnd (on_host (read_file_if_present h (ws_path w) (ws_base w) path (xp_file_bytes (ws_policy w)))) (\<lambda>original.
     let before = (case original of None \<Rightarrow> [] | Some raw \<Rightarrow> if raw = [] then [] else h_safe h (utf8_replace raw)) in
     bnd (on_host (lookup p)) (\<lambda>n.
     bnd (if n = None then ret [] else on_host (scoped_read h sf path)) (\<lambda>after.
     ret (concat (cut_diff 100000 (wk_unified W (kept_lines before) (kept_lines after) (''a/'' @ path) (''b/'' @ path))))))))))))"

definition numbered_lines :: "ustring \<Rightarrow> int \<Rightarrow> int \<Rightarrow> ustring" where
  "numbered_lines text start count = join_str [10] (map (\<lambda>(i, l). ascii (nat_str i @ '': '') @ l)
     (filter (\<lambda>(i, l). start \<le> int i \<and> int i < start + count) (enumerate 1 (py_lines text))))"

definition shortened :: "ustring \<Rightarrow> ustring" where
  "shortened s = take 15800 s @ (if 15800 < length s then 10 # ascii ''[Output truncated]'' else [])"

text \<open>\<^verbatim>\<open>_dispatch\<close>: whether the tool succeeded, and its summary.\<close>

definition dispatch_tool :: "'g workers \<Rightarrow> run_workspace \<Rightarrow> provider_tool_call \<Rightarrow> bool \<Rightarrow> ('g, bool \<times> ustring) job" where
  "dispatch_tool W w c read_only = bnd (on_host (scoped (ws_path w) (ws_policy w))) (\<lambda>sf.
     if ptc_name c = FILE_READ then
       bnd (the_or ValueErr (wk_read W (ptc_arguments c))) (\<lambda>(path, start, count).
       bnd (deny (start < 1 \<or> count < 1 \<or> 300 < count) ValueErr) (\<lambda>_.
       bnd (on_host (scoped_read (wk_host W) sf path)) (\<lambda>text. ret (True, shortened (numbered_lines text start count)))))
     else if ptc_name c = FILE_WRITE then
       bnd (the_or ValueErr (wk_write W (ptc_arguments c))) (\<lambda>(path, content).
       bnd (deny (200000 < length content) ValueErr) (\<lambda>_.
       bnd (on_host (scoped_write (wk_host W) sf path content)) (\<lambda>digest.
       ret (True, ascii (''Wrote '' @ path @ ''; sha256='' @ digest)))))
     else if ptc_name c = TEST_RUN then
       bnd (the_or ValueErr (wk_text W ''command_id'' (ptc_arguments c))) (\<lambda>i.
       bnd (the_or PolicyDenied (find (\<lambda>k. cmd_id k = i) (xp_commands (ws_policy w)))) (\<lambda>k.
       bnd (on_host (wk_command W (ws_path w) (ws_policy w) read_only k)) (\<lambda>(passed, text). ret (passed, take 16000 text))))
     else if ptc_name c = GIT_DIFF then
       bnd (the_or ValueErr (wk_text W ''path'' (ptc_arguments c))) (\<lambda>path.
       bnd (on_host (scoped_path sf path False)) (\<lambda>_.
       bnd (inspect_diff W (ws_run w) path) (\<lambda>text. ret (True, take 16000 text))))
     else raise_err PolicyDenied)"

definition tool_states :: "run_state list" where
  "tool_states = [RS_EXECUTING, RS_TESTING, RS_REVIEWING, RS_CHANGE_GUARD, RS_DOCUMENTING]"

record tool_start =
  tl_workspace :: run_workspace
  tl_actor :: actor_session
  tl_invocation :: tool_invocation
  tl_attempt :: task_execution

text \<open>A call made before: what was observed; its outcome is uncertain if nothing was.\<close>

definition replay_tool :: "tool_invocation \<Rightarrow> string \<Rightarrow> tool_observation act" where
  "replay_tool i hash = bnd (deny (tool_request_hash i \<noteq> hash) Conflict) (\<lambda>_. the_or Conflict (tool_observation i))"

text \<open>The call is permitted and recorded before it is carried out.\<close>

definition permit_tool :: "'g workers \<Rightarrow> run \<Rightarrow> provider_execution \<Rightarrow> provider_tool_call \<Rightarrow> ('g, tool_start) job" where
  "permit_tool W r p c = (let env = wk_env W; rid = run_id r in
     bnd (db (run_executions rid)) (\<lambda>xs. bnd (the_or StopIter (find (\<lambda>x. exec_id x = prov_execution p) xs)) (\<lambda>x.
     bnd (db (run_actors rid)) (\<lambda>acs. bnd (the_or StopIter (find (\<lambda>a. actor_id a = prov_actor p) acs)) (\<lambda>a.
     bnd (db (execution_workspace rid)) (\<lambda>ws.
     bnd (the_or NotFound (env_project env (run_project r))) (\<lambda>project. bnd (the_or NotFound ws) (\<lambda>w.
     bnd (the_or NotFound (actor_role a)) (\<lambda>role.
     bnd (deny (exec_status x \<noteq> TS_RUNNING \<or> run_state r \<notin> set tool_states) Conflict) (\<lambda>_.
     bnd (deny (tool_str (ptc_name c) \<notin> set (actor_tools a)
       \<or> ptc_name c \<notin> set (effective_tools role (ps_permissions (proj_settings project)))) PolicyDenied) (\<lambda>_.
     bnd (db (execution_tools rid)) (\<lambda>made.
     bnd (deny (xp_tool_calls (ws_policy w) \<le> length (filter (\<lambda>i. tool_execution i = exec_id x) made)) PolicyDenied) (\<lambda>_.
     bnd (on_host (verify_workspace (wk_host W) w)) (\<lambda>_.
     bnd (db (utc_now env)) (\<lambda>now.
     let i = \<lparr>tool_id = uuid5 (prov_id p) (ptc_id c), tool_created = now, tool_run = rid, tool_execution = exec_id x,
           tool_actor = actor_id a, tool_provider = prov_id p, tool_call = ptc_id c, tool_tool = ptc_name c,
           tool_request_hash = wk_call_hash W c, tool_status = TOOL_RUNNING, tool_started = now, tool_completed = None,
           tool_observation = None\<rparr> in
     bnd (db (save_tool i)) (\<lambda>_.
     bnd (db (emit env r EV_TOOL_STARTED (''tool:'' @ uuid_str (tool_id i) @ '':start'') now
       (no_payload\<lparr>pl_tool := Some (tool_id i), pl_status := Some ''RUNNING''\<rparr>)
       (Some (actor_id a)) (Some (exec_task x)) (Some (exec_id x)))) (\<lambda>_.
     bnd (db (commit env)) (\<lambda>_.
     ret \<lparr>tl_workspace = w, tl_actor = a, tl_invocation = i, tl_attempt = x\<rparr>))))))))))))))))))"

definition begin_tool :: "'g workers \<Rightarrow> uuid \<Rightarrow> provider_tool_call \<Rightarrow> ('g, tool_observation + tool_start) job" where
  "begin_tool W pid c = with_unit (bnd (db (find_anywhere invocations_table pid)) (\<lambda>found.
     bnd (the_or NotFound (case found of None \<Rightarrow> None
       | Some (_, p) \<Rightarrow> if prov_status p = INV_SUCCEEDED \<and> prov_result p \<noteq> None then Some p else None)) (\<lambda>p.
     bnd (db (locked_run (prov_run p))) (\<lambda>r.
     bnd (deny (c \<notin> set (pr_calls (the (prov_result p)))) PolicyDenied) (\<lambda>_.
     bnd (db (execution_tool (uuid5 pid (ptc_id c)) (run_id r))) (\<lambda>existing. case existing of
       Some i \<Rightarrow> bnd (db (replay_tool i (wk_call_hash W c))) (\<lambda>ob. ret (Inl ob))
     | None \<Rightarrow> bnd (permit_tool W r p c) (\<lambda>st. ret (Inr st))))))))"

text \<open>\<^verbatim>\<open>except (OrqalisError, OSError, ValueError)\<close>: the tool failed, which is an observation too.\<close>

definition tool_failure :: "err \<Rightarrow> bool" where
  "tool_failure e \<longleftrightarrow> orqalis_error e \<or> e = OsErr \<or> e = ValueErr"

definition observe_tool :: "'g workers \<Rightarrow> tool_start \<Rightarrow> provider_tool_call \<Rightarrow> ('g, tool_observation) job" where
  "observe_tool W st c = bnd (catch
       (dispatch_tool W (tl_workspace st) c (actor_role (tl_actor st) \<in> {Some ROLE_REVIEWER, Some ROLE_REPAIR}))
       tool_failure
       (\<lambda>e. ret (False, ascii (''Tool denied or failed: '' @ (case err_code e of Some code \<Rightarrow> code | None \<Rightarrow> ''invalid_operation''))))) (\<lambda>(succeeded, text).
     ret \<lparr>to_call = ptc_id c, to_tool = ptc_name c, to_succeeded = succeeded, to_summary = text, to_evidence = []\<rparr>)"

definition tool_status_str :: "tool_status \<Rightarrow> string" where
  "tool_status_str s = (case s of TOOL_RUNNING \<Rightarrow> ''RUNNING'' | TOOL_SUCCEEDED \<Rightarrow> ''SUCCEEDED'' | TOOL_FAILED \<Rightarrow> ''FAILED''
     | TOOL_INTERRUPTED \<Rightarrow> ''INTERRUPTED'')"

definition finish_tool :: "env \<Rightarrow> tool_start \<Rightarrow> tool_observation \<Rightarrow> unit act" where
  "finish_tool env st ob = (let i = tl_invocation st in
     with_uow (bnd (locked_run (tool_run i)) (\<lambda>r.
     bnd (utc_now env) (\<lambda>now.
     let status = (if to_succeeded ob then TOOL_SUCCEEDED else TOOL_FAILED) in
     bnd (save_tool (i\<lparr>tool_completed := Some now, tool_observation := Some ob, tool_status := status\<rparr>)) (\<lambda>_.
     bnd (emit env r EV_TOOL_COMPLETED (''tool:'' @ uuid_str (tool_id i) @ '':finish'') now
       (no_payload\<lparr>pl_tool := Some (tool_id i), pl_status := Some (tool_status_str status)\<rparr>)
       (Some (tool_actor i)) None (Some (tool_execution i))) (\<lambda>_.
     commit env))))))"

definition execute_tool :: "'g workers \<Rightarrow> uuid \<Rightarrow> provider_tool_call \<Rightarrow> ('g, tool_observation) job" where
  "execute_tool W pid c = bnd (begin_tool W pid c) (\<lambda>start. case start of
     Inl ob \<Rightarrow> ret ob
   | Inr st \<Rightarrow> bnd (observe_tool W st c) (\<lambda>ob. bnd (db (finish_tool (wk_env W) st ob)) (\<lambda>_. ret ob)))"

section \<open>Turns\<close>

definition worker_key :: "uuid \<Rightarrow> nat \<Rightarrow> string" where
  "worker_key xid turn = ''worker:'' @ uuid_str xid @ '':'' @ nat_str turn"

definition worker_turn :: "'g workers \<Rightarrow> uuid \<Rightarrow> uuid \<Rightarrow> string \<Rightarrow> context_pack \<Rightarrow> json \<Rightarrow> tool_definition list
    \<Rightarrow> tool_observation list \<Rightarrow> nat \<Rightarrow> ('g, json + tool_observation list) job" where
  "worker_turn W rid xid provider cp schema tools sofar turn =
     bnd (invoke (wk_agents W) rid \<lparr>od_execution = xid, od_provider = provider, od_context = cp, od_schema = schema,
       od_key = worker_key xid turn, od_tools = tools, od_budget = default_budget, od_observations = sofar\<rparr>) (\<lambda>result.
     case pr_output result of Some out \<Rightarrow> ret (Inl out)
     | None \<Rightarrow>
       bnd (db (with_uow (providers_list rid))) (\<lambda>ps.
       bnd (the_or StopIter (find (\<lambda>p. prov_key p = worker_key xid turn) ps)) (\<lambda>p.
       bnd (collect (pr_calls result) (execute_tool W (prov_id p))) (\<lambda>batch. ret (Inr (sofar @ batch))))))"

fun worker_turns :: "'g workers \<Rightarrow> uuid \<Rightarrow> uuid \<Rightarrow> string \<Rightarrow> context_pack \<Rightarrow> json \<Rightarrow> tool_definition list
    \<Rightarrow> tool_observation list \<Rightarrow> nat list \<Rightarrow> ('g, json) job" where
  "worker_turns W rid xid provider cp schema tools sofar [] = raise_err PolicyDenied"
| "worker_turns W rid xid provider cp schema tools sofar (n # ns) =
     bnd (worker_turn W rid xid provider cp schema tools sofar n) (\<lambda>r. case r of
       Inl out \<Rightarrow> ret out | Inr later \<Rightarrow> worker_turns W rid xid provider cp schema tools later ns)"

text \<open>The contract of a worker: the workspace of the run and the tools of its role.\<close>

definition worker_contract :: "'g workers \<Rightarrow> uuid \<Rightarrow> uuid \<Rightarrow> (run_workspace \<times> tool_definition list) act" where
  "worker_contract W rid xid = with_uow (bnd (runs_get rid) (\<lambda>found.
     bnd (execution_workspace rid) (\<lambda>ws.
     bnd (run_executions rid) (\<lambda>xs. bnd (run_actors rid) (\<lambda>acs.
     let project = (case found of None \<Rightarrow> None | Some r \<Rightarrow> env_project (wk_env W) (run_project r));
         actor = (case find (\<lambda>x. exec_id x = xid) xs of None \<Rightarrow> None | Some x \<Rightarrow> find (\<lambda>a. actor_id a = exec_actor x) acs) in
     bnd (the_or NotFound ws) (\<lambda>w. bnd (the_or NotFound project) (\<lambda>pj. bnd (the_or NotFound actor) (\<lambda>a.
     bnd (the_or NotFound (actor_role a)) (\<lambda>role.
     ret (w, tool_definitions (wk_agents W) (effective_tools role (ps_permissions (proj_settings pj)))))))))))))"

definition worker_execute :: "'g workers \<Rightarrow> uuid \<Rightarrow> uuid \<Rightarrow> string \<Rightarrow> context_pack \<Rightarrow> json \<Rightarrow> ('g, json) job" where
  "worker_execute W rid xid provider cp schema = bnd (db (worker_contract W rid xid)) (\<lambda>(w, tools).
     worker_turns W rid xid provider cp schema tools [] [0..<xp_turns (ws_policy w)])"

section \<open>Reported artifacts\<close>

definition record_artifact :: "'g workers \<Rightarrow> run_workspace \<Rightarrow> scope \<Rightarrow> task_execution \<Rightarrow> artifact list \<Rightarrow> string \<Rightarrow> ('g, unit) job" where
  "record_artifact W w sf x existing path = bnd (on_host (scoped_path sf path True)) (\<lambda>p. bnd (on_host (lookup p)) (\<lambda>n.
     bnd (deny (\<not> is_file n \<or> xp_file_bytes (ws_policy w) < length (content_of n)) PolicyDenied) (\<lambda>_.
     bnd (db (utc_now (wk_env W))) (\<lambda>now.
     let a = \<lparr>art_id = uuid5 (exec_id x) path, art_created = now, art_run = ws_run w, art_task = Some (exec_task x),
           art_type = ''implementation'', art_path = p, art_hash = sha_hex (wk_host W) (content_of n)\<rparr> in
     case find (\<lambda>b. art_id b = art_id a) (rev existing) of
       Some b \<Rightarrow> deny (art_path b \<noteq> art_path a \<or> art_hash b \<noteq> art_hash a) Conflict
     | None \<Rightarrow> db (save_artifact a)))))"

definition record_artifacts :: "'g workers \<Rightarrow> run_workspace \<Rightarrow> task_execution \<Rightarrow> worker_result \<Rightarrow> ('g, unit) job" where
  "record_artifacts W w x result = bnd (on_host (scoped (ws_path w) (ws_policy w))) (\<lambda>sf.
     bnd (db (delivery_artifacts (ws_run w))) (\<lambda>existing.
     for_each (dict_fromkeys (wr_paths result)) (record_artifact W w sf x existing)))"

section \<open>Contracts\<close>

context repository_contract
begin

lemma keeps_finish_invocation: "keeps S (finish_invocation env i result error)"
  unfolding finish_invocation_def Let_def by (intro act_laws runtime_laws)

lemma keeps_assigned: "keeps S (assigned env rid od)"
  unfolding assigned_def Let_def by (intro act_laws runtime_laws)

lemma begin_invocation_evolves: "keeps T (begin_invocation A rid od)"
  unfolding begin_invocation_def draft_request_def replay_invocation_def record_start_def Let_def
  by (intro service_laws act_laws runtime_laws task_laws keeps_finish_invocation keeps_assigned)

lemma end_invocation_evolves: "keeps T (end_invocation env rid xid q answer)"
  unfolding end_invocation_def Let_def by (intro service_laws act_laws runtime_laws keeps_finish_invocation)

lemma invoke_evolves: "keeps (on_store T) (invoke A rid od)"
  unfolding invoke_def require_key_def
  by (intro service.job_laws begin_invocation_evolves end_invocation_evolves service_laws)

lemma inspect_diff_evolves: "keeps (on_store T) (inspect_diff W rid path)"
  unfolding inspect_diff_def Let_def by (intro service.job_laws service_laws act_laws)

lemma observe_tool_evolves: "keeps (on_store T) (observe_tool W st c)"
  unfolding observe_tool_def dispatch_tool_def by (intro service.job_laws inspect_diff_evolves)

lemma begin_tool_evolves: "keeps (on_store T) (begin_tool W pid c)"
  unfolding begin_tool_def permit_tool_def replay_tool_def Let_def
  by (intro service.job_laws job_unit job_laws act_laws runtime_laws keeps_find_anywhere)

lemma finish_tool_evolves: "keeps T (finish_tool env st ob)"
  unfolding finish_tool_def Let_def by (intro service_laws act_laws runtime_laws)

lemma execute_tool_evolves: "keeps (on_store T) (execute_tool W pid c)"
  unfolding execute_tool_def by (intro service.job_laws begin_tool_evolves observe_tool_evolves finish_tool_evolves)

lemma worker_turns_evolves: "keeps (on_store T) (worker_turns W rid xid provider cp schema tools sofar ns)"
  unfolding worker_turn_def
proof (induction ns arbitrary: sofar)
  case (Cons n ns)
  then show ?case unfolding worker_turns.simps worker_turn_def
    by (intro service.job_laws invoke_evolves execute_tool_evolves service_laws act_laws runtime_laws)
qed (simp add: step_order.keeps_raise [OF service.paired])

lemma worker_execute_evolves: "keeps (on_store T) (worker_execute W rid xid provider cp schema)"
  unfolding worker_execute_def worker_contract_def Let_def
  by (intro service.job_laws worker_turns_evolves service_laws act_laws runtime_laws)

lemma job_record_artifacts: "keeps (on_store S) (record_artifacts W w x result)"
  unfolding record_artifacts_def record_artifact_def Let_def by (intro job_laws act_laws)

end

end
