(* ===== verification/Orq_Executor.thy ===== *)
theory Orq_Executor
  imports Orq_Workers Orq_Delivery
begin

text \<open>
  \<^verbatim>\<open>RunExecutor\<close> (\<^verbatim>\<open>core/executor.py\<close>) and \<^verbatim>\<open>RequirementsCoordinator\<close> (\<^verbatim>\<open>core/requirements.py\<close>): the
  drivers that take a run from its request to a defined goal, and from a goal through plan, implementation,
  validation and review, with targeted repairs until the review passes or the repair limit is reached.
  The tasks of a wave of \<^verbatim>\<open>asyncio.gather\<close> are started together and then worked on one after the other.
  The rounds of a loop are counted; \<^verbatim>\<open>Unfinished\<close> tells that the count was used up, no error of the code.
  Watching for a persisted cancellation is not modelled.
\<close>

section \<open>Parameters\<close>

text \<open>
  The memory's context of a checkout for a request, and the view of the repository the plan preview has,
  if there is one, with whether it asks for approvals.
\<close>

record 'g executor =
  ex_workers :: "'g workers"
  ex_manager :: worktree_manager
  ex_runner :: "'g runner"
  ex_context :: "string \<Rightarrow> project \<Rightarrow> string \<Rightarrow> files \<Rightarrow> 'g \<Rightarrow> err + context_pack"
  ex_preview :: "(bool \<times> (files \<Rightarrow> 'g \<Rightarrow> repo_view)) option"

abbreviation ex_env :: "'g executor \<Rightarrow> env" where
  "ex_env X \<equiv> wk_env (ex_workers X)"

abbreviation ex_host :: "'g executor \<Rightarrow> 'g host" where
  "ex_host X \<equiv> wk_host (ex_workers X)"

abbreviation ex_agents :: "'g executor \<Rightarrow> 'g agents" where
  "ex_agents X \<equiv> wk_agents (ex_workers X)"

definition memory_context :: "'g executor \<Rightarrow> string \<Rightarrow> project \<Rightarrow> string \<Rightarrow> ('g, context_pack) job" where
  "memory_context X checkout project request =
     on_host (bnd (reads (\<lambda>m. ex_context X checkout project request (m_files m) (m_git m))) result_of)"

section \<open>Planning\<close>

text \<open>The first plan of a defined goal, by the preview service or by the driver itself.\<close>

definition plan_goal_first :: "'g executor \<Rightarrow> uuid \<Rightarrow> project \<Rightarrow> run \<Rightarrow> string \<Rightarrow> ('g, unit) job" where
  "plan_goal_first X rid project r label = (let env = ex_env X in case ex_preview X of
     Some (approvals, view) \<Rightarrow> bnd (on_host (reads (\<lambda>m. view (m_files m) (m_git m)))) (\<lambda>v.
       bnd (db (preview_plan env v approvals rid label)) (\<lambda>_. ret ()))
   | None \<Rightarrow> bnd (db (current_goal rid)) (\<lambda>gc.
       bnd (db (ensure_approval env rid STAGE_GOAL (goal_number (gc_goal gc)) (goal_subject env gc) ''Review goal before planning'')) (\<lambda>q.
       bnd (deny (unapproved q) PolicyDenied) (\<lambda>_.
       bnd (memory_context X (proj_root project) project (run_request r)) (\<lambda>cp.
       bnd (if label = ''vertical'' then db (current_goal rid) else ret gc) (\<lambda>goal.
       bnd (db (vertical_plan env goal (cp_files cp) 1)) (\<lambda>p.
       bnd (db (install_plan env p (label @ '':plan''))) (\<lambda>_.
       bnd (db (advance env rid RS_PLANNED (label @ '':planned''))) (\<lambda>_. ret ())))))))))"

text \<open>The current plan, approved.\<close>

definition approved_plan :: "env \<Rightarrow> uuid \<Rightarrow> string \<Rightarrow> run act" where
  "approved_plan env rid reason =
     bnd (with_uow (bnd (locked_run rid) (\<lambda>r. bnd (get_plan rid (run_plan_version r)) (\<lambda>plan.
       bnd (the_or NotFound plan) (\<lambda>p. ret (r, p)))))) (\<lambda>(r, p).
     bnd (ensure_approval env rid STAGE_PLAN (run_plan_version r) (plan_subject env p) reason) (\<lambda>q.
     bnd (deny (unapproved q) PolicyDenied) (\<lambda>_. ret r)))"

section \<open>Attempts\<close>

definition run_attempt :: "env \<Rightarrow> uuid \<Rightarrow> task \<Rightarrow> task_execution act" where
  "run_attempt env rid t = (if task_status t = TS_RUNNING then
       bnd (with_uow (run_executions rid)) (\<lambda>xs.
         the_or StopIter (find (\<lambda>x. exec_task x = task_id t \<and> exec_status x = TS_RUNNING) xs))
     else start_task env rid (task_id t) (''vertical:start:'' @ uuid_str (task_id t) @ '':attempt:'' @ nat_str (Suc (task_attempts t))))"

definition completed_result :: "'g workers \<Rightarrow> json \<Rightarrow> ('g, worker_result) job" where
  "completed_result W out = bnd (the_or ValueErr (wk_result W out)) (\<lambda>result.
     bnd (deny (\<not> wr_completed result) Conflict) (\<lambda>_. ret result))"

section \<open>Waves of read-only tasks\<close>

definition read_roles :: "agent_role list" where
  "read_roles = [ROLE_ARCHITECT, ROLE_PLANNER, ROLE_REPAIR]"

definition wave_tasks :: "uuid \<Rightarrow> execution_policy \<Rightarrow> task list act" where
  "wave_tasks rid policy = with_uow (bnd (locked_run rid) (\<lambda>r. bnd (get_plan rid (run_plan_version r)) (\<lambda>plan.
     case (if run_state r = RS_EXECUTING then plan else None) of None \<Rightarrow> ret []
     | Some p \<Rightarrow> bnd (result_of (ready_tasks p)) (\<lambda>ready.
         ret (take (xp_parallel policy)
           (filter (\<lambda>t. task_role t \<in> set read_roles \<and> task_status t = TS_RUNNING) (plan_tasks p)
            @ filter (\<lambda>t. task_role t \<in> set read_roles) ready))))))"

definition block_context :: "env \<Rightarrow> uuid \<Rightarrow> task_execution \<Rightarrow> err \<Rightarrow> unit act" where
  "block_context env rid x e = bnd (with_uow (locked_run rid)) (\<lambda>r.
     bnd (if run_state r = RS_EXECUTING
          then bnd (transition_task env rid (exec_id x) TS_BLOCKED (''context:blocked:'' @ uuid_str (exec_id x))) (\<lambda>_. ret ())
          else ret ()) (\<lambda>_. raise_err e))"

definition context_task :: "'g executor \<Rightarrow> uuid \<Rightarrow> string \<Rightarrow> context_pack \<Rightarrow> task \<Rightarrow> task_execution \<Rightarrow> ('g, unit) job" where
  "context_task X rid provider cp t x = (let env = ex_env X; W = ex_workers X in
     catch (bnd (worker_execute W rid (exec_id x) provider cp (ag_output_schema (ex_agents X) (task_role t))) (\<lambda>out.
         bnd (completed_result W out) (\<lambda>_.
         bnd (db (transition_task env rid (exec_id x) TS_SUCCEEDED (''context:finished:'' @ uuid_str (exec_id x)))) (\<lambda>_. ret ()))))
       orqalis_error (\<lambda>e. db (block_context env rid x e)))"

text \<open>One wave: whether there was one. An error of a task is raised when all are done.\<close>

definition context_round :: "'g executor \<Rightarrow> uuid \<Rightarrow> string \<Rightarrow> context_pack \<Rightarrow> execution_policy \<Rightarrow> ('g, bool) job" where
  "context_round X rid provider cp policy = (let env = ex_env X in
     bnd (db (wave_tasks rid policy)) (\<lambda>wave. if wave = [] then ret False else
     bnd (collect wave (\<lambda>t. outcome (db (run_attempt env rid t)))) (\<lambda>started.
     bnd (collect (zip wave started) (\<lambda>(t, a). outcome (case a of Inl e \<Rightarrow> raise_err e | Inr x \<Rightarrow> context_task X rid provider cp t x)))
       (\<lambda>results. case map_option projl (find isl results) of
         None \<Rightarrow> ret True
       | Some e \<Rightarrow> bnd (deny (e = PolicyDenied) PolicyDenied) (\<lambda>_.
           bnd (db (with_uow (bnd (locked_run rid) (\<lambda>r. bnd (run_executions rid) (\<lambda>xs.
             ret (r, list_ex (\<lambda>x. exec_status x = TS_RUNNING) xs)))))) (\<lambda>(r, active).
           bnd (if run_state r = RS_EXECUTING \<and> \<not> active
                then bnd (db (advance env rid RS_BLOCKED (''context:blocked:'' @ uuid_str (task_id (hd wave))))) (\<lambda>_. ret ())
                else ret ()) (\<lambda>_. raise_err e)))))))"

fun context_wave :: "'g executor \<Rightarrow> uuid \<Rightarrow> string \<Rightarrow> context_pack \<Rightarrow> execution_policy \<Rightarrow> nat \<Rightarrow> ('g, unit) job" where
  "context_wave X rid provider cp policy 0 = raise_err Unfinished"
| "context_wave X rid provider cp policy (Suc n) = bnd (context_round X rid provider cp policy) (\<lambda>more.
     if more then context_wave X rid provider cp policy n else ret ())"

section \<open>The roles of a vertical slice\<close>

definition executable_states :: "run_state list" where
  "executable_states = [RS_GOAL_DEFINED, RS_PLANNED, RS_EXECUTING, RS_INTEGRATING, RS_TESTING, RS_REVIEWING]"

text \<open>The stage a task of a role belongs to is entered when the role's first snapshot of the run is before it.\<close>

definition enter_stage :: "env \<Rightarrow> uuid \<Rightarrow> agent_role \<Rightarrow> run \<Rightarrow> unit act" where
  "enter_stage env rid role r = (let key = ''vertical:'' @ nat_str (run_plan_version r) in
     if role = ROLE_TESTER \<and> run_state r = RS_EXECUTING then
       bnd (advance env rid RS_INTEGRATING (key @ '':integrate'')) (\<lambda>_.
       bnd (advance env rid RS_TESTING (key @ '':test'')) (\<lambda>_. ret ()))
     else if role = ROLE_TESTER \<and> run_state r = RS_INTEGRATING then
       bnd (advance env rid RS_TESTING (key @ '':test'')) (\<lambda>_. ret ())
     else if role = ROLE_REVIEWER \<and> run_state r = RS_TESTING then
       bnd (advance env rid RS_REVIEWING (key @ '':review'')) (\<lambda>_. ret ())
     else ret ())"

text \<open>\<^verbatim>\<open>_validate\<close>: the criteria a command, a file or a difference decides.\<close>

definition validate_criteria :: "'g executor \<Rightarrow> uuid \<Rightarrow> task_execution \<Rightarrow> string \<Rightarrow> execution_policy \<Rightarrow> ('g, unit) job" where
  "validate_criteria X rid x path policy = (let env = ex_env X in
     bnd (db (current_goal rid)) (\<lambda>gc.
     bnd (db (with_uow (bnd (locked_run rid) (\<lambda>r. the_or NotFound (env_project env (run_project r)))))) (\<lambda>_.
     for_each (filter deterministic (gc_criteria gc)) (\<lambda>k.
       bnd (validate_with env rid (crit_key k) (workspace_evaluator (ex_host X) (ex_runner X) path policy)
         (''validation:'' @ uuid_str (exec_id x) @ '':'' @ uuid_str (crit_id k)) (Some (exec_id x))) (\<lambda>_. ret ())))))"

text \<open>The review of an attempt: the one persisted for its actor and plan, if the workspace is still the same.\<close>

definition review_result_of :: "'g executor \<Rightarrow> uuid \<Rightarrow> string \<Rightarrow> context_pack \<Rightarrow> run_workspace \<Rightarrow> run \<Rightarrow> task_execution
    \<Rightarrow> ('g, review_result) job" where
  "review_result_of X rid provider cp w r x =
     bnd (db (with_uow (execution_reviews rid))) (\<lambda>reviews.
     case find (\<lambda>rv. rev_actor rv = exec_actor x \<and> rev_plan_version rv = run_plan_version r) reviews of
       Some rv \<Rightarrow> bnd (on_host (workspace_digest (ex_host X) w)) (\<lambda>tree.
         bnd (deny (rev_tree rv \<noteq> tree) Conflict) (\<lambda>_. ret (rev_result rv)))
     | None \<Rightarrow> bnd (worker_execute (ex_workers X) rid (exec_id x) provider cp (ag_output_schema (ex_agents X) ROLE_REVIEWER)) (\<lambda>out.
         the_or ValueErr (wk_review (ex_workers X) out)))"

definition implement :: "'g executor \<Rightarrow> uuid \<Rightarrow> string \<Rightarrow> context_pack \<Rightarrow> run_workspace \<Rightarrow> agent_role \<Rightarrow> task_execution \<Rightarrow> ('g, unit) job" where
  "implement X rid provider cp w role x = (let W = ex_workers X in
     bnd (worker_execute W rid (exec_id x) provider cp (ag_output_schema (ex_agents X) role)) (\<lambda>out.
     bnd (completed_result W out) (\<lambda>result.
     with_unit (bnd (db (locked_run rid)) (\<lambda>_. bnd (record_artifacts W w x result) (\<lambda>_. db (commit (ex_env X))))))))"

definition task_work :: "'g executor \<Rightarrow> uuid \<Rightarrow> string \<Rightarrow> context_pack \<Rightarrow> run_workspace \<Rightarrow> execution_policy \<Rightarrow> run \<Rightarrow> agent_role
    \<Rightarrow> task_execution \<Rightarrow> ('g, unit) job" where
  "task_work X rid provider cp w policy r role x =
     (if role = ROLE_TESTER then validate_criteria X rid x (ws_path w) policy
      else if role = ROLE_REVIEWER then
        bnd (review_result_of X rid provider cp w r x) (\<lambda>result.
        bnd (record_review (ex_env X) (ex_host X) rid (exec_actor x) result (uuid_str (exec_id x))) (\<lambda>_. ret ()))
      else implement X rid provider cp w role x)"

definition block_task :: "env \<Rightarrow> uuid \<Rightarrow> task_execution \<Rightarrow> err \<Rightarrow> unit act" where
  "block_task env rid x e = bnd (with_uow (locked_run rid)) (\<lambda>r.
     if run_state r \<in> {RS_CANCELLED, RS_FAILED, RS_COMPLETED} then raise_err e
     else bnd (transition_task env rid (exec_id x) TS_BLOCKED (''vertical:blocked:'' @ uuid_str (exec_id x))) (\<lambda>_.
       bnd (advance env rid RS_BLOCKED (''vertical:blocked:'' @ uuid_str (exec_id x))) (\<lambda>_. raise_err e)))"

definition drive_task :: "'g executor \<Rightarrow> uuid \<Rightarrow> string \<Rightarrow> context_pack \<Rightarrow> run_workspace \<Rightarrow> execution_policy \<Rightarrow> nat \<Rightarrow> run
    \<Rightarrow> agent_role \<Rightarrow> task \<Rightarrow> ('g, unit) job" where
  "drive_task X rid provider cp w policy n r role t = (let env = ex_env X in
     if task_status t = TS_SUCCEEDED then ret ()
     else bnd (deny (task_status t \<in> {TS_FAILED, TS_BLOCKED, TS_CANCELLED}) Conflict) (\<lambda>_.
       bnd (db (enter_stage env rid role r)) (\<lambda>_.
       bnd (db (run_attempt env rid t)) (\<lambda>x.
       bnd (catch (bnd (task_work X rid provider cp w policy r role x) (\<lambda>_.
             bnd (db (transition_task env rid (exec_id x) TS_SUCCEEDED (''vertical:finish:'' @ uuid_str (exec_id x)))) (\<lambda>_. ret ())))
           orqalis_error (\<lambda>e. db (block_task env rid x e))) (\<lambda>_.
       if role = ROLE_DEVELOPER then context_wave X rid provider cp policy n else ret ())))))"

definition role_tasks :: "uuid \<Rightarrow> agent_role \<Rightarrow> (run \<times> task list) act" where
  "role_tasks rid role = with_uow (bnd (locked_run rid) (\<lambda>r. bnd (get_plan rid (run_plan_version r)) (\<lambda>plan.
     bnd (the_or NotFound plan) (\<lambda>p. bnd (result_of (ordered_tasks p)) (\<lambda>ts.
     ret (r, filter (\<lambda>t. task_role t = role) ts))))))"

definition drive_role :: "'g executor \<Rightarrow> uuid \<Rightarrow> string \<Rightarrow> context_pack \<Rightarrow> run_workspace \<Rightarrow> execution_policy \<Rightarrow> nat \<Rightarrow> agent_role
    \<Rightarrow> ('g, unit) job" where
  "drive_role X rid provider cp w policy n role = bnd (db (role_tasks rid role)) (\<lambda>(r, ts).
     bnd (deny (ts = [] \<and> role \<noteq> ROLE_REPAIR) Conflict) (\<lambda>_.
     for_each ts (drive_task X rid provider cp w policy n r role)))"

definition slice_roles :: "agent_role list" where
  "slice_roles = [ROLE_REPAIR, ROLE_DEVELOPER, ROLE_TESTER, ROLE_REVIEWER]"

section \<open>Executing a run\<close>

record execution_summary =
  es_run :: uuid
  es_workspace :: string
  es_state :: run_state
  es_review :: "review_record option"
  es_completed :: nat

definition summarize :: "uuid \<Rightarrow> run_workspace \<Rightarrow> execution_summary act" where
  "summarize rid w = with_uow (bnd (locked_run rid) (\<lambda>r. bnd (execution_reviews rid) (\<lambda>reviews.
     bnd (get_plan rid (run_plan_version r)) (\<lambda>plan.
     ret \<lparr>es_run = rid, es_workspace = ws_path w, es_state = run_state r,
          es_review = (if reviews = [] then None else Some (last reviews)),
          es_completed = (case plan of None \<Rightarrow> 0 | Some p \<Rightarrow> length (filter (\<lambda>t. task_status t = TS_SUCCEEDED) (plan_tasks p)))\<rparr>))))"

definition execute_plan :: "'g executor \<Rightarrow> uuid \<Rightarrow> string \<Rightarrow> execution_policy \<Rightarrow> nat \<Rightarrow> ('g, execution_summary) job" where
  "execute_plan X rid provider policy n = (let env = ex_env X in
     bnd (db (with_uow (bnd (locked_run rid) (\<lambda>r. bnd (the_or NotFound (env_project env (run_project r))) (\<lambda>project.
       bnd (deny (run_state r \<notin> set executable_states) Conflict) (\<lambda>_. ret (r, project))))))) (\<lambda>(r, project).
     bnd (deny (provider \<noteq> ''auto'' \<and> provider_named (ex_agents X) provider = None) PolicyDenied) (\<lambda>_.
     bnd (if run_state r = RS_GOAL_DEFINED then plan_goal_first X rid project r ''vertical'' else ret ()) (\<lambda>_.
     bnd (db (approved_plan env rid ''Review the dependency plan before execution'')) (\<lambda>_.
     bnd (ensure_workspace env (ex_host X) (ex_manager X) rid policy) (\<lambda>w.
     bnd (memory_context X (ws_path w) project (run_request r)) (\<lambda>cp.
     bnd (db (with_uow (locked_run rid))) (\<lambda>current.
     bnd (if run_state current = RS_PLANNED
          then bnd (db (advance env rid RS_EXECUTING (''vertical:'' @ nat_str (run_plan_version current) @ '':executing''))) (\<lambda>_. ret ())
          else ret ()) (\<lambda>_.
     bnd (context_wave X rid provider cp policy n) (\<lambda>_.
     bnd (for_each slice_roles (drive_role X rid provider cp w policy n)) (\<lambda>_.
     db (summarize rid w))))))))))))"

text \<open>A repair is approved before it is planned; one planned before was.\<close>

definition require_repair :: "env \<Rightarrow> uuid \<Rightarrow> unit act" where
  "require_repair env rid = bnd (with_uow (bnd (locked_run rid) (\<lambda>r. bnd (execution_reviews rid) (\<lambda>reviews.
       bnd (the_or Conflict (if reviews = [] \<or> rr_pass (rev_result (last reviews)) then None else Some (last reviews))) (\<lambda>rv.
       ret (if run_plan_version r = Suc (rev_plan_version rv) \<and> run_state r = RS_REPAIR_PLANNING then None else Some rv)))))) (\<lambda>wanted.
     case wanted of None \<Rightarrow> ret ()
     | Some rv \<Rightarrow> bnd (ensure_approval env rid STAGE_REPAIR (rev_plan_version rv) (repair_subject env rv)
           ''Review the failed evidence before a targeted repair'') (\<lambda>q. deny (unapproved q) PolicyDenied))"

definition announce_repair :: "env \<Rightarrow> uuid \<Rightarrow> review_record \<Rightarrow> unit act" where
  "announce_repair env rid rv = with_uow (bnd (locked_run rid) (\<lambda>r.
     if run_repairs r = 0 then ret ()
     else bnd (utc_now env) (\<lambda>now.
       bnd (emit env r EV_REPAIR_COMPLETED (''repair-completed:'' @ uuid_str (rev_id rv)) now
         (no_payload\<lparr>pl_plan_version := Some (run_plan_version r),
            pl_status := Some (if rr_pass (rev_result rv) then ''PASS'' else ''FAIL'')\<rparr>) None None None) (\<lambda>_.
       commit env))))"

text \<open>One round of the loop: its result, or none if a repair was scheduled and the loop goes on.\<close>

definition execute_round :: "'g executor \<Rightarrow> uuid \<Rightarrow> string \<Rightarrow> execution_policy \<Rightarrow> bool \<Rightarrow> nat \<Rightarrow> ('g, execution_summary option) job" where
  "execute_round X rid provider policy repair_automatically n = (let env = ex_env X in
     bnd (db (with_uow (locked_run rid))) (\<lambda>checkpoint.
     bnd (if run_state checkpoint = RS_REPAIR_PLANNING
          then bnd (db (require_repair env rid)) (\<lambda>_. bnd (db (schedule_repair env rid)) (\<lambda>_. ret ())) else ret ()) (\<lambda>_.
     bnd (execute_plan X rid provider policy n) (\<lambda>result.
     bnd (case es_review result of None \<Rightarrow> ret () | Some rv \<Rightarrow> db (announce_repair env rid rv)) (\<lambda>_.
     if case es_review result of None \<Rightarrow> True | Some rv \<Rightarrow> rr_pass (rev_result rv) then ret (Some result)
     else
         bnd (db (with_uow (locked_run rid))) (\<lambda>current.
         bnd (if run_repairs current < run_max_repairs current then db (require_repair env rid) else ret ()) (\<lambda>_.
         bnd (db (schedule_repair env rid)) (\<lambda>scheduled.
         ret (if \<not> scheduled then Some (result\<lparr>es_state := RS_HUMAN_REVIEW_REQUIRED\<rparr>)
              else if \<not> repair_automatically then Some (result\<lparr>es_state := RS_EXECUTING\<rparr>) else None)))))))))"

fun execute_rounds :: "'g executor \<Rightarrow> uuid \<Rightarrow> string \<Rightarrow> execution_policy \<Rightarrow> bool \<Rightarrow> nat \<Rightarrow> nat \<Rightarrow> ('g, execution_summary) job" where
  "execute_rounds X rid provider policy repair_automatically n 0 = raise_err Unfinished"
| "execute_rounds X rid provider policy repair_automatically n (Suc k) =
     bnd (execute_round X rid provider policy repair_automatically n) (\<lambda>result. case result of
       Some summary \<Rightarrow> ret summary
     | None \<Rightarrow> execute_rounds X rid provider policy repair_automatically n k)"

text \<open>One worker at a time owns a run.\<close>

definition take_lease :: "env \<Rightarrow> uuid \<Rightarrow> unit act" where
  "take_lease env rid = bnd (with_uow (bnd (load rid) (\<lambda>_. lease_free env))) (\<lambda>free. deny (\<not> free) Conflict)"

definition execute_run :: "'g executor \<Rightarrow> uuid \<Rightarrow> string \<Rightarrow> execution_policy \<Rightarrow> bool \<Rightarrow> nat \<Rightarrow> nat \<Rightarrow> ('g, execution_summary) job" where
  "execute_run X rid provider policy repair_automatically n k = bnd (db (take_lease (ex_env X) rid)) (\<lambda>_.
     execute_rounds X rid provider policy repair_automatically n k)"

section \<open>Requirements\<close>

definition block_requirements :: "env \<Rightarrow> uuid \<Rightarrow> task_execution \<Rightarrow> err \<Rightarrow> goal_contract act" where
  "block_requirements env rid x e = bnd (with_uow (locked_run rid)) (\<lambda>r.
     bnd (if run_state r \<notin> {RS_CANCELLED, RS_FAILED, RS_COMPLETED}
          then bnd (transition_task env rid (exec_id x) TS_BLOCKED (''requirements:blocked:'' @ uuid_str (exec_id x))) (\<lambda>_.
            bnd (advance env rid RS_BLOCKED (''requirements:blocked:'' @ uuid_str (exec_id x))) (\<lambda>_. ret ()))
          else ret ()) (\<lambda>_. raise_err e))"

definition requirements_goal :: "'g executor \<Rightarrow> uuid \<Rightarrow> string \<Rightarrow> project \<Rightarrow> run \<Rightarrow> task_execution \<Rightarrow> ('g, goal_contract) job" where
  "requirements_goal X rid provider project r x = (let env = ex_env X; A = ex_agents X in
     if run_goal r = None then
       bnd (memory_context X (proj_root project) project (run_request r)) (\<lambda>cp.
       bnd (invoke A rid \<lparr>od_execution = exec_id x, od_provider = provider, od_context = cp,
         od_schema = ag_output_schema A ROLE_REQUIREMENTS, od_key = ''requirements:'' @ uuid_str (exec_id x), od_tools = [],
         od_budget = default_budget, od_observations = []\<rparr>) (\<lambda>result.
       bnd (the_or Conflict (pr_output result)) (\<lambda>out.
       bnd (the_or ValueErr (wk_goal (ex_workers X) out)) (\<lambda>draft.
       db (define_initial env rid (exec_id x) draft)))))
     else db (current_goal rid))"

definition analyze_run :: "'g executor \<Rightarrow> uuid \<Rightarrow> string \<Rightarrow> project \<Rightarrow> run \<Rightarrow> ('g, goal_contract) job" where
  "analyze_run X rid provider project r = (let env = ex_env X in
     bnd (db (start_requirements env rid)) (\<lambda>x.
     catch (bnd (requirements_goal X rid provider project r x) (\<lambda>goal.
         bnd (if exec_status x \<noteq> TS_SUCCEEDED
              then bnd (db (transition_task env rid (exec_id x) TS_SUCCEEDED (''requirements:finished:'' @ uuid_str (exec_id x)))) (\<lambda>_. ret ())
              else ret ()) (\<lambda>_.
         bnd (db (advance env rid RS_GOAL_DEFINED ''prepare:goal'')) (\<lambda>_. ret goal))))
       orqalis_error (\<lambda>e. db (block_requirements env rid x e))))"

definition define_goal :: "'g executor \<Rightarrow> uuid \<Rightarrow> string \<Rightarrow> ('g, goal_contract) job" where
  "define_goal X rid provider = (let env = ex_env X in
     bnd (db (take_lease env rid)) (\<lambda>_.
     bnd (db (with_uow (bnd (locked_run rid) (\<lambda>r. bnd (the_or NotFound (env_project env (run_project r))) (\<lambda>project. ret (r, project)))))) (\<lambda>(r, project).
     if run_state r = RS_GOAL_DEFINED then db (current_goal rid)
     else bnd (deny (run_state r \<noteq> RS_ANALYZING) Conflict) (\<lambda>_. analyze_run X rid provider project r))))"

section \<open>Contracts\<close>

text \<open>The units of work of both drivers; the drivers follow every order their units and services follow.\<close>

context repository_contract
begin

lemma take_lease_evolves: "keeps T (take_lease env rid)"
  unfolding take_lease_def by (intro service_laws act_laws)

lemma executor_units: "keeps T (wave_tasks rid policy)" "keeps T (role_tasks rid role)" "keeps T (summarize rid w)"
  "keeps T (announce_repair env rid rv)" "keeps T (run_attempt env rid t)"
  unfolding wave_tasks_def role_tasks_def summarize_def announce_repair_def run_attempt_def result_of_def
  by (intro service_laws act_laws runtime_laws start_task_evolves)+

lemma executor_reads: "keeps T (with_uow (locked_run rid))" "keeps T (with_uow (execution_reviews rid))"
  "keeps T (with_uow (bnd (locked_run rid) (\<lambda>r. bnd (run_executions rid) (\<lambda>xs. ret (f r xs)))))"
  "keeps T (with_uow (bnd (locked_run rid) (\<lambda>r. the_or e (g r))))"
  "keeps T (with_uow (bnd (locked_run rid) (\<lambda>r. bnd (the_or e (g r)) (\<lambda>p. bnd (deny (b r) e') (\<lambda>_. ret (r, p))))))"
  "keeps T (with_uow (bnd (locked_run rid) (\<lambda>r. bnd (the_or e (g r)) (\<lambda>p. ret (r, p)))))"
  "keeps T (with_uow (bnd (locked_run rid) (\<lambda>r. bnd (get_plan rid (v r)) (\<lambda>plan. bnd (the_or e plan) (\<lambda>p. ret (r, p))))))"
  "keeps T (with_uow (bnd (locked_run rid) (\<lambda>r. bnd (execution_reviews rid) (\<lambda>rs. bnd (the_or e (h rs)) (\<lambda>rv. ret (k r rv))))))"
  by (intro service_laws act_laws runtime_laws)+

lemma implement_unit: "keeps (on_store T) (with_unit (bnd (db (locked_run rid)) (\<lambda>_. bnd (record_artifacts W w x result) (\<lambda>_. db (commit env)))))"
  by (intro job_unit job_laws act_laws runtime_laws job_record_artifacts)

end

context delivery_driver
begin

lemmas driver_units' = by_unit [OF take_lease_evolves] by_unit [OF executor_units(1)] by_unit [OF executor_units(2)]
  by_unit [OF executor_units(3)] by_unit [OF executor_units(4)] by_unit [OF executor_units(5)]
  by_unit [OF executor_reads(1)] by_unit [OF executor_reads(2)] by_unit [OF executor_reads(3)] by_unit [OF executor_reads(4)]
  by_unit [OF executor_reads(5)] by_unit [OF executor_reads(6)] by_unit [OF executor_reads(7)] by_unit [OF executor_reads(8)]
  by_unit [OF transition_task_evolves] by_unit [OF start_task_evolves] by_unit [OF start_requirements_evolves]
  by_unit [OF define_initial_evolves]

lemmas driver_jobs = by_job [OF worker_execute_evolves] by_job [OF invoke_evolves] by_job [OF ensure_workspace_evolves]
  by_job [OF record_review_evolves] by_job [OF validate_with_evolves] by_job [OF implement_unit]

lemma drives_plan_goal: "keeps (on_store T) (plan_goal_first X rid project r label)"
  "keeps (on_store T) (memory_context X checkout project request)"
  unfolding plan_goal_first_def memory_context_def Let_def
  by (intro driver.service.job_laws driver.driver_laws driver.drives_plans driver.driver_services)+

lemma drives_blocks: "keeps T (block_context env rid x e)" "keeps T (block_task env rid x e)"
  "keeps T (block_requirements env rid x e)" "keeps T (enter_stage env rid role r)" "keeps T (require_repair env rid)"
  "keeps T (approved_plan env rid reason)"
  unfolding block_context_def block_task_def block_requirements_def enter_stage_def require_repair_def approved_plan_def Let_def
  by (intro driver.driver_laws driver_units')+

lemma drives_context_task: "keeps (on_store T) (context_task X rid provider cp t x)"
  unfolding context_task_def completed_result_def Let_def
  by (intro driver.service.job_laws driver_units' driver_jobs drives_blocks)

lemma drives_context_wave: "keeps (on_store T) (context_wave X rid provider cp policy n)"
proof (induction n)
  case (Suc n)
  have "keeps (on_store T) (context_round X rid provider cp policy)"
    unfolding context_round_def Let_def
    by (intro driver.service.job_laws driver_units' driver.moves drives_context_task)
  with Suc show ?case by (auto intro!: driver.service.job_laws)
qed (simp add: step_order.keeps_raise [OF driver.service.paired])

lemma drives_drive_role: "keeps (on_store T) (drive_role X rid provider cp w policy n role)"
  unfolding drive_role_def drive_task_def task_work_def review_result_of_def implement_def validate_criteria_def completed_result_def Let_def
  by (intro driver.service.job_laws driver_units' driver_jobs drives_blocks drives_context_wave driver.reads_goal)

lemma drives_execute_plan: "keeps (on_store T) (execute_plan X rid provider policy n)"
  unfolding execute_plan_def Let_def
  by (intro driver.service.job_laws driver_units' driver_jobs driver.moves drives_plan_goal drives_blocks drives_context_wave drives_drive_role)

lemma drives_execute_rounds: "keeps (on_store T) (execute_rounds X rid provider policy auto n k)"
proof (induction k)
  case (Suc k)
  then show ?case unfolding execute_rounds.simps execute_round_def Let_def
    by (intro driver.service.job_laws driver_units' driver.driver_services drives_execute_plan drives_blocks)
qed (simp add: step_order.keeps_raise [OF driver.service.paired])

lemma drives_execute_run: "keeps (on_store T) (execute_run X rid provider policy auto n k)"
  unfolding execute_run_def by (intro driver.service.job_laws driver_units' drives_execute_rounds)

lemma drives_define_goal: "keeps (on_store T) (define_goal X rid provider)"
  unfolding define_goal_def analyze_run_def requirements_goal_def Let_def
  by (intro driver.service.job_laws driver_units' driver_jobs driver.moves driver.reads_goal drives_plan_goal drives_blocks)

end

end
