(* ===== verification/Orq_External.thy ===== *)
theory Orq_External
  imports Orq_Executor
begin

text \<open>
  \<^verbatim>\<open>ExternalWorkService\<close> (\<^verbatim>\<open>core/external.py\<close>, \<^verbatim>\<open>domain/external.py\<close>): an assistant outside the system
  takes implementation tasks of a run and reports results and findings. Its work is bound to the attempt it
  was assigned by an event of the run, every report to a receipt; acceptance is not its business.
  \<open>xt_result\<close> and \<open>xt_report\<close> are the JSON texts of a result and of a report.
\<close>

section \<open>Assignments\<close>

record work_assignment =
  wa_task :: task
  wa_execution :: task_execution
  wa_workspace :: string
  wa_goal :: goal_contract
  wa_context :: context_pack
  wa_skills :: "loaded_skill list"
  wa_tools :: "tool_name list"

definition assigned_key :: "uuid \<Rightarrow> string" where
  "assigned_key xid = ''external:assigned:'' @ uuid_str xid"

text \<open>The run and its project, if an assistant may work on it: none outside the implementation stages.\<close>

definition open_for_work :: "env \<Rightarrow> uuid \<Rightarrow> (run \<times> project) option act" where
  "open_for_work env rid = with_uow (bnd (locked_run rid) (\<lambda>r.
     bnd (the_or NotFound (env_project env (run_project r))) (\<lambda>project. let settings = proj_settings project in
     if run_state r \<notin> {RS_GOAL_DEFINED, RS_PLANNED, RS_EXECUTING} then ret None
     else bnd (deny (FILE_WRITE \<notin> set (effective_tools ROLE_DEVELOPER (ps_permissions settings))) PolicyDenied) (\<lambda>_.
       bnd (deny (ps_providers settings \<noteq> [] \<and> ''external'' \<notin> set (ps_providers settings)) PolicyDenied) (\<lambda>_.
       ret (Some (r, project)))))))"

text \<open>The task to work on and its attempt: one that runs, else a ready one, for the capabilities offered.\<close>

definition choose_task :: "uuid \<Rightarrow> string list \<Rightarrow> (task \<times> task_execution option) option act" where
  "choose_task rid capabilities = with_uow (bnd (locked_run rid) (\<lambda>r.
     bnd (get_plan rid (run_plan_version r)) (\<lambda>plan. bnd (the_or AssertFail plan) (\<lambda>p.
     bnd (run_executions rid) (\<lambda>xs.
     let active = filter (\<lambda>t. task_status t = TS_RUNNING) (plan_tasks p) in
     bnd (if active \<noteq> [] then ret active else result_of (ready_tasks p)) (\<lambda>candidates.
     case find (\<lambda>t. task_role t \<in> {ROLE_DEVELOPER, ROLE_REPAIR}
         \<and> (capabilities = [] \<or> set (task_capabilities t) \<subseteq> set capabilities)) candidates of
       None \<Rightarrow> ret None
     | Some t \<Rightarrow> (case find (\<lambda>x. exec_task x = task_id t \<and> exec_status x = TS_RUNNING) xs of
         None \<Rightarrow> ret (Some (t, None))
       | Some x \<Rightarrow> bnd (events_by_key rid (assigned_key (exec_id x))) (\<lambda>e.
           bnd (deny (e = None) Conflict) (\<lambda>_. ret (Some (t, Some x)))))))))))"

definition full_ref :: "loaded_skill \<Rightarrow> string" where
  "full_ref k = sk_id k @ ''@'' @ sk_version k @ '':'' @ sk_hash k"

definition record_assignment :: "env \<Rightarrow> uuid \<Rightarrow> task \<Rightarrow> task_execution \<Rightarrow> string list \<Rightarrow> tool_name list \<Rightarrow> unit act" where
  "record_assignment env rid t x refs tools = with_uow (bnd (locked_run rid) (\<lambda>r. bnd (run_actors rid) (\<lambda>acs.
     bnd (the_or StopIter (find (\<lambda>a. actor_id a = exec_actor x) acs)) (\<lambda>a.
     let who = Some (actor_id a); task = Some (task_id t); attempt = Some (exec_id x) in
     bnd (save_actor (a\<lparr>actor_provider := Some ''external'', actor_skills := refs, actor_tools := map tool_str tools\<rparr>)) (\<lambda>_.
     bnd (utc_now env) (\<lambda>now.
     bnd (emit env r EV_AGENT_ASSIGNED (assigned_key (exec_id x)) now
       (no_payload\<lparr>pl_summary := Some ''Assistant-native implementation'', pl_skills := refs\<rparr>) who task attempt) (\<lambda>_.
     bnd (for_each refs (\<lambda>ref. bnd (utc_now env) (\<lambda>at_time.
       bnd (emit env r EV_SKILL_LOADED (''external:skill:'' @ uuid_str (exec_id x) @ '':'' @ ref) at_time
         (no_payload\<lparr>pl_skills := [ref]\<rparr>) who task attempt) (\<lambda>_. ret ())))) (\<lambda>_.
     commit env))))))))"

definition assign_work :: "'g executor \<Rightarrow> uuid \<Rightarrow> project \<Rightarrow> task \<Rightarrow> task_execution option \<Rightarrow> run_workspace \<Rightarrow> goal_contract
    \<Rightarrow> context_pack \<Rightarrow> ('g, work_assignment option) job" where
  "assign_work X rid project t attempt w gc cp = (let env = ex_env X; A = ex_agents X;
       tools = effective_tools (task_role t) (ps_permissions (proj_settings project)) in
     bnd (db (result_of (ag_select A (task_capabilities t) tools (dict_fromkeys (ag_languages A project @ task_capabilities t))
       (role_capabilities (task_role t)) (ag_pins A project)))) (\<lambda>skills.
     bnd (case attempt of Some x \<Rightarrow> ret x
          | None \<Rightarrow> db (start_task env rid (task_id t)
              (''external:start:'' @ uuid_str (task_id t) @ '':attempt:'' @ nat_str (Suc (task_attempts t))))) (\<lambda>x.
     bnd (db (record_assignment env rid t x (map full_ref skills) tools)) (\<lambda>_.
     ret (Some \<lparr>wa_task = t, wa_execution = x, wa_workspace = ws_path w, wa_goal = gc, wa_context = cp, wa_skills = skills,
       wa_tools = tools\<rparr>)))))"

definition next_work :: "'g executor \<Rightarrow> uuid \<Rightarrow> execution_policy \<Rightarrow> string list \<Rightarrow> ('g, work_assignment option) job" where
  "next_work X rid policy capabilities = (let env = ex_env X in
     bnd (db (take_lease env rid)) (\<lambda>_.
     bnd (db (open_for_work env rid)) (\<lambda>found. case found of None \<Rightarrow> ret None
     | Some (r, project) \<Rightarrow>
         bnd (if run_state r = RS_GOAL_DEFINED then plan_goal_first X rid project r ''external'' else ret ()) (\<lambda>_.
         bnd (db (approved_plan env rid ''Review the dependency plan before external work'')) (\<lambda>current.
         bnd (ensure_workspace env (ex_host X) (ex_manager X) rid policy) (\<lambda>w.
         bnd (db (current_goal rid)) (\<lambda>gc.
         bnd (memory_context X (ws_path w) project (run_request current)) (\<lambda>cp.
         bnd (if run_state current = RS_PLANNED
              then bnd (db (advance env rid RS_EXECUTING (''external:'' @ nat_str (run_plan_version current) @ '':executing''))) (\<lambda>_. ret ())
              else ret ()) (\<lambda>_.
         bnd (db (choose_task rid capabilities)) (\<lambda>choice. case choice of None \<Rightarrow> ret None
         | Some (t, attempt) \<Rightarrow> assign_work X rid project t attempt w gc cp))))))))))"

section \<open>Results\<close>

text \<open>An attempt that was assigned to an assistant.\<close>

definition assigned_attempt :: "uuid \<Rightarrow> uuid \<Rightarrow> task_execution act" where
  "assigned_attempt rid xid = bnd (run_executions rid) (\<lambda>xs.
     bnd (if find (\<lambda>x. exec_id x = xid) xs = None then ret None else events_by_key rid (assigned_key xid)) (\<lambda>e.
     the_or PolicyDenied (if e = None then None else find (\<lambda>x. exec_id x = xid) xs)))"

definition text_hash :: "'g executor \<Rightarrow> string \<Rightarrow> string" where
  "text_hash X s = sha_hex (ex_host X) (encode s)"

definition receive_result :: "'g executor \<Rightarrow> (worker_result \<Rightarrow> string) \<Rightarrow> uuid \<Rightarrow> uuid \<Rightarrow> worker_result \<Rightarrow> ('g, unit) job" where
  "receive_result X xt_result rid xid result = (let env = ex_env X; fingerprint = text_hash X (xt_result result) in
     with_unit (bnd (db (locked_run rid)) (\<lambda>r.
     bnd (deny (\<not> safe_text env (xt_result result)) PolicyDenied) (\<lambda>_.
     bnd (db (assigned_attempt rid xid)) (\<lambda>x.
     bnd (db (events_by_key rid (''external:result:'' @ uuid_str xid))) (\<lambda>replay. case replay of
       Some e \<Rightarrow> deny (pl_reason (event_payload e) \<noteq> Some fingerprint) Conflict
     | None \<Rightarrow>
         bnd (deny (run_state r \<noteq> RS_EXECUTING \<or> exec_status x \<noteq> TS_RUNNING) Conflict) (\<lambda>_.
         bnd (deny (\<not> wr_completed result) Conflict) (\<lambda>_.
         bnd (db (execution_workspace rid)) (\<lambda>ws. bnd (the_or NotFound ws) (\<lambda>w.
         bnd (on_host (workspace_digest (ex_host X) w)) (\<lambda>digest.
         bnd (record_artifacts (ex_workers X) w x result) (\<lambda>_.
         bnd (db (utc_now env)) (\<lambda>now.
         bnd (db (emit env r EV_EXTERNAL_RESULT_REPORTED (''external:result:'' @ uuid_str xid) now
           (no_payload\<lparr>pl_summary := Some (wr_summary result), pl_reason := Some fingerprint, pl_status := Some digest\<rparr>)
           (Some (exec_actor x)) (Some (exec_task x)) (Some (exec_id x)))) (\<lambda>_.
         db (commit env)))))))))))))))"

definition report_result :: "'g executor \<Rightarrow> (worker_result \<Rightarrow> string) \<Rightarrow> uuid \<Rightarrow> uuid \<Rightarrow> worker_result \<Rightarrow> ('g, task_execution) job" where
  "report_result X xt_result rid xid result = bnd (db (take_lease (ex_env X) rid)) (\<lambda>_.
     bnd (receive_result X xt_result rid xid result) (\<lambda>_.
     db (transition_task (ex_env X) rid xid TS_SUCCEEDED (''external:finished:'' @ uuid_str xid))))"

section \<open>Findings\<close>

record finding_report =
  fi_severity :: severity
  fi_summary :: string
  fi_criterion :: "uuid option"
  fi_source :: "string option"

text \<open>The validators of the contract.\<close>

definition relative_source :: "string \<Rightarrow> bool" where
  "relative_source p \<longleftrightarrow> \<not> starts_with ''/'' p \<and> \<not> starts_with [CHR 0x5C] p \<and> ''..'' \<notin> set (split_on (CHR ''/'') p)
     \<and> CHR 0x5C \<notin> set p \<and> CHR '':'' \<notin> set p"

definition finding_report_ok :: "finding_report \<Rightarrow> bool" where
  "finding_report_ok f \<longleftrightarrow> fi_summary f \<noteq> [] \<and> length (fi_summary f) \<le> 4000
     \<and> (case fi_source f of None \<Rightarrow> True | Some p \<Rightarrow> p \<noteq> [] \<and> length p \<le> 1000)
     \<and> \<not> blank (fi_summary f) \<and> (fi_criterion f \<noteq> None \<or> fi_source f \<noteq> None)
     \<and> (case fi_source f of None \<Rightarrow> True | Some p \<Rightarrow> relative_source p)"

definition severity_str :: "severity \<Rightarrow> string" where
  "severity_str s = (case s of SEV_INFO \<Rightarrow> ''info'' | SEV_WARNING \<Rightarrow> ''warning'' | SEV_BLOCKING \<Rightarrow> ''blocking'')"

definition new_finding :: "uuid \<Rightarrow> uuid \<Rightarrow> uuid \<Rightarrow> finding_report \<Rightarrow> time \<Rightarrow> finding" where
  "new_finding i rid tid f now = \<lparr>find_id = i, find_created = now, find_run = rid, find_task = Some tid,
     find_criterion = fi_criterion f, find_severity = fi_severity f, find_category = ''external_worker'',
     find_summary = fi_summary f, find_source = fi_source f, find_open = True\<rparr>"

definition record_finding :: "'g executor \<Rightarrow> uuid \<Rightarrow> run \<Rightarrow> task_execution \<Rightarrow> finding_report \<Rightarrow> string \<Rightarrow> string \<Rightarrow> ('g, finding) job" where
  "record_finding X rid r x f receipt content_hash = (let env = ex_env X in
     bnd (deny (run_state r \<noteq> RS_EXECUTING \<or> exec_status x \<noteq> TS_RUNNING) Conflict) (\<lambda>_.
     bnd (current_contract r) (\<lambda>goal.
     bnd (deny (case fi_criterion f of None \<Rightarrow> False
       | Some k \<Rightarrow> (case goal of None \<Rightarrow> True | Some gc \<Rightarrow> k \<notin> set (map crit_id (gc_criteria gc)))) PolicyDenied) (\<lambda>_.
     bnd (db (execution_workspace rid)) (\<lambda>ws. bnd (the_or NotFound ws) (\<lambda>w.
     bnd (case fi_source f of None \<Rightarrow> ret ()
          | Some p \<Rightarrow> bnd (on_host (scoped (ws_path w) (ws_policy w))) (\<lambda>sf. bnd (on_host (scoped_path sf p False)) (\<lambda>_. ret ()))) (\<lambda>_.
     bnd (db (utc_now env)) (\<lambda>created.
     let finding = new_finding (uuid5 rid receipt) rid (exec_task x) f created in
     bnd (db (save_finding finding)) (\<lambda>_.
     bnd (db (utc_now env)) (\<lambda>now.
     bnd (db (emit env r EV_FINDING_REPORTED receipt now
       (no_payload\<lparr>pl_summary := Some (find_summary finding), pl_reason := Some content_hash,
          pl_status := Some (severity_str (find_severity finding)), pl_criterion := find_criterion finding,
          pl_findings := [find_id finding]\<rparr>) (Some (exec_actor x)) (Some (exec_task x)) (Some (exec_id x)))) (\<lambda>_.
     bnd (db (commit env)) (\<lambda>_. ret finding))))))))))))"

definition report_finding :: "'g executor \<Rightarrow> (finding_report \<Rightarrow> string) \<Rightarrow> uuid \<Rightarrow> uuid \<Rightarrow> finding_report \<Rightarrow> string \<Rightarrow> ('g, finding) job" where
  "report_finding X xt_report rid xid f key = (let env = ex_env X;
       fingerprint = text_hash X (uuid_str xid @ '':'' @ xt_report f); receipt = ''external:finding:'' @ text_hash X key in
     bnd (deny (\<not> finding_report_ok f) ValueErr) (\<lambda>_.
     bnd (db (require_key key)) (\<lambda>_.
     bnd (deny (\<not> safe_text env (xt_report f) \<or> \<not> safe_text env key) PolicyDenied) (\<lambda>_.
     bnd (db (take_lease env rid)) (\<lambda>_.
     with_unit (bnd (db (locked_run rid)) (\<lambda>r.
     bnd (db (assigned_attempt rid xid)) (\<lambda>x.
     bnd (db (events_by_key rid receipt)) (\<lambda>replay. case replay of
       Some e \<Rightarrow> bnd (deny (pl_reason (event_payload e) \<noteq> Some fingerprint) Conflict) (\<lambda>_.
         bnd (db (delivery_findings rid)) (\<lambda>fs. the_or StopIter (find (\<lambda>g. find_id g = uuid5 rid receipt) fs)))
     | None \<Rightarrow> record_finding X rid r x f receipt fingerprint)))))))))"

section \<open>Contracts\<close>

context repository_contract
begin

lemma external_units: "keeps T (open_for_work env rid)" "keeps T (choose_task rid capabilities)"
  "keeps T (record_assignment env rid t x refs tools)"
  unfolding open_for_work_def choose_task_def record_assignment_def result_of_def Let_def
  by (intro service_laws act_laws runtime_laws)+

lemma receive_result_evolves: "keeps (on_store T) (receive_result X xt_result rid xid result)"
  unfolding receive_result_def assigned_attempt_def Let_def
  by (intro job_unit job_laws act_laws runtime_laws job_record_artifacts)

lemma report_finding_evolves: "keeps (on_store T) (report_finding X xt_report rid xid f key)"
  unfolding report_finding_def assigned_attempt_def record_finding_def require_key_def Let_def
  by (intro service.job_laws take_lease_evolves job_unit job_laws service_laws act_laws runtime_laws job_current_contract)

end

context delivery_driver
begin

lemma drives_next_work: "keeps (on_store T) (next_work X rid policy capabilities)"
  unfolding next_work_def assign_work_def Let_def
  by (intro driver.service.job_laws driver_units' driver_jobs driver.moves driver.reads_goal drives_plan_goal drives_blocks
      driver.drives_result by_unit [OF external_units(1)] by_unit [OF external_units(2)] by_unit [OF external_units(3)])

lemma drives_report_result: "keeps (on_store T) (report_result X xt_result rid xid result)"
  unfolding report_result_def by (intro driver.service.job_laws driver_units' by_job [OF receive_result_evolves])

end

end
