(* ===== verification/Orq_Operations.thy ===== *)
theory Orq_Operations
  imports Orq_Services Orq_Review Orq_Delivery Orq_External
begin

text \<open>
  The whole system: every modelled operation, on the store and on the machine. An \<open>operation\<close> is a call of
  a core service or of a service that works on the run's workspace; \<open>operate\<close> runs a sequence of
  them, whether they return or raise. The contracts of the store hold along every such sequence. A
  driver whose loops are counted runs for any number of rounds, so what holds along every sequence holds
  at every moment of its execution too.
\<close>

text \<open>What the system is built with: the parameters of delivery, and those of the drivers and of reports.\<close>

record 'g system = "'g delivering" +
  sy_executor :: "'g executor"
  sy_result_text :: "worker_result \<Rightarrow> string"
  sy_report_text :: "finding_report \<Rightarrow> string"

datatype (plugins only: code) operation =
    Core command
  | RecordReview uuid uuid review_result string
  | Certify uuid uuid delivery_policy checkpoint
  | DocumentChanges uuid uuid change_report delivery_policy
  | FinalValidate uuid task_execution
  | CommitChanges uuid delivery_policy uuid
  | PushChanges uuid uuid
  | Promote uuid uuid
  | Finalize uuid delivery_policy
  | DefineGoal uuid string
  | ExecuteRun uuid string execution_policy bool nat nat
  | NextWork uuid execution_policy "string list"
  | ReportResult uuid uuid worker_result
  | ReportFinding uuid uuid finding_report string

definition ignoring :: "('g, 'a) job \<Rightarrow> ('g, unit) job" where
  "ignoring m = bnd m (\<lambda>_. ret ())"

fun run_operation :: "'g system \<Rightarrow> operation \<Rightarrow> ('g, unit) job" where
  "run_operation D (Core c) = db (run_command (dl_env D) c)"
| "run_operation D (RecordReview rid actor result key) =
     ignoring (record_review (dl_env D) (dl_host D) rid actor result key)"
| "run_operation D (Certify rid actor policy checkpoint) =
     ignoring (certify (dl_env D) (dl_host D) (dl_tools D) rid actor policy checkpoint)"
| "run_operation D (DocumentChanges rid actor report policy) =
     ignoring (document_changes (dl_env D) (dl_host D) rid actor report policy)"
| "run_operation D (FinalValidate rid x) = ignoring (final_validate (dl_env D) (dl_host D) (dl_runner D) rid x)"
| "run_operation D (CommitChanges rid policy actor) = ignoring (deliver_commit (dl_env D) (dl_host D) rid policy actor)"
| "run_operation D (PushChanges rid actor) = ignoring (deliver_push (dl_env D) (dl_host D) rid actor)"
| "run_operation D (Promote rid actor) = ignoring (promote (dl_env D) (dl_host D) (dl_propose D) rid actor)"
| "run_operation D (Finalize rid policy) = ignoring (finalize (delivering.truncate D) rid policy)"
| "run_operation D (DefineGoal rid provider) = ignoring (define_goal (sy_executor D) rid provider)"
| "run_operation D (ExecuteRun rid provider policy repair_automatically n k) =
     ignoring (execute_run (sy_executor D) rid provider policy repair_automatically n k)"
| "run_operation D (NextWork rid policy capabilities) = ignoring (next_work (sy_executor D) rid policy capabilities)"
| "run_operation D (ReportResult rid xid result) =
     ignoring (report_result (sy_executor D) (sy_result_text D) rid xid result)"
| "run_operation D (ReportFinding rid xid report key) =
     ignoring (report_finding (sy_executor D) (sy_report_text D) rid xid report key)"

fun operate :: "'g system \<Rightarrow> operation list \<Rightarrow> uow \<times> 'g machine \<Rightarrow> uow \<times> 'g machine" where
  "operate D [] s = s"
| "operate D (p # ps) s = operate D ps (snd (run_operation D p s))"

text \<open>What every operation respects, every sequence respects.\<close>

lemma operate_steps: "step_order S \<Longrightarrow> (\<And>p. keeps S (run_operation D p)) \<Longrightarrow> S s (operate D ps s)"
proof (induction ps arbitrary: s)
  case (Cons p ps)
  have "S s (snd (run_operation D p s))" using Cons.prems(2) unfolding keeps_def by blast
  from step_order.S_trans [OF Cons.prems(1) this Cons.IH [OF Cons.prems]] show ?case by simp
qed (simp add: step_order.S_refl)

section \<open>Every operation follows the contracts\<close>

context delivery_driver
begin

lemma drives_operation:
  assumes "\<And>c. keeps T (run_command (dl_env D) c)"
  shows "keeps (on_store T) (run_operation D p)"
  by (cases p) (simp_all add: ignoring_def assms driver.service.job_laws drives_finalize by_job [OF record_review_evolves]
      by_job [OF certify_evolves] by_job [OF document_changes_evolves] by_job [OF final_validate_evolves]
      by_job [OF deliver_commit_evolves] by_job [OF deliver_push_evolves] by_job [OF promote_evolves]
      drives_define_goal drives_execute_run drives_next_work drives_report_result by_job [OF report_finding_evolves])

end

sublocale run_contract \<subseteq> delivery: delivery_driver S T T
  by unfold_locales

context run_contract
begin

lemma operate_evolves: "on_store T s (operate D ps s)"
  by (rule operate_steps [OF service.paired]) (rule delivery.drives_operation [OF command_evolves])

end

section \<open>What is committed\<close>

definition stored :: "uow \<times> 'w \<Rightarrow> uuid \<Rightarrow> capsule option" where
  "stored s = committed (fst s)"

lemma operate_history:
  assumes "stored s rid = Some c"
  obtains d where "stored (operate D ps s) rid = Some d" "history c d"
proof -
  have "history_rel rid (stored s rid) (stored (operate D ps s) rid)"
    using history_contract.operate_evolves [of s D ps] by (simp add: on_store_def evolves_def stores_def committed_def stored_def)
  with assms that show ?thesis by (auto simp: history_rel_def split: option.splits)
qed

lemma operate_intact:
  assumes "\<And>c. stored s rid = Some c \<Longrightarrow> intact rid c" and "stored (operate D ps s) rid = Some d"
  shows "intact rid d"
proof -
  have "intact_rel rid (stored s rid) (stored (operate D ps s) rid)"
    using intact_contract.operate_evolves [of s D ps] by (simp add: on_store_def evolves_def stores_def committed_def stored_def)
  with assms show ?thesis by (auto simp: intact_rel_def split: option.splits)
qed

end
