(* ===== verification/Orq_Evaluation.thy ===== *)
theory Orq_Evaluation
  imports Orq_Operations Orq_Fixtures
begin

text \<open>
  Running the services on concrete stores by rewriting, for the witnesses. The weak congruences make
  the simplifier evaluate a program step by step, from its state, instead of simplifying the code
  it has not reached; \<open>evaluation\<close> unfolds the services and the repositories under them.
\<close>

lemma bnd_weak: "bnd m f s = bnd m f s"
  and with_uow_weak: "with_uow m s = with_uow m s"
  and catch_weak: "catch m p h s = catch m p h s"
  and ignore_weak: "ignore_result m s = ignore_result m s"
  and under_lease_weak: "under_lease env rid m s = under_lease env rid m s"
  and for_each_weak: "xs = ys \<Longrightarrow> for_each xs f s = for_each ys f s"
  and collect_weak: "xs = ys \<Longrightarrow> collect xs f s = collect ys f s"
  by simp_all

lemmas lazy_programs = bnd_weak with_uow_weak catch_weak ignore_weak under_lease_weak for_each_weak collect_weak

lemma with_uow_run: "with_uow body s = (case body (discard s) of (r, t) \<Rightarrow> (r, discard t))"
  by (simp add: with_uow_def)

lemma load_run: "load rid s = (case map_of (uow_work s) rid of None \<Rightarrow> (Inl NotFound, s)
    | Some c \<Rightarrow> if run_id (cap_run c) \<noteq> rid then (Inl Conflict, s) else (Inr c, s))"
  by (simp add: load_def)

lemma for_each_run: "for_each [] f s = ret () s" "for_each (x # xs) f s = bnd (f x) (\<lambda>_. for_each xs f) s"
  by simp_all

lemma collect_run: "collect [] f s = ret [] s"
  "collect (x # xs) f s = bnd (f x) (\<lambda>y. bnd (collect xs f) (\<lambda>ys. ret (y # ys))) s"
  by simp_all

lemma elapsed_none [simp]: "elapsed_ms t t = 0"
  by (simp add: elapsed_backwards)

lemmas program_evaluation = bnd_run ret_run raise_run reads_run modify_run deny_run the_or_run catch_run
  with_uow_run load_run for_each_run collect_run Let_def ignore_result_def discard_def utc_now_def uuid4_def
  lease_free_def env_tick_def result_of_def blank_iff is_space_def

lemmas store_evaluation = put_def all_capsules_def commit_def commit_capsule_def new_capsule_def stamped_def
  renderable_def newest_plan_def safe_doc_def safe_text_def pending_events_def sort_entities_def

lemmas repository_evaluation = runs_add_def optional_def runs_get_def runs_save_def runs_save_goal_def
  runs_set_current_goal_def runs_get_goal_def runs_get_evidence_def reserve_capsule_def capsule_sequence_def padded_def
  events_append_def same_event_def event_of_def append_event_def event_by_key_def event_draft_ok_def events_list_def
  events_by_key_def add_task_def run_tasks_def adopt_tasks_def save_plan_def plan_view_def get_plan_def put_task_def
  save_task_def run_actors_def save_actor_def run_executions_def save_execution_def run_phases_def save_phase_def
  approval_view_def approvals_policy_def save_policy_def approvals_get_def approvals_list_def add_request_def
  request_owner_def add_decision_def table_list_def entities_def consistent_def execution_reviews_def
  delivery_findings_def delivery_guardians_def execution_workspace_def findings_table_def reviews_table_def

lemmas runtime_evaluation = require_key_def locked_run_def emit_def orchestrator_actor_def new_orchestrator_def
  orchestrator_id_def status_payload_def change_payload_def no_payload_def set_actor_status_def actor_done_def
  update_phase_def open_phase_def close_phase_def new_phase_def timing_actor_def timing_phase_def timing_task_def
  intervals_def charge_def no_time_def status_in_def timing_status_def operator_approval_def
  actor_events_def task_events_def active_statuses_def waiting_statuses_def blocked_statuses_def terminal_statuses_def

lemmas approval_evaluation = policy_or_default_def safe_fields_def validate_subject_def set_approval_actor_status_def
  approval_id_def requested_payload_def stage_request_def prepare_approval_request_def require_approval_def
  decide_approval_def recorded_payload_def status_of_decision_def requires_def default_policy_def
  goal_subject_def plan_subject_def fingerprint_def

lemmas task_evaluation = task_transitions_def execution_states_def active_attempt_def attempt_done_def refresh_ready_def
  requirements_candidate_def startable_task_def task_gate_def other_writer_def new_agent_def new_attempt_def
  begin_attempt_def start_task_def apply_transition_def transition_in_transaction_def transition_task_def

lemmas orchestrator_evaluation = guard_def plan_guard_def guard_delivery_def cancel_pending_def advance_event_def
  coordinator_status_def phase_status_of_def moved_run_def move_run_def advance_def validate_transition_def
  next_resume_def transitions_def run_sequence_def terminal_states_def suspended_states_def delivery_stages_def
  resume_def

lemmas evaluation = program_evaluation store_evaluation repository_evaluation runtime_evaluation approval_evaluation
  task_evaluation orchestrator_evaluation

text \<open>
  A system on a machine whose Git fails, with the clock and the project of the sample environment, and no
  provider.
\<close>

definition sample_agents :: "unit agents" where
  "sample_agents = \<lparr>ag_env = sample_env, ag_host = sample_host, ag_providers = [], ag_select = \<lambda>_ _ _ _ _. Inr [],
     ag_languages = \<lambda>_. [], ag_pins = \<lambda>_. [], ag_schema_ok = \<lambda>_. True, ag_conforms = \<lambda>_ _. True, ag_prompt = \<lambda>_. JObj [],
     ag_result = \<lambda>_. JObj [], ag_length = \<lambda>_. 0, ag_fingerprint = \<lambda>_ _ _. [], ag_policy_text = \<lambda>_. [],
     ag_output_schema = \<lambda>_. JObj [], ag_tool_schema = \<lambda>_. JObj []\<rparr>"

definition sample_workers :: "unit workers" where
  "sample_workers = \<lparr>wk_agents = sample_agents, wk_read = \<lambda>_. None, wk_write = \<lambda>_. None, wk_text = \<lambda>_ _. None,
     wk_result = \<lambda>_. None, wk_review = \<lambda>_. None, wk_goal = \<lambda>_. None, wk_call_hash = \<lambda>_. [],
     wk_command = \<lambda>_ _ _ _. raise_err OsErr, wk_unified = \<lambda>_ _ _ _. []\<rparr>"

definition sample_executor :: "unit executor" where
  "sample_executor = \<lparr>ex_workers = sample_workers, ex_manager = \<lparr>wm_root = ''/work'', wm_dump = \<lambda>_. [], wm_load = \<lambda>_. None\<rparr>,
     ex_runner = \<lambda>_ _ _ _ _. raise_err OsErr, ex_context = \<lambda>_ _ _ _ _. Inl OsErr, ex_preview = None\<rparr>"

definition sample_system :: "unit system" where
  "sample_system = \<lparr>dl_env = sample_env, dl_host = sample_host, dl_tools = \<lparr>dt_ndiff = \<lambda>_ _. [], dt_parse = \<lambda>_. None\<rparr>,
     dl_runner = \<lambda>_ _ _ _ _. raise_err OsErr, dl_propose = \<lambda>_ _ _ _ _. raise_err OsErr, sy_executor = sample_executor,
     sy_result_text = \<lambda>_. [], sy_report_text = \<lambda>_. []\<rparr>"

lemma stored_core [simp]: "stored (operate sample_system [Core c] (u, m)) = committed (snd (run_command sample_env c u))"
  by (simp add: stored_def db_def sample_system_def split: prod.split)

lemma stored_start [simp]: "stored (u, m) = committed u"
  by (simp add: stored_def)

lemmas sample_evaluation = evaluation sample_env_def sample_project_def sample_capsule_def store_of_def sample_defs

end
