(* ===== verification/Orq_Certificates.thy ===== *)
theory Orq_Certificates
  imports Orq_Orchestrator Orq_World
begin

text \<open>
  What \<^verbatim>\<open>guard_delivery\<close> demands before a delivery stage, as facts of the records of a capsule that are
  never taken away: an accepting review, a change report that certifies the reviewed tree, a final
  validation that passed with a final report for its tree, the receipt of the curated memory.
  Passing the guard shows that they are there.
\<close>

section \<open>Records that only grow\<close>

definition on_record :: "capsule \<Rightarrow> capsule \<Rightarrow> bool" where
  "on_record c d \<longleftrightarrow> set (cap_events c) \<subseteq> set (cap_events d) \<and> set (cap_reviews c) \<subseteq> set (cap_reviews d)
     \<and> set (cap_guardians c) \<subseteq> set (cap_guardians d) \<and> set (cap_validations c) \<subseteq> set (cap_validations d)"

lemma on_record_refl [simp]: "on_record c c"
  by (simp add: on_record_def)

lemma on_record_trans: "on_record c d \<Longrightarrow> on_record d e \<Longrightarrow> on_record c e"
  by (auto simp: on_record_def)

text \<open>An accepting review; a report of its tree; a validation of the same goal with the final report of its tree.\<close>

definition reviewed :: "capsule \<Rightarrow> review_record \<Rightarrow> bool" where
  "reviewed c rv \<longleftrightarrow> rv \<in> set (cap_reviews c) \<and> rr_pass (rev_result rv)"

definition certified :: "capsule \<Rightarrow> review_record \<Rightarrow> bool" where
  "certified c rv \<longleftrightarrow> (\<exists>p \<in> set (cap_guardians c). rep_checkpoint p = CP_IMPLEMENTATION \<and> rep_passed p \<and> rep_tree p = rev_tree rv)"

definition finally_valid :: "capsule \<Rightarrow> review_record \<Rightarrow> bool" where
  "finally_valid c rv \<longleftrightarrow> (\<exists>v \<in> set (cap_validations c). fv_passed v \<and> fv_goal v = rev_goal rv
     \<and> (\<exists>p \<in> set (cap_guardians c). rep_checkpoint p = CP_FINAL \<and> rep_passed p \<and> rep_tree p = fv_tree v))"

definition remembered :: "capsule \<Rightarrow> bool" where
  "remembered c \<longleftrightarrow> (\<exists>e \<in> set (cap_events c). event_key e = ''curation:promoted'' \<and> pl_memory (event_payload e) \<noteq> [])"

text \<open>What a capsule has on record when its run enters a state.\<close>

definition earned :: "capsule \<Rightarrow> run_state \<Rightarrow> bool" where
  "earned c q \<longleftrightarrow> (q \<in> set delivery_stages \<longrightarrow> (\<exists>rv. reviewed c rv
     \<and> (q \<noteq> RS_CHANGE_GUARD \<longrightarrow> certified c rv)
     \<and> (q \<notin> {RS_CHANGE_GUARD, RS_DOCUMENTING, RS_DELIVERY_VALIDATION} \<longrightarrow> finally_valid c rv)))
   \<and> (q = RS_COMPLETED \<longrightarrow> remembered c)"

lemma earned_mono: "earned c q \<Longrightarrow> on_record c d \<Longrightarrow> earned d q"
  unfolding earned_def reviewed_def certified_def finally_valid_def remembered_def on_record_def by (meson subsetD)

lemma earned_fields [simp]:
  "earned (c\<lparr>cap_run := r\<rparr>) q = earned c q" "earned (c\<lparr>cap_dirty := b\<rparr>) q = earned c q"
  "earned (c\<lparr>cap_tasks := ts\<rparr>) q = earned c q" "earned (c\<lparr>cap_plans := ps\<rparr>) q = earned c q"
  by (simp_all add: earned_def reviewed_def certified_def finally_valid_def remembered_def)

lemma earned_before: "q \<notin> set delivery_stages \<Longrightarrow> earned c q"
  by (auto simp: earned_def delivery_stages_def)

section \<open>What the guard reads\<close>

text \<open>
  Weakest preconditions for a value, errors allowed: what a read returns, in the unchanged state, when the
  run is the capsule \<open>c\<close>.
\<close>

definition gives :: "('s, 'a) prog \<Rightarrow> ('a \<Rightarrow> 's \<Rightarrow> bool) \<Rightarrow> 's \<Rightarrow> bool" where
  "gives m Q s \<longleftrightarrow> wp m Q (\<lambda>_ _. True) s"

lemma gives_returns: "gives m Q s \<Longrightarrow> m s = (Inr x, t) \<Longrightarrow> Q x t"
  by (simp add: gives_def wp_def)

lemma gives_bnd: "gives m (\<lambda>x. gives (f x) Q) s \<Longrightarrow> gives (bnd m f) Q s"
  by (simp add: gives_def [abs_def] wp_bnd)

lemma gives_ret: "Q x s \<Longrightarrow> gives (ret x) Q s"
  by (simp add: gives_def wp_ret)

lemma gives_deny: "(\<not> b \<Longrightarrow> Q () s) \<Longrightarrow> gives (deny b e) Q s"
  by (simp add: gives_def wp_deny)

lemma gives_the_or: "(\<And>y. x = Some y \<Longrightarrow> Q y s) \<Longrightarrow> gives (the_or e x) Q s"
  by (simp add: gives_def wp_the_or split: option.split)

lemma gives_if: "(b \<Longrightarrow> gives m Q s) \<Longrightarrow> (\<not> b \<Longrightarrow> gives n Q s) \<Longrightarrow> gives (if b then m else n) Q s"
  by simp

lemma gives_option: "(x = None \<Longrightarrow> gives m Q s) \<Longrightarrow> (\<And>y. x = Some y \<Longrightarrow> gives (f y) Q s)
    \<Longrightarrow> gives (case x of None \<Rightarrow> m | Some y \<Rightarrow> f y) Q s"
  by (cases x) simp_all

lemma gives_table: "map_of (uow_work s) rid = Some c \<Longrightarrow> Q (tab_get T c) s \<Longrightarrow> gives (table_list T rid) Q s"
  by (auto simp: gives_def table_list_def wp_def entities_run prog_simps load_def split: if_splits)

lemma gives_records:
  "map_of (uow_work s) rid = Some c \<Longrightarrow> (\<And>rvs. set rvs = set (cap_reviews c) \<Longrightarrow> Q rvs s) \<Longrightarrow> gives (execution_reviews rid) Q s"
  "map_of (uow_work s) rid = Some c \<Longrightarrow> (\<And>ps. set ps = set (cap_guardians c) \<Longrightarrow> Q' ps s) \<Longrightarrow> gives (delivery_guardians rid) Q' s"
  "map_of (uow_work s) rid = Some c \<Longrightarrow> (\<And>vs. set vs = set (cap_validations c) \<Longrightarrow> Q'' vs s) \<Longrightarrow> gives (delivery_validations rid) Q'' s"
  unfolding execution_reviews_def delivery_guardians_def delivery_validations_def
  by (rule gives_bnd, erule gives_table, rule gives_ret, simp add: reviews_table_def guardians_table_def validations_table_def)+

lemma gives_reads:
  "(\<And>fs. F fs s) \<Longrightarrow> gives (delivery_findings rid) F s" "(\<And>as. A as s) \<Longrightarrow> gives (delivery_artifacts rid) A s"
  "(\<And>p. P p s) \<Longrightarrow> gives (get_plan rid v) P s"
  by (auto simp: gives_def delivery_findings_def delivery_artifacts_def get_plan_def table_list_def wp_def
      entities_run prog_simps load_def split: option.splits if_splits sum.splits)

lemma gives_delivery: "map_of (uow_work s) rid = Some c \<Longrightarrow> Q (cap_git c) s \<Longrightarrow> gives (delivery_get rid) Q s"
  by (auto simp: gives_def delivery_get_def wp_def prog_simps load_def split: option.splits if_splits)

lemma gives_by_key: "map_of (uow_work s) rid = Some c \<Longrightarrow> Q (event_by_key k (cap_events c)) s \<Longrightarrow> gives (events_by_key rid k) Q s"
  by (auto simp: gives_def events_by_key_def wp_def prog_simps load_def split: if_splits)

lemmas gives_rules = gives_bnd gives_ret gives_deny gives_the_or gives_if gives_option gives_records gives_reads
  gives_delivery gives_by_key

lemma gives_then: "gives m (\<lambda>x t. t = s \<and> P x) s \<Longrightarrow> (\<And>x. P x \<Longrightarrow> gives (f x) Q s) \<Longrightarrow> gives (bnd m f) Q s"
  unfolding gives_def wp_bnd by (erule wp_mono) simp_all

text \<open>In a unit of work, on the store part of a pair, and for a read whose value does not matter.\<close>

lemma discard_work [simp]: "uow_work (discard u) = uow_disk u"
  by (simp add: discard_def)

lemma gives_db: "gives m (\<lambda>x v. Q x (v, w)) u \<Longrightarrow> gives (db m) Q (u, w)"
  by (auto simp: gives_def wp_def prog_simps split: prod.splits sum.splits)

lemma gives_unit: "gives body (\<lambda>x s. Q x (discard (fst s), snd s)) (discard u, w) \<Longrightarrow> gives (with_unit body) Q (u, w)"
  by (auto simp: gives_def wp_def prog_simps split: prod.splits sum.splits)

lemma gives_any: "(\<And>x t. gives (f x) Q t) \<Longrightarrow> gives (bnd m f) Q s"
  by (simp add: gives_def wp_bnd) (simp add: wp_def split: prod.split sum.split)

lemma gives_locked: "(\<And>c. map_of (uow_work s) rid = Some c \<Longrightarrow> run_id (cap_run c) = rid \<Longrightarrow> Q (cap_run c) s)
    \<Longrightarrow> gives (locked_run rid) Q s"
  by (auto simp: gives_def wp_def locked_run_def runs_get_def optional_def prog_simps load_def split: option.split)

section \<open>The guard\<close>

lemma certified_on_record:
  "review_accepts r rvs \<Longrightarrow> set rvs = set (cap_reviews c) \<Longrightarrow> reviewed c (last rvs)"
  "implementation_certified rvs ps \<Longrightarrow> set ps = set (cap_guardians c) \<Longrightarrow> certified c (last rvs)"
  "final_certified r vs ps \<Longrightarrow> review_accepts r rvs \<Longrightarrow> set ps = set (cap_guardians c) \<Longrightarrow> set vs = set (cap_validations c)
    \<Longrightarrow> finally_valid c (last rvs)"
proof -
  show "review_accepts r rvs \<Longrightarrow> set rvs = set (cap_reviews c) \<Longrightarrow> reviewed c (last rvs)"
    using last_in_set [of rvs] by (auto simp: review_accepts_def reviewed_def)
  show "implementation_certified rvs ps \<Longrightarrow> set ps = set (cap_guardians c) \<Longrightarrow> certified c (last rvs)"
    using last_in_set [of "filter (\<lambda>p. rep_checkpoint p = CP_IMPLEMENTATION) ps"]
    by (auto simp: implementation_certified_def certified_def Let_def)
  show "finally_valid c (last rvs)" if "final_certified r vs ps" "review_accepts r rvs" "set ps = set (cap_guardians c)"
    "set vs = set (cap_validations c)"
    using that last_in_set [of "final_reports ps"] last_in_set [of vs]
    by (auto simp: final_certified_def finally_valid_def review_accepts_def final_reports_def
        intro!: bexI [of _ "last vs"] bexI [of _ "last (filter (\<lambda>p. rep_checkpoint p = CP_FINAL) ps)"])
      (metis option.inject)
qed

lemma earnedI:
  assumes "review_accepts r rvs" and "set rvs = set (cap_reviews c)"
    and "target \<noteq> RS_CHANGE_GUARD \<Longrightarrow> implementation_certified rvs ps \<and> set ps = set (cap_guardians c)"
    and "target \<notin> {RS_CHANGE_GUARD, RS_DOCUMENTING, RS_DELIVERY_VALIDATION} \<Longrightarrow> final_certified r vs ps \<and> set vs = set (cap_validations c)"
    and "target = RS_COMPLETED \<longrightarrow> remembered c"
  shows "earned c target"
proof -
  have "reviewed c (last rvs)" using assms(1,2) by (rule certified_on_record)
  moreover have "certified c (last rvs)" if "target \<noteq> RS_CHANGE_GUARD"
    using assms(3) [OF that] certified_on_record(2) by blast
  moreover have "finally_valid c (last rvs)" if "target \<notin> {RS_CHANGE_GUARD, RS_DOCUMENTING, RS_DELIVERY_VALIDATION}"
    using assms(3) assms(4) [OF that] certified_on_record(3) [OF _ assms(1)] that by blast
  ultimately show ?thesis using assms(5) by (auto simp: earned_def)
qed

lemma completion_gives:
  assumes c: "map_of (uow_work s) (run_id r) = Some c"
  shows "gives (completion_guard r) (\<lambda>_ t. t = s \<and> remembered c) s"
proof -
  have "remembered c" if "\<not> (case event_by_key ''curation:promoted'' (cap_events c) of None \<Rightarrow> True | Some e \<Rightarrow> pl_memory (event_payload e) = [])"
    using that by (auto simp: remembered_def event_by_key_def find_Some_iff split: option.splits)
  note found = this
  show ?thesis unfolding completion_guard_def
    by (rule conjI [OF refl found] gives_bnd gives_by_key [OF c] gives_deny gives_reads | assumption)+
qed

lemma guard_gives:
  assumes c: "map_of (uow_work s) (run_id r) = Some c"
  shows "gives (guard_delivery r target) (\<lambda>_ t. t = s \<and> earned c target) s"
proof -
  have "gives (if target = RS_COMPLETED then completion_guard r else ret ())
      (\<lambda>_ t. t = s \<and> (target = RS_COMPLETED \<longrightarrow> remembered c)) s"
    using completion_gives [OF c] by (auto simp: gives_def wp_ret)
  note first = this
  show ?thesis unfolding guard_delivery_def Let_def
    by (rule gives_then [OF first] gives_records [OF c] gives_delivery [OF c] gives_reads gives_bnd gives_deny gives_if gives_ret
        | (rule conjI [OF refl earnedI]; (blast | fastforce); fail) | (simp add: earned_before; fail))+
qed

end
