(* ===== verification/Orq_Journey.thy ===== *)
theory Orq_Journey
  imports Orq_Evaluation Orq_Certificates
begin

text \<open>
  The run state machine end to end. \<open>journey\<close> says of a committed capsule that its run got where it
  is along the transitions of \<^verbatim>\<open>core/state_machine.py\<close> and that its event log announces every state it
  was in, and has on record what entering each delivery stage takes. The services that do not save runs or plans keep it because they leave the state alone
  (\<open>calm_order\<close>); the ones that do are followed step by step.
\<close>

section \<open>Changes that leave the run state alone\<close>

definition calm :: "capsule \<Rightarrow> capsule \<Rightarrow> bool" where
  "calm c d \<longleftrightarrow> run_state (cap_run d) = run_state (cap_run c) \<and> run_resume (cap_run d) = run_resume (cap_run c)
     \<and> run_repairs (cap_run d) = run_repairs (cap_run c) \<and> run_max_repairs (cap_run d) = run_max_repairs (cap_run c)
     \<and> (cap_plans d = [] \<longleftrightarrow> cap_plans c = []) \<and> on_record c d"

locale calm_order = capsule_order R for R :: capsule_rel +
  assumes R_calm: "calm c d \<Longrightarrow> R rid (Some c) (Some d)"
    and R_new: "fresh_run r \<Longrightarrow> R rid None (Some (new_capsule cid r))"
begin

lemma calm_put: "(\<And>c. calm c (f c)) \<Longrightarrow> keeps (tx R) (put rid f)"
  by (intro keeps_put R_calm)

lemmas calm_guarded = keeps_load_then deny_then put_ok R_calm

lemma calm_runs_add: "fresh_run r \<Longrightarrow> keeps (tx R) (runs_add env day r)"
proof -
  assume r: "fresh_run r"
  have "tx R s (s\<lparr>uow_work := uow_work s @ [(run_id r, new_capsule cid r)]\<rparr>)" for s cid
    by (intro tx_work) (auto simp: stores_def R_refl R_new [OF r] map_add_def split: option.split)
  then show ?thesis by (auto simp: keeps_def runs_add_def prog_simps tx_refl split: sum.split)
qed

lemma calm_run_fields:
  "keeps (tx R) (runs_save_goal gc)" "keeps (tx R) (runs_set_current_goal rid gid)"
  unfolding runs_save_goal_def runs_set_current_goal_def Let_def
  by (intro calm_guarded; simp add: calm_def on_record_def)+

lemma calm_save_criterion: "keeps (tx R) (runs_save_criterion k)"
  unfolding runs_save_criterion_def
  by (intro transaction.program_laws transaction.keeps_all_capsules transaction.keeps_load calm_put) (simp add: calm_def on_record_def put_criterion_def split: option.split)

lemma calm_save_evaluation: "keeps (tx R) (runs_save_evaluation k e)"
  unfolding runs_save_evaluation_def
  by (intro transaction.program_laws transaction.keeps_all_capsules transaction.keeps_load calm_put calm_save_criterion) (simp add: calm_def on_record_def)

lemma calm_events_append: "keeps (tx R) (events_append env rid d)"
  unfolding events_append_def
  by (intro transaction.program_laws transaction.keeps_load transaction.keeps_tick calm_put) (simp add: calm_def on_record_def append_event_def subset_insertI)

lemma calm_tasks: "keeps (tx R) (add_task t)" "keeps (tx R) (save_task t)"
  unfolding add_task_def save_task_def
  by (intro transaction.program_laws transaction.keeps_load calm_put; simp add: calm_def on_record_def put_task_def)+

lemma calm_guarded_puts: "keeps (tx R) (save_phase ph)" "keeps (tx R) (add_request q)"
  unfolding save_phase_def add_request_def
  by (intro transaction.program_laws transaction.keeps_load calm_put; simp add: calm_def on_record_def)+

lemma calm_add_decision: "keeps (tx R) (add_decision dec)"
  unfolding add_decision_def
  by (intro transaction.program_laws transaction.keeps_load transaction.keeps_all_capsules calm_put) (simp add: calm_def on_record_def)

lemma calm_puts: "keeps (tx R) (save_actor a)" "keeps (tx R) (save_execution x)" "keeps (tx R) (save_policy pol)"
  "keeps (tx R) (save_workspace w)"
  unfolding save_actor_def save_execution_def save_policy_def save_workspace_def
  by (intro calm_put; simp add: calm_def on_record_def)+

lemma calm_tables:
  "keeps (tx R) (save_tool ti)" "keeps (tx R) (providers_save pe)" "keeps (tx R) (save_artifact art)"
  "keeps (tx R) (save_finding fi)" "keeps (tx R) (save_review rv)" "keeps (tx R) (save_validation fv)"
  unfolding save_tool_def providers_save_def save_artifact_def save_finding_def save_review_def save_validation_def
  by (intro upsert_law insert_new_law R_calm; simp add: calm_def on_record_def subset_insertI tools_table_def invocations_table_def
      artifacts_table_def findings_table_def reviews_table_def validations_table_def)+

lemma calm_save_guardian: "keeps (tx R) (save_guardian rep)"
  unfolding save_guardian_def
  by (intro transaction.program_laws transaction.keeps_ensure transaction.keeps_table_list calm_put) (simp add: calm_def on_record_def subset_insertI)

lemma calm_delivery_save: "keeps (tx R) (delivery_save gd)"
  unfolding delivery_save_def by (intro transaction.program_laws transaction.keeps_delivery_get calm_put) (simp add: calm_def on_record_def)

end

sublocale calm_order \<subseteq> repository_contract "tx R" "evolves R"
  by unfold_locales (rule discard_evolves keeps_commit calm_runs_add calm_run_fields calm_save_criterion calm_save_evaluation calm_events_append
      calm_tasks calm_guarded_puts calm_add_decision calm_puts calm_tables calm_save_guardian calm_delivery_save | assumption)+

section \<open>Journeys\<close>

definition stage :: "capsule \<Rightarrow> lifecycle" where
  "stage c = (run_state (cap_run c), run_resume (cap_run c))"

text \<open>The repairs a run has used, and how many it may use.\<close>

definition budget :: "capsule \<Rightarrow> nat \<times> nat" where
  "budget c = (run_repairs (cap_run c), run_max_repairs (cap_run c))"

definition announced :: "event list \<Rightarrow> run_state \<Rightarrow> bool" where
  "announced es q \<longleftrightarrow> (\<exists>e \<in> set es. event_kind e \<in> set run_events \<and> pl_status (event_payload e) = Some (run_state_str q))"

definition journey :: "capsule \<Rightarrow> bool" where
  "journey c \<longleftrightarrow> (\<exists>V. visits V (stage c) \<and> (\<forall>q \<in> V. q \<noteq> RS_RECEIVED \<longrightarrow> announced (cap_events c) q)
     \<and> (\<forall>q \<in> V. earned c q) \<and> (cap_plans c = [] \<or> RS_GOAL_DEFINED \<in> V)) \<and> fst (budget c) \<le> snd (budget c)"

lemma announced_mono: "announced es q \<Longrightarrow> set es \<subseteq> set fs \<Longrightarrow> announced fs q"
  by (auto simp: announced_def)

lemma calm_journey: "calm c d \<Longrightarrow> journey c \<Longrightarrow> journey d"
  unfolding journey_def calm_def stage_def budget_def by (metis announced_mono earned_mono on_record_def)

lemma new_journey: "fresh_run r \<Longrightarrow> journey (new_capsule cid r)"
  by (auto simp: journey_def stage_def budget_def new_capsule_def fresh_run_def earned_before delivery_stages_def
      intro!: exI [of _ "{RS_RECEIVED}"] visits.received)

text \<open>Two orders: keeping the stage of every run and whether it has a plan, and keeping journeys.\<close>

definition stage_rel :: capsule_rel where
  "stage_rel rid x y \<longleftrightarrow> (\<forall>c. x = Some c \<longrightarrow> (\<exists>d. y = Some d \<and> stage d = stage c \<and> budget d = budget c
     \<and> (cap_plans d = [] \<longleftrightarrow> cap_plans c = []) \<and> on_record c d))"

definition journey_rel :: capsule_rel where
  "journey_rel rid x y \<longleftrightarrow> pred_option journey x \<longrightarrow> pred_option journey y"

interpretation stage_order: calm_order stage_rel
proof
  show "stage_rel rid x z" if "stage_rel rid x y" "stage_rel rid y z" for rid x y z
    using that on_record_trans by (fastforce simp: stage_rel_def)
qed (auto simp: stage_rel_def stage_def budget_def calm_def stamped_def on_record_def)

interpretation journey_order: calm_order journey_rel
proof
  have same: "journey d = journey c" if "calm c d" "calm d c" for c d
    using that calm_journey by blast
  show "journey_rel rid (Some c) (Some (c\<lparr>cap_dirty := b\<rparr>))" for rid c b
    using same [of c "c\<lparr>cap_dirty := b\<rparr>"] by (simp add: journey_rel_def calm_def on_record_def)
  show "journey_rel rid (Some c) (Some (stamped c))" for rid c
    using same [of c "stamped c"] by (simp add: journey_rel_def calm_def stamped_def on_record_def)
qed (auto simp: journey_rel_def calm_journey new_journey)

section \<open>Following a unit of work\<close>

definition all_journeys :: "capsules \<Rightarrow> bool" where
  "all_journeys cs \<longleftrightarrow> (\<forall>rid c. map_of cs rid = Some c \<longrightarrow> journey c)"

text \<open>
  The unit of work and the store consist of journeys (\<open>on_track\<close>); it also still knows the run it
  has read, where the run was, with a plan if \<open>has_plan\<close> (\<open>tracking\<close>).
\<close>

definition on_track :: "uow \<Rightarrow> bool" where
  "on_track s \<longleftrightarrow> all_journeys (uow_work s) \<and> all_journeys (uow_disk s)"

definition tracking :: "run \<Rightarrow> bool \<Rightarrow> uow \<Rightarrow> bool" where
  "tracking r has_plan s \<longleftrightarrow> on_track s \<and> (\<exists>c. map_of (uow_work s) (run_id r) = Some c
     \<and> stage c = (run_state r, run_resume r) \<and> budget c = (run_repairs r, run_max_repairs r) \<and> (has_plan \<longrightarrow> cap_plans c \<noteq> []))"

definition ready :: "run \<Rightarrow> bool \<Rightarrow> run_state \<Rightarrow> uow \<Rightarrow> bool" where
  "ready r has_plan q s \<longleftrightarrow> tracking r has_plan s \<and> (\<exists>c. map_of (uow_work s) (run_id r) = Some c \<and> earned c q)"

text \<open>Assertions that calm steps keep.\<close>

definition steady :: "(uow \<Rightarrow> bool) \<Rightarrow> bool" where
  "steady A \<longleftrightarrow> (\<forall>s. A s \<longrightarrow> on_track s) \<and> (\<forall>s t. tx journey_rel s t \<longrightarrow> tx stage_rel s t \<longrightarrow> A s \<longrightarrow> A t)"

definition leads :: "(uow \<Rightarrow> bool) \<Rightarrow> 'a act \<Rightarrow> bool" where
  "leads A m \<longleftrightarrow> (\<forall>s. A s \<longrightarrow> wp m (\<lambda>_. on_track) (\<lambda>_ t. all_journeys (uow_disk t)) s)"

lemma leadsI: "(\<And>s. A s \<Longrightarrow> wp m (\<lambda>_. on_track) (\<lambda>_ t. all_journeys (uow_disk t)) s) \<Longrightarrow> leads A m"
  by (simp add: leads_def)

lemma tracking_on: "tracking r b s \<Longrightarrow> on_track s"
  by (simp add: tracking_def)

lemma journeys_stores: "all_journeys cs \<Longrightarrow> stores journey_rel cs ds \<longleftrightarrow> all_journeys ds"
  by (auto simp: all_journeys_def stores_def journey_rel_def pred_option_def elem_set split: option.splits)

lemma tx_on_track: "tx journey_rel s t \<Longrightarrow> on_track s \<Longrightarrow> on_track t"
  unfolding tx_def on_track_def using journeys_stores by blast

lemma tx_tracking: "tx journey_rel s t \<Longrightarrow> tx stage_rel s t \<Longrightarrow> tracking r b s \<Longrightarrow> tracking r b t"
  using tx_on_track [of s t] by (fastforce simp: tracking_def tx_def stores_def stage_rel_def dest: spec [of _ "run_id r"])

lemma tx_ready: "tx journey_rel s t \<Longrightarrow> tx stage_rel s t \<Longrightarrow> ready r b q s \<Longrightarrow> ready r b q t"
  using tx_tracking [of s t r b]
  by (fastforce simp: ready_def tx_def stores_def stage_rel_def intro: earned_mono dest: spec [of _ "run_id r"])

lemma steady_tracking [simp]: "steady (tracking r b)" "steady (ready r b q)"
  using tx_tracking tx_ready by (auto simp: steady_def ready_def tracking_on)

lemma steady_on: "steady A \<Longrightarrow> A s \<Longrightarrow> on_track s"
  by (simp add: steady_def)

lemma on_track_disk: "on_track s \<Longrightarrow> all_journeys (uow_disk s)"
  by (simp add: on_track_def)

text \<open>Steps that leave the state alone keep the track.\<close>

lemma leads_calm:
  assumes "keeps (tx journey_rel) m" and "\<And>s. A s \<Longrightarrow> on_track s"
  shows "leads A m"
proof (rule leadsI)
  fix s assume "A s"
  then have "on_track (snd (m s))" using assms tx_on_track by (simp add: keeps_def) blast
  then show "wp m (\<lambda>_. on_track) (\<lambda>_ t. all_journeys (uow_disk t)) s"
    by (auto simp: wp_def on_track_disk split: prod.split sum.split)
qed

lemma leads_on: "keeps (tx journey_rel) m \<Longrightarrow> leads on_track m"
  by (rule leads_calm)

lemma leads_tracking: "keeps (tx journey_rel) m \<Longrightarrow> leads (tracking r b) m"
  by (erule leads_calm) (rule tracking_on)

lemma leads_ready: "keeps (tx journey_rel) m \<Longrightarrow> leads (ready r b q) m"
  by (erule leads_calm) (auto simp: ready_def tracking_on)

definition still :: "'a act \<Rightarrow> bool" where
  "still m \<longleftrightarrow> keeps (tx journey_rel) m \<and> keeps (tx stage_rel) m"

lemma stillI: "keeps (tx journey_rel) m \<Longrightarrow> keeps (tx stage_rel) m \<Longrightarrow> still m"
  by (simp add: still_def)

lemma leads_bnd_fact:
  assumes A: "steady A" and "still m" and "\<And>s x t. m s = (Inr x, t) \<Longrightarrow> P x" and "\<And>x. P x \<Longrightarrow> leads A (f x)"
  shows "leads A (bnd m f)"
proof (rule leadsI)
  fix s assume "A s"
  moreover have "tx journey_rel s (snd (m s))" "tx stage_rel s (snd (m s))"
    using assms(2) by (simp_all add: still_def keeps_def)
  ultimately have "A (snd (m s))" using A by (auto simp: steady_def)
  with assms(3,4) show "wp (bnd m f) (\<lambda>_. on_track) (\<lambda>_ t. all_journeys (uow_disk t)) s"
    by (auto simp: wp_bnd leads_def wp_def [of m] steady_on [OF A] on_track_disk split: prod.split sum.split)
qed

lemmas leads_tracked_fact = leads_bnd_fact [OF steady_tracking(1)]

lemma leads_bnd: "still m \<Longrightarrow> (\<And>x. leads (tracking r b) (f x)) \<Longrightarrow> leads (tracking r b) (bnd m f)"
  by (rule leads_tracked_fact [where P = "\<lambda>_. True"]) simp_all

lemma leads_ready_bnd: "still m \<Longrightarrow> (\<And>x. leads (ready r b q) (f x)) \<Longrightarrow> leads (ready r b q) (bnd m f)"
  by (rule leads_bnd_fact [where P = "\<lambda>_. True"]) simp_all

text \<open>A guard that only reads, on the capsule of the run.\<close>

lemma leads_earned:
  assumes "\<And>s c. map_of (uow_work s) (run_id r) = Some c \<Longrightarrow> gives m (\<lambda>_ t. t = s \<and> earned c q) s"
    and "still m" and "\<And>x. leads (ready r b q) (f x)"
  shows "leads (tracking r b) (bnd m f)"
proof (rule leadsI)
  fix s assume A: "tracking r b s"
  then obtain c where "map_of (uow_work s) (run_id r) = Some c" by (auto simp: tracking_def)
  with assms(1) A have "ready r b q t" if "m s = (Inr x, t)" for x t
    using that gives_returns by (fastforce simp: ready_def)
  moreover have "tracking r b (snd (m s))" using A assms(2) by (auto simp: still_def keeps_def intro: tx_tracking)
  ultimately show "wp (bnd m f) (\<lambda>_. on_track) (\<lambda>_ t. all_journeys (uow_disk t)) s"
    using assms(3) by (auto simp: wp_bnd leads_def wp_def [of m] tracking_on on_track_disk split: prod.split sum.split)
qed

lemma leads_deny:
  assumes "\<And>s. A s \<Longrightarrow> on_track s" and "\<not> c \<Longrightarrow> leads A (f ())"
  shows "leads A (bnd (deny c e) f)"
  using assms by (auto simp: leads_def wp_simps on_track_disk)

lemma leads_the_or:
  assumes "\<And>s. A s \<Longrightarrow> on_track s" and "\<And>y. x = Some y \<Longrightarrow> leads A (f y)"
  shows "leads A (bnd (the_or e x) f)"
  using assms by (auto simp: leads_def wp_simps on_track_disk split: option.split)

lemma leads_result:
  assumes "\<And>s. A s \<Longrightarrow> on_track s" and "\<And>y. x = Inr y \<Longrightarrow> leads A (f y)"
  shows "leads A (bnd (result_of x) f)"
  using assms by (auto simp: leads_def result_of_def wp_simps on_track_disk split: sum.split)

lemma leads_if: "(c \<Longrightarrow> leads A m) \<Longrightarrow> (\<not> c \<Longrightarrow> leads A n) \<Longrightarrow> leads A (if c then m else n)"
  by simp

lemma leads_option: "(x = None \<Longrightarrow> leads A m) \<Longrightarrow> (\<And>y. x = Some y \<Longrightarrow> leads A (f y))
    \<Longrightarrow> leads A (case x of None \<Rightarrow> m | Some y \<Rightarrow> f y)"
  by (cases x) simp_all

lemma leads_weaken: "leads (tracking r False) m \<Longrightarrow> leads (tracking r b) m"
  by (auto simp: leads_def tracking_def)

section \<open>The steps that are not calm\<close>

lemma all_journeys_update: "all_journeys cs \<Longrightarrow> journey c \<Longrightarrow> all_journeys (AList.update rid c cs)"
  by (auto simp: all_journeys_def update_conv')

lemma journey_dirty [simp]: "journey (c\<lparr>cap_dirty := b\<rparr>) = journey c"
  by (simp add: journey_def stage_def budget_def)

text \<open>Saving the run with another plan version, but where it is.\<close>

lemma leads_save_same:
  assumes "run_id q = run_id r" "run_state q = run_state r" "run_resume q = run_resume r"
    and "run_max_repairs q = run_max_repairs r" "run_repairs q \<le> run_repairs r \<or> run_repairs q \<le> run_max_repairs r"
    and f: "\<And>x. leads on_track (f x)"
  shows "leads (tracking r b) (bnd (runs_save q) f)"
proof (rule leadsI)
  fix s assume A: "tracking r b s"
  then obtain c where c: "map_of (uow_work s) (run_id r) = Some c" "stage c = (run_state r, run_resume r)"
    "budget c = (run_repairs r, run_max_repairs r)" and on: "on_track s" by (auto simp: tracking_def)
  define d where "d = c\<lparr>cap_run := q\<lparr>run_last_seq := run_last_seq (cap_run c)\<rparr>, cap_dirty := True\<rparr>"
  have "journey c" using c on by (auto simp: on_track_def all_journeys_def)
  then have "journey d" using assms(2-5) c(2,3) by (auto simp: journey_def stage_def budget_def d_def)
  with on have "on_track (s\<lparr>uow_work := AList.update (run_id r) d (uow_work s)\<rparr>)"
    by (simp add: on_track_def all_journeys_update)
  with f c on assms(1) show "wp (bnd (runs_save q) f) (\<lambda>_. on_track) (\<lambda>_ t. all_journeys (uow_disk t)) s"
    by (simp add: runs_save_def put_def wp_simps on_track_disk leads_def d_def)
qed

text \<open>Saving a plan, once the goal is defined or there is a plan already.\<close>

lemma goal_defined_visited:
  assumes "journey c" and "cap_plans c \<noteq> [] \<or> run_state (cap_run c) = RS_GOAL_DEFINED"
  shows "journey (c\<lparr>cap_tasks := ts, cap_plans := ps\<rparr>)"
proof -
  from assms obtain V where V: "visits V (stage c)" "\<forall>q \<in> V. q \<noteq> RS_RECEIVED \<longrightarrow> announced (cap_events c) q"
    "cap_plans c = [] \<or> RS_GOAL_DEFINED \<in> V" "\<forall>q \<in> V. earned c q" by (auto simp: journey_def)
  have "fst (stage c) \<in> V" using visits_inv [OF V(1)] by (simp add: lifecycle_inv_def)
  with V assms show ?thesis by (auto simp: journey_def stage_def budget_def)
qed

lemma leads_save_plan:
  assumes "plan_run p = run_id r" and "b \<or> run_state r = RS_GOAL_DEFINED"
    and "\<And>x. leads (tracking r b) (f x)"
  shows "leads (tracking r b) (bnd (save_plan p) f)"
proof (rule leadsI)
  fix s assume A: "tracking r b s"
  then obtain c where c: "map_of (uow_work s) (run_id r) = Some c" "stage c = (run_state r, run_resume r)"
    "b \<longrightarrow> cap_plans c \<noteq> []" "budget c = (run_repairs r, run_max_repairs r)" and on: "on_track s" by (auto simp: tracking_def)
  define d where "d = c\<lparr>cap_tasks := adopt_tasks (plan_tasks p) (cap_tasks c),
    cap_plans := AList.update (plan_version p) p (cap_plans c), cap_dirty := True\<rparr>"
  have "journey c" using c on by (auto simp: on_track_def all_journeys_def)
  then have "journey d" using goal_defined_visited [of c] c assms(2) by (auto simp: d_def stage_def)
  with on have "on_track (s\<lparr>uow_work := AList.update (run_id r) d (uow_work s)\<rparr>)"
    by (simp add: on_track_def all_journeys_update)
  moreover have "cap_plans d \<noteq> []" by (cases "cap_plans c") (auto simp: d_def)
  ultimately have "tracking r b (s\<lparr>uow_work := AList.update (run_id r) d (uow_work s)\<rparr>)"
    using c by (simp add: tracking_def stage_def budget_def update_conv') (simp add: d_def)
  with assms(1,3) c on show "wp (bnd (save_plan p) f) (\<lambda>_. on_track) (\<lambda>_ t. all_journeys (uow_disk t)) s"
    by (simp add: save_plan_def put_def wp_simps on_track_disk leads_def d_def)
qed

text \<open>A plan that is read is a plan the run has.\<close>

lemma plan_view_some: "plan_view c v = Inr (Some p) \<Longrightarrow> cap_plans c \<noteq> []"
  by (auto simp: plan_view_def split: option.splits if_splits)

lemma leads_get_plan:
  assumes "leads (tracking r b) (f None)" and "\<And>p. leads (tracking r True) (f (Some p))"
  shows "leads (tracking r b) (bnd (get_plan (run_id r) v) f)"
proof (rule leadsI)
  fix s assume A: "tracking r b s"
  then obtain c where c: "map_of (uow_work s) (run_id r) = Some c" and on: "on_track s"
    by (auto simp: tracking_def)
  have "tracking r True s" if "plan_view c v = Inr (Some p)" for p
    using A c plan_view_some [OF that] by (auto simp: tracking_def)
  then have "wp (f x) (\<lambda>_. on_track) (\<lambda>_ t. all_journeys (uow_disk t)) s" if "plan_view c v = Inr x" for x
    using that A assms by (cases x) (auto simp: leads_def)
  with c on show "wp (bnd (get_plan (run_id r) v) f) (\<lambda>_. on_track) (\<lambda>_ t. all_journeys (uow_disk t)) s"
    by (auto simp: get_plan_def wp_simps on_track_disk split: sum.split)
qed

text \<open>Resuming a replanned run at planning.\<close>

lemma leads_save_replan:
  assumes "run_id q = run_id r" "run_state q = run_state r" "run_resume q = Some RS_PLANNED"
    and "run_repairs q = run_repairs r" "run_max_repairs q = run_max_repairs r"
    and "run_state r = RS_PAUSED \<or> run_state r = RS_HUMAN_REVIEW_REQUIRED"
    and f: "\<And>x. leads on_track (f x)"
  shows "leads (tracking r True) (bnd (runs_save q) f)"
proof (rule leadsI)
  fix s assume A: "tracking r True s"
  then obtain c where c: "map_of (uow_work s) (run_id r) = Some c" "stage c = (run_state r, run_resume r)"
    "cap_plans c \<noteq> []" "budget c = (run_repairs r, run_max_repairs r)" and on: "on_track s" by (auto simp: tracking_def)
  define d where "d = c\<lparr>cap_run := q\<lparr>run_last_seq := run_last_seq (cap_run c)\<rparr>, cap_dirty := True\<rparr>"
  have "journey c" using c on by (auto simp: on_track_def all_journeys_def)
  then obtain V where V: "visits V (stage c)" "\<forall>t \<in> V. t \<noteq> RS_RECEIVED \<longrightarrow> announced (cap_events c) t"
    "\<forall>t \<in> V. earned c t" "RS_GOAL_DEFINED \<in> V" "run_repairs r \<le> run_max_repairs r" using c(3,4) by (auto simp: journey_def)
  then have "visits V (run_state r, Some RS_PLANNED)" using c(2) assms(6) by (auto intro: visits.replan)
  with V assms(2-5) have "journey d" by (auto simp: journey_def stage_def budget_def d_def)
  with on have "on_track (s\<lparr>uow_work := AList.update (run_id r) d (uow_work s)\<rparr>)"
    by (simp add: on_track_def all_journeys_update)
  with f c on assms(1) show "wp (bnd (runs_save q) f) (\<lambda>_. on_track) (\<lambda>_ t. all_journeys (uow_disk t)) s"
    by (simp add: runs_save_def put_def wp_simps on_track_disk leads_def d_def)
qed

section \<open>The move\<close>

lemma wp_ticks: "wp uuid4 Q E s = Q (UUID4 (uow_step s)) (env_tick s)"
  "wp (utc_now env) F E s = F (env_clock env (uow_step s)) (env_tick s)"
  by (simp_all add: wp_def uuid4_def utc_now_def)

text \<open>An event that is appended, or found to have been, is in the log; nothing else changes.\<close>

lemma wp_events_append:
  assumes c: "map_of (uow_work s) rid = Some c" and error: "\<And>e t. uow_disk t = uow_disk s \<Longrightarrow> E e t"
    and log: "\<And>e t d. uow_disk t = uow_disk s \<Longrightarrow> uow_work t = AList.update rid d (uow_work s) \<or> uow_work t = uow_work s \<and> d = c
      \<Longrightarrow> stage d = stage c \<Longrightarrow> budget d = budget c \<Longrightarrow> cap_plans d = cap_plans c \<Longrightarrow> on_record c d
      \<Longrightarrow> \<exists>x \<in> set (cap_events d). event_kind x = evd_kind dr \<and> event_payload x = evd_payload dr \<Longrightarrow> Q e t"
  shows "wp (events_append env rid dr) Q E s"
proof (cases "event_draft_ok dr \<and> run_id (cap_run c) = rid")
  case True
  show ?thesis
  proof (cases "event_by_key (evd_key dr) (cap_events c)")
    case None
    have "Q x t" if "uow_disk t = uow_disk s"
      "uow_work t = AList.update rid ((append_event (event_of c rid dr i m) c)\<lparr>cap_dirty := True\<rparr>) (uow_work s)" for x t i m
      using that by (intro log [of t "(append_event (event_of c rid dr i m) c)\<lparr>cap_dirty := True\<rparr>"])
        (auto simp: append_event_def event_of_def stage_def budget_def on_record_def)
    with True None c show ?thesis
      by (simp add: events_append_def wp_simps wp_ticks error put_def env_tick_def)
  next
    case (Some e)
    then have "e \<in> set (cap_events c)" by (auto simp: event_by_key_def find_Some_iff)
    then have "same_event e dr \<Longrightarrow> Q x s" for x using log [of s c] by (auto simp: same_event_def)
    with True Some c show ?thesis by (simp add: events_append_def wp_simps error)
  qed
next
  case False
  with c show ?thesis by (auto simp: events_append_def wp_simps error)
qed

lemma leads_move:
  assumes q: "run_id q = run_id r" "run_repairs q = run_repairs r" "run_max_repairs q = run_max_repairs r" and step: "lifecycle_step (run_state r, run_resume r) (run_state q, run_resume q)"
    and kind: "kind \<in> set run_events" and f: "\<And>e. leads on_track (f e)"
  shows "leads (ready r b (run_state q)) (bnd (runs_save q) (\<lambda>_.
    bnd (emit env q kind key now (change_payload previous (run_state_str (run_state q))) actor task xid) f))"
proof (rule leadsI)
  fix s assume A: "ready r b (run_state q) s"
  then obtain c where c: "map_of (uow_work s) (run_id r) = Some c" "stage c = (run_state r, run_resume r)"
    "budget c = (run_repairs r, run_max_repairs r)" "earned c (run_state q)" and on: "on_track s"
    by (auto simp: ready_def tracking_def)
  then have "journey c" by (auto simp: on_track_def all_journeys_def)
  then obtain V where V: "visits V (stage c)" "\<forall>t \<in> V. t \<noteq> RS_RECEIVED \<longrightarrow> announced (cap_events c) t"
    "\<forall>t \<in> V. earned c t" "cap_plans c = [] \<or> RS_GOAL_DEFINED \<in> V" "fst (budget c) \<le> snd (budget c)" by (auto simp: journey_def)
  define d where "d = c\<lparr>cap_run := q\<lparr>run_last_seq := run_last_seq (cap_run c)\<rparr>, cap_dirty := True\<rparr>"
  define u where "u = s\<lparr>uow_work := AList.update (run_id r) d (uow_work s)\<rparr>"
  have moved: "visits (insert (run_state q) V) (run_state q, run_resume q)"
    using V(1) step c(2) by (auto intro: visits.moved)
  have arrived: "journey d'" if "stage d' = stage d" "budget d' = budget d" "cap_plans d' = cap_plans d" "on_record d d'"
    "\<exists>x \<in> set (cap_events d'). event_kind x = kind \<and> event_payload x = change_payload previous (run_state_str (run_state q))" for d'
  proof -
    have "announced (cap_events d') (run_state q)"
      using that(5) kind by (auto simp: announced_def change_payload_def)
    moreover have "announced (cap_events d') t" if "announced (cap_events c) t" for t
      using that \<open>on_record d d'\<close> by (auto simp: announced_def on_record_def d_def)
    moreover have "earned d' t" if "earned c t" for t
      using earned_mono [OF _ \<open>on_record d d'\<close>] that by (simp add: d_def)
    ultimately show ?thesis using moved V that(1-3) q c(3,4) by (auto simp: journey_def stage_def budget_def d_def)
  qed
  have "on_track t" if "uow_disk t = uow_disk s"
    "uow_work t = AList.update (run_id r) d' (uow_work u) \<or> uow_work t = uow_work u \<and> d' = d"
    "stage d' = stage d" "budget d' = budget d" "cap_plans d' = cap_plans d" "on_record d d'"
    "\<exists>x \<in> set (cap_events d'). event_kind x = kind \<and> event_payload x = change_payload previous (run_state_str (run_state q))" for t d'
  proof -
    have "journey d'" by (rule arrived) (fact that)+
    with on that(1,2) show ?thesis by (auto simp: on_track_def all_journeys_def u_def update_conv' split: if_splits)
  qed
  then have "wp (emit env q kind key now (change_payload previous (run_state_str (run_state q))) actor task xid)
      (\<lambda>e. wp (f e) (\<lambda>_. on_track) (\<lambda>_ t. all_journeys (uow_disk t))) (\<lambda>_ t. all_journeys (uow_disk t)) u"
    unfolding emit_def using f on q(1)
    by (intro wp_events_append [of u "run_id q" d]) (auto simp: u_def update_conv' leads_def on_track_disk)
  with c on q(1) show "wp (bnd (runs_save q) (\<lambda>_. bnd (emit env q kind key now
      (change_payload previous (run_state_str (run_state q))) actor task xid) f)) (\<lambda>_. on_track) (\<lambda>_ t. all_journeys (uow_disk t)) s"
    by (simp add: runs_save_def put_def wp_simps on_track_disk d_def u_def)
qed

section \<open>The services that save runs and plans\<close>

lemma leads_locked:
  assumes "\<And>r. run_id r = rid \<Longrightarrow> leads (tracking r False) (f r)"
  shows "leads on_track (bnd (locked_run rid) f)"
  using assms by (auto simp: leads_def locked_run_def runs_get_def optional_def wp_simps wp_def [of "catch m p h" for m p h]
      prog_simps load_def tracking_def stage_def budget_def on_track_disk split: option.split)

text \<open>What every call keeps of the store.\<close>

definition sound_step :: "uow \<Rightarrow> uow \<Rightarrow> bool" where
  "sound_step s t \<longleftrightarrow> all_journeys (uow_disk s) \<longrightarrow> all_journeys (uow_disk t)"

interpretation sound: step_order sound_step
  by unfold_locales (auto simp: sound_step_def)

lemma sound_unit:
  assumes "leads on_track body"
  shows "keeps sound_step (with_uow body)"
proof -
  have "all_journeys (uow_disk (snd (with_uow body s)))" if "all_journeys (uow_disk s)" for s
  proof -
    have "on_track (discard s)" using that by (simp add: on_track_def discard_def)
    with assms have "wp body (\<lambda>_. on_track) (\<lambda>_ t. all_journeys (uow_disk t)) (discard s)" by (simp add: leads_def)
    then show ?thesis by (auto simp: wp_def with_uow_def on_track_def split: prod.splits sum.splits) (simp_all add: discard_def)
  qed
  then show ?thesis by (simp add: keeps_def sound_step_def)
qed

lemma sound_evolves: "keeps (evolves journey_rel) m \<Longrightarrow> keeps sound_step m"
  unfolding keeps_def sound_step_def evolves_def using journeys_stores by blast

lemmas calm_laws =
  journey_order.act_laws journey_order.runtime_laws journey_order.approval_laws journey_order.task_laws
  journey_order.orchestrator_laws journey_order.keeps_guard_delivery journey_order.revision_laws
  stage_order.act_laws stage_order.runtime_laws stage_order.approval_laws stage_order.task_laws
  stage_order.orchestrator_laws stage_order.keeps_guard_delivery stage_order.revision_laws

lemma advance_event_run: "advance_event previous target \<in> set run_events"
  by (simp add: advance_event_def run_events_def)

lemma leads_move_to:
  assumes "run_id q = run_id r" "run_repairs q = run_repairs r" "run_max_repairs q = run_max_repairs r" and "run_state q = t" and "lifecycle_step (run_state r, run_resume r) (t, run_resume q)"
    and "kind \<in> set run_events" and "\<And>e. leads on_track (f e)"
  shows "leads (ready r b t) (bnd (runs_save q) (\<lambda>_.
    bnd (emit env q kind key now (change_payload previous (run_state_str t)) actor task xid) f))"
  using leads_move [of q r kind f b env key now previous actor task xid] assms by simp

lemma leads_move_run:
  assumes "validate_transition (run_state r) target (run_resume r) = Inr ()" and f: "\<And>x. keeps (tx journey_rel) (f x)"
  shows "leads (ready r b target) (bnd (move_run env r target key) f)"
proof -
  have step: "lifecycle_step (run_state r, run_resume r) (target, run_resume (moved_run r target now))" for now
    using lifecycle_step.advance [OF assms(1)] by (simp add: moved_run_def Let_def)
  have "run_id (moved_run r target now) = run_id r" "run_state (moved_run r target now) = target"
    "run_repairs (moved_run r target now) = run_repairs r" "run_max_repairs (moved_run r target now) = run_max_repairs r" for now
    by (simp_all add: moved_run_def Let_def)
  note moved = this
  show ?thesis
    unfolding move_run_def bnd_assoc Let_def
    by (intro leads_ready_bnd leads_move_to moved step advance_event_run leads_on stillI calm_laws
        journey_order.keeps_cancel_pending f)
qed

lemma leads_guarded_move:
  assumes "validate_transition (run_state r) target (run_resume r) = Inr ()" and "\<And>x. keeps (tx journey_rel) (f x)"
  shows "leads (tracking r b) (bnd (guard env r target) (\<lambda>_. bnd (move_run env r target key) f))"
  unfolding guard_def plan_guard_def
  by (subst bnd_assoc, rule leads_earned [OF guard_gives], assumption)
    ((intro stillI calm_laws; fail), (rule leads_ready_bnd, (intro stillI calm_laws; fail), rule leads_move_run [OF assms]))

text \<open>The rules in the order they are tried; guards come before calm steps.\<close>

lemmas leads_first = leads_locked leads_if leads_option leads_deny [OF tracking_on] leads_the_or [OF tracking_on]
  leads_result [OF tracking_on]

lemma sound_advance: "keeps sound_step (advance env rid target key)"
  unfolding advance_def require_key_def
  by (rule sound.keeps_bnd sound.keeps_deny sound_unit leads_first leads_guarded_move | assumption
      | rule leads_bnd, (intro stillI calm_laws; fail) | simp; fail | intro leads_tracking calm_laws; fail)+

lemma prepared_plan_run: "prepared_plan p prep s = (Inr q, t) \<Longrightarrow> plan_run q = plan_run p"
  by (auto simp: prepared_plan_def with_preparation_def result_of_def prog_simps validate_plan_iff
      split: if_splits sum.splits)

lemma sound_install_plan: "keeps sound_step (install_plan env p key)"
  unfolding install_plan_def require_key_def Let_def
  apply (rule sound.keeps_bnd, rule sound.keeps_deny, rule sound_unit, rule leads_first)
  apply (rule leads_bnd, (intro stillI calm_laws; fail))
  apply (rule leads_tracked_fact, (intro stillI calm_laws; fail), erule prepared_plan_run)
  apply (rule leads_bnd, (intro stillI calm_laws; fail))
  apply (rule leads_if)
  apply (intro leads_tracking calm_laws; fail)
  apply (rule leads_save_plan leads_save_same leads_first | rule leads_bnd, (intro stillI calm_laws; fail)
    | (simp; fail) | (auto; fail) | intro leads_tracking calm_laws; fail | intro leads_on calm_laws; fail)+
  done

lemma sound_install_revision: "keeps sound_step (install_revision env p key repair)"
  unfolding install_revision_def require_key_def Let_def
  apply (rule sound.keeps_bnd, rule sound.keeps_deny, rule sound_unit, rule leads_locked)
  apply (rule leads_bnd, (intro stillI calm_laws; fail))
  apply (rule leads_if)
  apply (intro leads_tracking calm_laws; fail)
  apply (rule leads_get_plan leads_save_plan leads_save_same leads_first | rule leads_bnd, (intro stillI calm_laws; fail)
    | (simp; fail) | (auto; fail) | intro leads_tracking calm_laws; fail | intro leads_on calm_laws; fail)+
  done

lemma sound_under_lease:
  assumes "leads on_track body"
  shows "keeps sound_step (under_lease env rid body)"
  unfolding under_lease_def
  by (intro sound.keeps_bnd sound.keeps_deny sound_unit assms leads_on calm_laws)

lemma sound_result:
  assumes "\<And>y. x = Inr y \<Longrightarrow> keeps sound_step (f y)"
  shows "keeps sound_step (bnd (result_of x) f)"
  using assms by (cases x) (auto simp: result_of_def keeps_def prog_simps sound.S_refl)

lemma sound_replace_preview: "keeps sound_step (replace_preview_plan env p expected key)"
  unfolding replace_preview_plan_def preview_checks_def bnd_assoc bnd_ret prod.case require_key_def Let_def
  apply (rule sound.keeps_bnd, rule sound.keeps_deny, rule sound_result, rule sound_under_lease, rule leads_locked)
  apply (rule leads_bnd, (intro stillI calm_laws; fail))
  apply (rule leads_if)
  apply (intro leads_tracking calm_laws; fail)
  apply (rule leads_get_plan leads_save_plan leads_save_same leads_first | rule leads_bnd, (intro stillI calm_laws; fail)
    | (simp add: validate_plan_iff with_preparation_def; fail) | intro leads_tracking calm_laws; fail
    | intro leads_on calm_laws; fail)+
  done

lemma sound_install_replan: "keeps sound_step (install_replan env p key)"
  unfolding install_replan_def replan_checks_def bnd_assoc bnd_ret require_key_def Let_def
  apply (rule sound.keeps_bnd, rule sound.keeps_deny, rule sound_under_lease, rule leads_locked)
  apply (rule leads_bnd, (intro stillI calm_laws; fail))
  apply (rule leads_if)
  apply (intro leads_tracking calm_laws; fail)
  apply (rule leads_get_plan leads_save_plan leads_save_replan leads_first | rule leads_bnd, (intro stillI calm_laws; fail)
    | (simp; fail) | intro leads_tracking calm_laws; fail | intro leads_on calm_laws; fail)+
  done

section \<open>Properties\<close>

lemma sound_ensure: "keeps sound_step (ensure_approval env rid st version digest reason)"
  by (rule sound_evolves [OF journey_order.ensure_approval_evolves])

lemma sound_ticks: "keeps sound_step (utc_now env)" "keeps sound_step uuid4"
  by (simp_all add: keeps_def sound_step_def utc_now_def uuid4_def env_tick_def)

interpretation sound_driver: driven sound_step
  by unfold_locales
    (rule sound_ticks sound_install_plan sound_advance sound_install_revision sound_replace_preview sound_ensure
      sound_evolves [OF journey_order.driver_units(1)] sound_evolves [OF journey_order.driver_units(2)]
      sound_evolves [OF journey_order.driver_units(3)] sound_evolves [OF journey_order.driver_units(4)]
      sound_evolves [OF journey_order.driver_units(5)] sound_evolves [OF journey_order.driver_units(6)])+

lemma sound_resume: "keeps sound_step (resume env rid key)"
  unfolding resume_def
  by (intro sound.keeps_bnd sound.keeps_case_prod sound.keeps_case_option sound.keeps_ret sound_advance
      sound_unit leads_on calm_laws)

lemma sound_ignore: "keeps sound_step m \<Longrightarrow> keeps sound_step (ignore_result m)"
  unfolding ignore_result_def by (intro sound.keeps_bnd sound.keeps_ret)

lemma sound_command: "keeps sound_step (run_command env c)"
  by (cases c) (simp_all add: sound_ignore sound_evolves journey_order.base_services sound_advance sound_install_plan
      sound_install_revision sound_replace_preview sound_install_replan sound_resume sound_driver.driver_services)

lemma sound_mono: "evolves journey_rel s t \<Longrightarrow> sound_step s t"
  unfolding sound_step_def evolves_def using journeys_stores by blast

interpretation sound_delivery: delivery_driver "tx journey_rel" "evolves journey_rel" sound_step
  by unfold_locales (rule sound_mono)

lemma operate_journeys: "all_journeys (uow_disk (fst s)) \<Longrightarrow> all_journeys (uow_disk (fst (operate D ps s)))"
  using operate_steps [OF sound.paired sound_delivery.drives_operation [OF sound_command], of s D ps]
  by (simp add: on_store_def sound_step_def)

lemma operate_journey:
  assumes "all_journeys (uow_disk (fst s))" and "stored (operate D ps s) rid = Some c"
  shows "journey c"
  using operate_journeys [OF assms(1)] assms(2) by (auto simp: stored_def committed_def all_journeys_def)


lemma sample_advanced: "map_option (\<lambda>c. run_state (cap_run c))
    (stored (operate sample_system [Core (Advance (sample_id 0) RS_CONTEXT_SYNC ''sync'')]
      (store_of sample_capsule, sample_machine)) (sample_id 0))
  = Some RS_CONTEXT_SYNC"
  by (subst stored_core) (simp add: sample_evaluation committed_def cong: lazy_programs)

lemma sample_journey: "all_journeys (uow_disk (fst (store_of sample_capsule, sample_machine)))"
  by (auto simp: all_journeys_def store_of_def journey_def budget_def stage_def earned_before delivery_stages_def sample_capsule_def new_capsule_def sample_run_def
      intro!: exI [of _ "{RS_RECEIVED}"] visits.received)


text \<open>
  C11: nothing skips the gates' stages. Along any sequence of operations, a run that is \<^verbatim>\<open>COMPLETED\<close>
  has in its own event log an event for every stage of the sequence after \<^verbatim>\<open>RECEIVED\<close>, testing,
  review, change guard and delivery validation included; only pushing may be missing.
\<close>
theorem completed_run_announced_every_stage:
  assumes "all_journeys (uow_disk (fst s))" and "stored (operate D ps s) rid = Some c"
    and "run_state (cap_run c) = RS_COMPLETED"
  shows "\<forall>q \<in> set run_sequence - {RS_RECEIVED, RS_PUSHING}. announced (cap_events c) q"
proof -
  from assms obtain V where V: "visits V (RS_COMPLETED, run_resume (cap_run c))"
    "\<forall>q \<in> V. q \<noteq> RS_RECEIVED \<longrightarrow> announced (cap_events c) q"
    using operate_journey [OF assms(1,2)] by (auto simp: journey_def stage_def)
  with visits_completed_all [OF V(1)] show ?thesis by auto
qed

lemma follow_visits_all: "visits V c \<Longrightarrow> follow c ts = Some d \<Longrightarrow> visits (V \<union> set ts) d"
proof (induction c ts arbitrary: V rule: follow.induct)
  case (2 s r t ts)
  then have "validate_transition s t r = Inr ()" by (auto split: if_splits)
  then have "lifecycle_step (s, r) (t, next_resume s t r)" by (rule lifecycle_step.advance)
  with "2.prems"(1) have "visits (insert t V) (t, next_resume s t r)" by (intro visits.moved)
  with 2 have "visits (insert t V \<union> set ts) d" by (simp del: Un_insert_left split: if_splits)
  then show ?case by simp
qed auto

definition stage_event :: "run_state \<Rightarrow> event" where
  "stage_event q = \<lparr>event_id = UUID4 0, event_created = 0, event_project = sample_id 1, event_run = sample_id 0,
     event_seq = 1, event_kind = EV_RUN_STATE_CHANGED, event_at = 0, event_phase = None, event_task = None,
     event_execution = None, event_actor = None, event_status = None,
     event_payload = status_payload (run_state_str q), event_key = run_state_str q\<rparr>"

text \<open>A completed run with the records its way takes.\<close>

definition accepting_review :: review_record where
  "accepting_review = \<lparr>rev_id = sample_id 20, rev_created = 0, rev_run = sample_id 0, rev_goal = sample_id 21,
     rev_plan_version = 1, rev_actor = sample_id 22, rev_tree = ''tree'',
     rev_result = \<lparr>rr_pass = True, rr_criteria = [], rr_blocking = [], rr_non_blocking = [], rr_findings = []\<rparr>\<rparr>"

definition passed_report :: "checkpoint \<Rightarrow> change_report" where
  "passed_report checkpoint = \<lparr>rep_id = sample_id (if checkpoint = CP_FINAL then 23 else 24), rep_created = 0,
     rep_run = sample_id 0, rep_actor = sample_id 25, rep_checkpoint = checkpoint, rep_base = ''abc'', rep_tree = ''tree'',
     rep_passed = True, rep_changes = [], rep_findings = []\<rparr>"

definition passed_validation :: final_validation where
  "passed_validation = \<lparr>fv_id = sample_id 26, fv_created = 0, fv_run = sample_id 0, fv_actor = sample_id 27,
     fv_goal = sample_id 21, fv_tree = ''tree'', fv_passed = True, fv_evidence = []\<rparr>"

definition promotion :: event where
  "promotion = (stage_event RS_MEMORY_FINALIZATION)\<lparr>event_payload := no_payload\<lparr>pl_memory := [sample_id 28]\<rparr>,
     event_key := ''curation:promoted''\<rparr>"

definition completed_capsule :: capsule where
  "completed_capsule = sample_capsule\<lparr>cap_run := sample_run\<lparr>run_state := RS_COMPLETED\<rparr>,
     cap_events := map stage_event sample_path @ [promotion], cap_reviews := [accepting_review],
     cap_guardians := [passed_report CP_IMPLEMENTATION, passed_report CP_FINAL], cap_validations := [passed_validation]\<rparr>"

lemmas completed_defs = completed_capsule_def accepting_review_def passed_report_def passed_validation_def promotion_def
  stage_event_def

lemma completed_journey: "all_journeys (uow_disk (fst (store_of completed_capsule, sample_machine)))"
proof -
  have "follow (RS_RECEIVED, None) sample_path = Some (RS_COMPLETED, None)"
    by (simp add: sample_path_def lifecycle_simps)
  then have V: "visits ({RS_RECEIVED} \<union> set sample_path) (RS_COMPLETED, None)"
    by (rule follow_visits_all [OF visits.received])
  have announced: "announced (cap_events completed_capsule) q" if "q \<in> set sample_path" for q
    using that by (auto simp: announced_def completed_defs run_events_def status_payload_def)
  have records: "earned completed_capsule q" for q
    by (simp add: earned_def reviewed_def certified_def finally_valid_def remembered_def completed_defs)
  from V announced records have "journey completed_capsule"
    by (auto simp: journey_def stage_def budget_def completed_capsule_def sample_capsule_def new_capsule_def sample_run_def
        intro!: exI [of _ "insert RS_RECEIVED (set sample_path)"])
  then show ?thesis by (auto simp: all_journeys_def store_of_def)
qed

lemma completed_stays: "map_option (\<lambda>c. run_state (cap_run c))
    (stored (operate sample_system [Core (Advance (sample_id 0) RS_EXECUTING ''again'')]
      (store_of completed_capsule, sample_machine)) (sample_id 0))
  = Some RS_COMPLETED"
  by (subst stored_core) (simp add: sample_evaluation completed_defs sample_path_def committed_def cong: lazy_programs)

theorem completed_run_announced_every_stage_witness:
  "\<exists>c. stored (operate sample_system [Core (Advance (sample_id 0) RS_EXECUTING ''again'')]
      (store_of completed_capsule, sample_machine)) (sample_id 0)
     = Some c \<and> announced (cap_events c) RS_CHANGE_GUARD"
proof -
  from completed_stays obtain c where c: "stored (operate sample_system [Core (Advance (sample_id 0) RS_EXECUTING ''again'')]
      (store_of completed_capsule, sample_machine)) (sample_id 0) = Some c" "run_state (cap_run c) = RS_COMPLETED" by auto
  with completed_run_announced_every_stage [OF completed_journey c] show ?thesis by (auto simp: run_sequence_def)
qed

text \<open>
  C12: a delivered run is certified. Along any sequence of operations, a run that has got to committing or
  beyond has on record an accepting review, a passed change report for exactly the reviewed tree, a
  passed final validation of the reviewed goal and a passed final change report for exactly the validated
  tree; a completed run also has the receipt of its curated memory.
\<close>
theorem delivered_run_certified:
  assumes "all_journeys (uow_disk (fst s))" and "stored (operate D ps s) rid = Some c"
    and "run_state (cap_run c) \<in> {RS_COMMITTING, RS_PUSHING, RS_MEMORY_FINALIZATION, RS_COMPLETED}"
  shows "(\<exists>rv \<in> set (cap_reviews c). rr_pass (rev_result rv)
      \<and> (\<exists>p \<in> set (cap_guardians c). rep_checkpoint p = CP_IMPLEMENTATION \<and> rep_passed p \<and> rep_tree p = rev_tree rv)
      \<and> (\<exists>v \<in> set (cap_validations c). fv_passed v \<and> fv_goal v = rev_goal rv
        \<and> (\<exists>p \<in> set (cap_guardians c). rep_checkpoint p = CP_FINAL \<and> rep_passed p \<and> rep_tree p = fv_tree v)))
    \<and> (run_state (cap_run c) = RS_COMPLETED \<longrightarrow>
        (\<exists>e \<in> set (cap_events c). event_key e = ''curation:promoted'' \<and> pl_memory (event_payload e) \<noteq> []))"
proof -
  obtain V where V: "visits V (stage c)" "\<forall>q \<in> V. earned c q"
    using operate_journey [OF assms(1,2)] by (auto simp: journey_def)
  have "run_state (cap_run c) \<in> V" using visits_inv [OF V(1)] by (simp add: lifecycle_inv_def stage_def)
  with V(2) have "earned c (run_state (cap_run c))" by blast
  with assms(3) show ?thesis
    by (auto simp: earned_def reviewed_def certified_def finally_valid_def remembered_def delivery_stages_def)
qed

theorem delivered_run_certified_witness:
  "\<exists>c. stored (operate sample_system [Core (Advance (sample_id 0) RS_EXECUTING ''again'')]
      (store_of completed_capsule, sample_machine)) (sample_id 0) = Some c \<and> (\<exists>v \<in> set (cap_validations c). fv_passed v)"
proof -
  from completed_stays obtain c where c: "stored (operate sample_system [Core (Advance (sample_id 0) RS_EXECUTING ''again'')]
      (store_of completed_capsule, sample_machine)) (sample_id 0) = Some c" "run_state (cap_run c) = RS_COMPLETED" by auto
  with delivered_run_certified [OF completed_journey c(1)] show ?thesis by auto
qed

text \<open>
  C27: the repair budget holds. Whatever sequence of operations runs (scheduling repairs, installing
  repair plans directly, replanning, resuming), a run never uses more repair iterations than its
  configured maximum.
\<close>
theorem repair_budget_respected:
  assumes "all_journeys (uow_disk (fst s))" and "stored (operate D ps s) rid = Some c"
  shows "run_repairs (cap_run c) \<le> run_max_repairs (cap_run c)"
  using operate_journey [OF assms] by (simp add: journey_def budget_def)

theorem repair_budget_respected_witness:
  "\<exists>c. stored (operate sample_system [Core (Advance (sample_id 0) RS_CONTEXT_SYNC ''sync'')]
      (store_of sample_capsule, sample_machine)) (sample_id 0)
     = Some c \<and> run_repairs (cap_run c) \<le> run_max_repairs (cap_run c)"
proof -
  from sample_advanced obtain c where c: "stored (operate sample_system [Core (Advance (sample_id 0) RS_CONTEXT_SYNC ''sync'')]
      (store_of sample_capsule, sample_machine)) (sample_id 0) = Some c" by auto
  with repair_budget_respected [OF sample_journey c] show ?thesis by blast
qed

end
