(* ===== verification/Orq_Publication.thy ===== *)
theory Orq_Publication
  imports Orq_Journey
begin

text \<open>
  What reaches a branch or a remote. The machine keeps the trace of the Git commands issued; the ones
  that publish move a branch or push it. Every operation but the commit and the push issues none
  (\<open>quiet\<close>); those two issue them for a run that has earned the commit stage, on a permitted
  branch of the run's project (\<open>authorized\<close>), whatever else happens meanwhile.
\<close>

section \<open>Programs that publish nothing\<close>

definition publishes :: "git_command \<Rightarrow> bool" where
  "publishes c \<longleftrightarrow> (case c of UpdateRef b sha old \<Rightarrow> True | PushRef remote sha b \<Rightarrow> True | _ \<Rightarrow> False)"

text \<open>A program issues only commands in \<open>P\<close>.\<close>

definition emits :: "(git_command \<Rightarrow> bool) \<Rightarrow> 'g machine \<Rightarrow> 'g machine \<Rightarrow> bool" where
  "emits P m m' \<longleftrightarrow> (\<exists>new. m_trace m' = m_trace m @ new \<and> (\<forall>x \<in> set new. P (fst (snd x))))"

definition quiet :: "'g machine \<Rightarrow> 'g machine \<Rightarrow> bool" where
  "quiet = emits (\<lambda>c. \<not> publishes c)"

interpretation emits: step_order "emits P" for P
proof
  fix s t u :: "'g machine"
  assume "emits P s t" "emits P t u"
  then obtain n n' where n: "m_trace t = m_trace s @ n" "\<forall>x \<in> set n. P (fst (snd x))"
    "m_trace u = m_trace t @ n'" "\<forall>x \<in> set n'. P (fst (snd x))" by (auto simp: emits_def)
  then show "emits P s u" unfolding emits_def by (intro exI [of _ "n @ n'"]) auto
qed (simp add: emits_def)

interpretation quiet: step_order quiet
  unfolding quiet_def by (rule emits.step_order_axioms)

lemma emits_git: "P c \<Longrightarrow> keeps (emits P) (git h dir c)"
  by (auto simp: keeps_def git_def emits_def split: prod.split)

lemma emits_mono: "keeps (emits P) m \<Longrightarrow> (\<And>c. P c \<Longrightarrow> P' c) \<Longrightarrow> keeps (emits P') m"
  by (fastforce simp: keeps_def emits_def)

lemma quiet_git: "\<not> publishes c \<Longrightarrow> keeps quiet (git h dir c)"
  by (simp add: quiet_def emits_git)

lemma quiet_blob: "keeps quiet (git_blob h dir c)"
  by (auto simp: keeps_def git_blob_def quiet.S_refl)

lemma quiet_modify: "(\<And>m. m_trace (f m) = m_trace m) \<Longrightarrow> keeps quiet (modify f)"
  by (simp add: keeps_def prog_simps quiet_def emits_def)

lemma quiet_word: "\<not> publishes c \<Longrightarrow> keeps quiet (git_word h dir c)"
  unfolding git_word_def by (intro quiet.keeps_bnd quiet.keeps_ret quiet_git)

lemmas quiet_steps = quiet.keeps_ret quiet.keeps_raise quiet.keeps_reads quiet.keeps_deny quiet.keeps_the_or quiet.keeps_bnd
  quiet.keeps_catch quiet.keeps_for_each quiet.keeps_collect quiet.keeps_if quiet.keeps_case_option quiet.keeps_case_prod
  quiet.keeps_case_sum quiet.keeps_let quiet_blob quiet_git quiet_word

lemma quiet_status: "keeps quiet (worktree_status h dir)"
  unfolding worktree_status_def git_root_def resolved_def lookup_def
  by (intro quiet_steps) (simp_all add: publishes_def)

lemma quiet_scoped: "keeps quiet (lookup p)" "keeps quiet (resolved p)" "keeps quiet (scoped home policy)"
  "keeps quiet (scoped_path sf path w)" "keeps quiet (scoped_read h sf path)"
  unfolding scoped_def scoped_path_def scoped_read_def resolved_def lookup_def by (intro quiet_steps)+

lemma quiet_digest: "keeps quiet (workspace_digest h w)"
  unfolding workspace_digest_def verify_workspace_def digest_entry_def
  by (intro quiet_steps quiet_status quiet_scoped)

lemma quiet_verify: "keeps quiet (verify_workspace h w)"
  unfolding verify_workspace_def by (intro quiet_steps quiet_status quiet_scoped)

lemma quiet_commits: "keeps quiet (tracked_files h dir c)" "keeps quiet (read_file_if_present h dir c path n)"
  "keeps quiet (diff_text h dir base path)" "keeps quiet (validate_branch h dir b protected)"
  unfolding tracked_files_def read_file_if_present_def read_file_def diff_text_def validate_branch_def resolve_commit_def
    checked_path_def nth_word_def Let_def
  by (intro quiet_steps; simp add: publishes_def)+

lemma quiet_write: "keeps quiet (scoped_write h sf path text)"
  unfolding scoped_write_def make_parents_def by (intro quiet_steps quiet_scoped quiet_modify; simp)

lemma quiet_evaluate_file: "keeps quiet (evaluate_file h dir path must_exist contains)"
  unfolding evaluate_file_def by (intro quiet_steps quiet_scoped)

lemma quiet_documents: "keeps quiet (unchanged_document h a)" "keeps quiet (source_holds h sf c)"
  "keeps quiet (write_block h w rid path content)" "keeps quiet (write_artifact h w rid review content)"
  unfolding unchanged_document_def source_holds_def write_block_def write_artifact_def make_folder_def overwrite_def Let_def
  by (intro quiet_steps quiet_scoped quiet_write quiet_modify; simp)+

lemma quiet_staging: "keeps quiet (stage_report h w report protected)" "keeps quiet (create_commit h w tree msg moment policy)"
  unfolding stage_report_def stage_change_def create_commit_def nth_word_def Let_def
  by (intro quiet_steps quiet_scoped quiet_digest quiet_commits; simp add: publishes_def)+

lemma quiet_author: "keeps quiet (author_field h w configured key)"
  unfolding author_field_def by (intro quiet_steps) (simp add: publishes_def)

lemma quiet_versions: "keeps quiet (read_versions h sf w path)"
  unfolding read_versions_def by (intro quiet_steps quiet_scoped quiet_commits)

lemma quiet_tree: "keeps quiet (git_word h dir RevParseHeadTree)"
  by (rule quiet_word) (simp add: publishes_def)

text \<open>The validators, for a runner of commands that publishes nothing.\<close>

lemma quiet_evaluator:
  assumes "\<And>dir policy c kind code. keeps quiet (run_it dir policy c kind code)"
  shows "keeps quiet (workspace_evaluator h run_it dir policy spec)"
  unfolding workspace_evaluator_def evaluate_local_def Let_def
  by (intro quiet_steps quiet_scoped, cases spec)
    (simp_all, (intro quiet_steps quiet_scoped assms quiet_commits quiet_evaluate_file)+)

lemmas quiet_io = quiet_scoped quiet_status quiet_verify quiet_digest quiet_commits quiet_write quiet_evaluate_file quiet_documents
  quiet_staging quiet_author quiet_versions quiet_tree

section \<open>Authorized publication\<close>

text \<open>
  A command is authorized by a store when a run on it has earned the commit stage and its branch is not
  one the run's project protects; for a push, the project must allow pushing and the destination must
  be of a permitted kind.
\<close>

definition cleared :: "env \<Rightarrow> uow \<Rightarrow> string \<Rightarrow> bool \<Rightarrow> bool" where
  "cleared env u branch push \<longleftrightarrow> (\<exists>rid c p. committed u rid = Some c \<and> earned c RS_COMMITTING
     \<and> env_project env (run_project (cap_run c)) = Some p \<and> branch_ok (ps_protected (proj_settings p)) branch
     \<and> (push \<longrightarrow> ps_allow_push (proj_settings p)))"

definition authorized :: "env \<Rightarrow> uow \<Rightarrow> git_command \<Rightarrow> bool" where
  "authorized env u c \<longleftrightarrow> (case c of UpdateRef b sha old \<Rightarrow> cleared env u b False
     | PushRef remote sha b \<Rightarrow> cleared env u b True \<and> transport_permitted True remote
     | _ \<Rightarrow> True)"

lemma history_on_record: "history c d \<Longrightarrow> on_record c d \<and> run_project (cap_run d) = run_project (cap_run c)"
  by (auto simp: history_def logs_kept_def identity_kept_def on_record_def dest: set_mono_prefix)

lemma committed_later:
  assumes "evolves history_rel u v" and "committed u rid = Some c"
  obtains d where "committed v rid = Some d" "on_record c d" "run_project (cap_run d) = run_project (cap_run c)"
proof -
  have "history_rel rid (committed u rid) (committed v rid)"
    using assms(1) by (simp add: evolves_def stores_def committed_def)
  with assms(2) that show ?thesis by (auto simp: history_rel_def dest: history_on_record)
qed

lemma cleared_later: "evolves history_rel u v \<Longrightarrow> cleared env u b push \<Longrightarrow> cleared env v b push"
  unfolding cleared_def by (elim exE conjE, erule (1) committed_later, intro exI conjI, assumption) (auto intro: earned_mono)

lemma authorized_later: "evolves history_rel u v \<Longrightarrow> authorized env u c \<Longrightarrow> authorized env v c"
  by (auto simp: authorized_def cleared_later split: git_command.splits)

lemma unpublished_authorized: "\<not> publishes c \<Longrightarrow> authorized env u c"
  by (simp add: authorized_def publishes_def split: git_command.splits)

definition lawful :: "env \<Rightarrow> uow \<times> 'g machine \<Rightarrow> uow \<times> 'g machine \<Rightarrow> bool" where
  "lawful env p q \<longleftrightarrow> evolves history_rel (fst p) (fst q)
     \<and> (\<exists>new. m_trace (snd q) = m_trace (snd p) @ new \<and> (\<forall>x \<in> set new. authorized env (fst q) (fst (snd x))))"

interpretation lawful: step_order "lawful env" for env
proof
  fix s t u :: "uow \<times> 'g machine"
  assume st: "lawful env s t" and tu: "lawful env t u"
  from st obtain n where n: "m_trace (snd t) = m_trace (snd s) @ n" "\<forall>x \<in> set n. authorized env (fst t) (fst (snd x))"
    by (auto simp: lawful_def)
  from tu obtain n' where n': "m_trace (snd u) = m_trace (snd t) @ n'" "\<forall>x \<in> set n'. authorized env (fst u) (fst (snd x))"
    by (auto simp: lawful_def)
  have "evolves history_rel (fst t) (fst u)" using tu by (simp add: lawful_def)
  with n n' have "\<exists>new. m_trace (snd u) = m_trace (snd s) @ new \<and> (\<forall>x \<in> set new. authorized env (fst u) (fst (snd x)))"
    by (intro exI [of _ "n @ n'"]) (auto intro: authorized_later)
  then show "lawful env s u" using st tu by (auto simp: lawful_def intro: history_order.service.S_trans)
qed (auto simp: lawful_def history_order.service.S_refl)

section \<open>Quiet jobs are lawful\<close>

definition on_machine :: "('w \<Rightarrow> 'w \<Rightarrow> bool) \<Rightarrow> 's \<times> 'w \<Rightarrow> 's \<times> 'w \<Rightarrow> bool" where
  "on_machine Q p q \<longleftrightarrow> Q (snd p) (snd q)"

lemma lawful_quiet:
  assumes "keeps (on_store (evolves history_rel)) m" and "keeps (on_machine quiet) m"
  shows "keeps (lawful env) m"
  unfolding keeps_def
proof
  fix s
  have "evolves history_rel (fst s) (fst (snd (m s)))" using assms(1) by (simp add: keeps_def on_store_def del: split_paired_All)
  moreover have "quiet (snd s) (snd (snd (m s)))" using assms(2) by (simp add: keeps_def on_machine_def del: split_paired_All)
  then obtain new where "m_trace (snd (snd (m s))) = m_trace (snd s) @ new" "\<forall>x \<in> set new. \<not> publishes (fst (snd x))"
    by (auto simp: quiet_def emits_def)
  ultimately show "lawful env s (snd (m s))" by (auto simp: lawful_def intro: unpublished_authorized)
qed

interpretation quiet_job: step_order "on_machine quiet"
  by unfold_locales (auto simp: on_machine_def quiet.S_refl intro: quiet.S_trans)

lemma quiet_db: "keeps (on_machine quiet) (db m)"
  by (auto simp: keeps_def on_machine_def prog_simps quiet.S_refl split: prod.split)

lemma quiet_host: "keeps quiet m \<Longrightarrow> keeps (on_machine quiet) (on_host m)"
  by (auto simp: keeps_def on_machine_def prog_simps split: prod.split) (metis snd_conv)

lemma quiet_unit: "keeps (on_machine quiet) body \<Longrightarrow> keeps (on_machine quiet) (with_unit body)"
  by (auto simp: keeps_def on_machine_def prog_simps split: prod.split) (metis snd_conv)

lemma quiet_outcome: "keeps (on_machine quiet) m \<Longrightarrow> keeps (on_machine quiet) (outcome m)"
  by (auto simp: keeps_def on_machine_def prog_simps split: prod.split) (metis snd_conv)

lemmas quiet_jobs = quiet_job.keeps_ret quiet_job.keeps_raise quiet_job.keeps_reads quiet_job.keeps_deny quiet_job.keeps_the_or
  quiet_job.keeps_bnd quiet_job.keeps_catch quiet_job.keeps_for_each quiet_job.keeps_collect quiet_job.keeps_if
  quiet_job.keeps_case_option quiet_job.keeps_case_prod quiet_job.keeps_case_sum quiet_job.keeps_let quiet_db quiet_host
  quiet_unit quiet_outcome

lemma quiet_review: "keeps (on_machine quiet) (record_review env h rid actor result key)"
  unfolding record_review_def new_review_def reviewer_checks_def current_contract_def review_external_findings_def
    review_finding_def resolve_finding_def review_reference_def assert_source_def review_criterion_def passed_review_def
    failed_review_def deterministic_pass_def source_digest_def safe_value_def Let_def
  by (intro quiet_jobs quiet_steps quiet_io)

lemma quiet_certify: "keeps (on_machine quiet) (certify env h tools rid actor policy checkpoint)"
  unfolding certify_def against_accepted_def late_change_def active_actor_def current_contract_def inspect_changes_def
    inspect_path_def raise_flag_def Let_def
  by (intro quiet_jobs quiet_steps quiet_io)

lemma quiet_document: "keeps (on_machine quiet) (document_changes env h rid actor report policy)"
  unfolding document_changes_def current_contract_def Let_def
  by (intro quiet_jobs quiet_steps quiet_io)

lemma quiet_final:
  assumes "\<And>dir policy c kind code. keeps quiet (run_it dir policy c kind code)"
  shows "keeps (on_machine quiet) (final_validate env h run_it rid x)"
  unfolding final_validate_def begin_final_def finish_final_def tester_attempt_def final_verdict_def relied_criteria_def
    current_contract_def validate_with_def Let_def
  by (intro quiet_jobs quiet_steps quiet_io quiet_evaluator assms keeps_ticket)

lemma quiet_promote:
  assumes "\<And>capsule title content sha evidence. keeps quiet (propose capsule title content sha evidence)"
  shows "keeps (on_machine quiet) (promote env h propose rid actor)"
  unfolding promote_def begin_curation_def finish_curation_def active_actor_def current_contract_def Let_def
  by (intro quiet_jobs quiet_steps quiet_io assms)

lemma quiet_commit_units: "keeps (on_machine quiet) (begin_commit env h rid policy actor)"
  "keeps (on_machine quiet) (check_worktree h rid st)" "keeps (on_machine quiet) (ensure_commit env h rid policy st)"
  "keeps (on_machine quiet) (begin_push env rid actor)"
  unfolding begin_commit_def check_worktree_def ensure_commit_def begin_push_def git_operator_def resolve_identity_def
    record_intent_def last_final_def current_contract_def Let_def
  by (intro quiet_jobs quiet_steps quiet_io)+

section \<open>The commit and the push\<close>

text \<open>A stored run of a project has earned the commit stage; this remains so.\<close>

definition entitled :: "env \<Rightarrow> project \<Rightarrow> uow \<Rightarrow> bool" where
  "entitled env p u \<longleftrightarrow> (\<exists>rid c. committed u rid = Some c \<and> earned c RS_COMMITTING
     \<and> env_project env (run_project (cap_run c)) = Some p)"

definition entitled_step :: "env \<Rightarrow> project \<Rightarrow> uow \<times> 'g machine \<Rightarrow> uow \<times> 'g machine \<Rightarrow> bool" where
  "entitled_step env p s t \<longleftrightarrow> (entitled env p (fst s) \<longrightarrow> lawful env s t)"

lemma entitled_later: "entitled env p (fst s) \<Longrightarrow> lawful env s t \<Longrightarrow> entitled env p (fst t)"
  unfolding entitled_def lawful_def
  by (elim exE conjE, erule (1) committed_later, intro exI conjI, assumption) (auto intro: earned_mono)

interpretation entitled: step_order "entitled_step env p" for env p
  by unfold_locales (auto simp: entitled_step_def lawful.S_refl intro: lawful.S_trans entitled_later)

lemma entitled_lawful: "keeps (lawful env) m \<Longrightarrow> keeps (entitled_step env p) m"
  by (simp add: keeps_def entitled_step_def del: split_paired_All)

lemma entitled_emits:
  assumes "keeps (emits P) m" and "\<And>c u. P c \<Longrightarrow> entitled env p u \<Longrightarrow> authorized env u c"
  shows "keeps (entitled_step env p) (on_host m)"
proof -
  have "lawful env (u, w) (snd (on_host m (u, w)))" if "entitled env p u" for u w
  proof -
    have "emits P w (snd (m w))" using assms(1) by (simp add: keeps_def)
    moreover have "authorized env u c" if "P c" for c
      using assms(2) that \<open>entitled env p u\<close> .
    ultimately show ?thesis
      by (auto simp: lawful_def emits_def prog_simps history_order.service.S_refl split: prod.split)
  qed
  then show ?thesis by (auto simp: keeps_def entitled_step_def)
qed

lemma emits_deny: "(\<not> b \<Longrightarrow> keeps (emits P) (f ())) \<Longrightarrow> keeps (emits P) (bnd (deny b e) f)"
  by (auto simp: keeps_def prog_simps emits.S_refl)

lemmas emits_quiet = emits_mono [of "\<lambda>c. \<not> publishes c", folded quiet_def]

definition moves_branch :: "string list \<Rightarrow> git_command \<Rightarrow> bool" where
  "moves_branch protected c \<longleftrightarrow> \<not> publishes c \<or> (\<exists>b sha old. c = UpdateRef b sha old \<and> branch_ok protected b)"

definition pushes_branch :: "string list \<Rightarrow> git_command \<Rightarrow> bool" where
  "pushes_branch protected c \<longleftrightarrow> \<not> publishes c
     \<or> (\<exists>remote sha b. c = PushRef remote sha b \<and> branch_ok protected b \<and> transport_permitted True remote)"

lemma quiet_moves: "keeps quiet m \<Longrightarrow> keeps (emits (moves_branch protected)) m"
  by (erule emits_quiet) (simp add: moves_branch_def)

lemma quiet_pushes: "keeps quiet m \<Longrightarrow> keeps (emits (pushes_branch protected)) m"
  by (erule emits_quiet) (simp add: pushes_branch_def)

lemma attach_moves: "keeps (emits (moves_branch protected)) (attach_commit h w sha protected)"
  unfolding attach_commit_def validate_branch_def bnd_assoc
  by (rule emits_deny, intro emits.keeps_bnd emits.keeps_if emits.keeps_ret emits.keeps_deny quiet_moves [OF quiet_status]
      quiet_moves [OF quiet_git] emits_git) (auto simp: publishes_def moves_branch_def)

lemma push_pushes: "keeps (emits (pushes_branch protected)) (push_commit h w sha policy protected)"
proof -
  have permitted: "transport_permitted True remote" if "transport_permitted a remote" for a remote
    using that by (auto simp: transport_permitted_def)
  show ?thesis
    unfolding push_commit_def validate_branch_def push_destination_def bnd_assoc
    by (rule emits_deny emits.keeps_bnd quiet_pushes [OF quiet_status] | rule quiet_pushes [OF quiet_git], simp add: publishes_def; fail
      | rule quiet_pushes [OF quiet_word], simp add: publishes_def; fail | rule emits.keeps_ret
      | rule emits_git, simp add: pushes_branch_def permitted; fail)+
qed

text \<open>What the first units of the commit and the push have checked.\<close>

lemma gives_operator: "Q () (u, w) \<Longrightarrow> gives (git_operator rid actor) Q (u, w)"
  by (auto simp: gives_def wp_def git_operator_def run_actors_def prog_simps load_def split: option.split)

lemma gives_guard:
  assumes "map_of (uow_work s) (run_id r) = Some c" and "earned c target \<Longrightarrow> Q () s"
  shows "gives (guard_delivery r target) Q s"
  using guard_gives [OF assms(1), of target] assms(2) unfolding gives_def by (elim wp_mono) auto

lemma begin_commit_gives: "gives (begin_commit env h rid policy actor) (\<lambda>st t. entitled env (cs_project st) u) (u, w)"
  unfolding begin_commit_def
  by (rule gives_unit gives_bnd gives_db gives_locked gives_deny gives_operator)+
    (rule gives_guard, simp, rule gives_any, rule gives_any, rule gives_bnd, rule gives_the_or, (rule gives_any)+, rule gives_ret,
      auto simp: entitled_def committed_def)

lemma begin_push_gives: "gives (begin_push env rid actor)
    (\<lambda>st t. entitled env (ps_of st) u \<and> ps_allow_push (proj_settings (ps_of st))) (u, w)"
  unfolding begin_push_def
  by (rule gives_unit gives_bnd gives_db gives_locked gives_deny gives_operator)+
    (rule gives_guard, simp, rule gives_any, rule gives_any, rule gives_any, rule gives_any, rule gives_any, rule gives_bnd,
      rule gives_the_or, rule gives_bnd, rule gives_deny, rule gives_ret,
      auto simp: entitled_def committed_def earned_def delivery_stages_def)

lemma entitled_bnd:
  assumes m: "keeps (lawful env) m" and "\<And>u w. gives m (\<lambda>x t. entitled env (pr x) u \<and> C x) (u, w)"
    and "\<And>x. C x \<Longrightarrow> keeps (entitled_step env (pr x)) (f x)"
  shows "keeps (lawful env) (bnd m f)"
proof -
  have "lawful env (u, w) (snd (bnd m f (u, w)))" for u w
  proof -
    obtain r t where Pair: "m (u, w) = (r, t)" by (cases "m (u, w)")
    then have step: "lawful env (u, w) t" by (rule keepsD [OF m])
    show ?thesis
    proof (cases r)
      case (Inr x)
      with assms(2) [of u w] Pair have "entitled env (pr x) u" "C x" by (auto dest: gives_returns)
      then have "lawful env t (snd (f x t))"
        using assms(3) [of x] entitled_later [of env "pr x" "(u, w)" t] step
        by (simp add: keeps_def entitled_step_def del: split_paired_All)
      with step have "lawful env (u, w) (snd (f x t))" by (rule lawful.S_trans)
      with Pair Inr show ?thesis by (simp add: prog_simps)
    next
      case (Inl e)
      with Pair step show ?thesis by (simp add: prog_simps)
    qed
  qed
  then show ?thesis by (simp add: keeps_def)
qed

text \<open>The contracts the history follows, with what theories the interpretation does not see prove in them.\<close>

lemma history_repository: "repository_contract (tx history_rel) (evolves history_rel)"
  by (rule history_contract.repository_contract_axioms)

lemma history_run: "run_contract (tx history_rel) (evolves history_rel)"
  by (rule history_contract.run_contract_axioms)

lemma history_driven: "driven (evolves history_rel)"
  by unfold_locales

lemma history_steps: "step_order (tx history_rel)" "step_order (evolves history_rel)"
  by unfold_locales

lemmas history_jobs = step_order.job_laws [OF history_steps(2)] step_order.job_laws [OF history_steps(1)]
  repository_contract.job_unit [OF history_repository] repository_contract.commit_units_evolve [OF history_repository]
  repository_contract.act_laws [OF history_repository] repository_contract.runtime_laws [OF history_repository]
  repository_contract.keeps_guard_delivery [OF history_repository]

lemma commit_units_lawful: "keeps (lawful env) (begin_commit env' h rid policy actor)"
  "keeps (lawful env) (check_worktree h rid st)" "keeps (lawful env) (ensure_commit env' h rid policy st)"
  "keeps (lawful env) (begin_push env' rid actor)"
proof -
  show "keeps (lawful env) (begin_commit env' h rid policy actor)"
    by (intro lawful_quiet quiet_commit_units repository_contract.commit_units_evolve [OF history_repository])
  show "keeps (lawful env) (check_worktree h rid st)"
    by (intro lawful_quiet quiet_commit_units) (unfold check_worktree_def, intro history_jobs)
  show "keeps (lawful env) (ensure_commit env' h rid policy st)"
    by (intro lawful_quiet quiet_commit_units) (unfold ensure_commit_def Let_def, intro history_jobs)
  show "keeps (lawful env) (begin_push env' rid actor)"
    by (intro lawful_quiet quiet_commit_units) (unfold begin_push_def git_operator_def, intro history_jobs)
qed

text \<open>A unit that records what was done.\<close>

lemma receipt_lawful: "keeps (lawful env) (with_unit (bnd (db (locked_run rid)) (\<lambda>r. bnd (db (delivery_save d)) (\<lambda>_.
    bnd (db (utc_now env')) (\<lambda>now. bnd (db (emit env' r kind key now payload actor task xid)) (\<lambda>_.
    bnd (db (commit env')) (\<lambda>_. ret d)))))))"
  by (intro lawful_quiet history_jobs quiet_jobs)

lemma attach_authorized:
  "moves_branch (ps_protected (proj_settings p)) c \<Longrightarrow> entitled env p u \<Longrightarrow> authorized env u c"
  by (auto simp: moves_branch_def authorized_def cleared_def entitled_def publishes_def split: git_command.splits)

lemma push_authorized: "pushes_branch (ps_protected (proj_settings p)) c \<Longrightarrow> ps_allow_push (proj_settings p) \<Longrightarrow> entitled env p u
    \<Longrightarrow> authorized env u c"
  by (auto simp: pushes_branch_def authorized_def cleared_def entitled_def publishes_def split: git_command.splits)

lemma commit_lawful: "keeps (lawful env) (deliver_commit env h rid policy actor)"
  unfolding deliver_commit_def Let_def
  by (rule entitled_bnd [where pr = cs_project and C = "\<lambda>_. True"], rule commit_units_lawful, simp add: begin_commit_gives)
    (intro entitled.keeps_bnd entitled.keeps_case_prod entitled_lawful commit_units_lawful receipt_lawful
      entitled_emits [OF attach_moves attach_authorized])

lemma push_lawful: "keeps (lawful env) (deliver_push env h rid actor)"
  unfolding deliver_push_def Let_def
  by (rule entitled_bnd [OF _ begin_push_gives], rule commit_units_lawful)
    (intro entitled.keeps_bnd entitled.keeps_if entitled.keeps_ret entitled_lawful receipt_lawful
      entitled_emits [OF push_pushes push_authorized])

section \<open>The whole system\<close>

text \<open>
  The tools the system is given issue no publishing command: commands of criteria run in their sandbox
  and the curated memory is a store of files, neither reaches the repository through this service.
\<close>

definition quiet_workers :: "'g executor \<Rightarrow> bool" where
  "quiet_workers X \<longleftrightarrow> (\<forall>dir policy c kind code. keeps quiet (ex_runner X dir policy c kind code))
     \<and> (\<forall>dir policy read_only c. keeps quiet (wk_command (ex_workers X) dir policy read_only c))"

definition quiet_delivery :: "'g delivering \<Rightarrow> bool" where
  "quiet_delivery D \<longleftrightarrow> (\<forall>dir policy c kind code. keeps quiet (dl_runner D dir policy c kind code))
     \<and> (\<forall>capsule title content sha evidence. keeps quiet (dl_propose D capsule title content sha evidence))"

definition quiet_tools :: "'g system \<Rightarrow> bool" where
  "quiet_tools D \<longleftrightarrow> quiet_delivery (delivering.truncate D) \<and> quiet_workers (sy_executor D)"

lemma truncated [simp]: "dl_env (delivering.truncate D) = dl_env D" "dl_runner (delivering.truncate D) = dl_runner D"
  "dl_propose (delivering.truncate D) = dl_propose D"
  by (simp_all add: delivering.defs)

lemma lawful_db: "keeps (evolves history_rel) m \<Longrightarrow> keeps (lawful env) (db m)"
  by (intro lawful_quiet quiet_db step_order.keeps_db [OF history_steps(2)])

lemmas history_units = repository_contract.delivery_reads_evolve [OF history_repository]
  repository_contract.start_task_evolves [OF history_repository] repository_contract.transition_task_evolves [OF history_repository]
  run_contract.advance_evolves [OF history_run] run_contract.install_revision_evolves [OF history_run]
  repository_contract.ensure_approval_evolves [OF history_repository]
  driven.drives_plans [OF history_driven]

lemma quiet_jobs_lawful:
  "keeps (lawful env) (record_review env' h rid actor result key)" "keeps (lawful env) (certify env' h tools rid actor policy checkpoint)"
  "keeps (lawful env) (document_changes env' h rid actor report policy)" "keeps (lawful env) (check_report rid report policy)"
proof -
  note histories = repository_contract.record_review_evolves [OF history_repository]
    repository_contract.certify_evolves [OF history_repository] repository_contract.document_changes_evolves [OF history_repository]
    repository_contract.check_report_evolves [OF history_repository]
  show "keeps (lawful env) (record_review env' h rid actor result key)" by (intro lawful_quiet histories quiet_review)
  show "keeps (lawful env) (certify env' h tools rid actor policy checkpoint)" by (intro lawful_quiet histories quiet_certify)
  show "keeps (lawful env) (document_changes env' h rid actor report policy)" by (intro lawful_quiet histories quiet_document)
  show "keeps (lawful env) (check_report rid report policy)"
    by (intro lawful_quiet histories) (unfold check_report_def, intro quiet_jobs)
qed

lemma tool_jobs_lawful:
  assumes "quiet_delivery D"
  shows "keeps (lawful env) (final_validate env' h (dl_runner D) rid x)" "keeps (lawful env) (promote env' h (dl_propose D) rid actor)"
  using assms unfolding quiet_delivery_def
  by (intro lawful_quiet quiet_final quiet_promote repository_contract.final_validate_evolves [OF history_repository]
      repository_contract.promote_evolves [OF history_repository]; simp)+

lemma lawful_read_unit: "keeps (on_store (tx history_rel)) body \<Longrightarrow> keeps (on_machine quiet) body \<Longrightarrow> keeps (lawful env) (with_unit body)"
  by (intro lawful_quiet quiet_unit repository_contract.job_unit [OF history_repository])

lemma step_work_lawful:
  assumes "quiet_delivery D" and "env = dl_env D"
  shows "keeps (lawful env) (step_work D rid x policy step)"
  unfolding step_work_def deliver_git_def Let_def assms(2) [symmetric]
  by (intro lawful.keeps_if lawful.keeps_bnd lawful.keeps_ret lawful.keeps_deny quiet_jobs_lawful tool_jobs_lawful [OF assms(1)]
      lawful_read_unit history_jobs quiet_jobs lawful_db history_units commit_lawful push_lawful)

lemma deliver_step_lawful:
  assumes "quiet_delivery D" and "env = dl_env D"
  shows "keeps (lawful env) (deliver_step D rid policy step)"
  unfolding deliver_step_def block_step_def step_attempt_def assms(2) [symmetric]
  by (intro lawful.keeps_if lawful.keeps_bnd lawful.keeps_ret lawful.keeps_raise lawful.keeps_case_prod lawful.keeps_case_option
      lawful.keeps_catch step_work_lawful [OF assms] lawful_db history_units)

lemma finalize_lawful:
  assumes "quiet_delivery D" and "env = dl_env D"
  shows "keeps (lawful env) (finalize D rid policy)"
proof -
  have approve: "keeps (evolves history_rel) (approve_delivery env rid policy r review)" for r review
    unfolding approve_delivery_def
    by (intro step_order.keeps_case_option [OF history_steps(2)] step_order.keeps_bnd [OF history_steps(2)]
        step_order.keeps_ret [OF history_steps(2)] step_order.keeps_deny [OF history_steps(2)] history_units)
  have ended: "keeps (lawful env) (finish_delivery D rid)"
    unfolding finish_delivery_def last_final_def assms(2) [symmetric]
    by (intro lawful.keeps_bnd lawful.keeps_if lawful.keeps_ret lawful_db history_units lawful_read_unit)
      (intro history_jobs quiet_jobs)+
  show ?thesis
    unfolding finalize_def finalize_run_def Let_def assms(2) [symmetric]
    by (intro lawful.keeps_bnd lawful.keeps_if lawful.keeps_ret lawful.keeps_deny lawful.keeps_case_prod lawful.keeps_for_each
        lawful_db history_units approve ended deliver_step_lawful [OF assms])
qed

text \<open>The drivers of workers issue no publishing command at all.\<close>

lemma quiet_agents: "keeps (on_machine quiet) (invoke A rid od)"
proof -
  have "keeps quiet (call_provider A p q)" for p q
    by (auto simp: keeps_def call_provider_def quiet_def emits_def split: prod.split)
  then show ?thesis unfolding invoke_def by (intro quiet_jobs)
qed

lemma quiet_worktrees: "keeps quiet (get_owned h M rid)" "keeps quiet (create_owned h M project rid branch base)"
  unfolding get_owned_def create_owned_def read_manifest_def claim_manifest_def make_root_def create_worktree_def
    common_directory_def git_root_def validate_branch_def resolve_commit_def nth_word_def Let_def
  by (intro quiet_steps quiet_io quiet_modify; simp add: publishes_def)+

lemma quiet_workspace: "keeps (on_machine quiet) (ensure_workspace env h M rid policy)"
  unfolding ensure_workspace_def owned_for_def Let_def by (intro quiet_jobs quiet_steps quiet_worktrees)

lemma quiet_worker:
  assumes "quiet_workers X"
  shows "keeps (on_machine quiet) (worker_execute (ex_workers X) rid xid provider cp schema)"
proof -
  have tool: "keeps (on_machine quiet) (execute_tool (ex_workers X) pid c)" for pid c
    using assms unfolding quiet_workers_def execute_tool_def begin_tool_def permit_tool_def observe_tool_def dispatch_tool_def
      inspect_diff_def Let_def
    by (intro quiet_jobs quiet_steps quiet_io; simp)
  have "keeps (on_machine quiet) (worker_turns (ex_workers X) rid xid provider cp schema tools sofar ns)" for tools sofar ns
    by (induction ns arbitrary: sofar) (auto simp: worker_turn_def intro!: quiet_jobs quiet_agents tool)
  then show ?thesis unfolding worker_execute_def by (intro quiet_jobs)
qed

lemma quiet_artifacts: "keeps (on_machine quiet) (record_artifacts W w x result)"
  unfolding record_artifacts_def record_artifact_def Let_def by (intro quiet_jobs quiet_steps quiet_io)

lemma quiet_planning: "keeps (on_machine quiet) (plan_goal_first X rid project r label)"
  "keeps (on_machine quiet) (memory_context X checkout project request)"
  unfolding plan_goal_first_def memory_context_def result_of_def Let_def by (intro quiet_jobs quiet_steps)+

lemma quiet_wave: "quiet_workers X \<Longrightarrow> keeps (on_machine quiet) (context_wave X rid provider cp policy n)"
proof (induction n)
  case (Suc n)
  then have "keeps (on_machine quiet) (context_round X rid provider cp policy)"
    unfolding context_round_def context_task_def completed_result_def Let_def by (intro quiet_jobs quiet_worker)
  with Suc show ?case by (auto intro!: quiet_jobs)
qed (simp add: quiet_jobs)

lemma quiet_drivers:
  assumes "quiet_workers X"
  shows "keeps (on_machine quiet) (execute_run X rid provider policy auto n k)" "keeps (on_machine quiet) (define_goal X rid provider)"
    "keeps (on_machine quiet) (next_work X rid policy capabilities)" "keeps (on_machine quiet) (report_result X xt rid xid result)"
    "keeps (on_machine quiet) (report_finding X xr rid xid report key)"
proof -
  have runner: "keeps quiet (workspace_evaluator h (ex_runner X) dir pol spec)" for h dir pol spec
    using assms by (intro quiet_evaluator) (simp add: quiet_workers_def)
  have plan: "keeps (on_machine quiet) (execute_plan X rid provider policy n)"
    unfolding execute_plan_def drive_role_def drive_task_def task_work_def review_result_of_def implement_def validate_criteria_def
      validate_with_def completed_result_def Let_def
    by (intro quiet_jobs quiet_steps quiet_io quiet_workspace quiet_planning quiet_wave quiet_worker quiet_review quiet_artifacts
        runner keeps_ticket assms)
  have "keeps (on_machine quiet) (execute_rounds X rid provider policy auto n k)"
    by (induction k) (auto simp: execute_round_def Let_def intro!: quiet_jobs plan)
  then show "keeps (on_machine quiet) (execute_run X rid provider policy auto n k)"
    unfolding execute_run_def by (intro quiet_jobs)
  show "keeps (on_machine quiet) (define_goal X rid provider)"
    unfolding define_goal_def analyze_run_def requirements_goal_def Let_def by (intro quiet_jobs quiet_planning quiet_agents)
  show "keeps (on_machine quiet) (next_work X rid policy capabilities)"
    unfolding next_work_def assign_work_def Let_def by (intro quiet_jobs quiet_planning quiet_workspace)
  show "keeps (on_machine quiet) (report_result X xt rid xid result)"
    unfolding report_result_def receive_result_def Let_def by (intro quiet_jobs quiet_steps quiet_io quiet_artifacts)
  show "keeps (on_machine quiet) (report_finding X xr rid xid report key)"
    unfolding report_finding_def record_finding_def current_contract_def Let_def by (intro quiet_jobs quiet_steps quiet_io)
qed

lemma history_delivery: "delivery_driver (tx history_rel) (evolves history_rel) (evolves history_rel)"
  by (rule history_contract.delivery.delivery_driver_axioms)

lemma drivers_lawful:
  assumes "quiet_workers X"
  shows "keeps (lawful env) (execute_run X rid provider policy auto n k)" "keeps (lawful env) (define_goal X rid provider)"
    "keeps (lawful env) (next_work X rid policy capabilities)" "keeps (lawful env) (report_result X xt rid xid result)"
    "keeps (lawful env) (report_finding X xr rid xid report key)"
  by (intro lawful_quiet quiet_drivers assms delivery_driver.drives_execute_run [OF history_delivery]
      delivery_driver.drives_define_goal [OF history_delivery] delivery_driver.drives_next_work [OF history_delivery]
      delivery_driver.drives_report_result [OF history_delivery] repository_contract.report_finding_evolves [OF history_repository])+

lemma operation_lawful:
  assumes "quiet_tools D"
  shows "keeps (lawful (dl_env D)) (run_operation D p)"
proof -
  have quiet: "quiet_delivery (delivering.truncate D)" "quiet_workers (sy_executor D)" using assms by (simp_all add: quiet_tools_def)
  note tools = tool_jobs_lawful [OF quiet(1), unfolded truncated]
  have "keeps (lawful (dl_env D)) (finalize (delivering.truncate D) rid policy)" for rid policy
    by (rule finalize_lawful [OF quiet(1)]) simp
  then show ?thesis
    by (cases p) (simp_all add: ignoring_def lawful.keeps_bnd lawful.keeps_ret lawful_db history_contract.command_evolves
      quiet_jobs_lawful tools commit_lawful push_lawful drivers_lawful [OF quiet(2)])
qed

section \<open>Properties\<close>

text \<open>
  C13: nothing is published uncertified. Whatever sequence of operations runs, and whatever Git answers and
  does, every move of a branch and every push issued is for a branch that is well formed and not
  protected by the project of a run on record, and that run has an accepting review, a passed change
  report for the reviewed tree and a passed final validation and change report for the delivered tree;
  a push also needs a project that allows it and a destination of a permitted transport.
\<close>
theorem published_only_certified:
  assumes "quiet_tools D" and "operate D ps (u, m) = (v, m')"
    and "(dir, command, reply) \<in> set (drop (length (m_trace m)) (m_trace m'))"
    and "command = UpdateRef branch sha old \<or> command = PushRef remote sha branch"
  shows "\<exists>rid c p. stored (v, m') rid = Some c \<and> earned c RS_COMMITTING
    \<and> env_project (dl_env D) (run_project (cap_run c)) = Some p \<and> branch_ok (ps_protected (proj_settings p)) branch
    \<and> (command = PushRef remote sha branch \<longrightarrow> ps_allow_push (proj_settings p) \<and> transport_permitted True remote)"
proof -
  have "lawful (dl_env D) (u, m) (operate D ps (u, m))"
    by (rule operate_steps [OF lawful.step_order_axioms operation_lawful [OF assms(1)]])
  with assms(2,3) have "authorized (dl_env D) v command" by (fastforce simp: lawful_def)
  with assms(4) show ?thesis by (auto simp: authorized_def cleared_def stored_def)
qed

section \<open>A push on record\<close>

text \<open>A run at the pushing stage, with its commit attached; a Git that answers and fails to push.\<close>

definition commit_name :: string where
  "commit_name = replicate 40 (CHR ''a'')"

definition push_policy :: delivery_policy where
  "push_policy = \<lparr>dp_doc_path = None, dp_sensitive = [], dp_tests = [], dp_max_deleted = 1, dp_push = True, dp_remote = ''origin'',
     dp_local_remote = False, dp_author_name = None, dp_author_email = None\<rparr>"

definition attached_delivery :: git_delivery where
  "attached_delivery = \<lparr>gd_id = sample_id 30, gd_created = 0, gd_run = sample_id 0, gd_base = ''abc'', gd_branch = ''feature'',
     gd_tree = ''tree'', gd_git_tree = ''tree'', gd_message = ''feat'', gd_attached = True, gd_commit = Some commit_name,
     gd_push = PUSH_PENDING, gd_remote = Some ''origin'', gd_policy = push_policy\<rparr>"

definition operator_session :: actor_session where
  "operator_session = \<lparr>actor_id = sample_id 31, actor_created = 0, actor_run = sample_id 0, actor_kind = AGENT,
     actor_role = Some ROLE_GITOPS, actor_provider = None, actor_model = None, actor_status = ACT_WORKING, actor_task = None,
     actor_started = 0, actor_completed = None, actor_working_ms = 0, actor_waiting_ms = 0, actor_blocked_ms = 0, actor_skills = [], actor_tools = [],
     actor_attempted = 0, actor_succeeded = 0, actor_failed = 0\<rparr>"

definition run_document :: artifact where
  "run_document = \<lparr>art_id = sample_id 32, art_created = 0, art_run = sample_id 0, art_task = None, art_type = ''documentation'',
     art_path = ''/w/notes.md'', art_hash = []\<rparr>"

definition pushing_capsule :: capsule where
  "pushing_capsule = sample_capsule\<lparr>cap_run := sample_run\<lparr>run_state := RS_PUSHING, run_goal := Some (sample_id 21)\<rparr>,
     cap_reviews := [accepting_review], cap_guardians := [passed_report CP_IMPLEMENTATION, (passed_report CP_FINAL)\<lparr>rep_created := 1\<rparr>],
     cap_validations := [passed_validation], cap_artifacts := [run_document], cap_git := Some attached_delivery,
     cap_actors := [(sample_id 31, operator_session)],
     cap_workspace := Some \<lparr>ws_run = sample_id 0, ws_path = ''/w'', ws_base = ''abc'', ws_branch = ''feature'',
       ws_policy = open_policy [] MODE_DOCKER 100\<rparr>\<rparr>"

definition nul :: char where
  "nul = char_of (0::nat)"

definition clean_status :: string where
  "clean_status = ''# branch.oid '' @ commit_name @ nul # ''# branch.head feature'' @ [nul]"

definition answering_git :: "unit host" where
  "answering_git = sample_host\<lparr>h_git := \<lambda>dir c fs g. (case c of RevParseTop \<Rightarrow> Output ''/w'' | StatusV2 \<Rightarrow> Output clean_status
     | CheckRefFormat b \<Rightarrow> Output [] | RemoteUrl r \<Rightarrow> Output ''https://host/site.git'' | _ \<Rightarrow> Failed, fs, g)\<rparr>"

definition pushing_env :: env where
  "pushing_env = sample_env\<lparr>env_project := \<lambda>_. Some (sample_project\<lparr>proj_settings :=
     (proj_settings sample_project)\<lparr>ps_allow_push := True, ps_protected := [''main'']\<rparr>\<rparr>)\<rparr>"

definition pushing_system :: "unit system" where
  "pushing_system = sample_system\<lparr>dl_env := pushing_env, dl_host := answering_git\<rparr>"

lemmas pushing_defs = commit_name_def push_policy_def attached_delivery_def operator_session_def run_document_def
  pushing_capsule_def pushing_env_def completed_defs

lemma begin_sample_push: "\<exists>u. begin_push pushing_env (sample_id 0) (sample_id 31) (store_of pushing_capsule, m)
   = (Inr \<lparr>ps_delivery = attached_delivery, ps_sha = commit_name, ps_workspace = the (cap_workspace pushing_capsule),
       ps_of = the (env_project pushing_env (sample_id 1))\<rparr>, (u, m))"
  by (simp add: begin_push_def git_operator_def sample_evaluation pushing_defs prog_simps review_accepts_def
      implementation_certified_def final_certified_def final_reports_def commit_attached_def blocking_worker_finding_def
      delivery_validations_def delivery_artifacts_def delivery_get_def guardians_table_def validations_table_def
      artifacts_table_def given_def cong: lazy_programs)

lemma sample_status: "parse_status ''/w'' clean_status = Some \<lparr>st_root = ''/w'', st_branch = Some ''feature'',
    st_head = commit_name, st_changed = []\<rparr>"
  by code_simp

lemma sample_branch: "branch_ok [''main''] ''feature''"
  by code_simp

lemma sample_lines: "text_lines ''https://host/site.git'' = [''https://host/site.git'']"
proof -
  have "py_lines (ascii ''https://host/site.git'') = [ascii ''https://host/site.git'']"
    by (simp add: ascii_def py_lines_def line_break_def)
  moreover have "map char_of (ascii t) = t" for t by (simp add: ascii_def comp_def)
  ultimately show ?thesis by (simp add: text_lines_def)
qed

lemma sample_remote: "py_strip ''https://host/site.git'' = ''https://host/site.git''" "py_strip ''/w'' = ''/w''"
  "url_scheme ''https://host/site.git'' = ''https''"
  by code_simp+

lemma sample_host_part: "url_host_part ''https://host/site.git'' = ''host''"
  by (simp add: url_host_part_def sample_remote)

lemma sample_url: "url_text ''https://host/site.git'' = ''https://host/site.git''"
  by (simp add: url_text_def)

lemma sample_transport: "transport_permitted False ''https://host/site.git''"
  "unpaired_bracket (url_host_part (url_text ''https://host/site.git'')) = False"
  by (simp_all add: transport_permitted_def sample_url sample_remote sample_host_part unpaired_bracket_def)

lemma sample_push: "\<exists>t. push_commit answering_git (the (cap_workspace pushing_capsule)) commit_name push_policy [''main''] sample_machine
    = (Inl GitErr, t) \<and> (''/w'', PushRef ''https://host/site.git'' commit_name ''feature'', Failed) \<in> set (m_trace t)"
  by (simp add: push_commit_def validate_branch_def worktree_status_def git_root_def resolved_def lookup_def git_word_def
      git_def push_destination_def prog_simps sample_status sample_branch sample_lines sample_remote sample_transport answering_git_def sample_host_def
      sample_machine_def push_policy_def pushing_capsule_def)

theorem published_only_certified_witness:
  "\<exists>v m' rid c. operate pushing_system [PushChanges (sample_id 0) (sample_id 31)] (store_of pushing_capsule, sample_machine) = (v, m')
    \<and> (''/w'', PushRef ''https://host/site.git'' commit_name ''feature'', Failed) \<in> set (m_trace m')
    \<and> stored (v, m') rid = Some c \<and> earned c RS_COMMITTING"
proof -
  let ?start = "(store_of pushing_capsule, sample_machine)"
  obtain u t where "begin_push pushing_env (sample_id 0) (sample_id 31) ?start
      = (Inr \<lparr>ps_delivery = attached_delivery, ps_sha = commit_name, ps_workspace = the (cap_workspace pushing_capsule),
           ps_of = the (env_project pushing_env (sample_id 1))\<rparr>, (u, sample_machine))"
    and t: "push_commit answering_git (the (cap_workspace pushing_capsule)) commit_name push_policy [''main''] sample_machine = (Inl GitErr, t)"
      "(''/w'', PushRef ''https://host/site.git'' commit_name ''feature'', Failed) \<in> set (m_trace t)"
    using begin_sample_push sample_push by blast
  then have run: "operate pushing_system [PushChanges (sample_id 0) (sample_id 31)] ?start = (u, t)"
    by (simp add: pushing_system_def sample_system_def ignoring_def deliver_push_def Let_def bnd_run on_host_run
        attached_delivery_def pushing_env_def push_policy_def sample_project_def)
  have "quiet_tools pushing_system"
    by (simp add: quiet_tools_def quiet_delivery_def quiet_workers_def pushing_system_def sample_system_def sample_executor_def
        sample_workers_def quiet.keeps_raise)
  moreover have "m_trace sample_machine = []" by (simp add: sample_machine_def)
  ultimately have "\<exists>rid c. stored (u, t) rid = Some c \<and> earned c RS_COMMITTING"
    using published_only_certified [OF _ run, of "''/w''" "PushRef ''https://host/site.git'' commit_name ''feature''" Failed] t(2) by auto
  with run t(2) show ?thesis by blast
qed

end
