(* ===== verification/Orq_Conduct.thy ===== *)
theory Orq_Conduct
  imports Orq_Evaluation Orq_Publication
begin

text \<open>
  What providers and assistants can and cannot do: which provider a task is routed to, what of its answer
  is let in, which of its tool calls are carried out, where a worktree is removed; and that the count of
  rounds of the drivers does not matter once it suffices.
\<close>

section \<open>Routing\<close>

lemma first_fit_found:
  "first_fit A auto_choice q exceeded ps = Inr (p, q') \<Longrightarrow> \<exists>before after. ps = before @ p # after \<and> q' = fitted q p
     \<and> capable p (rq_tools q) \<and> prompt_input A q' = Inr ()
     \<and> (\<forall>b \<in> set before. capable b (rq_tools q) \<longrightarrow> auto_choice \<and> prompt_input A (fitted q b) = Inl (ProviderFailed PE_BUDGET))"
proof (induction A auto_choice q exceeded ps rule: first_fit.induct)
  case (2 A auto_choice q exceeded b ps)
  consider "\<not> capable b (rq_tools q)" "first_fit A auto_choice q exceeded ps = Inr (p, q')"
    | "capable b (rq_tools q)" "prompt_input A (fitted q b) = Inr ()" "p = b" "q' = fitted q b"
    | "capable b (rq_tools q)" "request_ok (fitted q b)" "auto_choice" "prompt_input A (fitted q b) = Inl (ProviderFailed PE_BUDGET)"
        "first_fit A auto_choice q True ps = Inr (p, q')"
    using "2.prems" by (auto split: if_splits sum.splits)
  then show ?case
  proof cases
    case 1
    with "2.IH"(1) obtain before after where "ps = before @ p # after" "q' = fitted q p" "capable p (rq_tools q)"
      "prompt_input A q' = Inr ()"
      "\<forall>b \<in> set before. capable b (rq_tools q) \<longrightarrow> auto_choice \<and> prompt_input A (fitted q b) = Inl (ProviderFailed PE_BUDGET)"
      by blast
    with 1 show ?thesis by (intro exI [of _ "b # before"] exI [of _ after]) auto
  next
    case 2
    then show ?thesis by (intro exI [of _ "[]"] exI [of _ ps]) auto
  next
    case 3
    with "2.IH"(2) obtain before after where "ps = before @ p # after" "q' = fitted q p" "capable p (rq_tools q)"
      "prompt_input A q' = Inr ()"
      "\<forall>b \<in> set before. capable b (rq_tools q) \<longrightarrow> auto_choice \<and> prompt_input A (fitted q b) = Inl (ProviderFailed PE_BUDGET)"
      by blast
    with 3 show ?thesis by (intro exI [of _ "b # before"] exI [of _ after]) auto
  qed
qed simp

lemma provider_named_some: "provider_named A i = Some p \<Longrightarrow> p \<in> set (ag_providers A) \<and> pd_id (pv_descriptor p) = i"
  by (auto simp: provider_named_def find_Some_iff)

lemma set_map_filter_some: "x \<in> set (List.map_filter f ys) \<longleftrightarrow> (\<exists>y \<in> set ys. f y = Some x)"
  by (induction ys) (auto simp: List.map_filter_simps split: option.splits)

lemma candidates_allowed:
  assumes "candidates A wanted allowed = Inr ps" and "p \<in> set ps"
  shows "p \<in> set (ag_providers A) \<and> pd_available (pv_descriptor p) \<and> (allowed = [] \<or> pd_id (pv_descriptor p) \<in> set allowed)
    \<and> (wanted = ''auto'' \<and> pd_auto (pv_descriptor p) \<or> wanted = pd_id (pv_descriptor p))"
  using assms
  by (auto simp: candidates_def set_map_filter_some split: if_splits option.splits dest!: provider_named_some)

lemma prepared_request:
  assumes "prepare_request A project wanted q = Inr (p, q')"
  obtains skills ps before after where
    "\<forall>n \<in> set (map td_name (rq_tools q)). n \<in> set (effective_tools (task_role (rq_task q)) (ps_permissions (proj_settings project)))"
    "candidates A wanted (ps_providers (proj_settings project)) = Inr ps" "ps = before @ p # after"
    "q' = fitted (q\<lparr>rq_skills := skills\<rparr>) p" "capable p (rq_tools q)" "prompt_input A q' = Inr ()"
    "\<forall>b \<in> set before. capable b (rq_tools q) \<longrightarrow> wanted = ''auto''
       \<and> prompt_input A (fitted (q\<lparr>rq_skills := skills\<rparr>) b) = Inl (ProviderFailed PE_BUDGET)"
proof -
  let ?names = "map td_name (rq_tools q)"
  have granted: "\<forall>n \<in> set ?names. n \<in> set (effective_tools (task_role (rq_task q)) (ps_permissions (proj_settings project)))"
    using assms by (auto simp: prepare_request_def Let_def split: if_splits)
  then have "\<exists>skills ps. candidates A wanted (ps_providers (proj_settings project)) = Inr ps
      \<and> first_fit A (wanted = ''auto'') (q\<lparr>rq_skills := skills\<rparr>) False ps = Inr (p, q')"
    using assms unfolding prepare_request_def Let_def
    by (simp split: sum.splits if_splits) blast
  then obtain skills ps where ps: "candidates A wanted (ps_providers (proj_settings project)) = Inr ps"
    and fit: "first_fit A (wanted = ''auto'') (q\<lparr>rq_skills := skills\<rparr>) False ps = Inr (p, q')" by blast
  from first_fit_found [OF fit] that [OF granted ps] show thesis by auto
qed

text \<open>
  C36: A task is routed to the first fitting provider: one that is configured, available and permitted by the
  project, named or open to automatic choice, able to give structured output and to call the offered tools,
  all of which its role and the project grant; every capable candidate before it was passed over in automatic
  choice, because the request exceeds its limit. What it is sent is the request with skills and that
  provider's own limit, within it and free of private and credential text.
\<close>

theorem routed_to_first_fit:
  assumes "prepare_request A project wanted q = Inr (p, q')"
  shows "\<exists>skills before after. q' = fitted (q\<lparr>rq_skills := skills\<rparr>) p
    \<and> candidates A wanted (ps_providers (proj_settings project)) = Inr (before @ p # after)
    \<and> p \<in> set (ag_providers A) \<and> pd_available (pv_descriptor p) \<and> capable p (rq_tools q)
    \<and> (ps_providers (proj_settings project) = [] \<or> pd_id (pv_descriptor p) \<in> set (ps_providers (proj_settings project)))
    \<and> (wanted = ''auto'' \<and> pd_auto (pv_descriptor p) \<or> wanted = pd_id (pv_descriptor p))
    \<and> (\<forall>b \<in> set before. capable b (rq_tools q) \<longrightarrow> wanted = ''auto''
         \<and> eb_input (rq_budget (fitted (q\<lparr>rq_skills := skills\<rparr>) b)) < ag_length A (ag_prompt A (fitted (q\<lparr>rq_skills := skills\<rparr>) b)))
    \<and> set (map td_name (rq_tools q)) \<subseteq> set (effective_tools (task_role (rq_task q)) (ps_permissions (proj_settings project)))
    \<and> ag_length A (ag_prompt A q') \<le> eb_input (rq_budget q') \<and> eb_input (rq_budget q') \<le> pd_max_input (pv_descriptor p)
    \<and> value_safe (ag_env A) (ag_prompt A q')"
proof -
  obtain skills ps before after where granted: "\<forall>n \<in> set (map td_name (rq_tools q)).
      n \<in> set (effective_tools (task_role (rq_task q)) (ps_permissions (proj_settings project)))"
    and ps: "candidates A wanted (ps_providers (proj_settings project)) = Inr ps" "ps = before @ p # after"
    and q': "q' = fitted (q\<lparr>rq_skills := skills\<rparr>) p" "capable p (rq_tools q)" "prompt_input A q' = Inr ()"
    and passed: "\<forall>b \<in> set before. capable b (rq_tools q) \<longrightarrow> wanted = ''auto''
       \<and> prompt_input A (fitted (q\<lparr>rq_skills := skills\<rparr>) b) = Inl (ProviderFailed PE_BUDGET)"
    using assms by (rule prepared_request)
  have over: "eb_input (rq_budget r) < ag_length A (ag_prompt A r)" if "prompt_input A r = Inl (ProviderFailed PE_BUDGET)" for r
    using that by (auto simp: prompt_input_def split: if_splits)
  have "ag_length A (ag_prompt A q') \<le> eb_input (rq_budget q')" "value_safe (ag_env A) (ag_prompt A q')"
    using q'(3) by (auto simp: prompt_input_def split: if_splits)
  moreover have "eb_input (rq_budget q') \<le> pd_max_input (pv_descriptor p)" by (simp add: q'(1) fitted_def)
  moreover have "set (map td_name (rq_tools q)) \<subseteq> set (effective_tools (task_role (rq_task q)) (ps_permissions (proj_settings project)))"
    using granted by blast
  moreover have "\<forall>b \<in> set before. capable b (rq_tools q) \<longrightarrow> wanted = ''auto''
       \<and> eb_input (rq_budget (fitted (q\<lparr>rq_skills := skills\<rparr>) b)) < ag_length A (ag_prompt A (fitted (q\<lparr>rq_skills := skills\<rparr>) b))"
    using passed over by blast
  ultimately show ?thesis
    using candidates_allowed [OF ps(1), of p] ps q' by (intro exI [of _ skills] exI [of _ before] exI [of _ after]) simp
qed

text \<open>Two providers, the first too small for the request; the second is chosen.\<close>

definition sample_provider :: "string \<Rightarrow> nat \<Rightarrow> unit provider" where
  "sample_provider i limit = \<lparr>pv_descriptor = \<lparr>pd_id = i, pd_model = ''model'', pd_capabilities = [''structured_output''],
     pd_available = True, pd_auto = True, pd_max_input = limit\<rparr>, pv_execute = \<lambda>q fs g. (Crashed, fs, g)\<rparr>"

definition sample_request :: request where
  "sample_request = \<lparr>rq_invocation = sample_id 40, rq_actor = sample_id 41, rq_execution = sample_id 42, rq_task = sample_task 10 ROLE_DEVELOPER TS_RUNNING,
     rq_context = \<lparr>cp_project = sample_id 1, cp_items = [], cp_indexed = None, cp_inspect = False, cp_files = [], cp_text = []\<rparr>,
     rq_skills = [], rq_tools = [], rq_constraints = [], rq_observations = [], rq_acceptance = None, rq_evidence = [],
     rq_findings = [], rq_schema = JObj [], rq_budget = default_budget\<rparr>"

definition two_providers :: "unit agents" where
  "two_providers = sample_agents\<lparr>ag_providers := [sample_provider ''small'' 10, sample_provider ''large'' 1000], ag_length := \<lambda>_. 100\<rparr>"

theorem routed_to_first_fit_witness:
  "\<exists>q'. prepare_request two_providers sample_project ''auto'' sample_request = Inr (sample_provider ''large'' 1000, q')
    \<and> eb_input (rq_budget q') \<le> 1000 \<and> value_safe sample_env (JObj [])"
proof -
  obtain q' where q': "prepare_request two_providers sample_project ''auto'' sample_request = Inr (sample_provider ''large'' 1000, q')"
    by (simp add: prepare_request_def two_providers_def sample_agents_def sample_request_def sample_project_def sample_provider_def
        candidates_def provider_named_def List.map_filter_def capable_def request_ok_def fitted_def prompt_input_def
        check_schema_def default_budget_def)
  from routed_to_first_fit [OF q'] have "eb_input (rq_budget q') \<le> 1000" "value_safe (ag_env two_providers) (ag_prompt two_providers q')"
    by (auto simp: sample_provider_def)
  with q' show ?thesis by (auto simp: two_providers_def sample_agents_def)
qed

section \<open>Counted rounds\<close>

text \<open>\<open>m'\<close> does what \<open>m\<close> does whenever that does not use up its rounds.\<close>

definition extends :: "('s, 'a) prog \<Rightarrow> ('s, 'a) prog \<Rightarrow> bool" where
  "extends m m' \<longleftrightarrow> (\<forall>s. fst (m s) \<noteq> Inl Unfinished \<longrightarrow> m' s = m s)"

lemma extends_refl: "extends m m"
  by (simp add: extends_def)

lemma extends_unfinished: "extends (raise_err Unfinished) m"
  by (simp add: extends_def prog_simps)

lemma extends_bnd: "extends m m' \<Longrightarrow> (\<And>x. extends (f x) (f' x)) \<Longrightarrow> extends (bnd m f) (bnd m' f')"
  unfolding extends_def bnd_def by (auto split: prod.splits sum.splits)

lemma extends_if: "extends m m' \<Longrightarrow> extends n n' \<Longrightarrow> extends (if b then m else n) (if b then m' else n')"
  by simp

lemma extends_option: "extends m m' \<Longrightarrow> (\<And>x. extends (f x) (f' x))
    \<Longrightarrow> extends (case o' of None \<Rightarrow> m | Some x \<Rightarrow> f x) (case o' of None \<Rightarrow> m' | Some x \<Rightarrow> f' x)"
  by (simp split: option.split)

lemma extends_pair: "(\<And>a b. extends (f a b) (f' a b)) \<Longrightarrow> extends (case p of (a, b) \<Rightarrow> f a b) (case p of (a, b) \<Rightarrow> f' a b)"
  by (simp split: prod.split)

lemma extends_for_each: "(\<And>x. extends (f x) (f' x)) \<Longrightarrow> extends (for_each xs f) (for_each xs f')"
  by (induction xs) (auto intro: extends_refl extends_bnd)

lemmas extends_laws = extends_bnd extends_if extends_option extends_pair extends_for_each

lemma extends_context_wave: "n \<le> n' \<Longrightarrow> extends (context_wave X rid provider cp policy n) (context_wave X rid provider cp policy n')"
proof (induction n arbitrary: n')
  case 0
  then show ?case by (simp add: extends_unfinished)
next
  case (Suc n)
  then obtain k where "n' = Suc k" "n \<le> k" by (cases n') auto
  then show ?case using Suc.IH by (auto intro!: extends_bnd extends_refl)
qed

lemma extends_execute_plan: "n \<le> n' \<Longrightarrow> extends (execute_plan X rid provider policy n) (execute_plan X rid provider policy n')"
  unfolding execute_plan_def drive_role_def drive_task_def Let_def
  by (intro extends_laws extends_context_wave | assumption | rule extends_refl)+

lemma extends_execute_rounds:
  "n \<le> n' \<Longrightarrow> k \<le> k' \<Longrightarrow> extends (execute_rounds X rid provider policy auto n k) (execute_rounds X rid provider policy auto n' k')"
proof (induction k arbitrary: k')
  case 0
  then show ?case by (simp add: extends_unfinished)
next
  case (Suc k)
  then obtain j where j: "k' = Suc j" "k \<le> j" by (cases k') auto
  have "extends (execute_round X rid provider policy auto n) (execute_round X rid provider policy auto n')"
    unfolding execute_round_def Let_def
    by (intro extends_laws extends_execute_plan Suc.prems(1) | rule extends_refl)+
  then show ?case using Suc.IH [OF Suc.prems(1) j(2)] j(1) by (auto intro!: extends_bnd extends_refl split: option.split)
qed


text \<open>A run that is not at a stage the driver may take over.\<close>

lemma sample_refused: "fst (execute_run sample_executor (sample_id 0) ''auto'' (open_policy [] MODE_DOCKER 100) True 1 1
    (store_of sample_capsule, sample_machine)) = Inl Conflict"
  by (simp add: execute_run_def take_lease_def execute_round_def execute_plan_def executable_states_def summarize_def sample_evaluation
      db_run sample_executor_def sample_workers_def sample_agents_def new_capsule_def discard_def cong: lazy_programs)


section \<open>Results of providers\<close>

definition same_store :: "uow \<Rightarrow> uow \<Rightarrow> bool" where
  "same_store u v \<longleftrightarrow> uow_work u = uow_work v \<and> uow_disk u = uow_disk v"

interpretation same: unit_order same_store
  by unfold_locales (auto simp: same_store_def env_tick_def)

lemmas same_laws = same.program_laws same.read_laws

lemma same_locked: "keeps same_store (locked_run rid)"
  unfolding locked_run_def by (intro same_laws)

lemma same_assigned: "keeps same_store (assigned env rid od)"
  unfolding assigned_def Let_def by (intro same_laws same_locked)

lemma same_draft: "keeps same_store (draft_request A rid od c)"
  unfolding draft_request_def by (intro same_laws)

lemma sameD: "keeps same_store m \<Longrightarrow> m s = (r, t) \<Longrightarrow> uow_work t = uow_work s \<and> uow_disk t = uow_disk s"
  by (drule (1) keepsD) (simp add: same_store_def)

lemma load_returns: "load rid s = (Inr c, t) \<longleftrightarrow> map_of (uow_work s) rid = Some c \<and> run_id (cap_run c) = rid \<and> t = s"
  by (auto simp: load_def split: option.splits)

lemma present_returns: "catch (bnd (load rid) (\<lambda>c. ret (Some c))) p (\<lambda>_. ret None) s = (Inr (Some c), t) \<Longrightarrow> map_of (uow_work s) rid = Some c"
  by (auto simp: catch_run bnd_load ret_run split: option.splits if_splits)

lemma entities_returns: "entities T rid c s = (Inr xs, t) \<longleftrightarrow> consistent T rid (tab_get T c) \<and> xs = tab_get T c \<and> t = s"
  by (auto simp: entities_def bnd_returns deny_run ret_run)

lemma find_in_run_returns:
  assumes "find_in_run T i rid s = (Inr (Some x), t)"
  shows "\<exists>c. map_of (uow_work s) rid = Some c \<and> x \<in> set (tab_get T c) \<and> tab_id T x = i"
proof -
  from assms obtain c where "map_of (uow_work s) rid = Some c" "find (\<lambda>x. tab_id T x = i) (tab_get T c) = Some x"
    by (auto simp: find_in_run_def bnd_returns [where f = "\<lambda>oc. case oc of None \<Rightarrow> _ | Some c \<Rightarrow> _ c"] bnd_returns [where m = "entities _ _ _"]
        entities_returns ret_run dest!: present_returns split: option.splits)
  then show ?thesis by (auto simp: find_Some_iff)
qed

lemma with_uow_returns: "with_uow body s = (Inr x, t) \<longleftrightarrow> (\<exists>v. body (discard s) = (Inr x, v) \<and> t = discard v)"
  by (auto simp: with_uow_def split: prod.splits)

lemma replay_returns: "replay_invocation env i hash s = (Inr result, t) \<Longrightarrow> prov_status i = INV_SUCCEEDED \<and> prov_result i = Some result"
  by (auto simp: replay_invocation_def bnd_returns deny_run raise_run ret_run split: option.splits if_splits)

lemma definition_of_some: "definition_of tools n = Some d \<Longrightarrow> d \<in> set tools \<and> td_name d = n"
  unfolding definition_of_def find_Some_iff by (metis nth_mem set_rev)

lemma conforming_calls_ok: "conforming_calls A tools cs = Inr () \<Longrightarrow> c \<in> set cs
    \<Longrightarrow> \<exists>d \<in> set tools. td_name d = ptc_name c \<and> ag_conforms A (td_parameters d) (ptc_arguments c)"
proof (induction cs)
  case (Cons a cs)
  then obtain d where "definition_of tools (ptc_name a) = Some d" "ag_conforms A (td_parameters d) (ptc_arguments a)"
    "conforming_calls A tools cs = Inr ()"
    by (auto simp: conforming_def split: option.splits sum.splits if_splits)
  with Cons definition_of_some show ?case by (cases "c = a") auto
qed simp

lemma validate_result_ok:
  assumes "validate_result A q result = Inr x"
  shows "x = result \<and> ag_length A (ag_result A result) \<le> 1000000 \<and> value_safe (ag_env A) (ag_result A result)
    \<and> (case pr_output result of Some out \<Rightarrow> ag_conforms A (rq_schema q) out
       | None \<Rightarrow> \<forall>c \<in> set (pr_calls result). \<exists>d \<in> set (rq_tools q). td_name d = ptc_name c \<and> ag_conforms A (td_parameters d) (ptc_arguments c))"
  using assms conforming_calls_ok [of A "rq_tools q" "pr_calls result"]
  by (auto simp: validate_result_def conforming_def split: if_splits option.splits sum.splits)

lemma drafted: "draft_request A rid od c s = (Inr q, t) \<Longrightarrow> rq_schema q = od_schema od \<and> rq_tools q = od_tools od"
  by (auto simp: draft_request_def bnd_returns ret_run)

lemma routed_terms: "prepare_request A project wanted q = Inr (p, q') \<Longrightarrow> rq_schema q' = rq_schema q \<and> rq_tools q' = rq_tools q"
  by (erule prepared_request) (auto simp: fitted_def)

lemma begun:
  assumes "begin_invocation A rid od u = (Inr start, v)"
  shows "case start of
     Inl result \<Rightarrow> \<exists>c i. map_of (uow_disk u) rid = Some c \<and> i \<in> set (cap_invocations c)
       \<and> prov_status i = INV_SUCCEEDED \<and> prov_result i = Some result
   | Inr (p, q) \<Rightarrow> rq_schema q = od_schema od \<and> rq_tools q = od_tools od"
proof -
  let ?hash = "\<lambda>p q. ag_fingerprint A q (pd_id (pv_descriptor p)) (pd_model (pv_descriptor p))"
  obtain c t1 draft t2 pq v' where steps: "assigned (ag_env A) rid od (discard u) = (Inr c, t1)"
    "draft_request A rid od c t1 = (Inr draft, t2)" "prepare_request A (as_project c) (od_provider od) draft = Inr pq"
    and rest: "(case pq of (p, q) \<Rightarrow> bnd (providers_get (rq_invocation q) rid) (\<lambda>existing. case existing of
       Some i \<Rightarrow> bnd (replay_invocation (ag_env A) i (?hash p q)) (\<lambda>result. ret (Inl result))
     | None \<Rightarrow>
         bnd (deny (run_state (as_run c) \<notin> set invocation_states \<or> exec_status (as_attempt c) \<noteq> TS_RUNNING
           \<or> (\<not> as_preparing c \<and> (as_plan c = None \<or> Some (plan_goal (the (as_plan c))) \<noteq> run_goal (as_run c)))) Conflict) (\<lambda>_.
         bnd (utc_now (ag_env A)) (\<lambda>now.
         bnd (record_start A od c p q (new_invocation rid od p q (?hash p q) now)) (\<lambda>_. ret (Inr (p, q))))))) t2 = (Inr start, v')"
    using assms unfolding begin_invocation_def with_uow_returns Let_def bnd_returns [where m = "assigned _ _ _"]
      bnd_returns [where m = "draft_request _ _ _ _"] bnd_returns [where m = "result_of _"] result_of_returns
    by blast
  obtain p q where pq: "pq = (p, q)" by fastforce
  from rest obtain existing t3 where found: "providers_get (rq_invocation q) rid t2 = (Inr existing, t3)"
    and last: "(case existing of
       Some i \<Rightarrow> bnd (replay_invocation (ag_env A) i (?hash p q)) (\<lambda>result. ret (Inl result))
     | None \<Rightarrow>
         bnd (deny (run_state (as_run c) \<notin> set invocation_states \<or> exec_status (as_attempt c) \<noteq> TS_RUNNING
           \<or> (\<not> as_preparing c \<and> (as_plan c = None \<or> Some (plan_goal (the (as_plan c))) \<noteq> run_goal (as_run c)))) Conflict) (\<lambda>_.
         bnd (utc_now (ag_env A)) (\<lambda>now.
         bnd (record_start A od c p q (new_invocation rid od p q (?hash p q) now)) (\<lambda>_. ret (Inr (p, q)))))) t3 = (Inr start, v')"
    unfolding pq prod.case bnd_returns [where m = "providers_get _ _"] by blast
  have work: "uow_work t2 = uow_disk u"
    using sameD [OF same_assigned steps(1)] sameD [OF same_draft steps(2)] by (simp add: discard_def)
  show ?thesis
  proof (cases existing)
    case None
    with last have "start = Inr (p, q)" by (auto simp: bnd_returns ret_run)
    with drafted [OF steps(2)] routed_terms [OF steps(3) [unfolded pq]] show ?thesis by simp
  next
    case (Some i)
    with last obtain result t where start: "start = Inl result" and
      replay: "replay_invocation (ag_env A) i (?hash p q) t3 = (Inr result, t)"
      by (auto simp: bnd_returns ret_run)
    obtain cap where "map_of (uow_disk u) rid = Some cap" "i \<in> set (cap_invocations cap)"
      using find_in_run_returns [OF found [unfolded providers_get_def Some]] work by (auto simp: invocations_table_def)
    with replay_returns [OF replay] start show ?thesis by auto
  qed
qed

lemma called: "call_provider A p q m = (Inr (Inr result), m') \<Longrightarrow> \<exists>x. validate_result A q x = Inr result"
  by (auto simp: call_provider_def split: prod.splits provider_reply.splits sum.splits)

lemma ended: "end_invocation env rid xid q answer u = (Inr result, v) \<Longrightarrow> answer = Inr result"
  by (cases answer) (auto simp: end_invocation_def bnd_returns with_uow_returns ret_run raise_run Let_def split: if_splits)

text \<open>
  C34: Nothing a provider says is let in unchecked: a result that an invocation returns either is the stored
  result of an earlier successful call under the same key, or was checked: it is at most a million
  characters of JSON, free of private and credential text, and either its output conforms to the schema of
  the order, or each of its calls is of a tool of the order with arguments that conform to the tool's schema.
\<close>

theorem provider_results_checked:
  assumes "invoke A rid od (u, m) = (Inr result, s)"
  shows "(\<exists>c i. map_of (uow_disk u) rid = Some c \<and> i \<in> set (cap_invocations c)
       \<and> prov_status i = INV_SUCCEEDED \<and> prov_result i = Some result)
    \<or> (ag_length A (ag_result A result) \<le> 1000000 \<and> value_safe (ag_env A) (ag_result A result)
       \<and> (case pr_output result of Some out \<Rightarrow> ag_conforms A (od_schema od) out
          | None \<Rightarrow> \<forall>c \<in> set (pr_calls result). \<exists>d \<in> set (od_tools od). td_name d = ptc_name c
              \<and> ag_conforms A (td_parameters d) (ptc_arguments c)))"
proof -
  obtain u1 start v where disk: "uow_disk u1 = uow_disk u" and started: "begin_invocation A rid od u1 = (Inr start, v)"
    and rest: "(case start of Inl result \<Rightarrow> ret result
     | Inr (p, q) \<Rightarrow> bnd (on_host (call_provider A p q)) (\<lambda>answer.
         db (end_invocation (ag_env A) rid (od_execution od) q answer))) (v, m) = (Inr result, s)"
    using assms by (auto simp: invoke_def require_key_def bnd_returns db_run deny_run split: prod.splits if_splits)
  have start: "case start of
     Inl result \<Rightarrow> \<exists>c i. map_of (uow_disk u) rid = Some c \<and> i \<in> set (cap_invocations c)
       \<and> prov_status i = INV_SUCCEEDED \<and> prov_result i = Some result
   | Inr (p, q) \<Rightarrow> rq_schema q = od_schema od \<and> rq_tools q = od_tools od"
    using begun [OF started] unfolding disk .
  show ?thesis
  proof (cases start)
    case (Inl x)
    with rest start show ?thesis by (auto simp: ret_run)
  next
    case (Inr pq)
    obtain p q where pq: "pq = (p, q)" by (cases pq)
    obtain answer t1 where answer: "on_host (call_provider A p q) (v, m) = (Inr answer, t1)"
      and last: "db (end_invocation (ag_env A) rid (od_execution od) q answer) t1 = (Inr result, s)"
      using rest unfolding Inr pq sum.case prod.case bnd_returns by blast
    obtain m1 where "call_provider A p q m = (Inr answer, m1)" using answer by (auto simp: on_host_run split: prod.splits)
    moreover obtain v1 v2 where "end_invocation (ag_env A) rid (od_execution od) q answer v1 = (Inr result, v2)"
      using last by (cases t1) (auto simp: db_run split: prod.splits)
    ultimately have "call_provider A p q m = (Inr (Inr result), m1)" using ended by fast
    then obtain x where x: "validate_result A q x = Inr result" by (auto dest: called)
    have "rq_schema q = od_schema od" "rq_tools q = od_tools od" using start Inr pq by simp_all
    moreover have "result = x" using validate_result_ok [OF x] by simp
    ultimately show ?thesis using validate_result_ok [OF x] by (intro disjI2) (cases "pr_output x", simp_all)
  qed
qed

text \<open>A run whose requirements are being worked on, and a provider that answers with an empty object.\<close>

definition worker_session :: "agent_role \<Rightarrow> string list \<Rightarrow> actor_session" where
  "worker_session role tools = \<lparr>actor_id = sample_id 20, actor_created = 0, actor_run = sample_id 0, actor_kind = AGENT,
     actor_role = Some role, actor_provider = None, actor_model = None, actor_status = ACT_WORKING, actor_task = Some (sample_id 10),
     actor_started = 0, actor_completed = None, actor_working_ms = 0, actor_waiting_ms = 0, actor_blocked_ms = 0, actor_skills = [],
     actor_tools = tools, actor_attempted = 1, actor_succeeded = 0, actor_failed = 0\<rparr>"

definition running_attempt :: task_execution where
  "running_attempt = \<lparr>exec_id = sample_id 42, exec_created = 0, exec_run = sample_id 0, exec_task = sample_id 10, exec_attempt = 1,
     exec_actor = sample_id 20, exec_ready = Some 0, exec_started = Some 0, exec_completed = None, exec_status = TS_RUNNING,
     exec_queue_ms = 0, exec_active_ms = 0, exec_waiting_ms = 0, exec_blocked_ms = 0, exec_result = None\<rparr>"

definition analyzing_capsule :: capsule where
  "analyzing_capsule = sample_capsule\<lparr>cap_run := sample_run\<lparr>run_state := RS_ANALYZING\<rparr>,
     cap_tasks := [(sample_id 10, (sample_task 10 ROLE_REQUIREMENTS TS_RUNNING)\<lparr>task_plan_version := 0\<rparr>)],
     cap_actors := [(sample_id 20, worker_session ROLE_REQUIREMENTS [])], cap_executions := [(sample_id 42, running_attempt)]\<rparr>"

definition empty_answer :: provider_result where
  "empty_answer = \<lparr>pr_output = Some (JObj []), pr_calls = [],
     pr_usage = \<lparr>use_input = None, use_output = None, use_cached = None, use_cost = None, use_cost_source = None\<rparr>\<rparr>"

definition answering_agents :: "unit agents" where
  "answering_agents = sample_agents\<lparr>ag_providers := [(sample_provider ''one'' 1000)\<lparr>pv_execute := \<lambda>q fs g. (Reply empty_answer, fs, g)\<rparr>]\<rparr>"

definition sample_order :: order where
  "sample_order = \<lparr>od_execution = sample_id 42, od_provider = ''auto'', od_context = rq_context sample_request, od_schema = JObj [],
     od_key = ''ask'', od_tools = [], od_budget = default_budget, od_observations = []\<rparr>"

lemmas conduct_defs = worker_session_def running_attempt_def analyzing_capsule_def empty_answer_def answering_agents_def
  sample_order_def sample_request_def sample_agents_def sample_provider_def default_budget_def

lemma sample_answer: "\<exists>u. invoke answering_agents (sample_id 0) sample_order (store_of analyzing_capsule, sample_machine)
    = (Inr empty_answer, (u, sample_machine))"
  by (simp add: invoke_def begin_invocation_def assigned_def draft_request_def prepare_request_def candidates_def provider_named_def
      List.map_filter_def capable_def request_ok_def fitted_def prompt_input_def check_schema_def conforming_def first_fit.simps
      call_provider_def validate_result_def end_invocation_def finish_invocation_def finished_status_def record_start_def
      new_invocation_def providers_get_def providers_save_def upsert_def ensure_owner_def find_anywhere_def find_in_run_def
      invocations_table_def replaced_def provider_roles_def invocation_states_def request_constraints_def
      conduct_defs sample_evaluation db_run on_host_run given_def cong: lazy_programs)

theorem provider_results_checked_witness:
  "\<exists>s. invoke answering_agents (sample_id 0) sample_order (store_of analyzing_capsule, sample_machine) = (Inr empty_answer, s)
    \<and> value_safe sample_env (JObj [])"
proof -
  obtain u where u: "invoke answering_agents (sample_id 0) sample_order (store_of analyzing_capsule, sample_machine)
    = (Inr empty_answer, (u, sample_machine))" using sample_answer by blast
  have "value_safe (ag_env answering_agents) (ag_result answering_agents empty_answer)"
    using provider_results_checked [OF u] by (auto simp: store_of_def conduct_defs sample_capsule_def new_capsule_def split: if_splits)
  with u show ?thesis by (auto simp: conduct_defs)
qed

section \<open>Calls of tools\<close>

lemma find_entity_returns: "find_entity T i found cs s = (Inr (Some (rid, x)), t)
    \<Longrightarrow> found = Some (rid, x) \<or> (\<exists>c. (rid, c) \<in> set cs \<and> x \<in> set (tab_get T c) \<and> tab_id T x = i)"
proof (induction T i found cs arbitrary: s rule: find_entity.induct)
  case (2 T i found r c cs)
  then have "(case find (\<lambda>x. tab_id T x = i) (tab_get T c) of None \<Rightarrow> find_entity T i found cs
      | Some x \<Rightarrow> if found \<noteq> None then raise_err Conflict else find_entity T i (Some (r, x)) cs) s = (Inr (Some (rid, x)), t)"
    by (auto simp: bnd_returns entities_returns)
  then show ?case
    using 2(1) [of "tab_get T c" s] 2(2) [of "tab_get T c" _ s]
    by (cases "find (\<lambda>x. tab_id T x = i) (tab_get T c)") (auto simp: raise_run find_Some_iff split: if_splits)
qed (simp add: ret_run)

lemma found_anywhere: "find_anywhere T i s = (Inr (Some (rid, x)), t)
    \<Longrightarrow> \<exists>c. (rid, c) \<in> set (uow_work s) \<and> x \<in> set (tab_get T c) \<and> tab_id T x = i"
  by (auto simp: find_anywhere_def bnd_returns all_capsules_def reads_run dest!: find_entity_returns)

lemma locked_returns: "locked_run rid s = (Inr r, t) \<Longrightarrow> \<exists>c. map_of (uow_work s) rid = Some c \<and> r = cap_run c \<and> run_id r = rid"
  by (auto simp: locked_run_def runs_get_def optional_def bnd_returns catch_run bnd_load the_or_run ret_run split: option.splits if_splits)

lemma db_returns: "db m (u, w) = (Inr x, t) \<longleftrightarrow> (\<exists>v. m u = (Inr x, v) \<and> t = (v, w))"
  by (auto simp: db_run split: prod.splits)

lemma host_returns: "on_host m (u, w) = (Inr x, t) \<longleftrightarrow> (\<exists>v. m w = (Inr x, v) \<and> t = (u, v))"
  by (auto simp: on_host_run split: prod.splits)

lemma unit_returns: "with_unit body (u, w) = (Inr x, t) \<longleftrightarrow> (\<exists>v w'. body (discard u, w) = (Inr x, (v, w')) \<and> t = (discard v, w'))"
  by (auto simp: with_unit_run split: prod.splits)

lemma table_returns: "table_list T rid s = (Inr xs, t) \<longleftrightarrow> (\<exists>c. map_of (uow_work s) rid = Some c \<and> run_id (cap_run c) = rid
    \<and> consistent T rid (tab_get T c) \<and> xs = tab_get T c \<and> t = s)"
  by (auto simp: table_list_def bnd_returns load_returns entities_returns)

lemma record_returns:
  "run_executions rid s = (Inr xs, t) \<longleftrightarrow> (\<exists>c. map_of (uow_work s) rid = Some c \<and> run_id (cap_run c) = rid
     \<and> xs = sort_entities exec_created exec_id (cap_executions c) \<and> t = s)"
  "run_actors rid s = (Inr acs, t) \<longleftrightarrow> (\<exists>c. map_of (uow_work s) rid = Some c \<and> run_id (cap_run c) = rid
     \<and> acs = sort_entities actor_created actor_id (cap_actors c) \<and> t = s)"
  "execution_workspace rid s = (Inr ws, t) \<longleftrightarrow> (\<exists>c. map_of (uow_work s) rid = Some c \<and> run_id (cap_run c) = rid
     \<and> ws = cap_workspace c \<and> t = s)"
  "execution_tools rid s = (Inr ts, t) \<longleftrightarrow> (\<exists>c. map_of (uow_work s) rid = Some c \<and> run_id (cap_run c) = rid
     \<and> consistent tools_table rid (cap_tools c) \<and> ts = sort_key (\<lambda>x. (tool_started x, tool_id x)) (cap_tools c) \<and> t = s)"
  by (auto simp: run_executions_def run_actors_def execution_workspace_def execution_tools_def bnd_returns load_returns ret_run
      tools_table_def table_returns)

lemma count_sorted: "length (filter P (sort_key f xs)) = length (filter P xs)"
  by (simp add: filter_sort)

lemma found_member: "find P xs = Some x \<Longrightarrow> x \<in> set xs \<and> P x"
  by (auto simp: find_Some_iff)

text \<open>What a permission rests on in the store.\<close>

definition permitted :: "'g workers \<Rightarrow> capsule \<Rightarrow> provider_execution \<Rightarrow> provider_tool_call \<Rightarrow> run_workspace \<Rightarrow> bool" where
  "permitted W cap p c w \<longleftrightarrow> run_state (cap_run cap) \<in> set tool_states \<and> cap_workspace cap = Some w
     \<and> (\<exists>x \<in> snd ` set (cap_executions cap). exec_id x = prov_execution p \<and> exec_status x = TS_RUNNING
          \<and> length (filter (\<lambda>i. tool_execution i = exec_id x) (cap_tools cap)) < xp_tool_calls (ws_policy w))
     \<and> (\<exists>a \<in> snd ` set (cap_actors cap). \<exists>role project. actor_id a = prov_actor p \<and> actor_role a = Some role
          \<and> env_project (wk_env W) (run_project (cap_run cap)) = Some project \<and> tool_str (ptc_name c) \<in> set (actor_tools a)
          \<and> ptc_name c \<in> set (effective_tools role (ps_permissions (proj_settings project))))"

lemma permit_tool_returns:
  assumes "permit_tool W (cap_run cap) p c (u, w) = (Inr st, s)" "map_of (uow_work u) (run_id (cap_run cap)) = Some cap"
  shows "permitted W cap p c (tl_workspace st)"
proof -
  let ?rid = "run_id (cap_run cap)"
  obtain x a ws project role where "find (\<lambda>x. exec_id x = prov_execution p) (sort_entities exec_created exec_id (cap_executions cap)) = Some x"
    "find (\<lambda>a. actor_id a = prov_actor p) (sort_entities actor_created actor_id (cap_actors cap)) = Some a" "cap_workspace cap = Some ws"
    "env_project (wk_env W) (run_project (cap_run cap)) = Some project" "actor_role a = Some role" "exec_status x = TS_RUNNING"
    "run_state (cap_run cap) \<in> set tool_states" "tool_str (ptc_name c) \<in> set (actor_tools a)"
    "ptc_name c \<in> set (effective_tools role (ps_permissions (proj_settings project)))"
    "length (filter (\<lambda>i. tool_execution i = exec_id x) (cap_tools cap)) < xp_tool_calls (ws_policy ws)" "tl_workspace st = ws"
    using assms unfolding permit_tool_def Let_def
    by (auto simp: bnd_returns db_returns host_returns the_or_returns deny_returns ret_run record_returns count_sorted not_le)
  then show ?thesis unfolding permitted_def by (fastforce dest!: found_member)
qed

lemma same_finds: "keeps same_store (find_anywhere T i)"
  by (rule same.keeps_find_anywhere)

lemma begun_tool:
  assumes "begin_tool W pid c (u, w) = (Inr start, s)"
  shows "\<exists>r0 c0 p cap result. (r0, c0) \<in> set (uow_disk u) \<and> p \<in> set (cap_invocations c0) \<and> prov_id p = pid
    \<and> prov_status p = INV_SUCCEEDED \<and> prov_result p = Some result \<and> c \<in> set (pr_calls result)
    \<and> map_of (uow_disk u) (prov_run p) = Some cap
    \<and> (case start of
         Inl ob \<Rightarrow> \<exists>i \<in> set (cap_tools cap). tool_id i = uuid5 pid (ptc_id c) \<and> tool_request_hash i = wk_call_hash W c
           \<and> tool_observation i = Some ob
       | Inr st \<Rightarrow> permitted W cap p c (tl_workspace st))"
proof -
  obtain found p v1 r v2 existing v3 s' where anywhere: "find_anywhere invocations_table pid (discard u) = (Inr found, v1)"
    and some: "(case found of None \<Rightarrow> None
       | Some (_, p) \<Rightarrow> if prov_status p = INV_SUCCEEDED \<and> prov_result p \<noteq> None then Some p else None) = Some p"
    and call: "c \<in> set (pr_calls (the (prov_result p)))"
    and locked: "locked_run (prov_run p) v1 = (Inr r, v2)" and existing: "execution_tool (uuid5 pid (ptc_id c)) (run_id r) v2 = (Inr existing, v3)"
    and rest: "(case existing of
       Some i \<Rightarrow> bnd (db (replay_tool i (wk_call_hash W c))) (\<lambda>ob. ret (Inl ob))
     | None \<Rightarrow> bnd (permit_tool W r p c) (\<lambda>st. ret (Inr st))) (v3, w) = (Inr start, s')"
    using assms unfolding begin_tool_def unit_returns bnd_returns [where m = "db (find_anywhere _ _)"] bnd_returns [where m = "the_or _ _"]
      bnd_returns [where m = "db (locked_run _)"] bnd_returns [where m = "deny _ _"] bnd_returns [where m = "db (execution_tool _ _)"]
      db_returns the_or_returns deny_returns
    by (auto simp: db_returns)
  from some obtain r0 where found: "found = Some (r0, p)" and p: "prov_status p = INV_SUCCEEDED" "prov_result p \<noteq> None"
    by (auto split: option.splits if_splits)
  obtain c0 where c0: "(r0, c0) \<in> set (uow_disk u)" "p \<in> set (cap_invocations c0)" "prov_id p = pid"
    and v1: "uow_work v1 = uow_disk u"
    using found_anywhere [OF anywhere [unfolded found]] sameD [OF same_finds anywhere] by (auto simp: discard_def invocations_table_def)
  obtain cap where cap: "map_of (uow_disk u) (prov_run p) = Some cap" "r = cap_run cap" "run_id r = prov_run p"
    using locked_returns [OF locked] v1 by auto
  have v3: "uow_work v3 = uow_disk u" "uow_work v2 = uow_disk u"
    using sameD [OF same_locked locked] sameD [OF same.keeps_sorted_tables(8) existing] v1 by auto
  have "case start of
         Inl ob \<Rightarrow> \<exists>i \<in> set (cap_tools cap). tool_id i = uuid5 pid (ptc_id c) \<and> tool_request_hash i = wk_call_hash W c
           \<and> tool_observation i = Some ob
       | Inr st \<Rightarrow> permitted W cap p c (tl_workspace st)"
  proof (cases existing)
    case None
    with rest obtain st s1 where "start = Inr st" "permit_tool W (cap_run cap) p c (v3, w) = (Inr st, s1)"
      by (auto simp: bnd_returns ret_run cap)
    then show ?thesis using permit_tool_returns v3 cap by fastforce
  next
    case (Some i)
    with rest obtain ob where "start = Inl ob" "tool_request_hash i = wk_call_hash W c" "tool_observation i = Some ob"
      by (auto simp: bnd_returns ret_run db_returns replay_tool_def deny_returns the_or_returns)
    moreover have "i \<in> set (cap_tools cap) \<and> tool_id i = uuid5 pid (ptc_id c)"
      using find_in_run_returns [OF existing [unfolded execution_tool_def Some]] v3 cap by (auto simp: tools_table_def)
    ultimately show ?thesis by auto
  qed
  with c0 p call cap show ?thesis by fastforce
qed

lemma dispatched_write:
  assumes "dispatch_tool W w c read_only s = (Inr (True, txt), t)" and "ptc_name c = FILE_WRITE"
  shows "\<exists>path content. wk_write W (ptc_arguments c) = Some (path, content) \<and> in_write_scope (ws_policy w) path
    \<and> (\<forall>x \<in> set (path_pieces path). x \<notin> {[], ''.'', ''..''} \<and> \<not> protected_part x)"
proof -
  obtain path content home m m' d where args: "wk_write W (ptc_arguments c) = Some (path, content)"
    and run: "scoped_write (wk_host W) \<lparr>sf_root = home, sf_policy = ws_policy w\<rparr> path content m = (Inr d, m')"
    using assms by (cases s) (auto simp: dispatch_tool_def bnd_returns host_returns the_or_returns deny_returns ret_run scoped_def)
  from run obtain fs where "scoped_target fs home (ws_policy w) path True = Inr (below home path)"
    by (auto simp: scoped_write_run Let_def scoped_target_ok split: option.splits sum.splits if_splits)
  then show ?thesis using args plain_pieces [of path] by (auto simp: scoped_target_ok)
qed

lemma observed_success:
  assumes "observe_tool W st c s = (Inr ob, t)" and "to_succeeded ob"
  shows "\<exists>read_only txt t'. dispatch_tool W (tl_workspace st) c read_only s = (Inr (True, txt), t')"
  using assms by (auto simp: observe_tool_def bnd_returns catch_run ret_run split: prod.splits sum.splits if_splits) blast

lemma writing_role: "FILE_WRITE \<in> set (effective_tools role profile) \<Longrightarrow> role \<in> {ROLE_DEVELOPER, ROLE_TESTER, ROLE_DOCUMENTATION}"
  by (auto simp: effective_tools_def role_permissions_def read_tools_def split: if_splits)

text \<open>
  C35: A tool is used only within its permission. An observation that the executor returns for a call is
  either the stored one of the same call, or the call is among those of a successful invocation, whose
  attempt is running in a run at a stage that uses tools, has not used up its calls, and whose actor and
  role, by the project's permissions, may use the tool; a write that succeeded was asked for by a writing role
  and names a path in the write scope, without going up and without a protected part.
\<close>

theorem tools_used_within_permission:
  assumes "execute_tool W pid c (u, m) = (Inr ob, s)"
  shows "\<exists>r0 c0 p cap result. (r0, c0) \<in> set (uow_disk u) \<and> p \<in> set (cap_invocations c0) \<and> prov_id p = pid
    \<and> prov_status p = INV_SUCCEEDED \<and> prov_result p = Some result \<and> c \<in> set (pr_calls result)
    \<and> map_of (uow_disk u) (prov_run p) = Some cap
    \<and> ((\<exists>i \<in> set (cap_tools cap). tool_id i = uuid5 pid (ptc_id c) \<and> tool_request_hash i = wk_call_hash W c
          \<and> tool_observation i = Some ob)
      \<or> (\<exists>w. permitted W cap p c w
          \<and> (to_succeeded ob \<and> ptc_name c = FILE_WRITE \<longrightarrow>
              (\<exists>a \<in> snd ` set (cap_actors cap). actor_id a = prov_actor p
                 \<and> actor_role a \<in> {Some ROLE_DEVELOPER, Some ROLE_TESTER, Some ROLE_DOCUMENTATION})
              \<and> (\<exists>path content. wk_write W (ptc_arguments c) = Some (path, content) \<and> in_write_scope (ws_policy w) path
                   \<and> (\<forall>x \<in> set (path_pieces path). x \<notin> {[], ''.'', ''..''} \<and> \<not> protected_part x)))))"
proof -
  obtain start s1 where begin1: "begin_tool W pid c (u, m) = (Inr start, s1)"
    and rest: "(case start of Inl ob \<Rightarrow> ret ob
      | Inr st \<Rightarrow> bnd (observe_tool W st c) (\<lambda>ob. bnd (db (finish_tool (wk_env W) st ob)) (\<lambda>_. ret ob))) s1 = (Inr ob, s)"
    using assms unfolding execute_tool_def bnd_returns [where m = "begin_tool _ _ _"] by blast
  obtain r0 c0 p cap result where found: "(r0, c0) \<in> set (uow_disk u)" "p \<in> set (cap_invocations c0)" "prov_id p = pid"
    "prov_status p = INV_SUCCEEDED" "prov_result p = Some result" "c \<in> set (pr_calls result)"
    "map_of (uow_disk u) (prov_run p) = Some cap"
    and start: "case start of
         Inl ob \<Rightarrow> \<exists>i \<in> set (cap_tools cap). tool_id i = uuid5 pid (ptc_id c) \<and> tool_request_hash i = wk_call_hash W c
           \<and> tool_observation i = Some ob
       | Inr st \<Rightarrow> permitted W cap p c (tl_workspace st)"
    using begun_tool [OF begin1] by blast
  let ?replayed = "\<exists>i \<in> set (cap_tools cap). tool_id i = uuid5 pid (ptc_id c) \<and> tool_request_hash i = wk_call_hash W c
          \<and> tool_observation i = Some ob"
  let ?fresh = "\<exists>w. permitted W cap p c w
          \<and> (to_succeeded ob \<and> ptc_name c = FILE_WRITE \<longrightarrow>
              (\<exists>a \<in> snd ` set (cap_actors cap). actor_id a = prov_actor p
                 \<and> actor_role a \<in> {Some ROLE_DEVELOPER, Some ROLE_TESTER, Some ROLE_DOCUMENTATION})
              \<and> (\<exists>path content. wk_write W (ptc_arguments c) = Some (path, content) \<and> in_write_scope (ws_policy w) path
                   \<and> (\<forall>x \<in> set (path_pieces path). x \<notin> {[], ''.'', ''..''} \<and> \<not> protected_part x)))"
  have "?replayed \<or> ?fresh"
  proof (cases start)
    case (Inl x)
    with rest start show ?thesis by (auto simp: ret_run)
  next
    case (Inr st)
    with start have ok: "permitted W cap p c (tl_workspace st)" by simp
    from rest Inr obtain t where ob: "observe_tool W st c s1 = (Inr ob, t)" by (auto simp: bnd_returns ret_run)
    have "?fresh"
    proof (intro exI [of _ "tl_workspace st"] conjI ok impI; elim conjE)
      assume wrote: "to_succeeded ob" "ptc_name c = FILE_WRITE"
      show "\<exists>a \<in> snd ` set (cap_actors cap). actor_id a = prov_actor p
          \<and> actor_role a \<in> {Some ROLE_DEVELOPER, Some ROLE_TESTER, Some ROLE_DOCUMENTATION}"
      proof -
        from ok obtain a role profile where "a \<in> snd ` set (cap_actors cap)" "actor_id a = prov_actor p" "actor_role a = Some role"
          "FILE_WRITE \<in> set (effective_tools role profile)" unfolding permitted_def wrote(2) by blast
        with writing_role show ?thesis by (intro bexI [of _ a]) auto
      qed
      show "\<exists>path content. wk_write W (ptc_arguments c) = Some (path, content) \<and> in_write_scope (ws_policy (tl_workspace st)) path
          \<and> (\<forall>x \<in> set (path_pieces path). x \<notin> {[], ''.'', ''..''} \<and> \<not> protected_part x)"
        using observed_success [OF ob wrote(1)] dispatched_write [OF _ wrote(2)] by blast
    qed
    then show ?thesis ..
  qed
  with found show ?thesis
    by (intro exI [of _ r0] exI [of _ c0] exI [of _ p] exI [of _ cap] exI [of _ result] conjI)
qed

text \<open>A developer's call to write a file.\<close>

definition sample_call :: provider_tool_call where
  "sample_call = \<lparr>ptc_id = ''call'', ptc_name = FILE_WRITE, ptc_arguments = JObj []\<rparr>"

definition calling_execution :: provider_execution where
  "calling_execution = \<lparr>prov_id = sample_id 50, prov_created = 0, prov_run = sample_id 0, prov_execution = sample_id 42,
     prov_actor = sample_id 20, prov_provider = ''one'', prov_model = ''model'', prov_request_hash = [], prov_key = ''turn'',
     prov_status = INV_SUCCEEDED, prov_started = 0, prov_deadline = 0, prov_completed = Some 0,
     prov_result = Some (empty_answer\<lparr>pr_output := None, pr_calls := [sample_call]\<rparr>), prov_error = None\<rparr>"

definition working_capsule :: capsule where
  "working_capsule = pushing_capsule\<lparr>cap_run := sample_run\<lparr>run_state := RS_EXECUTING\<rparr>,
     cap_actors := [(sample_id 20, worker_session ROLE_DEVELOPER [tool_str FILE_WRITE])],
     cap_executions := [(sample_id 42, running_attempt)], cap_invocations := [calling_execution],
     cap_workspace := Some \<lparr>ws_run = sample_id 0, ws_path = ''/w'', ws_base = commit_name, ws_branch = ''feature'',
       ws_policy = open_policy [] MODE_DOCKER 100\<rparr>\<rparr>"

definition permissive_env :: env where
  "permissive_env = sample_env\<lparr>env_project := \<lambda>_. Some (sample_project\<lparr>proj_settings :=
     (proj_settings sample_project)\<lparr>ps_permissions := \<lparr>perm_tools = [FILE_WRITE], perm_network = False\<rparr>\<rparr>\<rparr>)\<rparr>"

definition writing_workers :: "unit workers" where
  "writing_workers = sample_workers\<lparr>wk_agents := sample_agents\<lparr>ag_env := permissive_env, ag_host := answering_git\<rparr>,
     wk_write := \<lambda>_. Some (''src/a.py'', [104, 105])\<rparr>"

lemmas writing_defs = sample_call_def calling_execution_def working_capsule_def permissive_env_def writing_workers_def
  worker_session_def running_attempt_def sample_workers_def sample_agents_def pushing_capsule_def

lemma sample_target: "validate_relative_path (ascii ''src/a.py'') = Inr ()" "path_pieces ''src/a.py'' = [''src'', ''a.py'']"
  "protected_part ''src'' = False" "protected_part ''a.py'' = False" "contained ''/w'' [''src'', ''a.py'']"
  "in_write_scope (open_policy [] MODE_DOCKER 100) ''src/a.py''" "below ''/w'' ''src/a.py'' = ''/w/src/a.py''"
  "stations ''/w'' [''src'', ''a.py''] = [''/w/src'', ''/w/src/a.py'']"
  by code_simp+

lemma sample_text: "utf8_encode [104, 105] = Some [104, 105]"
  by (simp add: utf8_encode_def scalar_def utf8_char_def byte_of_def)

lemma sample_tool_run: "\<exists>ob s. execute_tool writing_workers (sample_id 50) sample_call (store_of working_capsule, sample_machine) = (Inr ob, s)
    \<and> to_succeeded ob"
  by (simp add: execute_tool_def begin_tool_def permit_tool_def find_anywhere_def execution_tool_def find_in_run_def execution_tools_def tools_table_def
      invocations_table_def tool_states_def effective_tools_def role_permissions_def write_tools_def save_tool_def upsert_def ensure_owner_def
      verify_workspace_def worktree_status_def git_root_def resolved_def lookup_def git_word_def git_def sample_remote sample_status
      observe_tool_def dispatch_tool_def scoped_def scoped_write_run scoped_target_def with_parents_def sample_target sample_text finish_tool_def
      sample_evaluation writing_defs completed_defs commit_name_def answering_git_def sample_host_def sample_machine_def db_run on_host_run with_unit_run
      replaced_def given_def cong: lazy_programs) (simp add: open_policy_def)

theorem tools_used_within_permission_witness:
  "\<exists>ob s w. execute_tool writing_workers (sample_id 50) sample_call (store_of working_capsule, sample_machine) = (Inr ob, s)
    \<and> to_succeeded ob \<and> permitted writing_workers working_capsule calling_execution sample_call w \<and> in_write_scope (ws_policy w) ''src/a.py''"
proof -
  obtain ob s where run: "execute_tool writing_workers (sample_id 50) sample_call (store_of working_capsule, sample_machine) = (Inr ob, s)"
    "to_succeeded ob" using sample_tool_run by blast
  have one: "uow_disk (store_of working_capsule) = [(sample_id 0, working_capsule)]" "cap_invocations working_capsule = [calling_execution]"
    "prov_run calling_execution = sample_id 0" "cap_tools working_capsule = []" "ptc_name sample_call = FILE_WRITE"
    "wk_write writing_workers x = Some (''src/a.py'', [104, 105])" for x
    by (simp_all add: store_of_def writing_defs sample_capsule_def new_capsule_def sample_run_def)
  from tools_used_within_permission [OF run(1)] run(2)
  obtain w where "permitted writing_workers working_capsule calling_execution sample_call w" "in_write_scope (ws_policy w) ''src/a.py''"
    by (auto simp: one)
  with run show ?thesis by blast
qed

section \<open>Removing worktrees\<close>

definition leaves_worktrees :: "git_command \<Rightarrow> bool" where
  "leaves_worktrees c \<longleftrightarrow> (case c of WorktreeRemove p \<Rightarrow> False | _ \<Rightarrow> True)"

text \<open>Every worktree removed on the way from \<open>m\<close> to \<open>m'\<close> satisfies \<open>K\<close>.\<close>

definition removals :: "(string \<Rightarrow> string \<Rightarrow> git_reply \<Rightarrow> (string \<times> git_command \<times> git_reply) list \<Rightarrow> bool)
    \<Rightarrow> 'g machine \<Rightarrow> 'g machine \<Rightarrow> bool" where
  "removals K m m' \<longleftrightarrow> (\<exists>new. m_trace m' = m_trace m @ new \<and> (\<forall>d p reply. (d, WorktreeRemove p, reply) \<in> set new \<longrightarrow> K d p reply (m_trace m')))"

lemma emits_run: "keeps (emits P) a \<Longrightarrow> a m = (r, t) \<Longrightarrow> emits P m t"
  by (rule keepsD)

lemma removals_none: "emits leaves_worktrees m t \<Longrightarrow> removals K m t"
  by (fastforce simp: emits_def removals_def leaves_worktrees_def)

lemma removals_after: "emits leaves_worktrees m t \<Longrightarrow> removals K t m' \<Longrightarrow> removals K m m'"
  by (fastforce simp: emits_def removals_def leaves_worktrees_def)

lemma removals_bnd:
  assumes "keeps (emits leaves_worktrees) a" and "\<And>x t. a m = (Inr x, t) \<Longrightarrow> removals K t (snd (f x t))"
  shows "removals K m (snd (bnd a f m))"
proof -
  obtain r t where "a m = (r, t)" by fastforce
  with assms emits_run [OF assms(1) this] show ?thesis
    by (cases r) (auto simp: bnd_run intro: removals_none removals_after)
qed

lemma emits_io: "keeps (emits P) (lookup p)" "keeps (emits P) (resolved p)" "keeps (emits P) (read_manifest M rid)"
  unfolding lookup_def resolved_def read_manifest_def
  by (intro emits.keeps_reads emits.keeps_bnd emits.keeps_deny emits.keeps_ret emits.keeps_the_or)+

lemma leaves_status: "keeps (emits leaves_worktrees) (worktree_status h dir)" "keeps (emits leaves_worktrees) (common_directory h dir)"
  unfolding worktree_status_def git_root_def git_word_def common_directory_def
  by (intro emits.keeps_bnd emits_io emits.keeps_ret emits.keeps_the_or emits_git; simp add: leaves_worktrees_def)+

lemma status_trace:
  assumes "worktree_status h dir m = (Inr st, t)"
  shows "\<exists>front home raw. m_trace t = front @ [(home, StatusV2, Output raw)] \<and> parse_status home raw = Some st"
proof -
  obtain home t1 raw where "git h home StatusV2 t1 = (Inr raw, t)" "parse_status home raw = Some st"
    using assms by (auto simp: worktree_status_def bnd_returns the_or_returns)
  then show ?thesis by (auto simp: git_def split: prod.splits git_reply.splits)
qed

lemma removals_tail:
  assumes "removals K m (snd (a m))" and "\<And>x t. m_trace (snd (f x t)) = m_trace t"
  shows "removals K m (snd (bnd a f m))"
  using assms by (auto simp: removals_def bnd_run split: prod.split sum.split)

text \<open>One removal, at the end, after a status without a change.\<close>

definition clean_removal :: "string \<Rightarrow> string \<Rightarrow> string \<Rightarrow> string \<Rightarrow> git_reply \<Rightarrow> (string \<times> git_command \<times> git_reply) list \<Rightarrow> bool" where
  "clean_removal repo target d p reply trace \<longleftrightarrow> d = repo \<and> p = target
     \<and> (\<exists>front home raw st. trace = front @ [(home, StatusV2, Output raw), (d, WorktreeRemove p, reply)]
          \<and> parse_status home raw = Some st \<and> st_changed st = [])"

lemma remove_removals: "removals (clean_removal repo target) m (snd (remove_worktree h repo target m))"
  unfolding remove_worktree_def
proof (rule removals_bnd [OF leaves_status(1)])
  fix st t
  assume "worktree_status h target m = (Inr st, t)"
  then obtain front home raw where t: "m_trace t = front @ [(home, StatusV2, Output raw)]" "parse_status home raw = Some st"
    using status_trace by blast
  show "removals (clean_removal repo target) t
      (snd (bnd (deny (st_changed st \<noteq> []) PolicyDenied) (\<lambda>_. bnd (git h repo (WorktreeRemove target)) (\<lambda>_. ret ())) t))"
  proof (cases "st_changed st = []")
    case True
    with t have "removals (clean_removal repo target) t (snd (git h repo (WorktreeRemove target) t))"
      by (auto simp: removals_def git_def clean_removal_def split: prod.split)
    then show ?thesis using True by (simp add: deny_def removals_tail ret_run)
  next
    case False
    then show ?thesis by (simp add: bnd_run deny_run removals_def)
  qed
qed

text \<open>
  C38: Only an owned and clean worktree is removed. Every removal that giving up a run's worktree asks of Git
  is the last thing it asks, is of the run's own directory below the manager's root, which the ownership
  manifest claims for exactly this worktree, and follows a status of Git without a change.
\<close>

theorem workspace_removal_owned:
  assumes "remove_owned h M w m = (r, m')"
    and "(d, WorktreeRemove p, reply) \<in> set (drop (length (m_trace m)) (m_trace m'))"
  shows "d = wt_repo w \<and> p = wt_path w \<and> p = worktree_path M (wt_run w)
    \<and> is_file (m_files m (manifest_path M (wt_run w))) \<and> wm_load M (content_of (m_files m (manifest_path M (wt_run w)))) = Some w
    \<and> (\<exists>front home raw st. m_trace m' = front @ [(home, StatusV2, Output raw), (d, WorktreeRemove p, reply)]
         \<and> parse_status home raw = Some st \<and> st_changed st = [])"
proof -
  let ?manifest = "m_files m (manifest_path M (wt_run w))"
  let ?K = "clean_removal (wt_repo w) (wt_path w)"
  let ?rest = "bnd (worktree_status h (wt_path w)) (\<lambda>st.
     bnd (deny (st_root st \<noteq> wt_path w \<or> st_branch st \<noteq> Some (wt_branch w)) PolicyDenied) (\<lambda>_.
     bnd (common_directory h (wt_path w)) (\<lambda>common. bnd (common_directory h (wt_repo w)) (\<lambda>expected.
     bnd (deny (common \<noteq> expected) PolicyDenied) (\<lambda>_.
     bnd (remove_worktree h (wt_repo w) (wt_path w)) (\<lambda>_.
     bnd (lookup (manifest_path M (wt_run w))) (\<lambda>left. bnd (deny (\<not> is_file left) OsErr) (\<lambda>_.
     modify (\<lambda>m. m\<lparr>m_files := (m_files m)(manifest_path M (wt_run w) := None)\<rparr>)))))))))"
  have head: "if wt_path w = worktree_path M (wt_run w) \<and> is_file ?manifest \<and> wm_load M (content_of ?manifest) = Some w
      then remove_owned h M w m = ?rest m else m_trace (snd (remove_owned h M w m)) = m_trace m"
    by (auto simp: remove_owned_def read_manifest_def Let_def bnd_run lookup_def reads_run deny_run the_or_run raise_run
        split: option.split)
  have after: "m_trace (snd (bnd (lookup q) (\<lambda>left. bnd (deny (b left) e) (\<lambda>_. modify (\<lambda>m. m\<lparr>m_files := f m\<rparr>))) t)) = m_trace t" for q b e f t
    by (simp add: bnd_run lookup_def reads_run deny_run modify_run)
  have tail: "removals ?K t (snd (bnd (remove_worktree h (wt_repo w) (wt_path w)) (\<lambda>_.
     bnd (lookup (manifest_path M (wt_run w))) (\<lambda>left. bnd (deny (\<not> is_file left) OsErr) (\<lambda>_.
     modify (\<lambda>m. m\<lparr>m_files := (m_files m)(manifest_path M (wt_run w) := None)\<rparr>)))) t))" for t
    by (intro removals_tail remove_removals after)
  have rest: "removals ?K m (snd (?rest m))"
    by (rule tail removals_bnd [OF leaves_status(1)] removals_bnd [OF leaves_status(2)] removals_bnd [OF emits.keeps_deny])+
  show ?thesis
  proof (cases "wt_path w = worktree_path M (wt_run w) \<and> is_file ?manifest \<and> wm_load M (content_of ?manifest) = Some w")
    case True
    have same: "remove_owned h M w m = ?rest m" using head unfolding if_P [OF True] .
    have "removals ?K m (snd (remove_owned h M w m))" using rest unfolding same .
    then have "removals ?K m m'" by (simp add: assms(1))
    with True assms(2) show ?thesis by (auto simp: removals_def clean_removal_def)
  next
    case False
    with head assms show ?thesis by simp
  qed
qed

text \<open>A clean worktree with its manifest.\<close>

definition sample_worktree :: worktree where
  "sample_worktree = \<lparr>wt_run = sample_id 0, wt_project = sample_id 1, wt_repo = ''/site'', wt_path = below ''/o'' (uuid_str (sample_id 0)),
     wt_branch = ''feature'', wt_base = ''abc''\<rparr>"

definition sample_manager :: worktree_manager where
  "sample_manager = \<lparr>wm_root = ''/o'', wm_dump = \<lambda>_. [], wm_load = \<lambda>_. Some sample_worktree\<rparr>"

definition owned_git :: "unit host" where
  "owned_git = sample_host\<lparr>h_git := \<lambda>dir c fs g. (case c of RevParseTop \<Rightarrow> Output (wt_path sample_worktree) | StatusV2 \<Rightarrow> Output clean_status
     | RevParseCommonDir \<Rightarrow> Output ''/site/.git'' | WorktreeRemove p \<Rightarrow> Output [] | _ \<Rightarrow> Failed, fs, g)\<rparr>"

definition owned_machine :: "unit machine" where
  "owned_machine = \<lparr>m_files = [manifest_path sample_manager (sample_id 0) \<mapsto> File [] 1 False, wt_path sample_worktree \<mapsto> Folder],
     m_git = (), m_trace = []\<rparr>"

lemma owned_status: "parse_status (wt_path sample_worktree) clean_status = Some \<lparr>st_root = wt_path sample_worktree, st_branch = Some ''feature'',
    st_head = commit_name, st_changed = []\<rparr>" "py_strip (wt_path sample_worktree) = wt_path sample_worktree" "py_strip ''/site/.git'' = ''/site/.git''"
  "manifest_path sample_manager (sample_id 0) \<noteq> wt_path sample_worktree"
  by code_simp+

lemma sample_removal: "\<exists>m'. remove_owned owned_git sample_manager sample_worktree owned_machine = (Inr (), m')
    \<and> (''/site'', WorktreeRemove (wt_path sample_worktree), Output []) \<in> set (drop (length (m_trace owned_machine)) (m_trace m'))"
proof -
  have "wt_run sample_worktree = sample_id 0" "wt_repo sample_worktree = ''/site''" "wt_branch sample_worktree = ''feature''"
    "worktree_path sample_manager (sample_id 0) = wt_path sample_worktree" "wm_load sample_manager x = Some sample_worktree" for x
    by (simp_all add: sample_worktree_def sample_manager_def worktree_path_def)
  with owned_status owned_status(4) [symmetric] show ?thesis
    by (simp add: remove_owned_def read_manifest_def worktree_status_def common_directory_def git_root_def resolved_def lookup_def git_word_def
        git_def remove_worktree_def owned_git_def sample_host_def owned_machine_def Let_def bnd_run ret_run reads_run deny_run the_or_run modify_run)
qed

theorem workspace_removal_owned_witness:
  "\<exists>m' front raw home. remove_owned owned_git sample_manager sample_worktree owned_machine = (Inr (), m')
    \<and> m_trace m' = front @ [(home, StatusV2, Output raw), (''/site'', WorktreeRemove (wt_path sample_worktree), Output [])]"
  using sample_removal workspace_removal_owned by blast

end
