(* ===== verification/Orq_Audit.thy ===== *)
theory Orq_Audit
  imports Orq_Evaluation
begin

text \<open>
  What the contracts of \<^verbatim>\<open>Orq_History\<close> and \<^verbatim>\<open>Orq_Integrity\<close> say of the operations together: the audit
  history of a run is append-only, and every committed capsule is intact.
\<close>

text \<open>
  C14: the audit history is append-only. Whatever sequence of operations runs, a committed run keeps
  its identity, its event log, reviews and change reports only grow at their end, its stored plans,
  approval requests and decisions are never changed or removed, and no task disappears.
\<close>
theorem audit_history_append_only:
  assumes "stored s rid = Some c"
  shows "\<exists>d. stored (operate D ps s) rid = Some d \<and> cap_id d = cap_id c \<and> run_id (cap_run d) = run_id (cap_run c)
    \<and> prefix (cap_events c) (cap_events d) \<and> prefix (cap_reviews c) (cap_reviews d)
    \<and> prefix (cap_guardians c) (cap_guardians d) \<and> map_of (cap_plans c) \<subseteq>\<^sub>m map_of (cap_plans d)
    \<and> map_of (cap_requests c) \<subseteq>\<^sub>m map_of (cap_requests d) \<and> map_of (cap_decisions c) \<subseteq>\<^sub>m map_of (cap_decisions d)
    \<and> dom (map_of (cap_tasks c)) \<subseteq> dom (map_of (cap_tasks d))"
proof -
  obtain d where "stored (operate D ps s) rid = Some d" "history c d" using operate_history [OF assms] .
  then show ?thesis by (simp add: history_defs grows_def)
qed

theorem audit_history_append_only_witness:
  "\<exists>d. stored (operate sample_system [Core (Advance (sample_id 0) RS_CONTEXT_SYNC ''sync'')] (store_of sample_capsule, sample_machine)) (sample_id 0)
     = Some d \<and> cap_id d = ''ORQ-20260101-0001''"
proof -
  have "stored (store_of sample_capsule, sample_machine) (sample_id 0) = Some sample_capsule"
    by (simp add: committed_def store_of_def sample_capsule_def new_capsule_def sample_run_def)
  moreover have "cap_id sample_capsule = ''ORQ-20260101-0001''" by (simp add: sample_capsule_def new_capsule_def)
  ultimately show ?thesis using audit_history_append_only by metis
qed

text \<open>
  C15: what is committed is intact. Along any sequence of operations from the empty store, the event
  log of each run is numbered 1, 2, 3, ... without gaps, ends at the run's event cursor, is in time
  order, has one event per idempotency key and only events of that run and project; its stored
  plans are keyed by version and name existing tasks; its phases have one row per phase and iteration;
  its approval requests have one row per stage, version and subject; each decision belongs to a request.
\<close>
theorem committed_capsules_intact:
  assumes "stored (operate D ps (empty_store, m)) rid = Some c"
  shows "map event_seq (cap_events c) = [1..<Suc (length (cap_events c))]
    \<and> run_last_seq (cap_run c) = length (cap_events c)
    \<and> sorted (map event_at (cap_events c)) \<and> distinct (map event_key (cap_events c))
    \<and> (\<forall>e \<in> set (cap_events c). event_run e = rid \<and> event_project e = run_project (cap_run c))
    \<and> plans_ok rid (cap_plans c) (cap_tasks c) \<and> work_ok rid (cap_actors c) (cap_executions c) (cap_phases c)
    \<and> approvals_ok rid (cap_requests c) (cap_decisions c)"
  using operate_intact [OF _ assms] by (simp add: intact_def log_ok_def)

lemma sample_created: "stored (operate sample_system [Core (CreatePending ''20260101'' sample_project ''add a page''
    ''feature'' ''abc'' SUPERVISED None)] (empty_store, sample_machine)) (UUID4 0) \<noteq> None"
  by (subst stored_core) (simp add: sample_evaluation create_pending_def make_run_def new_run_def open_run_def run_ok_def
      save_initial_control_policy_def control_payload_def mode_str_def empty_store_def supervised_gates_def
      committed_def cong: lazy_programs)

theorem committed_capsules_intact_witness:
  "\<exists>c. stored (operate sample_system [Core (CreatePending ''20260101'' sample_project ''add a page'' ''feature'' ''abc''
      SUPERVISED None)] (empty_store, sample_machine)) (UUID4 0) = Some c \<and> distinct (map event_key (cap_events c))"
  using sample_created committed_capsules_intact by blast

end
