(* ===== verification/Orq_Json.thy ===== *)
theory Orq_Json
  imports Orq_Bytes
begin

text \<open>
  JSON as \<^verbatim>\<open>persistence/filesystem/io.py\<close> writes and reads it: \<^verbatim>\<open>json.dumps\<close> with sorted keys, compact
  or indented, and the strict decoder (\<^verbatim>\<open>json.loads\<close> with duplicate keys and non-finite numbers
  refused). A floating point number is represented by its literal (its \<^verbatim>\<open>repr\<close>), a \<^verbatim>\<open>dict\<close> by its
  items. The only error of this layer is \<^verbatim>\<open>FilesystemFormatError\<close>, here \<open>None\<close>.
\<close>

datatype jdoc =
    DNull | DBool bool | DInt int | DFloat ustring | DText ustring
  | DArr "jdoc list" | DObj "(ustring \<times> jdoc) list"

section \<open>Writing\<close>

definition int_text :: "int \<Rightarrow> ustring" where
  "int_text i = (if i < 0 then 45 # ascii (nat_str (nat (- i))) else ascii (nat_str (nat i)))"

definition hex_digit :: "nat \<Rightarrow> nat" where
  "hex_digit n = (if n < 10 then 48 + n else 87 + n)"

definition escape :: "nat \<Rightarrow> ustring" where
  "escape c = (if c = 34 then [92, 34] else if c = 92 then [92, 92] else if c = 8 then [92, 98]
     else if c = 12 then [92, 102] else if c = 10 then [92, 110] else if c = 13 then [92, 114]
     else if c = 9 then [92, 116]
     else if c < 32 then [92, 117, 48, 48, hex_digit (c div 16), hex_digit (c mod 16)] else [c])"

definition quoted :: "ustring \<Rightarrow> ustring" where
  "quoted s = 34 # concat (map escape s) @ [34]"

text \<open>
  The layout of a rendering: \<open>nl n\<close> is what stands at a line break at depth \<open>n\<close>, \<open>col\<close> what separates
  a key from its value. \<^verbatim>\<open>separators=(",", ":")\<close> breaks no lines, \<^verbatim>\<open>indent=2\<close> indents by two blanks.
\<close>

definition bracketed :: "(nat \<Rightarrow> ustring) \<Rightarrow> nat \<Rightarrow> nat \<Rightarrow> nat \<Rightarrow> ustring list \<Rightarrow> ustring" where
  "bracketed nl left right n items = (if items = [] then [left, right]
     else left # nl (Suc n) @ join_str (44 # nl (Suc n)) items @ nl n @ [right])"

primrec render :: "(nat \<Rightarrow> ustring) \<Rightarrow> ustring \<Rightarrow> jdoc \<Rightarrow> nat \<Rightarrow> ustring" where
  "render nl col DNull = (\<lambda>n. ascii ''null'')"
| "render nl col (DBool b) = (\<lambda>n. if b then ascii ''true'' else ascii ''false'')"
| "render nl col (DInt i) = (\<lambda>n. int_text i)"
| "render nl col (DFloat l) = (\<lambda>n. l)"
| "render nl col (DText s) = (\<lambda>n. quoted s)"
| "render nl col (DArr vs) = (\<lambda>n. bracketed nl 91 93 n (map (\<lambda>r. r (Suc n)) (map (render nl col) vs)))"
| "render nl col (DObj ps) = (\<lambda>n. bracketed nl 123 125 n
     (map (\<lambda>p. quoted (fst p) @ col @ snd p (Suc n)) (map (map_prod id (render nl col)) ps)))"

text \<open>\<^verbatim>\<open>sort_keys=True\<close>\<close>

primrec sorted_keys :: "jdoc \<Rightarrow> jdoc" where
  "sorted_keys DNull = DNull"
| "sorted_keys (DBool b) = DBool b"
| "sorted_keys (DInt i) = DInt i"
| "sorted_keys (DFloat l) = DFloat l"
| "sorted_keys (DText s) = DText s"
| "sorted_keys (DArr vs) = DArr (map sorted_keys vs)"
| "sorted_keys (DObj ps) = DObj (sort_key fst (map (map_prod id sorted_keys) ps))"

definition compact :: "jdoc \<Rightarrow> ustring" where
  "compact v = render (\<lambda>n. []) [58] (sorted_keys v) 0"

definition indented :: "jdoc \<Rightarrow> ustring" where
  "indented v = render (\<lambda>n. 10 # replicate (2 * n) 32) [58, 32] (sorted_keys v) 0"

section \<open>Reading: tokens\<close>

datatype token =
    TkLBrace | TkRBrace | TkLBrack | TkRBrack | TkComma | TkColon
  | TkValue jdoc | TkText ustring

definition hex_value :: "nat \<Rightarrow> nat option" where
  "hex_value c = (if 48 \<le> c \<and> c \<le> 57 then Some (c - 48) else if 97 \<le> c \<and> c \<le> 102 then Some (c - 87)
     else if 65 \<le> c \<and> c \<le> 70 then Some (c - 55) else None)"

text \<open>Four hexadecimal digits.\<close>

definition hex4 :: "ustring \<Rightarrow> (nat \<times> ustring) option" where
  "hex4 cs = (case map hex_value (take 4 cs) of
     [Some w, Some x, Some y, Some z] \<Rightarrow> Some (w * 4096 + x * 256 + y * 16 + z, drop 4 cs) | _ \<Rightarrow> None)"

definition unescape :: "nat \<Rightarrow> nat option" where
  "unescape e = (if e = 34 \<or> e = 92 \<or> e = 47 then Some e else if e = 98 then Some 8
     else if e = 102 then Some 12 else if e = 110 then Some 10 else if e = 114 then Some 13
     else if e = 116 then Some 9 else None)"

definition prepend :: "nat \<Rightarrow> (ustring \<times> ustring) option \<Rightarrow> (ustring \<times> ustring) option" where
  "prepend c = map_option (\<lambda>(s, r). (c # s, r))"

text \<open>What follows a backslash; a high surrogate is joined with a low one escaped right after it.\<close>

definition unicode_escape :: "ustring \<Rightarrow> (nat \<times> ustring) option" where
  "unicode_escape cs = (case hex4 cs of None \<Rightarrow> None
     | Some (u, r) \<Rightarrow> if 0xD800 \<le> u \<and> u \<le> 0xDBFF \<and> take 2 r = [92, 117] then
           (case hex4 (drop 2 r) of None \<Rightarrow> None
            | Some (w, r2) \<Rightarrow> if 0xDC00 \<le> w \<and> w \<le> 0xDFFF
                then Some (0x10000 + (u - 0xD800) * 1024 + (w - 0xDC00), r2) else Some (u, r))
         else Some (u, r))"

definition escape_sequence :: "ustring \<Rightarrow> (nat \<times> ustring) option" where
  "escape_sequence cs = (case cs of [] \<Rightarrow> None
     | e # r \<Rightarrow> if e = 117 then unicode_escape r else map_option (\<lambda>d. (d, r)) (unescape e))"

lemma hex4_shorter: "hex4 cs = Some (u, r) \<Longrightarrow> length r \<le> length cs"
  by (auto simp: hex4_def split: list.splits option.splits)

lemma escape_sequence_shorter: "escape_sequence cs = Some (d, r) \<Longrightarrow> length r < length cs"
  by (auto simp: escape_sequence_def unicode_escape_def split: list.splits option.splits if_splits
      dest!: hex4_shorter)

text \<open>The rest of a string after its opening quote; control characters must be escaped.\<close>

function scan_string :: "ustring \<Rightarrow> (ustring \<times> ustring) option" where
  "scan_string [] = None"
| "scan_string (c # cs) =
    (if c = 34 then Some ([], cs)
     else if c < 32 then None
     else if c \<noteq> 92 then prepend c (scan_string cs)
     else (case escape_sequence cs of None \<Rightarrow> None | Some (d, r) \<Rightarrow> prepend d (scan_string r)))"
  by pat_completeness auto

termination scan_string
  by (relation "measure length") (auto dest: escape_sequence_shorter)

declare scan_string.simps(2) [simp del]

definition digit :: "nat \<Rightarrow> bool" where
  "digit c \<longleftrightarrow> 48 \<le> c \<and> c \<le> 57"

definition digits :: "ustring \<Rightarrow> ustring \<times> ustring" where
  "digits cs = (takeWhile digit cs, dropWhile digit cs)"

text \<open>The pieces of a number: the integer, the fraction and the exponent, with what follows.\<close>

definition integer_part :: "ustring \<Rightarrow> (ustring \<times> ustring) option" where
  "integer_part cs = (case cs of [] \<Rightarrow> None
     | c # r \<Rightarrow> if c = 48 then Some ([48], r) else if digit c then Some (digits cs) else None)"

definition fraction_part :: "ustring \<Rightarrow> ustring \<times> ustring" where
  "fraction_part cs = (case cs of c # r \<Rightarrow> if c = 46 \<and> fst (digits r) \<noteq> []
       then (46 # fst (digits r), snd (digits r)) else ([], cs) | [] \<Rightarrow> ([], cs))"

definition sign_part :: "ustring \<Rightarrow> ustring \<times> ustring" where
  "sign_part cs = (case cs of c # r \<Rightarrow> if c = 43 \<or> c = 45 then ([c], r) else ([], cs) | [] \<Rightarrow> ([], cs))"

definition exponent_part :: "ustring \<Rightarrow> ustring \<times> ustring" where
  "exponent_part cs = (case cs of c # r \<Rightarrow>
       if (c = 101 \<or> c = 69) \<and> fst (digits (snd (sign_part r))) \<noteq> []
       then (c # fst (sign_part r) @ fst (digits (snd (sign_part r))), snd (digits (snd (sign_part r))))
       else ([], cs)
     | [] \<Rightarrow> ([], cs))"

definition decimal :: "ustring \<Rightarrow> nat" where
  "decimal ds = foldl (\<lambda>v c. 10 * v + (c - 48)) 0 ds"

definition minus_part :: "ustring \<Rightarrow> bool \<times> ustring" where
  "minus_part cs = (case cs of c # r \<Rightarrow> if c = 45 then (True, r) else (False, cs) | [] \<Rightarrow> (False, cs))"

definition scan_number :: "ustring \<Rightarrow> (jdoc \<times> ustring) option" where
  "scan_number cs = (case minus_part cs of (neg, r) \<Rightarrow> (case integer_part r of None \<Rightarrow> None
     | Some (i, r) \<Rightarrow> (case fraction_part r of (f, r) \<Rightarrow> (case exponent_part r of (x, r) \<Rightarrow>
          Some (if f = [] \<and> x = [] then DInt (if neg then - int (decimal i) else int (decimal i))
                else DFloat ((if neg then [45] else []) @ i @ f @ x), r)))))"

definition blank_code :: "nat \<Rightarrow> bool" where
  "blank_code c \<longleftrightarrow> c = 32 \<or> c = 9 \<or> c = 10 \<or> c = 13"

definition punctuation :: "nat \<Rightarrow> token option" where
  "punctuation c = map_of [(123, TkLBrace), (125, TkRBrace), (91, TkLBrack), (93, TkRBrack), (44, TkComma),
     (58, TkColon)] c"

definition keyword :: "ustring \<Rightarrow> (jdoc \<times> ustring) option" where
  "keyword cs = (if take 4 cs = ascii ''null'' then Some (DNull, drop 4 cs)
     else if take 4 cs = ascii ''true'' then Some (DBool True, drop 4 cs)
     else if take 5 cs = ascii ''false'' then Some (DBool False, drop 5 cs) else None)"

text \<open>One token and what follows it.\<close>

definition next_token :: "ustring \<Rightarrow> (token \<times> ustring) option" where
  "next_token cs = (case cs of [] \<Rightarrow> None
     | c # r \<Rightarrow> (case punctuation c of Some t \<Rightarrow> Some (t, r)
       | None \<Rightarrow> if c = 34 then map_option (map_prod TkText id) (scan_string r)
         else (case keyword cs of Some (v, r1) \<Rightarrow> Some (TkValue v, r1)
           | None \<Rightarrow> map_option (map_prod TkValue id) (scan_number cs))))"

lemma scan_string_shorter: "scan_string cs = Some (s, r) \<Longrightarrow> length r < length cs"
proof (induction cs arbitrary: s r rule: scan_string.induct)
  case (2 c cs)
  then show ?case
    by (fastforce simp: scan_string.simps prepend_def split: if_splits option.splits dest: escape_sequence_shorter)
qed simp

lemma digits_shorter: "length (snd (digits cs)) \<le> length cs"
  by (simp add: digits_def length_dropWhile_le)

lemma integer_part_shorter: "integer_part cs = Some (i, r) \<Longrightarrow> length r < length cs"
  by (auto simp: integer_part_def digits_def length_dropWhile_le less_Suc_eq_le split: list.splits if_splits)

lemma fraction_part_shorter: "length (snd (fraction_part cs)) \<le> length cs"
  by (auto simp: fraction_part_def intro: le_SucI digits_shorter split: list.split)

lemma sign_part_shorter: "length (snd (sign_part cs)) \<le> length cs"
  by (simp add: sign_part_def split: list.split)

lemma exponent_part_shorter: "length (snd (exponent_part cs)) \<le> length cs"
proof (cases cs)
  case (Cons c r)
  then show ?thesis
    using digits_shorter [of "snd (sign_part r)"] sign_part_shorter [of r] by (simp add: exponent_part_def)
qed (simp add: exponent_part_def)

lemma minus_part_shorter: "minus_part cs = (m, r) \<Longrightarrow> length r \<le> length cs"
  by (auto simp: minus_part_def split: list.splits if_splits)

lemma scan_number_shorter:
  assumes "scan_number cs = Some (v, r)"
  shows "length r < length cs"
proof -
  obtain m r0 i r1 where "minus_part cs = (m, r0)" "integer_part r0 = Some (i, r1)"
    "r = snd (exponent_part (snd (fraction_part r1)))"
    using assms by (auto simp: scan_number_def split: option.splits prod.splits)
  then show ?thesis
    using minus_part_shorter [of cs m r0] integer_part_shorter [of r0 i r1] fraction_part_shorter [of r1]
      exponent_part_shorter [of "snd (fraction_part r1)"] by simp
qed

lemma keyword_shorter: "keyword cs = Some (v, r) \<Longrightarrow> length r < length cs"
  by (cases cs) (auto simp: keyword_def ascii_def split: if_splits)

lemma next_token_shorter: "next_token cs = Some (t, r) \<Longrightarrow> length r < length cs"
  by (auto simp: next_token_def split: list.splits option.splits if_splits
      dest: scan_string_shorter scan_number_shorter keyword_shorter)

function lex :: "ustring \<Rightarrow> token list option" where
  "lex [] = Some []"
| "lex (c # cs) = (if blank_code c then lex cs
     else (case next_token (c # cs) of None \<Rightarrow> None | Some (t, r) \<Rightarrow> map_option (Cons t) (lex r)))"
  by pat_completeness auto

termination lex
  by (relation "measure length") (auto dest: next_token_shorter)

declare lex.simps(2) [simp del]

section \<open>Reading: documents\<close>

text \<open>
  The open brackets around the current position, innermost first: an array with its items so far, an
  object with its pairs so far, or an object waiting for the value of a key. Items and pairs are
  kept in reverse.
\<close>

datatype frame = FArr "jdoc list" | FObj "(ustring \<times> jdoc) list" | FKey "(ustring \<times> jdoc) list" ustring

text \<open>What may stand next.\<close>

datatype expected = Value | ValueOrEnd | Key | KeyOrEnd | Colon | Next jdoc

text \<open>\<^verbatim>\<open>_reject_duplicate_keys\<close>\<close>

definition object_of :: "(ustring \<times> jdoc) list \<Rightarrow> jdoc option" where
  "object_of ps = (if distinct (map fst ps) then Some (DObj ps) else None)"

definition start_value :: "token \<Rightarrow> frame list \<Rightarrow> (expected \<times> frame list) option" where
  "start_value t st = (case t of TkValue v \<Rightarrow> Some (Next v, st) | TkText s \<Rightarrow> Some (Next (DText s), st)
     | TkLBrack \<Rightarrow> Some (ValueOrEnd, FArr [] # st) | TkLBrace \<Rightarrow> Some (KeyOrEnd, FObj [] # st) | _ \<Rightarrow> None)"

definition start_key :: "token \<Rightarrow> frame list \<Rightarrow> (expected \<times> frame list) option" where
  "start_key t st = (case (t, st) of (TkText k, FObj ps # st') \<Rightarrow> Some (Colon, FKey ps k # st') | _ \<Rightarrow> None)"

definition after_value :: "jdoc \<Rightarrow> token \<Rightarrow> frame list \<Rightarrow> (expected \<times> frame list) option" where
  "after_value v t st = (case st of
       FArr vs # st' \<Rightarrow> if t = TkComma then Some (Value, FArr (v # vs) # st')
         else if t = TkRBrack then Some (Next (DArr (rev (v # vs))), st') else None
     | FKey ps k # st' \<Rightarrow> if t = TkComma then Some (Key, FObj ((k, v) # ps) # st')
         else if t = TkRBrace then map_option (\<lambda>d. (Next d, st')) (object_of (rev ((k, v) # ps))) else None
     | _ \<Rightarrow> None)"

definition parse_step :: "expected \<Rightarrow> token \<Rightarrow> frame list \<Rightarrow> (expected \<times> frame list) option" where
  "parse_step e t st = (case e of
       Value \<Rightarrow> start_value t st
     | ValueOrEnd \<Rightarrow> if t = TkRBrack then Some (Next (DArr []), tl st) else start_value t st
     | Key \<Rightarrow> start_key t st
     | KeyOrEnd \<Rightarrow> if t = TkRBrace then Some (Next (DObj []), tl st) else start_key t st
     | Colon \<Rightarrow> if t = TkColon then Some (Value, st) else None
     | Next v \<Rightarrow> after_value v t st)"

fun parse :: "expected \<Rightarrow> frame list \<Rightarrow> token list \<Rightarrow> jdoc option" where
  "parse e st [] = (case (e, st) of (Next v, []) \<Rightarrow> Some v | _ \<Rightarrow> None)"
| "parse e st (t # ts) = (case parse_step e t st of None \<Rightarrow> None | Some (e', st') \<Rightarrow> parse e' st' ts)"

text \<open>\<^verbatim>\<open>_decode_json\<close>\<close>

definition decode_text :: "ustring \<Rightarrow> jdoc option" where
  "decode_text cs = (case lex cs of None \<Rightarrow> None | Some ts \<Rightarrow> parse Value [] ts)"

definition decode_json :: "bytes \<Rightarrow> jdoc option" where
  "decode_json bs = (case utf8_decode bs of None \<Rightarrow> None | Some cs \<Rightarrow> decode_text cs)"

text \<open>\<^verbatim>\<open>_encoded_json\<close> and \<^verbatim>\<open>_encoded_json_line\<close>: what was written must decode.\<close>

definition verified :: "bytes option \<Rightarrow> bytes option" where
  "verified x = (case x of None \<Rightarrow> None | Some bs \<Rightarrow> if decode_json bs = None then None else Some bs)"

definition encoded_json :: "jdoc \<Rightarrow> bytes option" where
  "encoded_json v = verified (utf8_encode (indented v @ [10]))"

definition encoded_json_line :: "jdoc \<Rightarrow> bytes option" where
  "encoded_json_line v = verified (utf8_encode (compact v @ [10]))"

section \<open>Numbers are read back\<close>

text \<open>What may follow a value in a rendering.\<close>

definition ended :: "ustring \<Rightarrow> bool" where
  "ended cs \<longleftrightarrow> (case cs of [] \<Rightarrow> True | c # r \<Rightarrow> c \<in> {10, 32, 44, 93, 125})"

lemma ended_cases: "ended cs \<Longrightarrow> (cs = [] \<Longrightarrow> P) \<Longrightarrow> (\<And>c r. cs = c # r \<Longrightarrow> c \<in> {10, 32, 44, 93, 125} \<Longrightarrow> P) \<Longrightarrow> P"
  by (auto simp: ended_def split: list.splits)

lemma digits_ended: "ended rest \<Longrightarrow> digits (cs @ rest) = (fst (digits cs), snd (digits cs) @ rest)"
  by (induction cs) (auto simp: digits_def digit_def elim!: ended_cases)

lemma sign_part_ended: "ended rest \<Longrightarrow> sign_part (cs @ rest) = (fst (sign_part cs), snd (sign_part cs) @ rest)"
  by (erule ended_cases) (auto simp: sign_part_def split: list.split)

lemma minus_part_ended: "ended rest \<Longrightarrow> minus_part (cs @ rest) = (fst (minus_part cs), snd (minus_part cs) @ rest)"
  by (erule ended_cases) (auto simp: minus_part_def split: list.split)

lemma fraction_part_ended:
  "ended rest \<Longrightarrow> fraction_part (cs @ rest) = (fst (fraction_part cs), snd (fraction_part cs) @ rest)"
  by (cases cs) (auto simp: fraction_part_def digits_ended elim!: ended_cases)

lemma exponent_part_ended:
  "ended rest \<Longrightarrow> exponent_part (cs @ rest) = (fst (exponent_part cs), snd (exponent_part cs) @ rest)"
  by (cases cs) (auto simp: exponent_part_def digits_ended sign_part_ended elim!: ended_cases)

lemma integer_part_ended: "ended rest \<Longrightarrow> integer_part cs = Some (i, r) \<Longrightarrow> integer_part (cs @ rest) = Some (i, r @ rest)"
  using digits_ended [of rest cs] by (cases cs) (auto simp: integer_part_def split: if_splits)

lemma scan_number_ended:
  assumes "ended rest" and "scan_number cs = Some (v, r)"
  shows "scan_number (cs @ rest) = Some (v, r @ rest)"
  using assms(2)
  by (auto simp: scan_number_def minus_part_ended [OF assms(1)] integer_part_ended [OF assms(1)]
      fraction_part_ended [OF assms(1)] exponent_part_ended [OF assms(1)] split: prod.splits option.splits)

lemma nat_str_no_leading_zero: "0 < n \<Longrightarrow> hd (nat_str n) \<noteq> CHR ''0''"
proof (induction n rule: nat_str.induct)
  case (1 n)
  show ?case
  proof (cases "n < 10")
    case True
    have "of_char (char_of (48 + n) :: char) = (48 + n :: nat)" using True by (rule of_char_digit)
    moreover have "of_char (CHR ''0'') = (48 :: nat)" by simp
    ultimately have "char_of (48 + n) \<noteq> CHR ''0''" using 1(2) by (metis add_eq_self_zero less_not_refl)
    with True show ?thesis by (simp add: nat_str.simps [of n])
  next
    case False
    then have "0 < n div 10" by (simp add: div_greater_zero_iff)
    with 1 False show ?thesis by (simp add: nat_str.simps [of n])
  qed
qed

lemma digits_nat_str: "digits (ascii (nat_str n)) = (ascii (nat_str n), [])"
proof -
  have "\<forall>c \<in> set (ascii (nat_str n)). digit c"
    by (auto simp: ascii_def digit_def is_digit_def dest!: nat_str_digits)
  then show ?thesis by (simp add: digits_def)
qed

lemma decimal_nat_str: "decimal (ascii (nat_str n)) = n"
  using digits_value_nat_str [of n] by (simp add: decimal_def digits_value_def ascii_def foldl_map)

lemma integer_part_nat_str: "integer_part (ascii (nat_str n)) = Some (ascii (nat_str n), [])"
proof (cases "n = 0")
  case True
  then show ?thesis by (simp add: nat_str.simps [of 0] ascii_def integer_part_def)
next
  case False
  obtain c cs where c: "nat_str n = c # cs" by (cases "nat_str n") auto
  with False have "c \<noteq> CHR ''0''" using nat_str_no_leading_zero [of n] by simp
  moreover have "is_digit c" using c nat_str_digits [of c n] by simp
  moreover have "of_char (CHR ''0'') = (48 :: nat)" by simp
  then have "of_char c = (48 :: nat) \<Longrightarrow> c = CHR ''0''" by (metis of_char_eq_iff)
  ultimately show ?thesis using c digits_nat_str [of n]
    by (auto simp: integer_part_def ascii_def digit_def is_digit_def)
qed

lemma scan_int_text: "scan_number (int_text i) = Some (DInt i, [])"
proof -
  have "minus_part (ascii (nat_str n)) = (False, ascii (nat_str n))" for n
    using nat_str_digits [of "hd (nat_str n)" n] by (cases "nat_str n") (auto simp: minus_part_def ascii_def is_digit_def)
  then show ?thesis
    by (simp add: int_text_def scan_number_def integer_part_nat_str decimal_nat_str fraction_part_def
        exponent_part_def minus_part_def)
qed

section \<open>Renderings are read back as their tokens\<close>

lemma scan_number_head:
  assumes "scan_number cs = Some (v, r)"
  obtains c r' where "cs = c # r'" "c = 45 \<or> digit c"
  using assms by (cases cs) (auto simp: scan_number_def minus_part_def integer_part_def digit_def split: if_splits option.splits)

lemma next_token_number:
  assumes "scan_number cs = Some (v, r)"
  shows "next_token cs = Some (TkValue v, r)"
proof -
  obtain c r' where c: "cs = c # r'" "c = 45 \<or> digit c" using assms by (rule scan_number_head)
  then have "keyword cs = None" by (auto simp: keyword_def ascii_def digit_def)
  moreover have "punctuation c = None" "c \<noteq> 34" using c by (auto simp: punctuation_def digit_def)
  ultimately show ?thesis using assms c(1) by (simp add: next_token_def)
qed

definition add :: "token list \<Rightarrow> token list option \<Rightarrow> token list option" where
  "add ts = map_option (\<lambda>r. ts @ r)"

lemma add_add [simp]: "add ts (add us x) = add (ts @ us) x" "add [] x = x"
  by (cases x; simp add: add_def)+

lemma lex_token:
  assumes "next_token cs = Some (t, r)"
  shows "lex cs = add [t] (lex r)"
proof (cases cs)
  case Nil
  with assms show ?thesis by (simp add: next_token_def)
next
  case (Cons c cs')
  have "\<not> blank_code c"
  proof
    assume "blank_code c"
    then have c: "c \<in> {32, 9, 10, 13}" by (auto simp: blank_code_def)
    then have "scan_number (c # cs') = None"
      by (cases "scan_number (c # cs')") (auto simp: digit_def elim: scan_number_head)
    moreover have "punctuation c = None" "keyword (c # cs') = None" "c \<noteq> 34"
      using c by (auto simp: punctuation_def keyword_def ascii_def)
    ultimately have "next_token (c # cs') = None" by (simp add: next_token_def)
    with assms Cons show False by simp
  qed
  with assms Cons show ?thesis by (cases "lex r") (simp_all add: lex.simps add_def)
qed

lemma lex_number: "ended rest \<Longrightarrow> scan_number cs = Some (v, []) \<Longrightarrow> lex (cs @ rest) = add [TkValue v] (lex rest)"
  using scan_number_ended [of rest cs v "[]"] by (simp add: lex_token next_token_number)

lemma lex_blanks: "\<forall>c \<in> set bs. c = 10 \<or> c = 32 \<Longrightarrow> lex (bs @ rest) = lex rest"
  by (induction bs) (auto simp: lex.simps blank_code_def)

lemma hex_value_digit:
  assumes "n < 16"
  shows "hex_value (hex_digit n) = Some n"
proof -
  have "list_all (\<lambda>n. hex_value (hex_digit n) = Some n) [0..<16]" by code_simp
  with assms show ?thesis by (simp add: list_all_iff)
qed

lemma scan_short_escape:
  assumes "unescape e = Some c" "e \<noteq> 117"
  shows "scan_string (92 # e # rest) = prepend c (scan_string rest)"
  using assms by (simp add: scan_string.simps(2) escape_sequence_def)

lemma scan_escape: "scan_string (escape c @ rest) = prepend c (scan_string rest)"
proof -
  consider (short) e where "unescape e = Some c" "e \<noteq> 117" "escape c = [92, e]"
    | (unicode) "c < 32" "escape c = [92, 117, 48, 48, hex_digit (c div 16), hex_digit (c mod 16)]"
    | (plain) "escape c = [c]" "c \<noteq> 34" "c \<noteq> 92" "\<not> c < 32"
  proof (cases "c \<in> {34, 92, 8, 12, 10, 13, 9}")
    case True
    then have "\<exists>e. unescape e = Some c \<and> e \<noteq> 117 \<and> escape c = [92, e]"
      by (elim insertE emptyE) (simp_all add: unescape_def escape_def)
    with short show thesis by blast
  next
    case False
    with unicode plain show thesis by (cases "c < 32") (simp_all add: escape_def)
  qed
  then show ?thesis
  proof cases
    case short
    then show ?thesis by (simp add: scan_short_escape)
  next
    case unicode
    then have "c div 16 < 16" "c mod 16 < 16" by (auto simp: less_mult_imp_div_less)
    moreover have "c div 16 * 16 + c mod 16 = c" by simp
    ultimately have "hex4 (48 # 48 # hex_digit (c div 16) # hex_digit (c mod 16) # rest) = Some (c, rest)"
      using hex_value_digit [of 0] by (simp add: hex4_def hex_value_digit hex_digit_def [of 0])
    with unicode show ?thesis
      by (simp add: scan_string.simps(2) escape_sequence_def unicode_escape_def)
  next
    case plain
    then show ?thesis by (simp add: scan_string.simps(2))
  qed
qed

lemma scan_quoted: "scan_string (concat (map escape s) @ 34 # rest) = Some (s, rest)"
  by (induction s) (simp_all add: scan_escape scan_string.simps(2) [of 34] prepend_def)

lemma lex_quoted: "lex (quoted s @ rest) = add [TkText s] (lex rest)"
  by (rule lex_token) (simp add: quoted_def next_token_def punctuation_def scan_quoted)

lemma lex_punctuation: "punctuation c = Some t \<Longrightarrow> lex (c # rest) = add [t] (lex rest)"
  by (rule lex_token) (simp add: next_token_def)

lemma lex_keyword:
  "lex (ascii ''null'' @ rest) = add [TkValue DNull] (lex rest)"
  "lex (ascii ''true'' @ rest) = add [TkValue (DBool True)] (lex rest)"
  "lex (ascii ''false'' @ rest) = add [TkValue (DBool False)] (lex rest)"
  by (rule lex_token, simp add: next_token_def punctuation_def keyword_def ascii_def)+

text \<open>The documents the encoder accepts: objects have distinct keys, floats are literals of
  floats, text has no surrogates.\<close>

primrec doc_ok :: "jdoc \<Rightarrow> bool" where
  "doc_ok DNull \<longleftrightarrow> True"
| "doc_ok (DBool b) \<longleftrightarrow> True"
| "doc_ok (DInt i) \<longleftrightarrow> True"
| "doc_ok (DFloat l) \<longleftrightarrow> scan_number l = Some (DFloat l, [])"
| "doc_ok (DText s) \<longleftrightarrow> list_all scalar s"
| "doc_ok (DArr vs) \<longleftrightarrow> list_all id (map doc_ok vs)"
| "doc_ok (DObj ps) \<longleftrightarrow> distinct (map fst ps) \<and> list_all (list_all scalar) (map fst ps)
     \<and> list_all snd (map (map_prod id doc_ok) ps)"

primrec tokens :: "jdoc \<Rightarrow> token list" where
  "tokens DNull = [TkValue DNull]"
| "tokens (DBool b) = [TkValue (DBool b)]"
| "tokens (DInt i) = [TkValue (DInt i)]"
| "tokens (DFloat l) = [TkValue (DFloat l)]"
| "tokens (DText s) = [TkText s]"
| "tokens (DArr vs) = TkLBrack # join_str [TkComma] (map tokens vs) @ [TkRBrack]"
| "tokens (DObj ps) = TkLBrace # join_str [TkComma] (map (\<lambda>p. TkText (fst p) # TkColon # snd p) (map (map_prod id tokens) ps)) @ [TkRBrace]"

lemma doc_ok_items [simp]:
  "doc_ok (DArr vs) \<longleftrightarrow> (\<forall>v \<in> set vs. doc_ok v)"
  "doc_ok (DObj ps) \<longleftrightarrow> distinct (map fst ps) \<and> (\<forall>(k, v) \<in> set ps. list_all scalar k \<and> doc_ok v)"
  by (auto simp: list_all_iff)

declare doc_ok.simps(6,7) [simp del]

lemma doc_ok_sorted_keys: "doc_ok v \<Longrightarrow> doc_ok (sorted_keys v)"
proof (induction v)
  case (DObj ps)
  have "distinct (map fst (sort_key fst qs))" if "distinct (map fst qs)" for qs :: "(ustring \<times> jdoc) list"
    using that by (metis distinct_map distinct_sort set_sort)
  with DObj show ?case by (fastforce simp: comp_def)
qed auto

text \<open>\<open>reads cs ts\<close>: in any place where a value may stand, the text \<open>cs\<close> is lexed to the tokens \<open>ts\<close>.\<close>

definition lexes :: "ustring \<Rightarrow> token list \<Rightarrow> bool" where
  "lexes cs ts \<longleftrightarrow> (\<forall>rest. ended rest \<longrightarrow> lex (cs @ rest) = add ts (lex rest))"

lemma lexes_joined:
  assumes "list_all2 lexes items tss" and "\<forall>c \<in> set blanks. c = 10 \<or> c = 32"
  shows "lexes (join_str (44 # blanks) items) (join_str [TkComma] tss)"
  using assms(1)
proof (induction rule: list_all2_induct)
  case Nil
  then show ?case by (simp add: lexes_def)
next
  case (Cons x xs t ts)
  show ?case
  proof (cases xs)
    case Nil
    with Cons show ?thesis by simp
  next
    case (Cons y ys)
    moreover obtain u us where "ts = u # us" using Cons \<open>list_all2 lexes xs ts\<close> by (cases ts) auto
    moreover have "lex (x @ 44 # zs) = add t (lex (44 # zs))" for zs
      using \<open>lexes x t\<close> by (simp add: lexes_def ended_def)
    moreover have "lex (44 # zs) = add [TkComma] (lex zs)" for zs
      by (rule lex_punctuation) (simp add: punctuation_def)
    ultimately show ?thesis using Cons.IH assms(2)
      by (auto simp: lexes_def lex_blanks)
  qed
qed

lemma lexes_bracketed:
  assumes "list_all2 lexes items tss" and "\<forall>n. \<forall>c \<in> set (nl n). c = 10 \<or> c = 32"
    and "punctuation l = Some open_tok" "punctuation r = Some close_tok" "r \<in> {93, 125}"
  shows "lexes (bracketed nl l r n items) (open_tok # join_str [TkComma] tss @ [close_tok])"
proof -
  have ended: "ended (nl n @ r # zs)" for zs
    using assms(2,5) by (cases "nl n") (auto simp: ended_def dest: spec [of _ n])
  have punct: "lex (l # zs) = add [open_tok] (lex zs)" "lex (r # zs) = add [close_tok] (lex zs)" for zs
    using assms(3,4) by (auto intro: lex_punctuation)
  have "lex (join_str (44 # nl (Suc n)) items @ nl n @ r # zs) = add (join_str [TkComma] tss @ [close_tok]) (lex zs)" for zs
    using lexes_joined [OF assms(1), of "nl (Suc n)"] assms(2) ended
    by (simp add: lexes_def lex_blanks punct)
  moreover have "items = [] \<Longrightarrow> tss = []" using assms(1) by simp
  ultimately show ?thesis using assms(2)
    by (auto simp: lexes_def bracketed_def punct lex_blanks)
qed

lemma lexes_render:
  assumes nl: "\<forall>n. \<forall>c \<in> set (nl n). c = 10 \<or> c = 32" and col: "col = 58 # blanks" "\<forall>c \<in> set blanks. c = 10 \<or> c = 32"
  shows "doc_ok v \<Longrightarrow> lexes (render nl col v n) (tokens v)"
proof (induction v arbitrary: n)
  case (DInt i)
  then show ?case by (simp add: lexes_def lex_number scan_int_text)
next
  case (DFloat l)
  then show ?case by (simp add: lexes_def lex_number)
next
  case (DText s)
  then show ?case by (simp add: lexes_def lex_quoted)
next
  case (DArr vs)
  then have "list_all2 lexes (map (\<lambda>r. r (Suc n)) (map (render nl col) vs)) (map tokens vs)"
    by (auto simp: list_all2_map1 list_all2_map2 intro!: list.rel_refl_strong)
  then show ?case using nl by (auto simp: punctuation_def intro: lexes_bracketed)
next
  case (DObj ps)
  have colon: "lex (col @ zs) = add [TkColon] (lex zs)" for zs
    using col lex_punctuation [of 58 TkColon "blanks @ zs"] by (simp add: punctuation_def lex_blanks)
  have item: "lexes (quoted k @ col @ render nl col v (Suc n)) (TkText k # TkColon # tokens v)" if "(k, v) \<in> set ps" for k v
    using DObj that by (auto simp: lexes_def lex_quoted colon)
  have "list_all2 lexes (map (\<lambda>p. quoted (fst p) @ col @ snd p (Suc n)) (map (map_prod id (render nl col)) ps))
      (map (\<lambda>p. TkText (fst p) # TkColon # snd p) (map (map_prod id tokens) ps))"
    using item by (auto simp: list_all2_map1 list_all2_map2 comp_def intro!: list.rel_refl_strong)
  then show ?case using nl by (auto simp: punctuation_def intro: lexes_bracketed simp del: map_map)
qed (simp_all add: lexes_def lex_keyword)

section \<open>Tokens are parsed back to their document\<close>

lemma parse_start:
  "parse Value st (TkValue v # ts) = parse (Next v) st ts"
  "parse Value st (TkText s # ts) = parse (Next (DText s)) st ts"
  "parse Value st (TkLBrack # ts) = parse ValueOrEnd (FArr [] # st) ts"
  "parse Value st (TkLBrace # ts) = parse KeyOrEnd (FObj [] # st) ts"
  by (simp_all add: parse_step_def start_value_def)

lemma parse_value_or_end: "parse ValueOrEnd st (tokens v @ ts) = parse Value st (tokens v @ ts)"
  by (cases v) (simp_all add: parse_step_def)

lemma parse_items:
  assumes "\<And>v st ts. v \<in> set vs \<Longrightarrow> parse Value st (tokens v @ ts) = parse (Next v) st ts" and "vs \<noteq> []"
  shows "parse Value (FArr acc # st) (join_str [TkComma] (map tokens vs) @ TkRBrack # ts) = parse (Next (DArr (rev acc @ vs))) st ts"
  using assms
proof (induction vs arbitrary: acc)
  case (Cons v vs)
  have v: "parse Value st (tokens v @ ts) = parse (Next v) st ts" for st ts using Cons.prems(1) by simp
  show ?case
  proof (cases vs)
    case Nil
    then show ?thesis by (simp add: v parse_step_def after_value_def)
  next
    case (Cons w ws)
    with Cons.IH [of "v # acc"] Cons.prems(1) show ?thesis
      by (simp add: v parse_step_def after_value_def)
  qed
qed simp

definition member :: "ustring \<times> jdoc \<Rightarrow> token list" where
  "member p = TkText (fst p) # TkColon # tokens (snd p)"

lemma parse_members:
  assumes "\<And>k v st ts. (k, v) \<in> set ps \<Longrightarrow> parse Value st (tokens v @ ts) = parse (Next v) st ts"
    and "ps \<noteq> []" and "distinct (map fst (rev acc @ ps))"
  shows "parse Key (FObj acc # st) (join_str [TkComma] (map member ps) @ TkRBrace # ts) = parse (Next (DObj (rev acc @ ps))) st ts"
  using assms
proof (induction ps arbitrary: acc)
  case (Cons p ps)
  obtain k v where p: "p = (k, v)" by fastforce
  have v: "parse Value st (tokens v @ ts) = parse (Next v) st ts" for st ts using Cons.prems(1) p by auto
  have key: "parse Key (FObj acc # st) (member (k, v) @ ts) = parse (Next v) (FKey acc k # st) ts" for ts
    by (simp add: member_def parse_step_def start_key_def v)
  show ?case
  proof (cases ps)
    case Nil
    then show ?thesis using Cons.prems(3) p by (simp add: key parse_step_def after_value_def object_of_def)
  next
    case (Cons q qs)
    have "parse Key (FObj (p # acc) # st) (join_str [TkComma] (map member ps) @ TkRBrace # ts)
        = parse (Next (DObj (rev (p # acc) @ ps))) st ts"
      using Cons.prems Cons by (intro Cons.IH) auto
    with Cons p show ?thesis by (simp add: key parse_step_def after_value_def)
  qed
qed simp

lemma parse_tokens: "doc_ok v \<Longrightarrow> parse Value st (tokens v @ ts) = parse (Next v) st ts"
proof (induction v arbitrary: st ts)
  case (DArr vs)
  show ?case
  proof (cases vs)
    case Nil
    then show ?thesis by (simp add: parse_step_def start_value_def)
  next
    case (Cons w ws)
    then obtain r where r: "join_str [TkComma] (map tokens vs) = tokens w @ r" by (cases ws) auto
    have "parse Value (FArr [] # st) (join_str [TkComma] (map tokens vs) @ TkRBrack # ts) = parse (Next (DArr vs)) st ts"
      using DArr Cons by (subst parse_items) auto
    then show ?thesis by (simp add: parse_start r parse_value_or_end del: parse.simps)
  qed
next
  case (DObj ps)
  show ?case
  proof (cases ps)
    case Nil
    then show ?thesis by (simp add: parse_step_def start_value_def)
  next
    case (Cons q qs)
    have m: "tokens (DObj ps) = TkLBrace # join_str [TkComma] (map member ps) @ [TkRBrace]"
      by (simp add: comp_def) (simp add: member_def [abs_def])
    obtain r where r: "join_str [TkComma] (map member ps) = TkText (fst q) # r"
      using Cons by (cases qs) (auto simp: member_def)
    have "parse Value st (tokens v @ ts) = parse (Next v) st ts" if "(k, v) \<in> set ps" for k v st ts
      using DObj.prems that by (intro DObj.IH [of "(k, v)"]) auto
    then have "parse Key (FObj [] # st) (join_str [TkComma] (map member ps) @ TkRBrace # ts) = parse (Next (DObj ps)) st ts"
      using DObj.prems Cons by (subst parse_members) auto
    then show ?thesis unfolding m by (simp add: r parse_step_def start_value_def)
  qed
qed (simp_all add: parse_step_def start_value_def)

section \<open>The characters of a rendering\<close>

lemma digits_chars: "c \<in> set (fst (digits cs)) \<Longrightarrow> digit c"
  by (auto simp: digits_def dest: set_takeWhileD)

lemma scan_number_chars:
  assumes "scan_number cs = Some (DFloat l, r)" and "c \<in> set l"
  shows "32 \<le> c \<and> scalar c"
proof -
  have i: "32 \<le> c \<and> scalar c" if "integer_part cs = Some (i, r)" "c \<in> set i" for cs i r
    using that digits_chars [of c cs] by (cases cs) (auto simp: integer_part_def digit_def scalar_def split: if_splits)
  have f: "32 \<le> c \<and> scalar c" if "c \<in> set (fst (fraction_part cs))" for cs
    using that digits_chars [of c "tl cs"] by (cases cs) (auto simp: fraction_part_def digit_def scalar_def split: if_splits)
  have "32 \<le> c \<and> scalar c" if "c \<in> set (fst (sign_part cs))" for cs
    using that by (cases cs) (auto simp: sign_part_def scalar_def split: if_splits)
  then have x: "32 \<le> c \<and> scalar c" if "c \<in> set (fst (exponent_part cs))" for cs
    using that digits_chars [of c "snd (sign_part (tl cs))"]
    by (cases cs) (auto simp: exponent_part_def digit_def scalar_def split: if_splits)
  obtain neg r0 i r1 where i1: "integer_part r0 = Some (i, r1)"
    and l: "l = (if neg then [45] else []) @ i @ fst (fraction_part r1) @ fst (exponent_part (snd (fraction_part r1)))"
    using assms(1) by (auto simp: scan_number_def split: option.splits prod.splits if_splits)
  have "32 \<le> (45 :: nat) \<and> scalar 45" by (simp add: scalar_def)
  with assms(2) i [OF i1] f x show ?thesis unfolding l by (auto split: if_splits)
qed

locale char_class =
  fixes P :: "nat \<Rightarrow> bool"
  assumes visible: "32 \<le> c \<Longrightarrow> scalar c \<Longrightarrow> P c"
begin

lemma P_ascii: "32 \<le> c \<Longrightarrow> c < 128 \<Longrightarrow> P c"
  by (rule visible) (auto simp: scalar_def)

lemma P_nat_str: "c \<in> set (ascii (nat_str n)) \<Longrightarrow> P c"
  by (auto simp: ascii_def is_digit_def dest!: nat_str_digits intro: P_ascii)

lemma P_int_text: "c \<in> set (int_text i) \<Longrightarrow> P c"
  using P_nat_str P_ascii [of 45] by (auto simp: int_text_def split: if_splits)

lemma P_quoted: "list_all scalar s \<Longrightarrow> c \<in> set (quoted s) \<Longrightarrow> P c"
proof -
  have "P c" if "scalar d" "c \<in> set (escape d)" for d
  proof (cases "d < 32")
    case True
    then have "d div 16 < 16" "d mod 16 < 16" by (auto simp: less_mult_imp_div_less)
    then have "hex_digit (d div 16) < 128 \<and> 32 \<le> hex_digit (d div 16)" "hex_digit (d mod 16) < 128 \<and> 32 \<le> hex_digit (d mod 16)"
      by (auto simp: hex_digit_def)
    with True that show ?thesis by (auto simp: escape_def intro: P_ascii split: if_splits)
  next
    case False
    with that show ?thesis by (auto simp: escape_def intro: P_ascii visible split: if_splits)
  qed
  moreover have "P 34" by (rule P_ascii) auto
  ultimately show "list_all scalar s \<Longrightarrow> c \<in> set (quoted s) \<Longrightarrow> P c"
    by (auto simp: quoted_def list_all_iff)
qed

lemma P_joined: "c \<in> set (join_str sep xs) \<Longrightarrow> \<forall>c \<in> set sep. P c \<Longrightarrow> \<forall>x \<in> set xs. \<forall>c \<in> set x. P c \<Longrightarrow> P c"
  by (induction sep xs rule: join_str.induct) auto

lemma P_bracketed:
  assumes "c \<in> set (bracketed nl l r n items)" "\<forall>x \<in> set items. \<forall>c \<in> set x. P c"
    "\<forall>n. \<forall>c \<in> set (nl n). P c" "P l" "P r"
  shows "P c"
proof -
  have "P 44" by (rule P_ascii) auto
  then show ?thesis using assms P_joined [of c "44 # nl (Suc n)" items]
    by (auto simp: bracketed_def split: if_splits)
qed

lemma P_render:
  assumes nl: "\<forall>n. \<forall>c \<in> set (nl n). P c" and col: "\<forall>c \<in> set col. P c"
  shows "doc_ok v \<Longrightarrow> \<forall>c \<in> set (render nl col v n). P c"
proof (induction v arbitrary: n)
  case (DFloat l)
  then show ?case by (auto intro: visible dest: scan_number_chars)
next
  case (DArr vs)
  have "P 91" "P 93" by (rule P_ascii; simp)+
  with DArr nl show ?case by (auto elim!: P_bracketed)
next
  case (DObj ps)
  have "P 123" "P 125" by (rule P_ascii; simp)+
  moreover have "P c" if "(k, v) \<in> set ps" "c \<in> set (quoted k @ col @ render nl col v (Suc n))" for k v c
    using DObj.IH [of "(k, v)"] DObj.prems that col P_quoted [of k c] by auto
  ultimately show ?case using nl by (auto elim!: P_bracketed)
qed (auto simp: ascii_def intro: P_ascii P_int_text P_quoted)

end

interpretation visible: char_class "\<lambda>c. 32 \<le> c \<and> scalar c"
  by unfold_locales auto

interpretation layout: char_class scalar
  by unfold_locales auto

section \<open>Round trips\<close>

lemma decode_rendered:
  assumes "doc_ok v" and "\<forall>n. \<forall>c \<in> set (nl n). c = 10 \<or> c = 32" and "\<forall>c \<in> set blanks. c = 10 \<or> c = 32"
    and "e = [] \<or> e = [10]"
  shows "decode_text (render nl (58 # blanks) v 0 @ e) = Some v"
proof -
  have "lexes (render nl (58 # blanks) v 0) (tokens v)" using assms by (intro lexes_render) auto
  moreover have "ended e" "lex e = Some []" using assms(4) by (auto simp: ended_def lex.simps blank_code_def)
  ultimately have "lex (render nl (58 # blanks) v 0 @ e) = Some (tokens v)" by (simp add: lexes_def add_def)
  with parse_tokens [OF assms(1), of "[]" "[]"] show ?thesis by (simp add: decode_text_def)
qed

lemma decode_compact: "doc_ok v \<Longrightarrow> e = [] \<or> e = [10] \<Longrightarrow> decode_text (compact v @ e) = Some (sorted_keys v)"
  unfolding compact_def by (intro decode_rendered doc_ok_sorted_keys) auto

lemma decode_indented: "doc_ok v \<Longrightarrow> decode_text (indented v @ [10]) = Some (sorted_keys v)"
  unfolding indented_def by (rule decode_rendered) (auto simp: doc_ok_sorted_keys)

lemma compact_chars: "doc_ok v \<Longrightarrow> \<forall>c \<in> set (compact v). 32 \<le> c \<and> scalar c"
  unfolding compact_def by (rule visible.P_render) (auto simp: scalar_def doc_ok_sorted_keys)

lemma indented_chars: "doc_ok v \<Longrightarrow> \<forall>c \<in> set (indented v). scalar c"
  unfolding indented_def by (rule layout.P_render) (auto simp: scalar_def doc_ok_sorted_keys)

lemma encoded_json_ok:
  assumes "doc_ok v"
  obtains bs where "encoded_json v = Some bs" "decode_json bs = Some (sorted_keys v)"
proof -
  have "list_all scalar (indented v @ [10])" using indented_chars [OF assms] by (auto simp: list_all_iff scalar_def)
  then obtain bs where bs: "utf8_encode (indented v @ [10]) = Some bs" by (simp add: utf8_encode_def)
  with decode_indented [OF assms] have "decode_json bs = Some (sorted_keys v)"
    by (simp add: decode_json_def utf8_round_trip)
  with that bs show thesis by (simp add: encoded_json_def verified_def)
qed

text \<open>A line: its body holds no line break and decodes by itself, as \<^verbatim>\<open>read_jsonl\<close> decodes it.\<close>

lemma encoded_json_line_ok:
  assumes "doc_ok v"
  obtains l where "encoded_json_line v = Some (l @ [LF])" "LF \<notin> set l" "CR \<notin> set l" "l \<noteq> []"
    "decode_json l = Some (sorted_keys v)"
proof -
  have cs: "\<forall>c \<in> set (compact v). 32 \<le> c \<and> scalar c" by (rule compact_chars) (rule assms)
  then obtain l where l: "utf8_encode (compact v) = Some l" by (auto simp: utf8_encode_def list_all_iff)
  have "utf8_encode [10] = Some [LF]" by (simp add: utf8_encode_def scalar_def utf8_char_def newlines)
  with l have line: "utf8_encode (compact v @ [10]) = Some (l @ [LF])" by (simp add: utf8_encode_append)
  have d: "decode_json l = Some (sorted_keys v)" "decode_json (l @ [LF]) = Some (sorted_keys v)"
    using utf8_round_trip [OF l] utf8_round_trip [OF line] decode_compact [OF assms, of "[]"] decode_compact [OF assms, of "[10]"]
    by (simp_all add: decode_json_def)
  have "byte_of 10 \<notin> set l" "byte_of 13 \<notin> set l" by (rule utf8_encode_plain [OF l]; use cs in force)+
  moreover have "l \<noteq> []" using d(1) by (auto simp: decode_json_def decode_text_def)
  ultimately show thesis using that [of l] line d by (simp add: newlines encoded_json_line_def verified_def)
qed

end
