(* ===== verification/Orq_Journal.thy ===== *)
theory Orq_Journal
  imports Orq_Json Orq_Paths Orq_Float
begin

text \<open>
  The commit journal of a Task Capsule: the JSONL log of \<^verbatim>\<open>persistence/filesystem/io.py\<close> and
  \<^verbatim>\<open>_commit_capsule\<close>, \<^verbatim>\<open>_recover\<close> and \<^verbatim>\<open>_disk_generation\<close> of \<^verbatim>\<open>task_store.py\<close>, down to the bytes. A
  directory maps relative paths to contents. A program that changes it also records every content the
  directory passes through, which is what a crash can leave: a replaced file is there completely or
  not at all (\<^verbatim>\<open>atomic_write_bytes\<close> renames a complete temporary file; temporaries are not part of the
  directory), an appended line can be cut after any byte. The checksum function is a parameter.
  Errors of the operating system, links and locks are not modelled.
\<close>

section \<open>Directories and what a crash leaves\<close>

type_synonym dir = "ustring list \<Rightarrow> bytes option"

record disk =
  disk_now :: dir
  disk_seen :: "dir list"

definition started :: "dir \<Rightarrow> disk" where
  "started d = \<lparr>disk_now = d, disk_seen = [d]\<rparr>"

definition visit :: "dir \<Rightarrow> (disk, unit) prog" where
  "visit d = modify (\<lambda>s. s\<lparr>disk_now := d, disk_seen := disk_seen s @ [d]\<rparr>)"

text \<open>\<^verbatim>\<open>atomic_write_bytes\<close>, \<^verbatim>\<open>unlink\<close> and the append of \<^verbatim>\<open>append_jsonl_atomic\<close>.\<close>

definition write_file :: "ustring list \<Rightarrow> bytes \<Rightarrow> (disk, unit) prog" where
  "write_file p content = bnd (reads disk_now) (\<lambda>d. visit (d(p := Some content)))"

definition remove_file :: "ustring list \<Rightarrow> (disk, unit) prog" where
  "remove_file p = bnd (reads disk_now) (\<lambda>d. visit (d(p := None)))"

definition append_bytes :: "ustring list \<Rightarrow> bytes \<Rightarrow> (disk, unit) prog" where
  "append_bytes p content = bnd (reads disk_now) (\<lambda>d.
     for_each [0..<Suc (length content)] (\<lambda>k. visit (d(p := Some ((case d p of None \<Rightarrow> [] | Some old \<Rightarrow> old) @ take k content)))))"

section \<open>JSON lines\<close>

definition is_object :: "jdoc \<Rightarrow> bool" where
  "is_object v \<longleftrightarrow> (case v of DObj ps \<Rightarrow> True | _ \<Rightarrow> False)"

text \<open>\<^verbatim>\<open>read_json_object\<close>\<close>

definition json_object :: "bytes \<Rightarrow> jdoc option" where
  "json_object content = (case decode_json content of None \<Rightarrow> None
     | Some v \<Rightarrow> if is_object v then Some v else None)"

fun all_some :: "'a option list \<Rightarrow> 'a list option" where
  "all_some [] = Some []"
| "all_some (None # xs) = None"
| "all_some (Some x # xs) = map_option (Cons x) (all_some xs)"

text \<open>\<^verbatim>\<open>read_jsonl\<close> on the content of the file, if it exists.\<close>

definition read_jsonl :: "bytes option \<Rightarrow> jdoc list option" where
  "read_jsonl content = (case content of None \<Rightarrow> Some []
     | Some bs \<Rightarrow> if bs = [] then Some []
         else if last bs \<noteq> LF then None
         else if list_ex (\<lambda>l. l = []) (map line_body (split_lines bs)) then None
         else all_some (map json_object (map line_body (split_lines bs))))"

text \<open>\<^verbatim>\<open>repair_jsonl_prefix\<close>: the records it keeps and the content it writes.\<close>

definition repair_jsonl :: "bytes option \<Rightarrow> nat \<Rightarrow> (jdoc list \<times> bytes option) option" where
  "repair_jsonl content n = (case content of None \<Rightarrow> if n = 0 then Some ([], None) else None
     | Some bs \<Rightarrow>
         if length (take n (split_lines bs)) \<noteq> n \<or> list_ex (\<lambda>l. last l \<noteq> LF) (take n (split_lines bs)) then None
         else map_option (\<lambda>vs. (vs, Some (concat (take n (split_lines bs)))))
                (all_some (map json_object (take n (split_lines bs)))))"

definition repair_file :: "ustring list \<Rightarrow> nat \<Rightarrow> (disk, jdoc list) prog" where
  "repair_file p n = bnd (reads (\<lambda>s. disk_now s p)) (\<lambda>content.
     bnd (the_or Conflict (repair_jsonl content n)) (\<lambda>(vs, kept).
     case kept of None \<Rightarrow> ret vs | Some bs \<Rightarrow> bnd (write_file p bs) (\<lambda>_. ret vs)))"

text \<open>\<^verbatim>\<open>append_jsonl_atomic\<close>\<close>

definition append_jsonl :: "ustring list \<Rightarrow> jdoc \<Rightarrow> (disk, unit) prog" where
  "append_jsonl p v = bnd (the_or ValueErr (encoded_json_line v)) (append_bytes p)"

section \<open>Values compared by Python\<close>

text \<open>
  \<^verbatim>\<open>==\<close> on decoded JSON: a dictionary has no order, and a boolean or a float with an integer value
  equals that integer. Two other floats are equal when their literals are, as \<^verbatim>\<open>repr\<close> writes them.
\<close>

definition exponent_value :: "ustring \<Rightarrow> int" where
  "exponent_value x = (case x of [] \<Rightarrow> 0
     | _ # r \<Rightarrow> (case sign_part r of (sign, ds) \<Rightarrow> (if sign = [45] then - int (decimal ds) else int (decimal ds))))"

definition float_value :: "ustring \<Rightarrow> rat" where
  "float_value l = (case minus_part l of (neg, r) \<Rightarrow> (case integer_part r of None \<Rightarrow> 0
     | Some (i, r) \<Rightarrow> (case fraction_part r of (f, r) \<Rightarrow> (case exponent_part r of (x, _) \<Rightarrow>
         (let e = exponent_value x - int (length (tl f)); m = of_nat (decimal (i @ tl f));
              q = (if 0 \<le> e then m * 10 ^ nat e else m / 10 ^ nat (- e)) in
          fl (if neg then - q else q))))))"

primrec plain_numbers :: "jdoc \<Rightarrow> jdoc" where
  "plain_numbers DNull = DNull"
| "plain_numbers (DBool b) = DInt (of_bool b)"
| "plain_numbers (DInt i) = DInt i"
| "plain_numbers (DFloat l) = (if of_int \<lfloor>float_value l\<rfloor> = float_value l then DInt \<lfloor>float_value l\<rfloor> else DFloat l)"
| "plain_numbers (DText s) = DText s"
| "plain_numbers (DArr vs) = DArr (map plain_numbers vs)"
| "plain_numbers (DObj ps) = DObj (map (map_prod id plain_numbers) ps)"

definition doc_equal :: "jdoc \<Rightarrow> jdoc \<Rightarrow> bool" where
  "doc_equal v w \<longleftrightarrow> sorted_keys (plain_numbers v) = sorted_keys (plain_numbers w)"

text \<open>\<^verbatim>\<open>document.get(key)\<close>\<close>

definition field :: "jdoc \<Rightarrow> string \<Rightarrow> jdoc option" where
  "field v key = (case v of DObj ps \<Rightarrow> map_of ps (ascii key) | _ \<Rightarrow> None)"

section \<open>The marker\<close>

definition events_path :: "ustring list" where
  "events_path = [ascii ''execution'', ascii ''events.jsonl'']"

definition state_path :: "ustring list" where
  "state_path = [ascii ''execution'', ascii ''state.yaml'']"

definition marker_path :: "ustring list" where
  "marker_path = [ascii ''execution'', ascii ''.transaction.json'']"

definition state_name :: ustring where
  "state_name = ascii ''execution/state.yaml''"

text \<open>\<^verbatim>\<open>_document\<close> and \<^verbatim>\<open>_decode_document\<close>\<close>

definition document_doc :: "(bytes \<Rightarrow> ustring) \<Rightarrow> bytes \<Rightarrow> jdoc" where
  "document_doc sha content = DObj [(ascii ''content'', DText (b64_encode content)), (ascii ''sha256'', DText (sha content))]"

definition decode_document :: "(bytes \<Rightarrow> ustring) \<Rightarrow> jdoc \<Rightarrow> bytes option" where
  "decode_document sha v = (case (field v ''content'', field v ''sha256'') of
     (Some (DText encoded), Some (DText expected)) \<Rightarrow>
       (case b64_decode encoded of None \<Rightarrow> None
        | Some content \<Rightarrow> if sha content = expected then Some content else None)
   | _ \<Rightarrow> None)"

text \<open>\<^verbatim>\<open>_relative_target\<close>: the path below the capsule, or \<^verbatim>\<open>ConflictError\<close>.\<close>

definition relative_target :: "ustring \<Rightarrow> ustring list option" where
  "relative_target name = (case validate_relative_path name of Inl _ \<Rightarrow> None
     | Inr _ \<Rightarrow> if path_parts name = [] then None else Some (path_parts name))"

section \<open>Recovery\<close>

text \<open>State is the commit snapshot and is replaced last.\<close>

definition replay_order :: "(ustring \<times> jdoc) list \<Rightarrow> (ustring \<times> jdoc) list" where
  "replay_order = sort_key (\<lambda>(name, v). (name = state_name, name))"

definition replay_document :: "(bytes \<Rightarrow> ustring) \<Rightarrow> ustring \<times> jdoc \<Rightarrow> (disk, unit) prog" where
  "replay_document sha = (\<lambda>(name, v). bnd (the_or Conflict (relative_target name)) (\<lambda>target.
     bnd (the_or Conflict (decode_document sha v)) (write_file target)))"

fun replay_events :: "nat \<Rightarrow> jdoc list \<Rightarrow> jdoc list \<Rightarrow> (disk, unit) prog" where
  "replay_events position existing [] = ret ()"
| "replay_events position existing (v # tail) =
     bnd (deny (\<not> is_object v) Conflict) (\<lambda>_.
     if position \<le> length existing then
       bnd (deny (\<not> doc_equal (existing ! (position - 1)) v) Conflict) (\<lambda>_.
       replay_events (Suc position) existing tail)
     else bnd (deny (length existing \<noteq> position - 1) Conflict) (\<lambda>_.
       bnd (append_jsonl events_path v) (\<lambda>_.
       replay_events (Suc position) (existing @ [v]) tail)))"

definition existing_events :: "nat \<Rightarrow> (disk, jdoc list) prog" where
  "existing_events base = bnd (reads (\<lambda>s. disk_now s events_path)) (\<lambda>content.
     case read_jsonl content of Some vs \<Rightarrow> ret vs | None \<Rightarrow> repair_file events_path base)"

text \<open>The documents and the event tail of a decoded marker.\<close>

definition marker_documents :: "jdoc \<Rightarrow> (ustring \<times> jdoc) list option" where
  "marker_documents transaction = (case field transaction ''documents'' of Some (DObj ps) \<Rightarrow> Some ps | _ \<Rightarrow> None)"

definition marker_tail :: "jdoc \<Rightarrow> (nat \<times> jdoc list) option" where
  "marker_tail transaction = (case (field transaction ''event_base_sequence'', field transaction ''events'') of
     (Some (DInt base), Some (DArr tail)) \<Rightarrow> if base < 0 then None else Some (nat base, tail) | _ \<Rightarrow> None)"

definition current_schema :: "jdoc \<Rightarrow> bool" where
  "current_schema v = (case field v ''schema_version'' of None \<Rightarrow> False | Some n \<Rightarrow> doc_equal n (DInt 1))"

definition recover :: "(bytes \<Rightarrow> ustring) \<Rightarrow> (disk, unit) prog" where
  "recover sha = bnd (reads (\<lambda>s. disk_now s marker_path)) (\<lambda>marker. case marker of None \<Rightarrow> ret ()
     | Some content \<Rightarrow>
       bnd (the_or Conflict (json_object content)) (\<lambda>transaction.
       bnd (deny (\<not> current_schema transaction) Conflict) (\<lambda>_.
       bnd (the_or Conflict (marker_documents transaction)) (\<lambda>documents.
       bnd (for_each (replay_order documents) (replay_document sha)) (\<lambda>_.
       bnd (the_or Conflict (marker_tail transaction)) (\<lambda>(base, tail).
       bnd (reads (\<lambda>s. disk_now s events_path)) (\<lambda>log.
       bnd (if log = None then write_file events_path [] else ret ()) (\<lambda>_.
       bnd (existing_events base) (\<lambda>existing.
       bnd (deny (length existing < base) Conflict) (\<lambda>_.
       bnd (replay_events (Suc base) existing tail) (\<lambda>_.
       remove_file marker_path)))))))))))"

section \<open>Commit\<close>

text \<open>
  What a commit writes: the documents at the new generation, of which the state document is the
  given fields under its schema version and generation, and the events not yet on disk.
\<close>

record staged =
  st_new :: bool
  st_generation :: nat
  st_state :: "(ustring \<times> jdoc) list"
  st_documents :: "nat \<Rightarrow> (ustring \<times> bytes) list"
  st_base :: nat
  st_tail :: "jdoc list"

text \<open>\<^verbatim>\<open>_disk_generation\<close>\<close>

definition disk_generation :: "(bytes \<Rightarrow> ustring) \<Rightarrow> (disk, int) prog" where
  "disk_generation sha = bnd (recover sha) (\<lambda>_.
     bnd (reads (\<lambda>s. disk_now s state_path)) (\<lambda>content.
     bnd (the_or Conflict (case content of None \<Rightarrow> None | Some bs \<Rightarrow> json_object bs)) (\<lambda>state.
     case field state ''generation'' of Some (DInt n) \<Rightarrow> ret n | _ \<Rightarrow> raise_err Conflict)))"

definition state_doc :: "nat \<Rightarrow> (ustring \<times> jdoc) list \<Rightarrow> jdoc" where
  "state_doc generation rest =
     DObj ((ascii ''schema_version'', DInt 1) # (ascii ''generation'', DInt (int generation)) # rest)"

text \<open>\<^verbatim>\<open>_json_bytes\<close>\<close>

definition json_bytes :: "jdoc \<Rightarrow> bytes option" where
  "json_bytes v = utf8_encode (indented v @ [10])"

definition staged_documents :: "staged \<Rightarrow> (ustring \<times> bytes) list option" where
  "staged_documents s = map_option (\<lambda>state. (state_name, state) # st_documents s (Suc (st_generation s)))
     (json_bytes (state_doc (Suc (st_generation s)) (st_state s)))"

definition marker_doc :: "(bytes \<Rightarrow> ustring) \<Rightarrow> nat \<Rightarrow> (ustring \<times> bytes) list \<Rightarrow> nat \<Rightarrow> jdoc list \<Rightarrow> jdoc" where
  "marker_doc sha generation documents base tail = DObj
    [(ascii ''schema_version'', DInt 1), (ascii ''generation'', DInt (int generation)),
     (ascii ''documents'', DObj (map (map_prod id (document_doc sha)) documents)),
     (ascii ''event_base_sequence'', DInt (int base)), (ascii ''events'', DArr tail)]"

text \<open>\<^verbatim>\<open>_commit_capsule\<close> on the directory of a dirty capsule, whose state lock it holds.\<close>

definition commit_files :: "(bytes \<Rightarrow> ustring) \<Rightarrow> staged \<Rightarrow> (disk, unit) prog" where
  "commit_files sha s =
     bnd (if st_new s then ret () else bnd (disk_generation sha) (\<lambda>current.
            deny (current \<noteq> int (st_generation s)) Conflict)) (\<lambda>_.
     bnd (the_or Conflict (staged_documents s)) (\<lambda>documents.
     bnd (the_or ValueErr (encoded_json (marker_doc sha (Suc (st_generation s)) documents (st_base s) (st_tail s)))) (\<lambda>marker.
     bnd (write_file marker_path marker) (\<lambda>_.
     recover sha))))"

end
