(* ===== verification/Orq_Crash.thy ===== *)
theory Orq_Crash
  imports Orq_Journal
begin

text \<open>
  Crash safety of the commit journal of \<^verbatim>\<open>Orq_Journal\<close>: a commit that is cut off at any byte, followed
  by recoveries that are cut off themselves any number of times, is completed or undone by the next
  recovery; a session that committed in between is noticed by its generation.
\<close>

section \<open>Sorted keys\<close>

lemma sort_key_map_prod: "sort_key fst (map (map_prod id f) ps) = map (map_prod id f) (sort_key fst ps)"
proof -
  have ins: "insort_key fst (map_prod (\<lambda>a. a) f p) (map (map_prod (\<lambda>a. a) f) qs) = map (map_prod (\<lambda>a. a) f) (insort_key fst p qs)"
    for p :: "'a \<times> 'c" and qs by (induction qs) auto
  show ?thesis unfolding id_def by (induction ps) (simp_all add: ins)
qed

lemma sort_key_sorted: "sorted (map f xs) \<Longrightarrow> sort_key f xs = xs"
  by (induction xs) (simp_all add: insort_is_Cons)

lemma sorted_keys_idem [simp]: "sorted_keys (sorted_keys v) = sorted_keys v"
proof (induction v)
  case (DArr vs)
  then show ?case by simp
next
  case (DObj ps)
  have "map_prod id sorted_keys (map_prod id sorted_keys p) = map_prod id sorted_keys p" if "p \<in> set ps" for p
    using DObj [OF that] by (cases p) auto
  then have "map (map_prod id sorted_keys) (map (map_prod id sorted_keys) ps) = map (map_prod id sorted_keys) ps"
    by simp
  then show ?case unfolding sorted_keys.simps
    by (simp add: sort_key_map_prod [symmetric] sort_key_sorted del: map_map)
qed simp_all

lemma map_of_sort_key: "distinct (map fst ps) \<Longrightarrow> map_of (sort_key fst ps) = map_of ps"
  by (rule map_of_eqI) (auto simp: distinct_map distinct_sort)

lemma field_sorted_keys:
  assumes "distinct (map fst ps)"
  shows "field (sorted_keys (DObj ps)) key = map_option sorted_keys (field (DObj ps) key)"
proof -
  have "map_of (map (map_prod id sorted_keys) ps) k = map_option sorted_keys (map_of ps k)" for k
    by (induction ps) auto
  moreover have "distinct (map fst (map (map_prod id sorted_keys) ps))" using assms by (simp add: comp_def)
  ultimately show ?thesis by (simp add: field_def map_of_sort_key)
qed

lemma is_object_sorted [simp]: "is_object (sorted_keys v) = is_object v"
  by (cases v) (simp_all add: is_object_def)

lemma encoded_line_sorted [simp]: "encoded_json_line (sorted_keys v) = encoded_json_line v"
  by (simp add: encoded_json_line_def compact_def)

section \<open>Logs\<close>

definition record_ok :: "jdoc \<Rightarrow> bool" where
  "record_ok v \<longleftrightarrow> doc_ok v \<and> is_object v"

definition line :: "jdoc \<Rightarrow> bytes" where
  "line v = the (encoded_json_line v)"

definition log_of :: "jdoc list \<Rightarrow> bytes" where
  "log_of vs = concat (map line vs)"

lemma log_of_simps [simp]: "log_of [] = []" "log_of (v # vs) = line v @ log_of vs" "log_of (vs @ ws) = log_of vs @ log_of ws"
  by (simp_all add: log_of_def)

lemma line_ok:
  assumes "record_ok v"
  obtains l where "line v = l @ [LF]" "LF \<notin> set l" "CR \<notin> set l" "l \<noteq> []" "json_object l = Some (sorted_keys v)"
    "encoded_json_line v = Some (line v)" "json_object (l @ [LF]) = Some (sorted_keys v)"
proof -
  obtain l where l: "encoded_json_line v = Some (l @ [LF])" "LF \<notin> set l" "CR \<notin> set l" "l \<noteq> []"
    "decode_json l = Some (sorted_keys v)" using assms by (auto simp: record_ok_def elim: encoded_json_line_ok)
  have "doc_ok v" "is_object v" using assms by (simp_all add: record_ok_def)
  have "decode_json (l @ [LF]) = Some (sorted_keys v)"
  proof -
    from l(1) have "utf8_encode (compact v @ [10]) = Some (l @ [LF])"
      by (auto simp: encoded_json_line_def verified_def split: option.splits if_splits)
    then show ?thesis using decode_compact [OF \<open>doc_ok v\<close>, of "[10]"] by (simp add: decode_json_def utf8_round_trip)
  qed
  with l \<open>is_object v\<close> that [of l] show thesis by (simp add: line_def json_object_def)
qed

lemma split_log:
  assumes "\<forall>v \<in> set vs. record_ok v" and "LF \<notin> set t" "CR \<notin> set t"
  shows "split_lines (log_of vs @ t) = map line vs @ split_lines t"
  using assms(1)
proof (induction vs)
  case (Cons v vs)
  then obtain l where "line v = l @ [LF]" "LF \<notin> set l" "CR \<notin> set l" by (auto elim: line_ok)
  with Cons show ?case by (simp add: split_lines_line)
qed simp

lemma all_some_map: "\<forall>x \<in> set xs. f x = Some (g x) \<Longrightarrow> all_some (map f xs) = Some (map g xs)"
  by (induction xs) auto

lemma read_log:
  assumes ok: "\<forall>v \<in> set vs. record_ok v"
  shows "read_jsonl (Some (log_of vs)) = Some (map sorted_keys vs)"
proof (cases "vs = []")
  case False
  have lines: "split_lines (log_of vs) = map line vs" using split_log [OF ok, of "[]"] by simp
  have body: "line_body (line v) \<noteq> [] \<and> json_object (line_body (line v)) = Some (sorted_keys v)" if "v \<in> set vs" for v
  proof -
    from ok that have "record_ok v" by blast
    then obtain l where l: "line v = l @ [LF]" "LF \<notin> set l" "CR \<notin> set l" "l \<noteq> []" "json_object l = Some (sorted_keys v)"
      by (rule line_ok)
    moreover have "line_body (line v) = l" unfolding l(1) by (rule line_body_line) (rule l)+
    ultimately show ?thesis by simp
  qed
  obtain ws w where w: "vs = ws @ [w]" using False by (cases vs rule: rev_cases) auto
  with ok have "record_ok w" by simp
  then obtain l where "line w = l @ [LF]" by (rule line_ok)
  with w have "last (log_of vs) = LF" "log_of vs \<noteq> []" by simp_all
  moreover have "[] \<notin> set (map (\<lambda>v. line_body (line v)) vs)" using body by force
  moreover have "all_some (map (\<lambda>v. json_object (line_body (line v))) vs) = Some (map sorted_keys vs)"
    using body by (intro all_some_map) simp
  ultimately show ?thesis by (auto simp: read_jsonl_def list_ex_iff lines comp_def)
qed (simp add: read_jsonl_def)

lemma read_torn_log:
  assumes "t \<noteq> []" "LF \<notin> set t"
  shows "read_jsonl (Some (log_of vs @ t)) = None"
proof -
  have "last t \<noteq> LF" using assms by (metis last_in_set)
  with assms show ?thesis by (simp add: read_jsonl_def)
qed

lemma repair_log:
  assumes ok: "\<forall>v \<in> set (evs @ ws). record_ok v" and "LF \<notin> set t" "CR \<notin> set t"
  shows "repair_jsonl (Some (log_of (evs @ ws) @ t)) (length evs) = Some (map sorted_keys evs, Some (log_of evs))"
proof -
  have lines: "take (length evs) (split_lines (log_of (evs @ ws) @ t)) = map line evs"
    using split_log [OF assms] by simp
  have "last (line v) = LF \<and> json_object (line v) = Some (sorted_keys v)" if "v \<in> set evs" for v
  proof -
    from ok that have "record_ok v" by simp
    then show ?thesis by (rule line_ok) simp
  qed
  then have "all_some (map json_object (map line evs)) = Some (map sorted_keys evs)" "\<not> list_ex (\<lambda>l. last l \<noteq> LF) (map line evs)"
    using all_some_map [of evs "\<lambda>v. json_object (line v)" sorted_keys] by (simp_all add: list_ex_iff comp_def)
  with lines show ?thesis by (simp add: repair_jsonl_def log_of_def)
qed

text \<open>A log cut anywhere is whole lines and the beginning of one more.\<close>

lemma cut_log:
  assumes "\<forall>v \<in> set vs. record_ok v"
  obtains k t where "take j (log_of vs) = log_of (take k vs) @ t" "LF \<notin> set t" "CR \<notin> set t" "k \<le> length vs"
    "t \<noteq> [] \<Longrightarrow> k < length vs"
  using assms
proof (induction vs arbitrary: j thesis)
  case Nil
  then show ?case by (metis append_Nil empty_iff le_refl list.set(1) log_of_simps(1) take_Nil)
next
  case (Cons v vs)
  from Cons.prems(2) have "record_ok v" by simp
  then obtain l where l: "line v = l @ [LF]" "LF \<notin> set l" "CR \<notin> set l" by (rule line_ok)
  show ?case
  proof (cases "j \<le> length l")
    case True
    have "take j (log_of (v # vs)) = log_of (take 0 (v # vs)) @ take j l" using True l by simp
    moreover have "LF \<notin> set (take j l)" "CR \<notin> set (take j l)" using l by (auto dest: in_set_takeD)
    ultimately show ?thesis using Cons.prems(1) by (metis le0 length_greater_0_conv list.distinct(1))
  next
    case False
    obtain k t where k: "take (j - Suc (length l)) (log_of vs) = log_of (take k vs) @ t" "LF \<notin> set t" "CR \<notin> set t"
      "k \<le> length vs" "t \<noteq> [] \<Longrightarrow> k < length vs" using Cons.IH Cons.prems(2) by (metis list.set_intros(2))
    have "take j (log_of (v # vs)) = log_of (take (Suc k) (v # vs)) @ t"
      using False l k(1) by (simp add: take_Cons' Suc_diff_le)
    with k show ?thesis using Cons.prems(1) [of "Suc k" t] by simp
  qed
qed

section \<open>Transactions in progress\<close>

text \<open>
  A transaction: its documents, the events on disk when it started, the events it adds, and the bytes
  of its marker. \<open>d\<close> is the directory it started from.
\<close>

record txn =
  tx_sha :: "bytes \<Rightarrow> ustring"
  tx_generation :: nat
  tx_documents :: "(ustring \<times> bytes) list"
  tx_old :: "jdoc list"
  tx_new :: "jdoc list"

definition tx_marker :: "txn \<Rightarrow> bytes option" where
  "tx_marker t = encoded_json (marker_doc (tx_sha t) (tx_generation t) (tx_documents t) (length (tx_old t)) (tx_new t))"

definition new_content :: "txn \<Rightarrow> dir" where
  "new_content t q = map_of (map (\<lambda>(name, content). (path_parts name, content)) (tx_documents t)) q"

definition document_name_ok :: "ustring \<Rightarrow> bool" where
  "document_name_ok name \<longleftrightarrow> validate_relative_path name = Inr () \<and> list_all scalar name
     \<and> path_parts name \<noteq> marker_path \<and> path_parts name \<noteq> events_path"

definition txn_ok :: "txn \<Rightarrow> bool" where
  "txn_ok t \<longleftrightarrow> distinct (map fst (tx_documents t)) \<and> (\<forall>(name, c) \<in> set (tx_documents t). document_name_ok name)
     \<and> (\<forall>v \<in> set (tx_old t @ tx_new t). record_ok v) \<and> (\<forall>c. list_all scalar (tx_sha t c))"

definition log_cut :: "txn \<Rightarrow> bytes option \<Rightarrow> bool" where
  "log_cut t content \<longleftrightarrow> content = None \<and> tx_old t = []
     \<or> (\<exists>j. content = Some (log_of (tx_old t) @ take j (log_of (tx_new t))))"

definition written :: "txn \<Rightarrow> dir \<Rightarrow> bool" where
  "written t e \<longleftrightarrow> (\<forall>q. new_content t q \<noteq> None \<longrightarrow> e q = new_content t q)"

text \<open>The marker stands, the log is cut somewhere, each file is old or new, and state is new only with all others.\<close>

definition in_progress :: "txn \<Rightarrow> dir \<Rightarrow> dir \<Rightarrow> bool" where
  "in_progress t d e \<longleftrightarrow> e marker_path \<noteq> None \<and> e marker_path = tx_marker t \<and> log_cut t (e events_path)
     \<and> (\<forall>q. q \<noteq> marker_path \<longrightarrow> q \<noteq> events_path \<longrightarrow> e q = d q \<or> new_content t q \<noteq> None \<and> e q = new_content t q)
     \<and> (e state_path \<noteq> d state_path \<longrightarrow> written t e)"

definition completed :: "txn \<Rightarrow> dir \<Rightarrow> dir" where
  "completed t d = (\<lambda>q. if q = marker_path then None else if q = events_path then Some (log_of (tx_old t @ tx_new t))
     else if new_content t q \<noteq> None then new_content t q else d q)"

lemma paths_distinct [simp]: "events_path \<noteq> marker_path" "marker_path \<noteq> events_path" "state_path \<noteq> marker_path"
  "state_path \<noteq> events_path" "marker_path \<noteq> state_path" "events_path \<noteq> state_path"
  by (simp_all add: events_path_def marker_path_def state_path_def ascii_def)

lemma path_parts_inj:
  assumes "validate_relative_path m = Inr ()" "validate_relative_path n = Inr ()" "path_parts m = path_parts n"
  shows "m = n"
  by (metis assms join_split valid_parts(1))

lemma state_name_path: "validate_relative_path state_name = Inr ()" "path_parts state_name = state_path"
  by code_simp+

lemma txn_name: "txn_ok t \<Longrightarrow> (name, c) \<in> set (tx_documents t) \<Longrightarrow> document_name_ok name"
  by (auto simp: txn_ok_def)

lemma new_content_document:
  assumes "txn_ok t" "(name, c) \<in> set (tx_documents t)"
  shows "new_content t (path_parts name) = Some c"
proof -
  have "inj_on path_parts (set (map fst (tx_documents t)))"
  proof (rule inj_onI)
    fix m n assume "m \<in> set (map fst (tx_documents t))" "n \<in> set (map fst (tx_documents t))" "path_parts m = path_parts n"
    then show "m = n" using txn_name [OF assms(1)] by (auto simp: document_name_ok_def intro: path_parts_inj)
  qed
  then have "distinct (map fst (map (\<lambda>(name, c). (path_parts name, c)) (tx_documents t)))"
    using assms(1) by (simp add: txn_ok_def distinct_map comp_def case_prod_unfold comp_inj_on_iff inj_on_def)
  moreover have "(path_parts name, c) \<in> set (map (\<lambda>(name, c). (path_parts name, c)) (tx_documents t))"
    using assms(2) by force
  ultimately show ?thesis unfolding new_content_def by simp
qed

lemma new_content_some:
  assumes "new_content t q = Some c"
  obtains name where "(name, c) \<in> set (tx_documents t)" "path_parts name = q"
  using assms by (auto simp: new_content_def dest!: map_of_SomeD)

lemma new_content_elsewhere: "txn_ok t \<Longrightarrow> new_content t marker_path = None \<and> new_content t events_path = None"
  by (metis (mono_tags, lifting) case_prodD document_name_ok_def new_content_some not_None_eq txn_ok_def)

section \<open>The marker is read back\<close>

lemma decode_document_doc: "decode_document sha (sorted_keys (document_doc sha c)) = Some c"
  by (simp add: decode_document_def document_doc_def field_sorted_keys [of "[_, _]"] del: sorted_keys.simps)
    (simp add: field_def ascii_def b64_round_trip)

lemma b64_scalar: "list_all scalar (b64_encode bs)"
proof -
  have "scalar (b64_char n)" if "n < 64" for n using that by (auto simp: b64_char_def scalar_def)
  moreover have "scalar 61" by (simp add: scalar_def)
  ultimately show ?thesis
    by (induction bs rule: b64_encode.induct) (auto simp: byte_parts sextets intro: less_trans [OF byte_parts(1)])
qed

lemma marker_doc_ok: "txn_ok t \<Longrightarrow> doc_ok (marker_doc (tx_sha t) g (tx_documents t) n (tx_new t))"
  by (auto simp: marker_doc_def document_doc_def ascii_def scalar_def txn_ok_def document_name_ok_def record_ok_def
      b64_scalar comp_def)

text \<open>The documents of the decoded marker, by name.\<close>

definition stored_documents :: "txn \<Rightarrow> (ustring \<times> jdoc) list" where
  "stored_documents t = sort_key fst (map (\<lambda>(name, c). (name, sorted_keys (document_doc (tx_sha t) c))) (tx_documents t))"

lemma marker_fields:
  assumes "txn_ok t" and "tx_marker t = Some content"
  obtains transaction where "json_object content = Some transaction" "current_schema transaction"
    "marker_documents transaction = Some (stored_documents t)"
    "marker_tail transaction = Some (length (tx_old t), map sorted_keys (tx_new t))"
proof -
  let ?m = "marker_doc (tx_sha t) (tx_generation t) (tx_documents t) (length (tx_old t)) (tx_new t)"
  have "doc_ok ?m" using assms(1) by (rule marker_doc_ok)
  then obtain bs where bs: "encoded_json ?m = Some bs" "decode_json bs = Some (sorted_keys ?m)" by (rule encoded_json_ok)
  with assms(2) have "decode_json content = Some (sorted_keys ?m)" by (simp add: tx_marker_def)
  moreover have "is_object ?m" by (simp add: is_object_def marker_doc_def)
  ultimately have "json_object content = Some (sorted_keys ?m)" by (simp add: json_object_def)
  moreover have get: "field (sorted_keys ?m) key = map_option sorted_keys (field ?m key)" for key
    unfolding marker_doc_def by (rule field_sorted_keys) (simp add: ascii_def)
  have f: "field ?m ''schema_version'' = Some (DInt 1)" "field ?m ''event_base_sequence'' = Some (DInt (int (length (tx_old t))))"
    "field ?m ''events'' = Some (DArr (tx_new t))"
    "field ?m ''documents'' = Some (DObj (map (map_prod id (document_doc (tx_sha t))) (tx_documents t)))"
    by (simp_all add: field_def marker_doc_def ascii_def)
  have "current_schema (sorted_keys ?m)" by (simp add: current_schema_def get f doc_equal_def)
  moreover have "marker_tail (sorted_keys ?m) = Some (length (tx_old t), map sorted_keys (tx_new t))"
    by (simp add: marker_tail_def get f)
  moreover have "marker_documents (sorted_keys ?m) = Some (stored_documents t)"
    by (simp add: marker_documents_def get f stored_documents_def comp_def case_prod_unfold map_prod_def)
  ultimately show thesis using that by blast
qed

lemma stored_document:
  assumes "txn_ok t" "(name, v) \<in> set (stored_documents t)"
  obtains c where "(name, c) \<in> set (tx_documents t)" "decode_document (tx_sha t) v = Some c"
    "relative_target name = Some (path_parts name)" "new_content t (path_parts name) = Some c"
proof -
  obtain c where c: "(name, c) \<in> set (tx_documents t)" "v = sorted_keys (document_doc (tx_sha t) c)"
    using assms(2) by (auto simp: stored_documents_def)
  have "validate_relative_path name = Inr ()" using txn_name [OF assms(1) c(1)] by (simp add: document_name_ok_def)
  then have "relative_target name = Some (path_parts name)" using valid_parts(2) by (simp add: relative_target_def)
  with that c decode_document_doc new_content_document [OF assms(1) c(1)] show thesis by blast
qed

lemma distinct_map_sort: "distinct (map f (sort_key g xs)) \<longleftrightarrow> distinct (map f xs)"
  by (simp add: distinct_map)

text \<open>In the order of recovery nothing follows the state document.\<close>

lemma state_replayed_last:
  assumes "txn_ok t" "replay_order (stored_documents t) = pre @ x # post" "fst x = state_name"
  shows "post = []"
proof (rule ccontr)
  assume "post \<noteq> []"
  then obtain y ys where post: "post = y # ys" by (cases post) auto
  have "sorted (map (\<lambda>(name, v). (name = state_name, name)) (replay_order (stored_documents t)))"
    by (simp add: replay_order_def)
  then have "(\<lambda>(name, v). (name = state_name, name)) x \<le> (\<lambda>(name, v). (name = state_name, name)) y"
    unfolding assms(2) post by (simp add: sorted_append)
  with assms(3) have "fst y = state_name" by (cases x; cases y) (auto split: if_splits)
  moreover have "distinct (map fst (replay_order (stored_documents t)))"
    using assms(1) by (simp add: replay_order_def stored_documents_def distinct_map_sort txn_ok_def case_prod_unfold comp_def)
  ultimately show False unfolding assms(2) post using assms(3) by simp
qed

section \<open>Recovery completes a transaction\<close>

lemma wp_visit: "wp (visit d) Q E s = Q () (s\<lparr>disk_now := d, disk_seen := disk_seen s @ [d]\<rparr>)"
  by (simp add: visit_def wp_simps)

lemma wp_write_file: "wp (write_file p c) Q E s =
    Q () (s\<lparr>disk_now := (disk_now s)(p := Some c), disk_seen := disk_seen s @ [(disk_now s)(p := Some c)]\<rparr>)"
  by (simp add: write_file_def wp_simps wp_visit)

lemma wp_remove_file: "wp (remove_file p) Q E s =
    Q () (s\<lparr>disk_now := (disk_now s)(p := None), disk_seen := disk_seen s @ [(disk_now s)(p := None)]\<rparr>)"
  by (simp add: remove_file_def wp_simps wp_visit)

lemma wp_loop:
  assumes "I [] s"
    and "\<And>pre x post t. xs = pre @ x # post \<Longrightarrow> I pre t \<Longrightarrow> wp (f x) (\<lambda>_. I (pre @ [x])) E t"
    and "\<And>t. I xs t \<Longrightarrow> Q () t"
  shows "wp (for_each xs f) Q E s"
proof -
  have "wp (for_each zs f) (\<lambda>_. I xs) E t" if "xs = pre @ zs" "I pre t" for pre zs t
    using that
  proof (induction zs arbitrary: pre t)
    case (Cons z zs)
    then have "wp (f z) (\<lambda>_. I (pre @ [z])) E t" using assms(2) by blast
    with Cons.IH [of "pre @ [z]"] Cons.prems(1) show ?case by (auto simp: wp_simps elim!: wp_mono)
  qed (simp add: wp_simps)
  from this [of "[]" xs s] assms(1,3) show ?thesis by (auto elim!: wp_mono)
qed

text \<open>An append passes through the contents with each prefix of what it appends.\<close>

lemma wp_append_bytes:
  assumes "\<And>k. k \<le> length c \<Longrightarrow> P (d(p := Some (old @ take k c)))"
    and "disk_now s = d" "d p = Some old" "\<forall>e \<in> set (disk_seen s). P e"
    and "\<And>s'. disk_now s' = d(p := Some (old @ c)) \<Longrightarrow> \<forall>e \<in> set (disk_seen s'). P e \<Longrightarrow> Q () s'"
  shows "wp (append_bytes p c) Q E s"
proof -
  have "wp (for_each [0..<Suc (length c)] (\<lambda>k. visit (d(p := Some (old @ take k c))))) Q E s"
  proof (rule wp_loop [where I = "\<lambda>ks s'. (\<forall>e \<in> set (disk_seen s'). P e)
        \<and> (ks \<noteq> [] \<longrightarrow> disk_now s' = d(p := Some (old @ take (last ks) c)))"])
    fix pre x post and t :: disk
    assume "[0..<Suc (length c)] = pre @ x # post" "(\<forall>e \<in> set (disk_seen t). P e)
        \<and> (pre \<noteq> [] \<longrightarrow> disk_now t = d(p := Some (old @ take (last pre) c)))"
    moreover from this have "x < Suc (length c)" by (metis atLeastLessThan_iff in_set_conv_decomp set_upt)
    ultimately show "wp (visit (d(p := Some (old @ take x c)))) (\<lambda>_ s'. (\<forall>e \<in> set (disk_seen s'). P e)
        \<and> (pre @ [x] \<noteq> [] \<longrightarrow> disk_now s' = d(p := Some (old @ take (last (pre @ [x])) c)))) E t"
      using assms(1) [of x] by (simp add: wp_visit)
  qed (use assms in auto)
  then show ?thesis using assms(2,3) by (simp add: append_bytes_def wp_simps)
qed

definition between :: "txn \<Rightarrow> dir \<Rightarrow> dir \<Rightarrow> bool" where
  "between t d e \<longleftrightarrow> e = d \<or> in_progress t d e \<or> e = completed t d"

lemma in_progress_log:
  assumes "txn_ok t" "in_progress t d e" "log_cut t (Some bs)"
  shows "in_progress t d (e(events_path := Some bs))"
  using assms(2,3) new_content_elsewhere [OF assms(1)] by (auto simp: in_progress_def written_def)

text \<open>Phase 1: the documents.\<close>

lemma wp_replay_documents:
  assumes t: "txn_ok t" and s: "in_progress t d (disk_now s)" "\<forall>e \<in> set (disk_seen s). between t d e"
    and Q: "\<And>s'. in_progress t d (disk_now s') \<Longrightarrow> written t (disk_now s') \<Longrightarrow> \<forall>e \<in> set (disk_seen s'). between t d e \<Longrightarrow> Q () s'"
  shows "wp (for_each (replay_order (stored_documents t)) (replay_document (tx_sha t))) Q E s"
proof (rule wp_loop [where I = "\<lambda>pre s'. in_progress t d (disk_now s') \<and> (\<forall>e \<in> set (disk_seen s'). between t d e)
      \<and> (\<forall>(n, v) \<in> set pre. disk_now s' (path_parts n) = new_content t (path_parts n))"])
  fix s' :: disk assume "in_progress t d (disk_now s') \<and> (\<forall>e \<in> set (disk_seen s'). between t d e)
      \<and> (\<forall>(n, v) \<in> set (replay_order (stored_documents t)). disk_now s' (path_parts n) = new_content t (path_parts n))"
  moreover from this have "written t (disk_now s')"
    by (fastforce simp: written_def replay_order_def stored_documents_def elim!: new_content_some)
  ultimately show "Q () s'" using Q by blast
next
  fix pre x post and u :: disk
  assume split: "replay_order (stored_documents t) = pre @ x # post"
    and I: "in_progress t d (disk_now u) \<and> (\<forall>e \<in> set (disk_seen u). between t d e)
      \<and> (\<forall>(n, v) \<in> set pre. disk_now u (path_parts n) = new_content t (path_parts n))"
  obtain n v where x: "x = (n, v)" by fastforce
  have same: "set (replay_order (stored_documents t)) = set (stored_documents t)" by (simp add: replay_order_def)
  then have "(n, v) \<in> set (stored_documents t)" unfolding split x by auto
  with t obtain c where c: "(n, c) \<in> set (tx_documents t)" "decode_document (tx_sha t) v = Some c"
    "relative_target n = Some (path_parts n)" "new_content t (path_parts n) = Some c" by (rule stored_document)
  have n: "path_parts n \<noteq> marker_path" "path_parts n \<noteq> events_path" "validate_relative_path n = Inr ()"
    using txn_name [OF t c(1)] by (auto simp: document_name_ok_def)
  let ?e = "(disk_now u)(path_parts n := Some c)"
  have "written t ?e" if "path_parts n = state_path"
  proof -
    have "n = state_name" using that path_parts_inj [OF n(3) state_name_path(1)] state_name_path(2) by simp
    with state_replayed_last [OF t split] x have "post = []" by simp
    then have all: "set (stored_documents t) = insert x (set pre)" using split same by simp
    have "?e q = Some c'" if new: "new_content t q = Some c'" for q c'
    proof -
      obtain m where m: "(m, c') \<in> set (tx_documents t)" "path_parts m = q" using new by (rule new_content_some)
      then have "(m, sorted_keys (document_doc (tx_sha t) c')) \<in> insert x (set pre)"
        unfolding all [symmetric] by (force simp: stored_documents_def)
      then show ?thesis using I x c(4) m(2) new by auto
    qed
    then show ?thesis unfolding written_def by (metis not_None_eq)
  qed
  then have "in_progress t d ?e" using I n c(4) by (auto simp: in_progress_def written_def)
  with I c x show "wp (replay_document (tx_sha t) x) (\<lambda>_ s'. in_progress t d (disk_now s') \<and> (\<forall>e \<in> set (disk_seen s'). between t d e)
      \<and> (\<forall>(n, v) \<in> set (pre @ [x]). disk_now s' (path_parts n) = new_content t (path_parts n))) E u"
    by (auto simp: replay_document_def wp_simps wp_write_file between_def)
qed (use s in auto)

text \<open>Phase 2: the log holds whole records again.\<close>

lemma written_log: "txn_ok t \<Longrightarrow> written t e \<Longrightarrow> written t (e(events_path := x))"
  using new_content_elsewhere by (auto simp: written_def)

lemma log_cut_records:
  assumes "txn_ok t" "log_cut t (Some bs)"
  obtains k z where "bs = log_of (tx_old t @ take k (tx_new t)) @ z" "k \<le> length (tx_new t)" "LF \<notin> set z" "CR \<notin> set z"
proof -
  obtain j where "bs = log_of (tx_old t) @ take j (log_of (tx_new t))" using assms(2) by (auto simp: log_cut_def)
  moreover have "\<forall>v \<in> set (tx_new t). record_ok v" using assms(1) by (simp add: txn_ok_def)
  then obtain k z where "take j (log_of (tx_new t)) = log_of (take k (tx_new t)) @ z" "LF \<notin> set z" "CR \<notin> set z" "k \<le> length (tx_new t)"
    by (rule cut_log)
  ultimately show thesis using that by simp
qed

lemma log_cut_prefix: "log_cut t (Some (log_of (tx_old t @ take k (tx_new t))))"
proof -
  have "log_of (take k (tx_new t)) = take (length (log_of (take k (tx_new t)))) (log_of (tx_new t))"
    by (metis append_eq_conv_conj append_take_drop_id log_of_simps(3))
  then show ?thesis unfolding log_cut_def by simp metis
qed

lemma wp_existing_events:
  assumes t: "txn_ok t" and s: "in_progress t d (disk_now s)" "written t (disk_now s)" "\<forall>e \<in> set (disk_seen s). between t d e"
    and log: "disk_now s events_path \<noteq> None"
    and Q: "\<And>s' k. in_progress t d (disk_now s') \<Longrightarrow> written t (disk_now s') \<Longrightarrow> \<forall>e \<in> set (disk_seen s'). between t d e
      \<Longrightarrow> k \<le> length (tx_new t) \<Longrightarrow> disk_now s' events_path = Some (log_of (tx_old t @ take k (tx_new t)))
      \<Longrightarrow> Q (map sorted_keys (tx_old t @ take k (tx_new t))) s'"
  shows "wp (existing_events (length (tx_old t))) Q E s"
proof -
  obtain bs where bs: "disk_now s events_path = Some bs" using log by blast
  with s(1) have "log_cut t (Some bs)" by (simp add: in_progress_def)
  with t obtain k z where k: "bs = log_of (tx_old t @ take k (tx_new t)) @ z" "k \<le> length (tx_new t)" "LF \<notin> set z" "CR \<notin> set z"
    by (rule log_cut_records)
  have ok: "\<forall>v \<in> set (tx_old t @ take k (tx_new t)). record_ok v" using t by (auto simp: txn_ok_def dest: in_set_takeD)
  show ?thesis
  proof (cases "z = []")
    case True
    then have "read_jsonl (Some bs) = Some (map sorted_keys (tx_old t @ take k (tx_new t)))"
      using read_log [OF ok] k(1) by simp
    then show ?thesis using Q [of s k] s k True bs by (simp add: existing_events_def wp_simps del: log_of_simps)
  next
    case False
    have "read_jsonl (Some bs) = None" unfolding k(1) by (rule read_torn_log [OF False k(3)])
    moreover have "repair_jsonl (Some bs) (length (tx_old t)) = Some (map sorted_keys (tx_old t), Some (log_of (tx_old t)))"
      using repair_log [OF ok k(3,4)] k(1) by simp
    moreover have "in_progress t d ((disk_now s)(events_path := Some (log_of (tx_old t))))"
      using in_progress_log [OF t s(1)] log_cut_prefix [of t 0] by simp
    ultimately show ?thesis using Q [of "s\<lparr>disk_now := (disk_now s)(events_path := Some (log_of (tx_old t))),
        disk_seen := disk_seen s @ [(disk_now s)(events_path := Some (log_of (tx_old t)))]\<rparr>" 0] s written_log [OF t s(2)] bs
      by (simp add: existing_events_def repair_file_def wp_simps wp_write_file between_def)
  qed
qed

text \<open>Phase 3: the missing events.\<close>

lemma doc_equal_refl [simp]: "doc_equal v v"
  by (simp add: doc_equal_def)

lemma wp_append_event:
  assumes t: "txn_ok t" and s: "in_progress t d (disk_now s)" "written t (disk_now s)" "\<forall>e \<in> set (disk_seen s). between t d e"
    and m: "disk_now s events_path = Some (log_of (take m (tx_old t @ tx_new t)))" "length (tx_old t) \<le> m" "m < length (tx_old t @ tx_new t)"
    and Q: "\<And>s'. in_progress t d (disk_now s') \<Longrightarrow> written t (disk_now s') \<Longrightarrow> \<forall>e \<in> set (disk_seen s'). between t d e
      \<Longrightarrow> disk_now s' events_path = Some (log_of (take (Suc m) (tx_old t @ tx_new t))) \<Longrightarrow> Q () s'"
  shows "wp (append_jsonl events_path (sorted_keys ((tx_old t @ tx_new t) ! m))) Q E s"
proof -
  let ?all = "tx_old t @ tx_new t"
  let ?v = "?all ! m"
  have "record_ok ?v" using t m(3) by (metis nth_mem txn_ok_def)
  then have enc: "encoded_json_line ?v = Some (line ?v)" by (rule line_ok)
  have step: "log_of (take (Suc m) ?all) = log_of (take m ?all) @ line ?v"
    using m(3) by (subst take_Suc_conv_app_nth) simp_all
  have "log_of ?all = log_of (take (Suc m) ?all) @ log_of (drop (Suc m) ?all)"
    by (simp only: log_of_simps(3) [symmetric] append_take_drop_id)
  then have all: "log_of ?all = log_of (take m ?all) @ line ?v @ log_of (drop (Suc m) ?all)" by (simp only: step append_assoc)
  have old: "take m ?all = tx_old t @ take (m - length (tx_old t)) (tx_new t)" using m(2) by simp
  let ?mid = "log_of (take (m - length (tx_old t)) (tx_new t))"
  have new: "log_of (tx_new t) = ?mid @ line ?v @ log_of (drop (Suc m) ?all)"
    using all unfolding old by simp
  have cut: "log_cut t (Some (log_of (take m ?all) @ take k (line ?v)))" if "k \<le> length (line ?v)" for k
  proof -
    have "?mid @ take k (line ?v) = take (length ?mid + k) (log_of (tx_new t))" using new that by simp
    then show ?thesis unfolding log_cut_def old by (metis append_assoc log_of_simps(3))
  qed
  have mid: "in_progress t d ((disk_now s)(events_path := Some (log_of (take m ?all) @ take k (line ?v))))"
    if "k \<le> length (line ?v)" for k using in_progress_log [OF t s(1) cut [OF that]] .
  have "wp (append_bytes events_path (line ?v)) Q E s"
  proof (rule wp_append_bytes [where P = "between t d" and d = "disk_now s" and old = "log_of (take m ?all)"])
    fix s' :: disk assume "disk_now s' = (disk_now s)(events_path \<mapsto> log_of (take m ?all) @ line ?v)" "\<forall>e \<in> set (disk_seen s'). between t d e"
    then show "Q () s'" using mid [of "length (line ?v)"] written_log [OF t s(2)] step by (intro Q) simp_all
  qed (use mid s m(1) in \<open>simp_all add: between_def\<close>)
  then show ?thesis by (simp add: append_jsonl_def wp_simps enc)
qed

lemma wp_replay_events:
  assumes t: "txn_ok t"
    and Q: "\<And>s'. in_progress t d (disk_now s') \<Longrightarrow> written t (disk_now s') \<Longrightarrow> \<forall>e \<in> set (disk_seen s'). between t d e
      \<Longrightarrow> disk_now s' events_path = Some (log_of (tx_old t @ tx_new t)) \<Longrightarrow> Q () s'"
  shows "in_progress t d (disk_now s) \<Longrightarrow> written t (disk_now s) \<Longrightarrow> \<forall>e \<in> set (disk_seen s). between t d e
    \<Longrightarrow> disk_now s events_path = Some (log_of (take m (tx_old t @ tx_new t))) \<Longrightarrow> tx_old t @ tx_new t = pre @ post
    \<Longrightarrow> length (tx_old t) \<le> length pre \<Longrightarrow> length pre \<le> m \<Longrightarrow> m \<le> length (tx_old t @ tx_new t)
    \<Longrightarrow> wp (replay_events (Suc (length pre)) (map sorted_keys (take m (tx_old t @ tx_new t))) (map sorted_keys post)) Q E s"
proof (induction post arbitrary: pre m s)
  case Nil
  then show ?case using Q [of s] by (simp add: wp_simps)
next
  case (Cons v post)
  let ?all = "tx_old t @ tx_new t"
  have v: "?all ! length pre = v" "is_object v" using Cons.prems(5) t by (auto simp: txn_ok_def record_ok_def nth_append)
  have rest: "?all = (pre @ [v]) @ post" "length (tx_old t) \<le> length (pre @ [v])" using Cons.prems(5,6) by simp_all
  show ?case
  proof (cases "Suc (length pre) \<le> m")
    case True
    then have "map sorted_keys (take m ?all) ! length pre = sorted_keys v"
      using v(1) Cons.prems(8) by (simp del: take_append)
    with True v(2) Cons.IH [OF Cons.prems(1-4) rest] Cons.prems(8) show ?thesis
      by (simp add: wp_simps del: take_append map_append)
  next
    case False
    with Cons.prems(7) have m: "m = length pre" by simp
    with Cons.prems(5) have less: "m < length ?all" by simp
    have "wp (append_jsonl events_path (sorted_keys v)) (\<lambda>_. wp (replay_events (Suc (length (pre @ [v])))
        (map sorted_keys (take (Suc m) ?all)) (map sorted_keys post)) Q E) E s"
      using wp_append_event [OF t Cons.prems(1-4)] Cons.prems(6) Cons.IH [OF _ _ _ _ rest, of _ "Suc m"] m less v(1)
      by simp
    moreover have "map sorted_keys (take (Suc m) ?all) = map sorted_keys (take m ?all) @ [sorted_keys v]"
      using less m v(1) by (simp only: take_Suc_conv_app_nth map_append) simp
    ultimately show ?thesis using False v(2) m less by (simp add: wp_simps del: take_append map_append)
  qed
qed

lemma in_progress_completed:
  assumes "txn_ok t" "in_progress t d e" "written t e" "e events_path = Some (log_of (tx_old t @ tx_new t))"
  shows "e(marker_path := None) = completed t d"
proof
  fix q
  show "(e(marker_path := None)) q = completed t d q"
    using assms new_content_elsewhere [OF assms(1)]
    by (cases "new_content t q") (auto simp: completed_def in_progress_def written_def)
qed

lemma wp_recover:
  assumes t: "txn_ok t" and s: "in_progress t d (disk_now s)" "\<forall>e \<in> set (disk_seen s). between t d e"
  shows "wp (recover (tx_sha t)) (\<lambda>_ s'. disk_now s' = completed t d \<and> (\<forall>e \<in> set (disk_seen s'). between t d e)) (\<lambda>_ _. False) s"
proof -
  obtain content where content: "disk_now s marker_path = Some content" "tx_marker t = Some content"
    using s(1) by (auto simp: in_progress_def)
  obtain transaction where tr: "json_object content = Some transaction" "current_schema transaction"
    "marker_documents transaction = Some (stored_documents t)"
    "marker_tail transaction = Some (length (tx_old t), map sorted_keys (tx_new t))"
    using t content(2) by (rule marker_fields)
  let ?post = "\<lambda>(u :: unit) s'. disk_now s' = completed t d \<and> (\<forall>e \<in> set (disk_seen s'). between t d e)"
  let ?E = "\<lambda>_ _. False"
  have finish: "wp (bnd (existing_events (length (tx_old t))) (\<lambda>existing. bnd (deny (length existing < length (tx_old t)) Conflict) (\<lambda>_.
      bnd (replay_events (Suc (length (tx_old t))) existing (map sorted_keys (tx_new t))) (\<lambda>_. remove_file marker_path)))) ?post ?E s'"
    if s': "in_progress t d (disk_now s')" "written t (disk_now s')" "\<forall>e \<in> set (disk_seen s'). between t d e" "disk_now s' events_path \<noteq> None" for s'
    unfolding wp_bnd
  proof (rule wp_existing_events [OF t s'])
    fix s2 :: disk and k
    assume s2: "in_progress t d (disk_now s2)" "written t (disk_now s2)" "\<forall>e \<in> set (disk_seen s2). between t d e"
      and k: "k \<le> length (tx_new t)" and log: "disk_now s2 events_path = Some (log_of (tx_old t @ take k (tx_new t)))"
    have old: "tx_old t @ take k (tx_new t) = take (length (tx_old t) + k) (tx_old t @ tx_new t)" by simp
    have "wp (replay_events (Suc (length (tx_old t))) (map sorted_keys (tx_old t @ take k (tx_new t))) (map sorted_keys (tx_new t)))
        (\<lambda>_ s'. wp (remove_file marker_path) ?post ?E s') ?E s2"
      unfolding old
    proof (rule wp_replay_events [OF t _ s2, where pre = "tx_old t"])
      fix s3 :: disk
      assume s3: "in_progress t d (disk_now s3)" "written t (disk_now s3)" "\<forall>e \<in> set (disk_seen s3). between t d e"
        "disk_now s3 events_path = Some (log_of (tx_old t @ tx_new t))"
      from in_progress_completed [OF t s3(1,2,4)] s3(3) show "wp (remove_file marker_path) ?post ?E s3"
        by (auto simp: wp_remove_file between_def)
    next
      show "disk_now s2 events_path = Some (log_of (take (length (tx_old t) + k) (tx_old t @ tx_new t)))"
        using log by (simp only: old [symmetric])
    qed (simp_all add: k)
    then show "wp (deny (length (map sorted_keys (tx_old t @ take k (tx_new t))) < length (tx_old t)) Conflict)
        (\<lambda>x s. wp (replay_events (Suc (length (tx_old t))) (map sorted_keys (tx_old t @ take k (tx_new t))) (map sorted_keys (tx_new t)))
          (\<lambda>x. wp (remove_file marker_path) ?post ?E) ?E s) ?E s2" by (simp add: wp_simps)
  qed
  have "wp (for_each (replay_order (stored_documents t)) (replay_document (tx_sha t))) (\<lambda>_ s'.
      wp (bnd (if disk_now s' events_path = None then write_file events_path [] else ret ()) (\<lambda>_.
        bnd (existing_events (length (tx_old t))) (\<lambda>existing. bnd (deny (length existing < length (tx_old t)) Conflict) (\<lambda>_.
        bnd (replay_events (Suc (length (tx_old t))) existing (map sorted_keys (tx_new t))) (\<lambda>_. remove_file marker_path))))) ?post ?E s') ?E s"
  proof (rule wp_replay_documents [OF t s])
    fix s' :: disk
    assume s': "in_progress t d (disk_now s')" "written t (disk_now s')" "\<forall>e \<in> set (disk_seen s'). between t d e"
    show "wp (bnd (if disk_now s' events_path = None then write_file events_path [] else ret ()) (\<lambda>_.
        bnd (existing_events (length (tx_old t))) (\<lambda>existing. bnd (deny (length existing < length (tx_old t)) Conflict) (\<lambda>_.
        bnd (replay_events (Suc (length (tx_old t))) existing (map sorted_keys (tx_new t))) (\<lambda>_. remove_file marker_path))))) ?post ?E s'"
    proof (cases "disk_now s' events_path = None")
      case True
      then have "tx_old t = []" using s'(1) by (auto simp: in_progress_def log_cut_def)
      then have "in_progress t d ((disk_now s')(events_path := Some []))"
        using in_progress_log [OF t s'(1)] log_cut_prefix [of t 0] by simp
      with True s' written_log [OF t s'(2)] show ?thesis
        by (subst wp_bnd) (simp add: wp_write_file, rule finish, auto simp: between_def)
    next
      case False
      have "(if disk_now s' events_path = None then write_file events_path [] else ret ()) = ret ()" by (rule if_not_P) (rule False)
      then show ?thesis using finish [OF s' False] by (simp only: bnd_ret)
    qed
  qed
  with content(1) tr show ?thesis
    by (simp add: recover_def wp_bnd wp_reads wp_the_or wp_deny, elim wp_mono,
        simp_all add: wp_bnd wp_reads wp_the_or)
qed

section \<open>Crashes\<close>

text \<open>\<open>leaves m d e\<close>: a crash during \<open>m\<close>, started in directory \<open>d\<close>, or its end, can leave \<open>e\<close>.\<close>

definition leaves :: "(disk, 'a) prog \<Rightarrow> dir \<Rightarrow> dir \<Rightarrow> bool" where
  "leaves m d e \<longleftrightarrow> e \<in> set (disk_seen (snd (m (started d))))"

text \<open>Any number of recoveries, each cut off or not.\<close>

inductive recoveries :: "(bytes \<Rightarrow> ustring) \<Rightarrow> dir \<Rightarrow> dir \<Rightarrow> bool" for sha where
  none: "recoveries sha d d"
| more: "recoveries sha d e \<Longrightarrow> leaves (recover sha) e f \<Longrightarrow> recoveries sha d f"

text \<open>A directory without a pending commit, with the event log \<open>evs\<close>.\<close>

definition clean :: "dir \<Rightarrow> jdoc list \<Rightarrow> bool" where
  "clean d evs \<longleftrightarrow> d marker_path = None \<and> (d events_path = Some (log_of evs) \<or> d events_path = None \<and> evs = [])
     \<and> (\<forall>v \<in> set evs. record_ok v)"

definition commit_txn :: "(bytes \<Rightarrow> ustring) \<Rightarrow> staged \<Rightarrow> jdoc list \<Rightarrow> txn" where
  "commit_txn sha s evs = \<lparr>tx_sha = sha, tx_generation = Suc (st_generation s),
     tx_documents = the (staged_documents s), tx_old = evs, tx_new = st_tail s\<rparr>"

text \<open>What the session stages is well formed and follows the log \<open>evs\<close>.\<close>

definition staged_ok :: "(bytes \<Rightarrow> ustring) \<Rightarrow> staged \<Rightarrow> jdoc list \<Rightarrow> bool" where
  "staged_ok sha s evs \<longleftrightarrow> doc_ok (state_doc (Suc (st_generation s)) (st_state s)) \<and> st_base s = length evs
     \<and> txn_ok (commit_txn sha s evs)"

definition generation_of :: "dir \<Rightarrow> int option" where
  "generation_of d = (case d state_path of None \<Rightarrow> None
     | Some bs \<Rightarrow> (case json_object bs of None \<Rightarrow> None
        | Some v \<Rightarrow> (case field v ''generation'' of Some (DInt n) \<Rightarrow> Some n | _ \<Rightarrow> None)))"

lemma recover_clean: "d marker_path = None \<Longrightarrow> disk_now s = d \<Longrightarrow> recover sha s = (Inr (), s)"
  by (simp add: recover_def prog_simps)

lemma disk_generation_clean: "disk_now s marker_path = None \<Longrightarrow>
    disk_generation sha s = (case generation_of (disk_now s) of None \<Rightarrow> (Inl Conflict, s) | Some n \<Rightarrow> (Inr n, s))"
  by (auto simp: disk_generation_def generation_of_def prog_simps recover_clean split: option.split jdoc.split)

lemma staged_documents_ok:
  assumes "doc_ok (state_doc (Suc (st_generation s)) (st_state s))"
  obtains state where "staged_documents s = Some ((state_name, state) # st_documents s (Suc (st_generation s)))"
    "json_object state = Some (sorted_keys (state_doc (Suc (st_generation s)) (st_state s)))"
proof -
  let ?v = "state_doc (Suc (st_generation s)) (st_state s)"
  obtain bs where bs: "encoded_json ?v = Some bs" "decode_json bs = Some (sorted_keys ?v)" using assms by (rule encoded_json_ok)
  then have "json_bytes ?v = Some bs"
    by (auto simp: encoded_json_def verified_def json_bytes_def split: option.splits if_splits)
  moreover have "is_object (sorted_keys ?v)" by (simp add: is_object_def state_doc_def)
  ultimately show thesis using that bs(2) by (simp add: staged_documents_def json_object_def)
qed

text \<open>Once the marker is written the commit is in progress.\<close>

lemma marker_written:
  assumes "clean d evs" and t: "txn_ok t" "tx_old t = evs" "tx_marker t = Some content"
  shows "in_progress t d (d(marker_path := Some content))"
proof -
  have "log_cut t (d events_path)"
    using assms(1) t(2) log_cut_prefix [of t 0] by (auto simp: clean_def log_cut_def)
  with t(3) show ?thesis by (simp add: in_progress_def)
qed

lemma commit_run:
  assumes d: "clean d evs" and s: "staged_ok sha s evs"
  shows "\<exists>seen. (\<forall>e \<in> set seen. between (commit_txn sha s evs) d e) \<and> commit_files sha (s) (started d) =
    (if st_new s \<or> generation_of d = Some (int (st_generation s))
     then (Inr (), \<lparr>disk_now = completed (commit_txn sha s evs) d, disk_seen = seen\<rparr>)
     else (Inl Conflict, \<lparr>disk_now = d, disk_seen = seen\<rparr>))"
proof (cases "st_new s \<or> generation_of d = Some (int (st_generation s))")
  case True
  let ?t = "commit_txn sha s evs"
  have t: "txn_ok ?t" "tx_old ?t = evs" "tx_sha ?t = sha" using s by (simp_all add: staged_ok_def commit_txn_def)
  obtain state where docs: "staged_documents s = Some ((state_name, state) # st_documents s (Suc (st_generation s)))"
    using s by (auto simp: staged_ok_def elim: staged_documents_ok)
  let ?m = "marker_doc sha (Suc (st_generation s)) (the (staged_documents s)) (length evs) (st_tail s)"
  have marker: "tx_marker ?t = encoded_json ?m" by (simp add: tx_marker_def commit_txn_def)
  have "doc_ok ?m" using marker_doc_ok [OF t(1)] by (simp add: commit_txn_def)
  then obtain content where content: "encoded_json ?m = Some content" by (auto elim: encoded_json_ok)
  let ?d = "d(marker_path := Some content)"
  let ?s = "\<lparr>disk_now = ?d, disk_seen = [d, ?d]\<rparr>"
  have "in_progress ?t d ?d" using marker_written [OF d t(1,2)] content marker by simp
  then have "wp (recover (tx_sha ?t)) (\<lambda>_ s'. disk_now s' = completed ?t d \<and> (\<forall>e \<in> set (disk_seen s'). between ?t d e)) (\<lambda>_ _. False) ?s"
    by (intro wp_recover t) (simp_all add: between_def)
  then obtain s' where s': "recover sha ?s = (Inr (), s')" "disk_now s' = completed ?t d" "\<forall>e \<in> set (disk_seen s'). between ?t d e"
    unfolding t(3) by (auto simp: wp_def split: prod.splits sum.splits)
  have "d marker_path = None" using d by (simp add: clean_def)
  then have "commit_files sha s (started d) = recover sha ?s"
    using True docs content s
    by (auto simp: commit_files_def prog_simps started_def disk_generation_clean staged_ok_def write_file_def visit_def)
  with s' True show ?thesis by (intro exI [of _ "disk_seen s'"]) simp
next
  case False
  have "d marker_path = None" using d by (simp add: clean_def)
  then have "commit_files sha s (started d) = (Inl Conflict, \<lparr>disk_now = d, disk_seen = [d]\<rparr>)"
    using False by (auto simp: commit_files_def prog_simps started_def disk_generation_clean split: option.split)
  with False show ?thesis by (intro exI [of _ "[d]"]) (simp add: between_def)
qed

lemma recover_between:
  assumes d: "clean d evs" and t: "txn_ok t" and e: "between t d e" 
  shows "fst (recover (tx_sha t) (started e)) = Inr ()
    \<and> (disk_now (snd (recover (tx_sha t) (started e))) = (if e = d then d else completed t d))
    \<and> (\<forall>f \<in> set (disk_seen (snd (recover (tx_sha t) (started e)))). between t d f)"
proof (cases "e marker_path")
  case None
  have "d marker_path = None" "completed t d marker_path = None" using d by (simp_all add: clean_def completed_def)
  moreover have "e = d \<or> e = completed t d" using e None by (auto simp: between_def in_progress_def)
  ultimately show ?thesis using None e by (auto simp: recover_clean started_def)
next
  case (Some content)
  then have "in_progress t d e" "e \<noteq> d" using d e by (auto simp: between_def clean_def completed_def)
  then have "wp (recover (tx_sha t)) (\<lambda>_ s'. disk_now s' = completed t d \<and> (\<forall>e \<in> set (disk_seen s'). between t d e)) (\<lambda>_ _. False) (started e)"
    by (intro wp_recover t) (simp_all add: started_def between_def)
  with \<open>e \<noteq> d\<close> show ?thesis by (auto simp: wp_def split: prod.splits sum.splits)
qed

text \<open>
  C16: commits are atomic under crashes. Whatever point a commit is cut off at, between two writes or
  within an appended line, and however often the recoveries after it are cut off themselves, the next
  recovery succeeds and leaves the directory either as it was before the commit or with all
  documents of the commit and all its events, never anything in between.
\<close>
theorem commit_crash_atomic:
  assumes "clean d evs" and "staged_ok sha s evs" and "leaves (commit_files sha s) d e" and "recoveries sha e f"
  shows "\<exists>g seen. recover sha (started f) = (Inr (), \<lparr>disk_now = g, disk_seen = seen\<rparr>)
    \<and> (g = d \<or> g = completed (commit_txn sha s evs) d)"
proof -
  let ?t = "commit_txn sha s evs"
  have t: "txn_ok ?t" "tx_sha ?t = sha" using assms(2) by (simp_all add: staged_ok_def commit_txn_def)
  have "between ?t d e"
    using commit_run [OF assms(1,2)] assms(3) by (auto simp: leaves_def split: if_splits)
  with assms(4) have "between ?t d f"
  proof (induction rule: recoveries.induct)
    case (more d0 e' f')
    with recover_between [OF assms(1) t(1), of e'] show ?case by (auto simp: leaves_def t(2))
  qed
  from recover_between [OF assms(1) t(1) this] show ?thesis unfolding t(2)
    by (cases "recover sha (started f)") (metis disk.surjective fst_conv old.unit.exhaust snd_conv)
qed

text \<open>
  C17: what a completed commit is. On a directory without a pending commit, a session that created the
  capsule, or whose generation is the one on disk, returns from its commit with every document it
  staged in place, its events appended to the log, nothing else changed and no marker; a session with
  another generation gets a conflict and the directory is not touched.
\<close>
theorem commit_refines_atomic_update:
  assumes "clean d evs" and "staged_ok sha s evs"
  shows "\<exists>seen. commit_files sha s (started d) =
    (if st_new s \<or> generation_of d = Some (int (st_generation s))
     then (Inr (), \<lparr>disk_now = (\<lambda>q. if q = marker_path then None
             else if q = events_path then Some (log_of (evs @ st_tail s))
             else case map_of (map (\<lambda>(name, content). (path_parts name, content)) (the (staged_documents s))) q of
               Some content \<Rightarrow> Some content | None \<Rightarrow> d q), disk_seen = seen\<rparr>)
     else (Inl Conflict, \<lparr>disk_now = d, disk_seen = seen\<rparr>))"
proof -
  have "completed (commit_txn sha s evs) d = (\<lambda>q. if q = marker_path then None
             else if q = events_path then Some (log_of (evs @ st_tail s))
             else case map_of (map (\<lambda>(name, content). (path_parts name, content)) (the (staged_documents s))) q of
               Some content \<Rightarrow> Some content | None \<Rightarrow> d q)"
    by (auto simp: completed_def commit_txn_def new_content_def split: option.splits)
  with commit_run [OF assms] show ?thesis by auto
qed

lemma committed_clean:
  assumes "clean d evs" "staged_ok sha s evs"
  shows "clean (completed (commit_txn sha s evs) d) (evs @ st_tail s)"
    and "generation_of (completed (commit_txn sha s evs) d) = Some (int (Suc (st_generation s)))"
proof -
  let ?t = "commit_txn sha s evs"
  let ?v = "state_doc (Suc (st_generation s)) (st_state s)"
  have t: "txn_ok ?t" using assms(2) by (simp add: staged_ok_def)
  then show "clean (completed ?t d) (evs @ st_tail s)"
    by (auto simp: clean_def completed_def commit_txn_def txn_ok_def)
  obtain state where st: "staged_documents s = Some ((state_name, state) # st_documents s (Suc (st_generation s)))"
    "json_object state = Some (sorted_keys ?v)" using assms(2) by (auto simp: staged_ok_def elim: staged_documents_ok)
  then have "(state_name, state) \<in> set (tx_documents ?t)" by (simp add: commit_txn_def)
  from new_content_document [OF t this] have "completed ?t d state_path = Some state"
    by (simp add: completed_def state_name_path(2))
  moreover have "field (sorted_keys ?v) ''generation'' = Some (DInt (int (Suc (st_generation s))))"
  proof -
    have "distinct (map fst ((ascii ''schema_version'', DInt 1) # (ascii ''generation'', DInt (int (Suc (st_generation s)))) # st_state s))"
      using assms(2) unfolding staged_ok_def state_doc_def by (simp only: doc_ok_items(2))
    then show ?thesis unfolding state_doc_def by (subst field_sorted_keys) (simp_all add: field_def ascii_def)
  qed
  ultimately show "generation_of (completed ?t d) = Some (int (Suc (st_generation s)))"
    using st(2) by (simp add: generation_of_def)
qed

text \<open>
  C18: no update is lost. When two sessions have read the same generation of a capsule and one commits,
  the other's commit raises a conflict and leaves the first one's directory as it is.
\<close>
theorem stale_commit_refused:
  assumes "clean d evs" and "staged_ok sha first evs" and "\<not> st_new second" and "st_generation second = st_generation first"
    and "commit_files sha first (started d) = (Inr (), t)"
  shows "fst (commit_files sha second (started (disk_now t))) = Inl Conflict
    \<and> set (disk_seen (snd (commit_files sha second (started (disk_now t))))) = {disk_now t}"
proof -
  have t: "disk_now t = completed (commit_txn sha first evs) d"
    using commit_run [OF assms(1,2)] assms(5) by (auto split: if_splits)
  have "disk_now t marker_path = None" "generation_of (disk_now t) = Some (int (Suc (st_generation first)))"
    using committed_clean [OF assms(1,2)] unfolding t by (simp_all add: clean_def)
  with assms(3,4) show ?thesis
    by (simp add: commit_files_def prog_simps started_def disk_generation_clean)
qed

definition sample_staged :: staged where
  "sample_staged = \<lparr>st_new = True, st_generation = 0, st_state = [], st_documents = (\<lambda>_. []), st_base = 0,
     st_tail = [DObj [(ascii ''id'', DInt 1)]]\<rparr>"

lemma sample_staged_ok: "staged_ok (\<lambda>_. []) sample_staged []"
proof -
  have "doc_ok (state_doc 1 [])" by (simp add: state_doc_def ascii_def scalar_def)
  moreover from this have "doc_ok (state_doc (Suc (st_generation sample_staged)) (st_state sample_staged))"
    by (simp add: sample_staged_def)
  then obtain state where "staged_documents sample_staged
      = Some ((state_name, state) # st_documents sample_staged (Suc (st_generation sample_staged)))"
    by (rule staged_documents_ok)
  then have "staged_documents sample_staged = Some [(state_name, state)]" by (simp add: sample_staged_def)
  moreover have "list_all scalar state_name" by (simp add: state_name_def ascii_def scalar_def)
  then have "document_name_ok state_name" by (simp add: document_name_ok_def state_name_path)
  moreover have "record_ok (DObj [(ascii ''id'', DInt 1)])" by (simp add: record_ok_def is_object_def ascii_def scalar_def)
  ultimately show ?thesis unfolding staged_ok_def txn_ok_def commit_txn_def
    by (simp del: doc_ok.simps doc_ok_items) (simp add: sample_staged_def del: doc_ok.simps doc_ok_items)
qed

lemma clean_empty: "clean (\<lambda>_. None) []"
  by (simp add: clean_def)

text \<open>What has been seen stays seen.\<close>

definition sees_more :: "disk \<Rightarrow> disk \<Rightarrow> bool" where
  "sees_more s t \<longleftrightarrow> set (disk_seen s) \<subseteq> set (disk_seen t)"

interpretation seen: step_order sees_more
  by unfold_locales (auto simp: sees_more_def)

lemma keeps_visit: "keeps sees_more (visit d)"
  by (auto simp: keeps_def visit_def prog_simps sees_more_def)

lemma keeps_replay_events: "keeps sees_more (replay_events n existing tail)"
  by (induction n existing tail rule: replay_events.induct)
    (auto simp: append_jsonl_def append_bytes_def intro!: steps_intros keeps_visit)

lemma keeps_recover: "keeps sees_more (recover sha)"
  unfolding recover_def replay_document_def existing_events_def repair_file_def write_file_def remove_file_def
  by (intro steps_intros keeps_visit keeps_replay_events)

lemma sample_crash: "\<exists>content. leaves (commit_files (\<lambda>_. []) sample_staged) (\<lambda>_. None) ((\<lambda>_. None)(marker_path := Some content))"
proof -
  let ?t = "commit_txn (\<lambda>_. []) sample_staged []"
  have "txn_ok ?t" using sample_staged_ok by (simp add: staged_ok_def)
  from marker_doc_ok [OF this, of "tx_generation ?t" 0] obtain content
    where content: "encoded_json (marker_doc (\<lambda>_. []) 1 (the (staged_documents sample_staged)) 0 (st_tail sample_staged)) = Some content"
    by (auto simp: commit_txn_def sample_staged_def elim: encoded_json_ok)
  obtain docs where docs: "staged_documents sample_staged = Some docs"
    using sample_staged_ok by (auto simp: staged_ok_def elim: staged_documents_ok)
  let ?d = "(\<lambda>_. None)(marker_path := Some content) :: dir"
  let ?s = "\<lparr>disk_now = ?d, disk_seen = [\<lambda>_. None, ?d]\<rparr>"
  have "commit_files (\<lambda>_. []) sample_staged (started (\<lambda>_. None)) = recover (\<lambda>_. []) ?s"
    using content docs by (simp add: commit_files_def prog_simps started_def write_file_def visit_def sample_staged_def)
  moreover have "sees_more ?s (snd (recover (\<lambda>_. []) ?s))" using keeps_recover by (simp add: keeps_def)
  ultimately show ?thesis by (auto simp: leaves_def sees_more_def)
qed

theorem commit_crash_atomic_witness:
  "\<exists>e. e marker_path \<noteq> None \<and> leaves (commit_files (\<lambda>_. []) sample_staged) (\<lambda>_. None) e
    \<and> fst (recover (\<lambda>_. []) (started e)) = Inr ()"
proof -
  obtain content where e: "leaves (commit_files (\<lambda>_. []) sample_staged) (\<lambda>_. None) ((\<lambda>_. None)(marker_path := Some content))"
    using sample_crash by blast
  from commit_crash_atomic [OF clean_empty sample_staged_ok e recoveries.none] e show ?thesis
    by (intro exI [of _ "(\<lambda>_. None)(marker_path := Some content)"]) auto
qed

theorem commit_refines_atomic_update_witness:
  "\<exists>seen after. commit_files (\<lambda>_. []) sample_staged (started (\<lambda>_. None)) = (Inr (), \<lparr>disk_now = after, disk_seen = seen\<rparr>)
    \<and> after events_path = Some (log_of [DObj [(ascii ''id'', DInt 1)]])"
  using commit_refines_atomic_update [OF clean_empty sample_staged_ok] by (auto simp: sample_staged_def)

theorem stale_commit_refused_witness:
  "\<exists>t. commit_files (\<lambda>_. []) sample_staged (started (\<lambda>_. None)) = (Inr (), t)
    \<and> fst (commit_files (\<lambda>_. []) (sample_staged\<lparr>st_new := False\<rparr>) (started (disk_now t))) = Inl Conflict"
proof -
  have "st_new sample_staged" by (simp add: sample_staged_def)
  with commit_run [OF clean_empty sample_staged_ok] obtain t
    where t: "commit_files (\<lambda>_. []) sample_staged (started (\<lambda>_. None)) = (Inr (), t)" by auto
  from stale_commit_refused [OF clean_empty sample_staged_ok _ _ t, of "sample_staged\<lparr>st_new := False\<rparr>"] t
  show ?thesis by auto
qed

section \<open>Failed recoveries\<close>

definition marked :: "disk \<Rightarrow> bool" where
  "marked s \<longleftrightarrow> disk_now s marker_path \<noteq> None"

definition retry :: "err \<Rightarrow> disk \<Rightarrow> bool" where
  "retry e s \<longleftrightarrow> (e = Conflict \<or> e = ValueErr) \<and> marked s"

lemma retryI: "marked s \<Longrightarrow> retry Conflict s" "marked s \<Longrightarrow> retry ValueErr s"
  by (simp_all add: retry_def)

lemma marked_write: "marked s \<Longrightarrow> wp (write_file p c) (\<lambda>_. marked) E s"
  by (simp add: wp_write_file marked_def)

lemma marked_append: "marked s \<Longrightarrow> wp (append_bytes p c) (\<lambda>_. marked) E s"
proof -
  have "wp (for_each ks (\<lambda>k. visit (d(p \<mapsto> f k)))) (\<lambda>_. marked) E s" if "marked s" "d marker_path \<noteq> None" for d ks f
    by (rule wp_loop [where I = "\<lambda>_. marked"]) (use that in \<open>auto simp: wp_visit marked_def\<close>)
  then show "marked s \<Longrightarrow> wp (append_bytes p c) (\<lambda>_. marked) E s"
    by (simp add: append_bytes_def wp_simps marked_def)
qed

lemma marked_replay_events: "marked s \<Longrightarrow> wp (replay_events n existing tail) (\<lambda>_. marked) retry s"
proof (induction n existing tail arbitrary: s rule: replay_events.induct)
  case (2 position existing v tail)
  have "wp (append_jsonl events_path v) (\<lambda>_. wp (replay_events (Suc position) (existing @ [v]) tail) (\<lambda>_. marked) retry) retry s"
    if "\<not> position \<le> length existing"
  proof -
    have "wp (append_bytes events_path c) (\<lambda>_. wp (replay_events (Suc position) (existing @ [v]) tail) (\<lambda>_. marked) retry) retry s" for c
      using marked_append [OF 2(3)] 2(2) [OF that] by (rule wp_mono) simp_all
    with 2(3) show ?thesis by (simp add: append_jsonl_def wp_simps retryI split: option.split)
  qed
  with 2 show ?case by (auto simp: wp_simps retryI)
qed (simp add: wp_simps)

lemma marked_recover:
  assumes "marked s"
  shows "wp (recover sha) (\<lambda>_ s'. disk_now s' marker_path = None) retry s"
proof -
  have document: "wp (replay_document sha x) (\<lambda>_. marked) retry t" if "marked t" for x t
    using that by (cases x) (auto simp: replay_document_def wp_simps retry_def wp_write_file marked_def split: option.split)
  have documents: "wp (for_each xs (replay_document sha)) Q retry t" if "marked t" "\<And>t. marked t \<Longrightarrow> Q () t" for xs t Q
    using that by (intro wp_loop [where I = "\<lambda>_. marked"]) (auto intro: document)
  have existing: "wp (existing_events base) Q retry t" if "marked t" "\<And>vs t. marked t \<Longrightarrow> Q vs t" for base t Q
    using that by (auto simp: existing_events_def repair_file_def wp_simps retry_def wp_write_file marked_def split: option.split)
  have events: "wp (replay_events n vs tail) (\<lambda>_ s'. wp (remove_file marker_path) (\<lambda>_ s'. disk_now s' marker_path = None) retry s') retry t"
    if "marked t" for n vs tail t using marked_replay_events [OF that] by (rule wp_mono) (simp_all add: wp_remove_file)
  have rest: "wp (bnd (existing_events base) (\<lambda>existing. bnd (deny (length existing < base) Conflict) (\<lambda>_.
      bnd (replay_events (Suc base) existing tail) (\<lambda>_. remove_file marker_path)))) (\<lambda>_ s'. disk_now s' marker_path = None) retry t"
    if "marked t" for base tail t
    unfolding wp_bnd by (rule existing [OF that]) (simp add: wp_deny retry_def events)
  have create: "wp (bnd (if log = None then write_file events_path [] else ret ()) (\<lambda>_. bnd (existing_events base) (\<lambda>existing.
      bnd (deny (length existing < base) Conflict) (\<lambda>_. bnd (replay_events (Suc base) existing tail) (\<lambda>_. remove_file marker_path)))))
      (\<lambda>_ s'. disk_now s' marker_path = None) retry t" if "marked t" for log :: "bytes option" and base tail t
  proof (cases "log = None")
    case True
    then show ?thesis using rest [of _ base tail] that by (subst wp_bnd) (simp add: wp_write_file marked_def)
  next
    case False
    then have "(if log = None then write_file events_path [] else ret ()) = ret ()" by (rule if_not_P)
    then show ?thesis using rest [OF that, of base tail] by (simp only: bnd_ret)
  qed
  have "retry Conflict t" if "marked t" for t using that by (simp add: retry_def)
  with assms create show ?thesis
    by (auto simp: recover_def wp_bnd wp_reads wp_the_or wp_deny marked_def split: option.split intro!: documents)
qed

text \<open>
  C19: a recovery that fails loses nothing it still needs. From any directory, \<^verbatim>\<open>_recover\<close> either
  returns, and then there is no marker, or raises a conflict (or a format error for an event that
  cannot be encoded), and then the marker is still there for the next attempt.
\<close>
theorem failed_recovery_keeps_marker:
  "case recover sha (started d) of
     (Inr _, t) \<Rightarrow> disk_now t marker_path = None
   | (Inl e, t) \<Rightarrow> (e = Conflict \<or> e = ValueErr) \<and> disk_now t marker_path \<noteq> None"
proof (cases "d marker_path")
  case None
  then show ?thesis by (simp add: recover_clean started_def)
next
  case (Some content)
  then have "wp (recover sha) (\<lambda>_ s'. disk_now s' marker_path = None) retry (started d)"
    by (intro marked_recover) (simp add: marked_def started_def)
  then show ?thesis by (auto simp: wp_def retry_def marked_def split: prod.splits sum.splits)
qed

section \<open>Round trips\<close>

lemma append_jsonl_run:
  assumes "record_ok v"
  obtains t where "append_jsonl p v s = (Inr (), t)"
    "disk_now t = (disk_now s)(p \<mapsto> (case disk_now s p of None \<Rightarrow> [] | Some old \<Rightarrow> old) @ line v)"
proof -
  have enc: "encoded_json_line v = Some (line v)" using assms by (rule line_ok)
  let ?old = "case disk_now s p of None \<Rightarrow> [] | Some old \<Rightarrow> old"
  have "wp (for_each [0..<Suc (length (line v))] (\<lambda>k. visit ((disk_now s)(p \<mapsto> ?old @ take k (line v)))))
      (\<lambda>_ s'. disk_now s' = (disk_now s)(p \<mapsto> ?old @ line v)) (\<lambda>_ _. False) s"
    by (rule wp_loop [where I = "\<lambda>ks s'. ks \<noteq> [] \<longrightarrow> disk_now s' = (disk_now s)(p \<mapsto> ?old @ take (last ks) (line v))"])
      (auto simp: wp_visit)
  then have "wp (append_jsonl p v) (\<lambda>_ s'. disk_now s' = (disk_now s)(p \<mapsto> ?old @ line v)) (\<lambda>_ _. False) s"
    by (simp add: append_jsonl_def append_bytes_def wp_simps enc)
  with that show thesis by (auto simp: wp_def split: prod.splits sum.splits)
qed

lemma appended_more: "\<forall>v \<in> set vs. record_ok v \<Longrightarrow> disk_now s p = Some old \<Longrightarrow>
    \<exists>t. for_each vs (append_jsonl p) s = (Inr (), t) \<and> disk_now t = (disk_now s)(p \<mapsto> old @ log_of vs)"
proof (induction vs arbitrary: s old)
  case Nil
  then show ?case by (auto simp: prog_simps fun_eq_iff)
next
  case (Cons v vs)
  then have "record_ok v" by simp
  then obtain u where u: "append_jsonl p v s = (Inr (), u)"
    "disk_now u = (disk_now s)(p \<mapsto> (case disk_now s p of None \<Rightarrow> [] | Some old \<Rightarrow> old) @ line v)" by (rule append_jsonl_run)
  then have now: "disk_now u = (disk_now s)(p \<mapsto> old @ line v)" "disk_now u p = Some (old @ line v)"
    using Cons.prems(2) by simp_all
  then obtain t where "for_each vs (append_jsonl p) u = (Inr (), t)" "disk_now t = (disk_now u)(p \<mapsto> (old @ line v) @ log_of vs)"
    using Cons.IH [OF _ now(2)] Cons.prems(1) by (meson list.set_intros(2))
  moreover from this(2) have "disk_now t = (disk_now s)(p \<mapsto> old @ log_of (v # vs))"
    by (simp only: now(1) fun_upd_upd append_assoc log_of_simps)
  moreover have "for_each (v # vs) (append_jsonl p) s = (Inr (), t)" using calculation(1) u(1) by (simp add: prog_simps)
  ultimately show ?case by blast
qed

lemma appended_log:
  assumes "\<forall>v \<in> set vs. record_ok v" "d p = None" "vs \<noteq> []"
  obtains t where "for_each vs (append_jsonl p) (started d) = (Inr (), t)" "disk_now t = d(p \<mapsto> log_of vs)"
proof -
  obtain v ws where vs: "vs = v # ws" using assms(3) by (cases vs) auto
  with assms(1) have "record_ok v" by simp
  then obtain u where u: "append_jsonl p v (started d) = (Inr (), u)"
    "disk_now u = (disk_now (started d))(p \<mapsto> (case disk_now (started d) p of None \<Rightarrow> [] | Some old \<Rightarrow> old) @ line v)"
    by (rule append_jsonl_run)
  then have now: "disk_now u = d(p \<mapsto> line v)" using assms(2) by (simp add: started_def)
  then obtain t where "for_each ws (append_jsonl p) u = (Inr (), t)" "disk_now t = (disk_now u)(p \<mapsto> line v @ log_of ws)"
    using appended_more [of ws u p "line v"] assms(1) vs now by (metis fun_upd_same list.set_intros(2))
  moreover from this(2) have "disk_now t = d(p \<mapsto> log_of vs)"
    by (simp only: now fun_upd_upd log_of_simps vs)
  ultimately show thesis using that [of t] u(1) vs by (simp add: prog_simps)
qed

text \<open>
  C20: canonical JSON is read back. A document with distinct keys, no surrogates and floats by their
  literal is encoded, indented and as a line, to bytes that the strict decoder reads back as the same
  document with its keys in order; the line has no line break but its last byte.
\<close>
theorem json_round_trip:
  assumes "doc_ok v"
  shows "(\<exists>bs. encoded_json v = Some bs \<and> decode_json bs = Some (sorted_keys v))
    \<and> (\<exists>l. encoded_json_line v = Some (l @ [LF]) \<and> LF \<notin> set l \<and> CR \<notin> set l \<and> decode_json l = Some (sorted_keys v))"
proof -
  obtain bs where "encoded_json v = Some bs" "decode_json bs = Some (sorted_keys v)" using assms by (rule encoded_json_ok)
  moreover obtain l where "encoded_json_line v = Some (l @ [LF])" "LF \<notin> set l" "CR \<notin> set l" "decode_json l = Some (sorted_keys v)"
    using assms by (rule encoded_json_line_ok)
  ultimately show ?thesis by blast
qed

theorem json_round_trip_witness:
  "\<exists>bs. encoded_json (DObj [(ascii ''b'', DArr [DInt (- 2), DNull]), (ascii ''a'', DText [34, 10, 233])]) = Some bs
    \<and> decode_json bs = Some (DObj [(ascii ''a'', DText [34, 10, 233]), (ascii ''b'', DArr [DInt (- 2), DNull])])"
proof -
  have "doc_ok (DObj [(ascii ''b'', DArr [DInt (- 2), DNull]), (ascii ''a'', DText [34, 10, 233])])"
    by (simp add: ascii_def scalar_def)
  moreover have "sorted_keys (DObj [(ascii ''b'', DArr [DInt (- 2), DNull]), (ascii ''a'', DText [34, 10, 233])])
    = DObj [(ascii ''a'', DText [34, 10, 233]), (ascii ''b'', DArr [DInt (- 2), DNull])]"
    by (simp add: ascii_def)
  ultimately show ?thesis using json_round_trip by metis
qed

text \<open>
  C21: a log is read back. Appending records one after the other to a file that does not exist yet
  gives a file from which \<^verbatim>\<open>read_jsonl\<close> reads exactly those records in that order; when the append after
  them is cut off within its line, \<^verbatim>\<open>read_jsonl\<close> refuses the file and \<^verbatim>\<open>repair_jsonl_prefix\<close> for
  their number gives it back.
\<close>
theorem jsonl_round_trip:
  assumes vs: "\<forall>v \<in> set vs. doc_ok v \<and> is_object v" and p: "d p = None" "vs \<noteq> []"
    and w: "doc_ok w" "is_object w" "encoded_json_line w = Some l" "0 < k" "k < length l"
  shows "\<exists>t bs. for_each vs (append_jsonl p) (started d) = (Inr (), t) \<and> disk_now t = d(p \<mapsto> bs)
    \<and> read_jsonl (Some bs) = Some (map sorted_keys vs)
    \<and> read_jsonl (Some (bs @ take k l)) = None
    \<and> repair_jsonl (Some (bs @ take k l)) (length vs) = Some (map sorted_keys vs, Some bs)"
proof -
  have ok: "\<forall>v \<in> set vs. record_ok v" using vs by (simp add: record_ok_def)
  have "record_ok w" using w(1,2) by (simp add: record_ok_def)
  then obtain u where "line w = u @ [LF]" "LF \<notin> set u" "CR \<notin> set u" by (rule line_ok)
  with w(3) have u: "l = u @ [LF]" "LF \<notin> set u" "CR \<notin> set u" by (simp_all add: line_def)
  with w(4,5) have t: "take k l \<noteq> []" "LF \<notin> set (take k l)" "CR \<notin> set (take k l)"
    by (auto dest: in_set_takeD)
  obtain u' where "for_each vs (append_jsonl p) (started d) = (Inr (), u')" "disk_now u' = d(p \<mapsto> log_of vs)"
    using appended_log [of vs d p] ok p by blast
  moreover have "repair_jsonl (Some (log_of vs @ take k l)) (length vs) = Some (map sorted_keys vs, Some (log_of vs))"
    using repair_log [of vs "[]" "take k l"] ok t by simp
  ultimately show ?thesis using read_log [OF ok] read_torn_log [OF t(1,2)] by blast
qed

theorem jsonl_round_trip_witness:
  "\<exists>t bs. for_each [DObj [(ascii ''n'', DInt 7)]] (append_jsonl events_path) (started (\<lambda>_. None)) = (Inr (), t)
    \<and> disk_now t events_path = Some bs \<and> read_jsonl (Some bs) = Some [DObj [(ascii ''n'', DInt 7)]]"
proof -
  let ?v = "DObj [(ascii ''n'', DInt 7)]"
  have v: "doc_ok ?v" "is_object ?v" by (simp_all add: is_object_def ascii_def scalar_def)
  obtain l where l: "encoded_json_line ?v = Some (l @ [LF])" "l \<noteq> []" by (rule encoded_json_line_ok [OF v(1)])
  from jsonl_round_trip [of "[?v]" "\<lambda>_. None" events_path ?v "l @ [LF]" 1] v l show ?thesis by auto
qed

end
