(* ===== verification/Orq_Locking.thy ===== *)
theory Orq_Locking
  imports Orq_Prelude
begin

text \<open>
  \<^verbatim>\<open>persistence/filesystem/locking.py\<close>: advisory locks between the threads of many processes. A thread is a
  process with a thread identifier. Every operation is cut into the steps other threads can come
  between; a step under the condition of the gate is one step. Time is the number of ticks of the
  monotonic clock. A key is the normalised absolute path of a lock file; which file it names is a
  parameter, so that two keys may name the same file. \<^verbatim>\<open>flock\<close> gives a file to one open handle at a time;
  a closed handle has none.
\<close>

section \<open>The reentrant gate of a process\<close>

type_synonym thread = "nat \<times> nat"

record gate =
  gt_owner :: "nat option"
  gt_depth :: nat
  gt_waiters :: "nat list"

text \<open>
  A waiting thread stands for its \<^verbatim>\<open>waiter\<close> object. The outcome of a step of \<^verbatim>\<open>_ReentrantGate.acquire\<close>:
  the call returns True or False, or waits on the condition.
\<close>

datatype gate_answer = Granted | Refused | Waiting

definition gate_enter :: "nat \<Rightarrow> bool \<Rightarrow> bool \<Rightarrow> gate \<Rightarrow> gate_answer \<times> gate" where
  "gate_enter me no_wait expired g =
    (if gt_owner g = Some me then (Granted, g\<lparr>gt_depth := gt_depth g + 1\<rparr>)
     else if gt_owner g = None \<and> gt_waiters g = [] then
       if \<not> no_wait \<and> expired then (Refused, g) else (Granted, g\<lparr>gt_owner := Some me, gt_depth := 1\<rparr>)
     else if no_wait then (Refused, g)
     else (Waiting, g\<lparr>gt_waiters := gt_waiters g @ [me]\<rparr>))"

definition gate_wake :: "nat \<Rightarrow> bool \<Rightarrow> gate \<Rightarrow> gate_answer \<times> gate" where
  "gate_wake me expired g = (let left = g\<lparr>gt_waiters := remove1 me (gt_waiters g)\<rparr> in
     if gt_owner g \<noteq> None \<or> hd (gt_waiters g) \<noteq> me then if expired then (Refused, left) else (Waiting, g)
     else if expired then (Refused, left)
     else (Granted, left\<lparr>gt_owner := Some me, gt_depth := 1\<rparr>))"

text \<open>\<^verbatim>\<open>release\<close>; none if the thread is not the owner.\<close>

definition gate_release :: "nat \<Rightarrow> gate \<Rightarrow> gate option" where
  "gate_release me g = (if gt_owner g \<noteq> Some me then None
     else let d = gt_depth g - 1 in Some (g\<lparr>gt_depth := d, gt_owner := if d = 0 then None else gt_owner g\<rparr>))"

section \<open>File locks\<close>

record lock_state =
  ls_gate :: gate
  ls_handle :: "nat option"
  ls_depth :: nat

definition new_lock_state :: lock_state where
  "new_lock_state = \<lparr>ls_gate = \<lparr>gt_owner = None, gt_depth = 0, gt_waiters = []\<rparr>, ls_handle = None, ls_depth = 0\<rparr>"

record 'k file_lock =
  fl_process :: nat
  fl_key :: 'k
  fl_timeout :: nat
  fl_acquisitions :: nat

text \<open>
  Where a thread is: outside; in \<^verbatim>\<open>acquire\<close> of a lock, with its deadline, before the gate, at its
  entrance with the gate's own deadline, waiting in its queue, behind it, and trying the lock of an open
  handle; or in \<^verbatim>\<open>release\<close>, before it gives up the gate.
\<close>

datatype pc = Outside | Started nat nat | Entering nat nat nat | Queued nat nat nat | Gated nat nat
  | Polling nat nat nat | Leaving nat bool

record ('k, 'f) lock_system =
  sys_states :: "nat \<Rightarrow> 'k \<Rightarrow> lock_state option"
  sys_locks :: "'k file_lock list"
  sys_flock :: "'f \<Rightarrow> nat option"
  sys_pc :: "thread \<Rightarrow> pc"
  sys_handles :: nat
  sys_clock :: nat

definition no_locks :: "('k, 'f) lock_system" where
  "no_locks = \<lparr>sys_states = \<lambda>p k. None, sys_locks = [], sys_flock = \<lambda>f. None, sys_pc = \<lambda>t. Outside,
     sys_handles = 0, sys_clock = 0\<rparr>"

text \<open>\<^verbatim>\<open>_state_for\<close> finds the state of a path in the registry of the process, or adds it.\<close>

definition state_for :: "nat \<Rightarrow> 'k \<Rightarrow> ('k, 'f) lock_system \<Rightarrow> lock_state" where
  "state_for p k s = (case sys_states s p k of Some st \<Rightarrow> st | None \<Rightarrow> new_lock_state)"

definition put_state :: "nat \<Rightarrow> 'k \<Rightarrow> lock_state \<Rightarrow> ('k, 'f) lock_system \<Rightarrow> ('k, 'f) lock_system" where
  "put_state p k st s = s\<lparr>sys_states := (sys_states s)(p := (sys_states s p)(k := Some st))\<rparr>"

abbreviation gate_of :: "nat \<Rightarrow> 'k \<Rightarrow> ('k, 'f) lock_system \<Rightarrow> gate" where
  "gate_of p k s \<equiv> ls_gate (state_for p k s)"

definition put_gate :: "nat \<Rightarrow> 'k \<Rightarrow> gate \<Rightarrow> ('k, 'f) lock_system \<Rightarrow> ('k, 'f) lock_system" where
  "put_gate p k g s = put_state p k ((state_for p k s)\<lparr>ls_gate := g\<rparr>) s"

definition goes :: "thread \<Rightarrow> pc \<Rightarrow> ('k, 'f) lock_system \<Rightarrow> ('k, 'f) lock_system" where
  "goes t c s = s\<lparr>sys_pc := (sys_pc s)(t := c)\<rparr>"

definition put_acquisitions :: "nat \<Rightarrow> nat \<Rightarrow> ('k, 'f) lock_system \<Rightarrow> ('k, 'f) lock_system" where
  "put_acquisitions l n s = s\<lparr>sys_locks := (sys_locks s)[l := (sys_locks s ! l)\<lparr>fl_acquisitions := n\<rparr>]\<rparr>"

text \<open>
  How a call ends: the lock is acquired or released, \<^verbatim>\<open>LockTimeoutError\<close>, an error of the operating
  system, or the two \<^verbatim>\<open>RuntimeError\<close>s of \<^verbatim>\<open>release\<close>.
\<close>

datatype call_end = Acquired | Released | TimedOut | OsFailed | NotHeld | Inconsistent

text \<open>
  What a thread does next: construct a lock, call \<^verbatim>\<open>acquire\<close> or \<^verbatim>\<open>release\<close>, take the next step of the call
  it is in, or have that step fail: the condition of the gate is not got in time, the lock file cannot
  be opened, or the system refuses to lock it. The clock ticks by itself.
\<close>

datatype 'k move = New 'k nat | Acquire nat | Release nat | Continue | Fail | Tick

text \<open>\<^verbatim>\<open>finally: self._state.gate.release()\<close>\<close>

definition give_up :: "nat \<Rightarrow> nat \<Rightarrow> 'k \<Rightarrow> call_end \<Rightarrow> ('k, 'f) lock_system \<Rightarrow> (call_end option \<times> ('k, 'f) lock_system)" where
  "give_up p t k e s = (case gate_release t (gate_of p k s) of
     None \<Rightarrow> (Some NotHeld, goes (p, t) Outside s)
   | Some g \<Rightarrow> (Some e, goes (p, t) Outside (put_gate p k g s)))"

text \<open>The answer of the gate takes the thread behind it, into the queue, or out of \<^verbatim>\<open>acquire\<close>.\<close>

definition answered :: "nat \<Rightarrow> nat \<Rightarrow> 'k \<Rightarrow> nat \<Rightarrow> nat \<Rightarrow> nat \<Rightarrow> gate_answer \<times> gate \<Rightarrow> ('k, 'f) lock_system
    \<Rightarrow> (call_end option \<times> ('k, 'f) lock_system)" where
  "answered p t k l d g answer s = (case answer of
     (Granted, gt) \<Rightarrow> (None, goes (p, t) (Gated l d) (put_gate p k gt s))
   | (Refused, gt) \<Rightarrow> (Some TimedOut, goes (p, t) Outside (put_gate p k gt s))
   | (Waiting, gt) \<Rightarrow> (None, goes (p, t) (Queued l d g) (put_gate p k gt s)))"

definition release_call :: "nat \<Rightarrow> nat \<Rightarrow> nat \<Rightarrow> ('k \<Rightarrow> 'f) \<Rightarrow> ('k, 'f) lock_system \<Rightarrow> (call_end option \<times> ('k, 'f) lock_system)" where
  "release_call p t l file_of s = (let lk = sys_locks s ! l; k = fl_key lk; st = state_for p k s in
     if fl_acquisitions lk = 0 \<or> ls_depth st = 0 \<or> gt_owner (ls_gate st) \<noteq> Some t then (Some NotHeld, s)
     else let s1 = put_acquisitions l (fl_acquisitions lk - 1) s in
       if 1 < ls_depth st then (None, goes (p, t) (Leaving l True) (put_state p k (st\<lparr>ls_depth := ls_depth st - 1\<rparr>) s1))
       else let s2 = put_state p k (st\<lparr>ls_depth := 0, ls_handle := None\<rparr>) s1 in
         case ls_handle st of None \<Rightarrow> (None, goes (p, t) (Leaving l False) s2)
         | Some h \<Rightarrow> (None, goes (p, t) (Leaving l True) (s2\<lparr>sys_flock := (sys_flock s2)(file_of k := None)\<rparr>)))"

definition continue_call :: "nat \<Rightarrow> nat \<Rightarrow> ('k \<Rightarrow> 'f) \<Rightarrow> ('k, 'f) lock_system \<Rightarrow> (call_end option \<times> ('k, 'f) lock_system) option" where
  "continue_call p t file_of s = (let key = (\<lambda>l. fl_key (sys_locks s ! l)); timeout = (\<lambda>l. fl_timeout (sys_locks s ! l)) in
     case sys_pc s (p, t) of
       Outside \<Rightarrow> None
     | Started l d \<Rightarrow> Some (None, goes (p, t) (Entering l d (sys_clock s + timeout l)) s)
     | Entering l d g \<Rightarrow> Some (answered p t (key l) l d g (gate_enter t (timeout l = 0) (g \<le> sys_clock s) (gate_of p (key l) s)) s)
     | Queued l d g \<Rightarrow> Some (answered p t (key l) l d g (gate_wake t (g \<le> sys_clock s) (gate_of p (key l) s)) s)
     | Gated l d \<Rightarrow> Some (let st = state_for p (key l) s in
         if 0 < ls_depth st then (Some Acquired, goes (p, t) Outside
           (put_acquisitions l (fl_acquisitions (sys_locks s ! l) + 1) (put_state p (key l) (st\<lparr>ls_depth := ls_depth st + 1\<rparr>) s)))
         else (None, goes (p, t) (Polling l d (sys_handles s)) (s\<lparr>sys_handles := sys_handles s + 1\<rparr>)))
     | Polling l d h \<Rightarrow> Some (
         if sys_flock s (file_of (key l)) = None then (Some Acquired, goes (p, t) Outside (put_acquisitions l 1
           (put_state p (key l) ((state_for p (key l) s)\<lparr>ls_handle := Some h, ls_depth := 1\<rparr>)
             (s\<lparr>sys_flock := (sys_flock s)(file_of (key l) := Some h)\<rparr>))))
         else if d \<le> sys_clock s then give_up p t (key l) TimedOut s else (None, s))
     | Leaving l b \<Rightarrow> Some (give_up p t (key l) (if b then Released else Inconsistent) s))"

text \<open>\<^verbatim>\<open>Condition.acquire\<close> is only asked by threads that do not own the gate, and fails when the timeout is over.\<close>

definition failing_call :: "nat \<Rightarrow> nat \<Rightarrow> ('k, 'f) lock_system \<Rightarrow> (call_end option \<times> ('k, 'f) lock_system) option" where
  "failing_call p t s = (let key = (\<lambda>l. fl_key (sys_locks s ! l)) in
     case sys_pc s (p, t) of
       Entering l d g \<Rightarrow> if gt_owner (gate_of p (key l) s) \<noteq> Some t \<and> g \<le> sys_clock s
         then Some (Some TimedOut, goes (p, t) Outside s) else None
     | Gated l d \<Rightarrow> if ls_depth (state_for p (key l) s) = 0 then Some (give_up p t (key l) OsFailed s) else None
     | Polling l d h \<Rightarrow> Some (give_up p t (key l) OsFailed s)
     | _ \<Rightarrow> None)"

fun lock_move :: "('k \<Rightarrow> 'f) \<Rightarrow> thread \<Rightarrow> 'k move \<Rightarrow> ('k, 'f) lock_system \<Rightarrow> (call_end option \<times> ('k, 'f) lock_system) option" where
  "lock_move file_of (p, t) (New k timeout) s = (if sys_pc s (p, t) = Outside then
     Some (None, put_state p k (state_for p k s) (s\<lparr>sys_locks := sys_locks s @
       [\<lparr>fl_process = p, fl_key = k, fl_timeout = timeout, fl_acquisitions = 0\<rparr>]\<rparr>)) else None)"
| "lock_move file_of (p, t) (Acquire l) s = (if sys_pc s (p, t) = Outside \<and> l < length (sys_locks s) \<and> fl_process (sys_locks s ! l) = p
     then Some (None, goes (p, t) (Started l (sys_clock s + fl_timeout (sys_locks s ! l))) s) else None)"
| "lock_move file_of (p, t) (Release l) s = (if sys_pc s (p, t) = Outside \<and> l < length (sys_locks s) \<and> fl_process (sys_locks s ! l) = p
     then Some (release_call p t l file_of s) else None)"
| "lock_move file_of (p, t) Continue s = continue_call p t file_of s"
| "lock_move file_of (p, t) Fail s = failing_call p t s"
| "lock_move file_of (p, t) Tick s = Some (None, s\<lparr>sys_clock := sys_clock s + 1\<rparr>)"

inductive lock_reachable :: "('k \<Rightarrow> 'f) \<Rightarrow> ('k, 'f) lock_system \<Rightarrow> bool" for file_of where
  init: "lock_reachable file_of no_locks"
| move: "lock_reachable file_of s \<Longrightarrow> lock_move file_of t m s = Some (e, s') \<Longrightarrow> lock_reachable file_of s'"

text \<open>A thread holds a lock while it owns the gate of the path and the path is locked.\<close>

definition holds :: "thread \<Rightarrow> 'k \<Rightarrow> ('k, 'f) lock_system \<Rightarrow> bool" where
  "holds t k s \<longleftrightarrow> gt_owner (gate_of (fst t) k s) = Some (snd t) \<and> 0 < ls_depth (state_for (fst t) k s)"


section \<open>What every reachable state keeps\<close>

lemma state_for_put [simp]: "state_for p' k' (put_state p k st s) = (if p' = p \<and> k' = k then st else state_for p' k' s)"
  by (simp add: state_for_def put_state_def)

lemma state_for_more [simp]:
  "state_for p k (goes t c s) = state_for p k s"
  "state_for p k (put_acquisitions l n s) = state_for p k s"
  "state_for p k (s\<lparr>sys_flock := fl\<rparr>) = state_for p k s"
  "state_for p k (s\<lparr>sys_handles := n\<rparr>) = state_for p k s"
  "state_for p k (s\<lparr>sys_clock := n\<rparr>) = state_for p k s"
  "state_for p k (s\<lparr>sys_locks := ls\<rparr>) = state_for p k s"
  by (simp_all add: state_for_def goes_def put_acquisitions_def)

lemma sys_put [simp]:
  "sys_pc (put_state p k st s) = sys_pc s" "sys_locks (put_state p k st s) = sys_locks s"
  "sys_flock (put_state p k st s) = sys_flock s" "sys_handles (put_state p k st s) = sys_handles s"
  "sys_clock (put_state p k st s) = sys_clock s"
  by (simp_all add: put_state_def)

lemma sys_goes [simp]:
  "sys_pc (goes t c s) = (sys_pc s)(t := c)" "sys_locks (goes t c s) = sys_locks s"
  "sys_flock (goes t c s) = sys_flock s" "sys_handles (goes t c s) = sys_handles s" "sys_clock (goes t c s) = sys_clock s"
  by (simp_all add: goes_def)

lemma sys_put_acquisitions [simp]:
  "sys_pc (put_acquisitions l n s) = sys_pc s" "sys_flock (put_acquisitions l n s) = sys_flock s"
  "sys_handles (put_acquisitions l n s) = sys_handles s" "sys_clock (put_acquisitions l n s) = sys_clock s"
  "length (sys_locks (put_acquisitions l n s)) = length (sys_locks s)"
  by (simp_all add: put_acquisitions_def)

lemma locks_put_acquisitions [simp]:
  "fl_key (sys_locks (put_acquisitions l n s) ! i) = fl_key (sys_locks s ! i)"
  "fl_process (sys_locks (put_acquisitions l n s) ! i) = fl_process (sys_locks s ! i)"
  by (cases "l < length (sys_locks s)"; cases "i = l"; simp add: put_acquisitions_def list_update_beyond)+

fun lock_at :: "pc \<Rightarrow> nat option" where
  "lock_at Outside = None"
| "lock_at (Started l d) = Some l"
| "lock_at (Entering l d g) = Some l"
| "lock_at (Queued l d g) = Some l"
| "lock_at (Gated l d) = Some l"
| "lock_at (Polling l d h) = Some l"
| "lock_at (Leaving l b) = Some l"

text \<open>Behind the gate of a path, and in its queue.\<close>

fun past_gate :: "pc \<Rightarrow> bool" where
  "past_gate (Gated l d) = True"
| "past_gate (Polling l d h) = True"
| "past_gate (Leaving l b) = True"
| "past_gate _ = False"

fun in_queue :: "pc \<Rightarrow> bool" where
  "in_queue (Queued l d g) = True"
| "in_queue _ = False"

definition key_at :: "('k, 'f) lock_system \<Rightarrow> pc \<Rightarrow> 'k option" where
  "key_at s c = map_option (\<lambda>l. fl_key (sys_locks s ! l)) (lock_at c)"

definition inside :: "('k, 'f) lock_system \<Rightarrow> nat \<Rightarrow> 'k \<Rightarrow> nat set" where
  "inside s p k = {t. past_gate (sys_pc s (p, t)) \<and> key_at s (sys_pc s (p, t)) = Some k}"

definition queued :: "('k, 'f) lock_system \<Rightarrow> nat \<Rightarrow> 'k \<Rightarrow> nat set" where
  "queued s p k = {t. in_queue (sys_pc s (p, t)) \<and> key_at s (sys_pc s (p, t)) = Some k}"

definition calls_ok :: "('k, 'f) lock_system \<Rightarrow> bool" where
  "calls_ok s \<longleftrightarrow> (\<forall>p t l. lock_at (sys_pc s (p, t)) = Some l \<longrightarrow> l < length (sys_locks s) \<and> fl_process (sys_locks s ! l) = p)"

definition gate_ok :: "nat set \<Rightarrow> nat set \<Rightarrow> lock_state \<Rightarrow> bool" where
  "gate_ok ins que st \<longleftrightarrow>
     (case gt_owner (ls_gate st) of
        None \<Rightarrow> gt_depth (ls_gate st) = 0 \<and> ls_depth st = 0 \<and> ins = {}
      | Some w \<Rightarrow> 0 < gt_depth (ls_gate st) \<and> gt_depth (ls_gate st) = ls_depth st + of_bool (w \<in> ins) \<and> ins \<subseteq> {w})
     \<and> distinct (gt_waiters (ls_gate st)) \<and> set (gt_waiters (ls_gate st)) = que"

definition acquisitions :: "nat \<Rightarrow> 'k \<Rightarrow> ('k, 'f) lock_system \<Rightarrow> nat" where
  "acquisitions p k s = sum_list (map fl_acquisitions (filter (\<lambda>lk. fl_process lk = p \<and> fl_key lk = k) (sys_locks s)))"

definition polls :: "('k, 'f) lock_system \<Rightarrow> thread \<Rightarrow> nat \<Rightarrow> bool" where
  "polls s t h \<longleftrightarrow> (\<exists>l d. sys_pc s t = Polling l d h)"

definition handles_ok :: "('k \<Rightarrow> 'f) \<Rightarrow> ('k, 'f) lock_system \<Rightarrow> bool" where
  "handles_ok file_of s \<longleftrightarrow>
     (\<forall>p k. (ls_handle (state_for p k s) = None) = (ls_depth (state_for p k s) = 0))
     \<and> (\<forall>p k h. ls_handle (state_for p k s) = Some h \<longrightarrow> sys_flock s (file_of k) = Some h \<and> h < sys_handles s)
     \<and> (\<forall>f h. sys_flock s f = Some h \<longrightarrow> (\<exists>p k. file_of k = f \<and> ls_handle (state_for p k s) = Some h))
     \<and> (\<forall>p k q j h. ls_handle (state_for p k s) = Some h \<and> ls_handle (state_for q j s) = Some h \<longrightarrow> p = q \<and> k = j)
     \<and> (\<forall>t h. polls s t h \<longrightarrow> h < sys_handles s \<and> (\<forall>p k. ls_handle (state_for p k s) \<noteq> Some h) \<and> (\<forall>u. polls s u h \<longrightarrow> u = t))
     \<and> (\<forall>p t l d h. sys_pc s (p, t) = Polling l d h \<longrightarrow> ls_depth (state_for p (fl_key (sys_locks s ! l)) s) = 0)
     \<and> (\<forall>t l b. sys_pc s t = Leaving l b \<longrightarrow> b)"

definition locks_ok :: "('k \<Rightarrow> 'f) \<Rightarrow> ('k, 'f) lock_system \<Rightarrow> bool" where
  "locks_ok file_of s \<longleftrightarrow> calls_ok s \<and> (\<forall>p k. gate_ok (inside s p k) (queued s p k) (state_for p k s))
     \<and> handles_ok file_of s \<and> (\<forall>p k. ls_depth (state_for p k s) = acquisitions p k s)"

section \<open>Steps of the gate\<close>

lemma gate_entered:
  assumes "gate_ok ins que st" "t \<notin> ins" "t \<notin> que"
  shows "case gate_enter t z e (ls_gate st) of
      (Granted, g) \<Rightarrow> gate_ok (insert t ins) que (st\<lparr>ls_gate := g\<rparr>)
    | (Refused, g) \<Rightarrow> g = ls_gate st
    | (Waiting, g) \<Rightarrow> gate_ok ins (insert t que) (st\<lparr>ls_gate := g\<rparr>)"
  using assms by (cases "gt_owner (ls_gate st)") (auto simp: gate_enter_def gate_ok_def)

lemma gate_woken:
  assumes "gate_ok ins que st" "t \<notin> ins" "t \<in> que"
  shows "case gate_wake t e (ls_gate st) of
      (Granted, g) \<Rightarrow> gate_ok (insert t ins) (que - {t}) (st\<lparr>ls_gate := g\<rparr>)
    | (Refused, g) \<Rightarrow> gate_ok ins (que - {t}) (st\<lparr>ls_gate := g\<rparr>)
    | (Waiting, g) \<Rightarrow> g = ls_gate st"
  using assms by (cases "gt_owner (ls_gate st)") (auto simp: gate_wake_def gate_ok_def Let_def)

lemma gate_released:
  assumes "gate_ok ins que st" "t \<in> ins"
  shows "\<exists>g. gate_release t (ls_gate st) = Some g \<and> gate_ok (ins - {t}) que (st\<lparr>ls_gate := g\<rparr>)"
proof (cases "gt_owner (ls_gate st)")
  case (Some w)
  with assms have "w = t" by (auto simp: gate_ok_def)
  with assms Some show ?thesis by (auto simp: gate_release_def gate_ok_def Let_def)
qed (use assms in \<open>simp add: gate_ok_def\<close>)

lemma gate_deeper:
  assumes "gate_ok ins que st" "t \<in> ins" and st': "ls_gate st' = ls_gate st" "ls_depth st' = ls_depth st + 1"
  shows "gate_ok (ins - {t}) que st'"
proof (cases "gt_owner (ls_gate st)")
  case (Some w)
  with assms have "w = t" by (auto simp: gate_ok_def)
  with assms Some show ?thesis by (auto simp: gate_ok_def)
qed (use assms in \<open>simp add: gate_ok_def\<close>)

lemma gate_leaving:
  assumes "gate_ok ins que st" "t \<notin> ins" "gt_owner (ls_gate st) = Some t" "0 < ls_depth st"
    and st': "ls_gate st' = ls_gate st" "ls_depth st' = ls_depth st - 1"
  shows "gate_ok (insert t ins) que st'"
  using assms by (auto simp: gate_ok_def)

text \<open>A step of one thread at one path keeps the gates of all other paths.\<close>

lemma gates_kept:
  assumes "\<forall>p k. gate_ok (inside s p k) (queued s p k) (state_for p k s)"
    and "sys_pc s' = (sys_pc s)((p, t) := c)" and "\<And>i. i < length (sys_locks s) \<Longrightarrow> fl_key (sys_locks s' ! i) = fl_key (sys_locks s ! i)"
    and "calls_ok s" and "\<And>l. lock_at c = Some l \<Longrightarrow> l < length (sys_locks s)"
    and "\<And>q j. (q, j) \<noteq> (p, k) \<Longrightarrow> state_for q j s' = state_for q j s"
    and "\<And>j. key_at s (sys_pc s (p, t)) = Some j \<Longrightarrow> past_gate (sys_pc s (p, t)) \<or> in_queue (sys_pc s (p, t)) \<Longrightarrow> j = k"
    and "\<And>j. key_at s c = Some j \<Longrightarrow> past_gate c \<or> in_queue c \<Longrightarrow> j = k"
    and "key_at s c = Some k \<or> \<not> past_gate c \<and> \<not> in_queue c"
    and "gate_ok (if past_gate c then insert t (inside s p k) else inside s p k - {t})
      (if in_queue c then insert t (queued s p k) else queued s p k - {t}) (state_for p k s')"
  shows "\<forall>p k. gate_ok (inside s' p k) (queued s' p k) (state_for p k s')"
proof (intro allI)
  fix q j
  have keys: "key_at s' (sys_pc s u) = key_at s (sys_pc s u)" for u
    using assms(3,4) by (cases u; cases "lock_at (sys_pc s u)") (auto simp: key_at_def calls_ok_def)
  have new: "key_at s' c = key_at s c" using assms(3,5) by (cases "lock_at c") (auto simp: key_at_def)
  show "gate_ok (inside s' q j) (queued s' q j) (state_for q j s')"
  proof (cases "(q, j) = (p, k)")
    case True
    have "inside s' p k = (if past_gate c then insert t (inside s p k) else inside s p k - {t})"
      "queued s' p k = (if in_queue c then insert t (queued s p k) else queued s p k - {t})"
      using assms(2,9) keys new by (auto simp: inside_def queued_def)
    with assms(10) True show ?thesis by simp
  next
    case False
    then have "inside s' q j = inside s q j" "queued s' q j = queued s q j"
      using assms(2,7,8) keys new by (auto simp: inside_def queued_def)
    with assms(1,6) False show ?thesis by simp
  qed
qed


lemma locks_okD:
  assumes "locks_ok file_of s"
  shows "calls_ok s" "gate_ok (inside s p k) (queued s p k) (state_for p k s)" "handles_ok file_of s"
    and "ls_depth (state_for p k s) = acquisitions p k s"
  using assms by (simp_all add: locks_ok_def)

lemma handles_okD:
  assumes "handles_ok file_of s"
  shows "ls_handle (state_for p k s) = None \<longleftrightarrow> ls_depth (state_for p k s) = 0"
    and "ls_handle (state_for p k s) = Some h \<Longrightarrow> sys_flock s (file_of k) = Some h \<and> h < sys_handles s"
    and "sys_flock s f = Some h \<Longrightarrow> \<exists>p k. file_of k = f \<and> ls_handle (state_for p k s) = Some h"
    and "ls_handle (state_for p k s) = Some h \<Longrightarrow> ls_handle (state_for q j s) = Some h \<Longrightarrow> p = q \<and> k = j"
    and "polls s u h \<Longrightarrow> h < sys_handles s \<and> ls_handle (state_for p k s) \<noteq> Some h"
    and "polls s u h \<Longrightarrow> polls s v h \<Longrightarrow> u = v"
    and "sys_pc s (p, t) = Polling l d h \<Longrightarrow> ls_depth (state_for p (fl_key (sys_locks s ! l)) s) = 0"
    and "sys_pc s u = Leaving l b \<Longrightarrow> b"
  using assms unfolding handles_ok_def by - (elim conjE, meson)+

lemma calls_kept:
  assumes "calls_ok s" "sys_pc s' = (sys_pc s)((p, t) := c)" "length (sys_locks s) \<le> length (sys_locks s')"
    and "\<And>i. i < length (sys_locks s) \<Longrightarrow> fl_process (sys_locks s' ! i) = fl_process (sys_locks s ! i)"
    and "\<And>l. lock_at c = Some l \<Longrightarrow> l < length (sys_locks s) \<and> fl_process (sys_locks s ! l) = p"
  shows "calls_ok s'"
  unfolding calls_ok_def
proof (intro allI impI)
  fix q u l
  assume l: "lock_at (sys_pc s' (q, u)) = Some l"
  show "l < length (sys_locks s') \<and> fl_process (sys_locks s' ! l) = q"
  proof (cases "(q, u) = (p, t)")
    case True
    with assms(2-5) l show ?thesis by fastforce
  next
    case False
    with assms(1,2) l have "l < length (sys_locks s) \<and> fl_process (sys_locks s ! l) = q"
      by (auto simp: calls_ok_def)
    with assms(3,4) show ?thesis by fastforce
  qed
qed

text \<open>A step that changes no more than where the thread is and the gate of its path.\<close>

lemma quiet_step:
  assumes ok: "locks_ok file_of s"
    and pc: "sys_pc s' = (sys_pc s)((p, t) := c)" and locks: "sys_locks s' = sys_locks s"
    and flock: "sys_flock s' = sys_flock s" and handles: "sys_handles s' = sys_handles s"
    and other: "\<And>q j. (q, j) \<noteq> (p, k) \<Longrightarrow> state_for q j s' = state_for q j s"
    and here: "state_for p k s' = (state_for p k s)\<lparr>ls_gate := g\<rparr>"
    and new: "\<And>l. lock_at c = Some l \<Longrightarrow> l < length (sys_locks s) \<and> fl_process (sys_locks s ! l) = p \<and> fl_key (sys_locks s ! l) = k"
    and old: "\<And>j. key_at s (sys_pc s (p, t)) = Some j \<Longrightarrow> j = k"
    and calm: "\<And>l d h. c \<noteq> Polling l d h" "\<And>l b. c = Leaving l b \<Longrightarrow> b"
    and gate: "gate_ok (if past_gate c then insert t (inside s p k) else inside s p k - {t})
      (if in_queue c then insert t (queued s p k) else queued s p k - {t}) ((state_for p k s)\<lparr>ls_gate := g\<rparr>)"
  shows "locks_ok file_of s'"
proof -
  have same: "ls_handle (state_for q j s') = ls_handle (state_for q j s)" "ls_depth (state_for q j s') = ls_depth (state_for q j s)" for q j
    using other here by (cases "(q, j) = (p, k)"; auto)+
  have "calls_ok s'" using locks_okD(1) [OF ok] pc by (rule calls_kept) (use locks new in auto)
  moreover have "\<forall>p k. gate_ok (inside s' p k) (queued s' p k) (state_for p k s')"
  proof (rule gates_kept [where s = s and p = p and t = t and c = c and k = k])
    show "key_at s c = Some k \<or> \<not> past_gate c \<and> \<not> in_queue c"
      using new by (cases c) (auto simp: key_at_def)
    show "gate_ok (if past_gate c then insert t (inside s p k) else inside s p k - {t})
      (if in_queue c then insert t (queued s p k) else queued s p k - {t}) (state_for p k s')"
      using gate here by simp
  qed (use ok pc locks other old new in \<open>auto simp: locks_ok_def key_at_def\<close>)
  moreover have "handles_ok file_of s'"
  proof -
    have poll: "polls s' u h \<Longrightarrow> polls s u h" for u h using pc calm(1) by (auto simp: polls_def split: if_splits)
    have at: "sys_pc s' u = Polling l d h \<Longrightarrow> sys_pc s u = Polling l d h" for u l d h using pc calm(1) by (auto split: if_splits)
    have lv: "sys_pc s' u = Leaving l b \<Longrightarrow> b" for u l b
      using pc calm(2) handles_okD(8) [OF locks_okD(3) [OF ok], of u l b] by (cases "u = (p, t)") auto
    show ?thesis using locks_okD(3) [OF ok] poll at lv
      unfolding handles_ok_def same flock handles locks by (elim conjE, intro conjI; meson)
  qed
  moreover have "acquisitions q j s' = acquisitions q j s" for q j by (simp add: acquisitions_def locks)
  ultimately show ?thesis using ok by (simp add: locks_ok_def same)
qed


section \<open>Every move keeps the invariant\<close>

lemma acquisitions_put:
  assumes "l < length (sys_locks s)"
  shows "acquisitions q j (put_acquisitions l n s) =
      (if fl_process (sys_locks s ! l) = q \<and> fl_key (sys_locks s ! l) = j
       then acquisitions q j s + n - fl_acquisitions (sys_locks s ! l) else acquisitions q j s)"
proof -
  let ?w = "\<lambda>lk. if fl_process lk = q \<and> fl_key lk = j then fl_acquisitions lk else 0"
  have sum: "acquisitions q j u = sum_list (map ?w (sys_locks u))" for u :: "('a, 'b) lock_system"
    by (simp add: acquisitions_def sum_list_map_filter')
  show ?thesis
    using assms elem_le_sum_list [of l "map ?w (sys_locks s)"]
    by (auto simp: sum put_acquisitions_def map_update sum_list_update)
qed

lemma acquisitions_le: "l < length (sys_locks s) \<Longrightarrow> fl_process (sys_locks s ! l) = p \<Longrightarrow> fl_key (sys_locks s ! l) = k \<Longrightarrow>
    fl_acquisitions (sys_locks s ! l) \<le> acquisitions p k s"
  unfolding acquisitions_def by (rule member_le_sum_list) auto

lemma acquisitions_more [simp]:
  "acquisitions p k (put_state q j st s) = acquisitions p k s"
  "acquisitions p k (goes t c s) = acquisitions p k s"
  "acquisitions p k (s\<lparr>sys_flock := fl\<rparr>) = acquisitions p k s"
  "acquisitions p k (s\<lparr>sys_handles := n\<rparr>) = acquisitions p k s"
  "acquisitions p k (s\<lparr>sys_clock := n\<rparr>) = acquisitions p k s"
  by (simp_all add: acquisitions_def)

text \<open>A step that changes the depth of the path of a thread, its handle or the lock on the file.\<close>

lemma depth_step:
  assumes ok: "locks_ok file_of s"
    and pc: "sys_pc s' = (sys_pc s)((p, t) := c)"
    and locks: "length (sys_locks s') = length (sys_locks s)"
      "\<And>i. fl_process (sys_locks s' ! i) = fl_process (sys_locks s ! i)" "\<And>i. fl_key (sys_locks s' ! i) = fl_key (sys_locks s ! i)"
    and other: "\<And>q j. (q, j) \<noteq> (p, k) \<Longrightarrow> state_for q j s' = state_for q j s"
    and new: "\<And>l. lock_at c = Some l \<Longrightarrow> l < length (sys_locks s) \<and> fl_process (sys_locks s ! l) = p \<and> fl_key (sys_locks s ! l) = k"
    and old: "\<And>j. key_at s (sys_pc s (p, t)) = Some j \<Longrightarrow> j = k"
    and gate: "gate_ok (if past_gate c then insert t (inside s p k) else inside s p k - {t})
      (if in_queue c then insert t (queued s p k) else queued s p k - {t}) (state_for p k s')"
    and sums: "ls_depth (state_for p k s') = acquisitions p k s'"
      "\<And>q j. (q, j) \<noteq> (p, k) \<Longrightarrow> acquisitions q j s' = acquisitions q j s"
    and handles: "handles_ok file_of s'"
  shows "locks_ok file_of s'"
proof -
  have "calls_ok s'" using locks_okD(1) [OF ok] pc by (rule calls_kept) (use locks new in auto)
  moreover have "\<forall>p k. gate_ok (inside s' p k) (queued s' p k) (state_for p k s')"
  proof (rule gates_kept [where s = s and p = p and t = t and c = c and k = k])
    show "key_at s c = Some k \<or> \<not> past_gate c \<and> \<not> in_queue c"
      using new by (cases c) (auto simp: key_at_def)
  qed (use ok pc locks other old new gate in \<open>auto simp: locks_ok_def key_at_def\<close>)
  moreover have "ls_depth (state_for q j s') = acquisitions q j s'" for q j
    using sums other locks_okD(4) [OF ok, of q j] by (cases "(q, j) = (p, k)") auto
  ultimately show ?thesis using handles by (simp add: locks_ok_def)
qed

lemma alone: "locks_ok file_of s \<Longrightarrow> t \<in> inside s p k \<Longrightarrow> u \<in> inside s p k \<Longrightarrow> t = u"
  by (drule locks_okD(2) [of _ _ p k]) (auto simp: gate_ok_def split: option.splits)

text \<open>Where a thread behind the gate stands.\<close>

lemma behind_gate:
  assumes ok: "locks_ok file_of s" and l: "lock_at (sys_pc s (p, t)) = Some l"
  shows "l < length (sys_locks s)" "fl_process (sys_locks s ! l) = p" "key_at s (sys_pc s (p, t)) = Some (fl_key (sys_locks s ! l))"
    and "past_gate (sys_pc s (p, t)) \<Longrightarrow> t \<in> inside s p (fl_key (sys_locks s ! l))"
    and "past_gate (sys_pc s (p, t)) \<Longrightarrow> gt_owner (ls_gate (state_for p (fl_key (sys_locks s ! l)) s)) = Some t"
proof -
  show "l < length (sys_locks s)" "fl_process (sys_locks s ! l) = p" using assms by (auto simp: locks_ok_def calls_ok_def)
  show key: "key_at s (sys_pc s (p, t)) = Some (fl_key (sys_locks s ! l))" using l by (simp add: key_at_def)
  show member: "t \<in> inside s p (fl_key (sys_locks s ! l))" if "past_gate (sys_pc s (p, t))"
    using that key by (simp add: inside_def)
  show "gt_owner (ls_gate (state_for p (fl_key (sys_locks s ! l)) s)) = Some t" if "past_gate (sys_pc s (p, t))"
    using member [OF that] locks_okD(2) [OF ok, of p "fl_key (sys_locks s ! l)"]
    by (auto simp: gate_ok_def split: option.splits)
qed

lemma not_inside:
  "\<not> past_gate (sys_pc s (p, t)) \<Longrightarrow> t \<notin> inside s p k"
  "\<not> in_queue (sys_pc s (p, t)) \<Longrightarrow> t \<notin> queued s p k"
  by (simp_all add: inside_def queued_def)


lemma sys_put_gate [simp]:
  "sys_pc (put_gate p k g s) = sys_pc s" "sys_locks (put_gate p k g s) = sys_locks s"
  "sys_flock (put_gate p k g s) = sys_flock s" "sys_handles (put_gate p k g s) = sys_handles s"
  "state_for q j (put_gate p k g s) = (if q = p \<and> j = k then (state_for p k s)\<lparr>ls_gate := g\<rparr> else state_for q j s)"
  by (simp_all add: put_gate_def)

text \<open>Before the gate and its queue.\<close>

lemma outer_step:
  assumes ok: "locks_ok file_of s" and "\<not> past_gate (sys_pc s (p, t))" "\<not> in_queue (sys_pc s (p, t))"
    and "\<not> past_gate c" "\<not> in_queue c"
    and new: "\<And>l. lock_at c = Some l \<Longrightarrow> l < length (sys_locks s) \<and> fl_process (sys_locks s ! l) = p \<and> fl_key (sys_locks s ! l) = k"
    and old: "\<And>j. key_at s (sys_pc s (p, t)) = Some j \<Longrightarrow> j = k"
  shows "locks_ok file_of (goes (p, t) c s)"
proof (rule quiet_step [OF ok, where p = p and t = t and c = c and k = k and g = "ls_gate (state_for p k s)"])
  show "gate_ok (if past_gate c then insert t (inside s p k) else inside s p k - {t})
      (if in_queue c then insert t (queued s p k) else queued s p k - {t}) ((state_for p k s)\<lparr>ls_gate := ls_gate (state_for p k s)\<rparr>)"
    using assms(2-5) locks_okD(2) [OF ok, of p k] by (simp add: not_inside)
qed (use assms in \<open>auto\<close>)

lemma given_up:
  assumes ok: "locks_ok file_of s" and l: "lock_at (sys_pc s (p, t)) = Some l" and past: "past_gate (sys_pc s (p, t))"
  shows "fst (give_up p t (fl_key (sys_locks s ! l)) e s) = Some e \<and> locks_ok file_of (snd (give_up p t (fl_key (sys_locks s ! l)) e s))"
proof -
  let ?k = "fl_key (sys_locks s ! l)"
  obtain g where g: "gate_release t (gate_of p ?k s) = Some g"
      "gate_ok (inside s p ?k - {t}) (queued s p ?k) ((state_for p ?k s)\<lparr>ls_gate := g\<rparr>)"
    using gate_released [OF locks_okD(2) [OF ok] behind_gate(4) [OF ok l past]] by blast
  have "\<not> in_queue (sys_pc s (p, t))" using past by (cases "sys_pc s (p, t)") auto
  then have "locks_ok file_of (goes (p, t) Outside (put_gate p ?k g s))"
    using g(2) behind_gate(3) [OF ok l]
    by (intro quiet_step [OF ok, where p = p and t = t and c = Outside and k = ?k and g = g]) (auto simp: not_inside)
  with g(1) show ?thesis by (simp add: give_up_def)
qed

lemma gate_step:
  assumes ok: "locks_ok file_of s" and at: "lock_at (sys_pc s (p, t)) = Some l" and k: "k = fl_key (sys_locks s ! l)"
    and c: "lock_at c = Some l \<or> c = Outside" and calm: "\<And>l d h. c \<noteq> Polling l d h" "\<And>l b. c = Leaving l b \<Longrightarrow> b"
    and gate: "gate_ok (if past_gate c then insert t (inside s p k) else inside s p k - {t})
      (if in_queue c then insert t (queued s p k) else queued s p k - {t}) ((state_for p k s)\<lparr>ls_gate := g\<rparr>)"
  shows "locks_ok file_of (goes (p, t) c (put_gate p k g s))"
proof (rule quiet_step [OF ok, where p = p and t = t and c = c and k = k and g = g])
  show "l' < length (sys_locks s) \<and> fl_process (sys_locks s ! l') = p \<and> fl_key (sys_locks s ! l') = k" if "lock_at c = Some l'" for l'
    using that c k behind_gate(1,2) [OF ok at] by auto
  show "j = k" if "key_at s (sys_pc s (p, t)) = Some j" for j using that k behind_gate(3) [OF ok at] by simp
qed (use calm gate in auto)

lemma answer_step:
  assumes ok: "locks_ok file_of s" and l: "lock_at (sys_pc s (p, t)) = Some l" and out: "\<not> past_gate (sys_pc s (p, t))"
    and k: "k = fl_key (sys_locks s ! l)"
    and answer: "case answer of
        (Granted, g) \<Rightarrow> gate_ok (insert t (inside s p k)) (queued s p k - {t}) ((state_for p k s)\<lparr>ls_gate := g\<rparr>)
      | (Refused, g) \<Rightarrow> gate_ok (inside s p k) (queued s p k - {t}) ((state_for p k s)\<lparr>ls_gate := g\<rparr>)
      | (Waiting, g) \<Rightarrow> gate_ok (inside s p k) (insert t (queued s p k)) ((state_for p k s)\<lparr>ls_gate := g\<rparr>)"
  shows "locks_ok file_of (snd (answered p t k l d dl answer s))"
proof -
  note step = gate_step [OF ok l k]
  obtain a g where a: "answer = (a, g)" by (cases answer)
  show ?thesis
    using a answer step [of "Gated l d" g] step [of Outside g] step [of "Queued l d dl" g] not_inside(1) [OF out, of k]
    by (cases a) (simp_all add: answered_def)
qed

lemma polls_goes: "polls (goes (p, t) c s) u h \<longleftrightarrow> (if u = (p, t) then \<exists>l d. c = Polling l d h else polls s u h)"
  by (cases u) (auto simp: polls_def)

lemma handles_okI:
  assumes "\<And>p k. ls_handle (state_for p k s) = None \<longleftrightarrow> ls_depth (state_for p k s) = 0"
    and "\<And>p k h. ls_handle (state_for p k s) = Some h \<Longrightarrow> sys_flock s (file_of k) = Some h \<and> h < sys_handles s"
    and "\<And>f h. sys_flock s f = Some h \<Longrightarrow> \<exists>p k. file_of k = f \<and> ls_handle (state_for p k s) = Some h"
    and "\<And>p k q j h. ls_handle (state_for p k s) = Some h \<Longrightarrow> ls_handle (state_for q j s) = Some h \<Longrightarrow> p = q \<and> k = j"
    and "\<And>u h p k. polls s u h \<Longrightarrow> h < sys_handles s \<and> ls_handle (state_for p k s) \<noteq> Some h"
    and "\<And>u v h. polls s u h \<Longrightarrow> polls s v h \<Longrightarrow> u = v"
    and "\<And>p t l d h. sys_pc s (p, t) = Polling l d h \<Longrightarrow> ls_depth (state_for p (fl_key (sys_locks s ! l)) s) = 0"
    and "\<And>u l b. sys_pc s u = Leaving l b \<Longrightarrow> b"
  shows "handles_ok file_of s"
  unfolding handles_ok_def using assms by (intro conjI allI impI; (elim conjE)?; metis)

lemma opened:
  assumes ok: "locks_ok file_of s" and pc: "sys_pc s (p, t) = Gated l d" and zero: "ls_depth (state_for p (fl_key (sys_locks s ! l)) s) = 0"
  shows "locks_ok file_of (goes (p, t) (Polling l d (sys_handles s)) (s\<lparr>sys_handles := sys_handles s + 1\<rparr>))"
proof (rule depth_step [OF ok, where p = p and t = t and c = "Polling l d (sys_handles s)" and k = "fl_key (sys_locks s ! l)"])
  have at: "lock_at (sys_pc s (p, t)) = Some l" "past_gate (sys_pc s (p, t))" "\<not> in_queue (sys_pc s (p, t))" using pc by simp_all
  note here = behind_gate [OF ok at(1)] handles_okD [OF locks_okD(3) [OF ok]]
  show "gate_ok (if past_gate (Polling l d (sys_handles s)) then insert t (inside s p (fl_key (sys_locks s ! l))) else inside s p (fl_key (sys_locks s ! l)) - {t})
      (if in_queue (Polling l d (sys_handles s)) then insert t (queued s p (fl_key (sys_locks s ! l))) else queued s p (fl_key (sys_locks s ! l)) - {t})
      (state_for p (fl_key (sys_locks s ! l)) (goes (p, t) (Polling l d (sys_handles s)) (s\<lparr>sys_handles := sys_handles s + 1\<rparr>)))"
    using locks_okD(2) [OF ok] here(4) at(2,3) by (simp add: insert_absorb not_inside)
  show "handles_ok file_of (goes (p, t) (Polling l d (sys_handles s)) (s\<lparr>sys_handles := sys_handles s + 1\<rparr>))"
    apply (rule handles_okI)
    subgoal using here(6) by simp
    subgoal using here(7) by (auto simp: less_Suc_eq)
    subgoal using here(8) by simp
    subgoal using here(9) by auto
    subgoal using here(7,10) by (auto simp: polls_goes polls_def less_Suc_eq split: if_splits)
    subgoal for u v h
      using here(10) [of u h] here(10) [of v h] here(11) [of u h v] by (auto simp: polls_goes polls_def split: if_splits)
    subgoal using here(12) zero by (auto split: if_splits)
    subgoal for u i b using here(13) [of u i b] by (auto split: if_splits)
    done
qed (use behind_gate [OF ok, of p t l] locks_okD(4) [OF ok] pc in \<open>auto\<close>)


lemma deepened:
  assumes ok: "locks_ok file_of s" and pc: "sys_pc s (p, t) = Gated l d" and k: "k = fl_key (sys_locks s ! l)"
    and deep: "0 < ls_depth (state_for p k s)"
  shows "locks_ok file_of (goes (p, t) Outside (put_acquisitions l (fl_acquisitions (sys_locks s ! l) + 1)
      (put_state p k ((state_for p k s)\<lparr>ls_depth := ls_depth (state_for p k s) + 1\<rparr>) s)))"
    (is "locks_ok _ ?s'")
proof (rule depth_step [OF ok, where p = p and t = t and c = Outside and k = k])
  have at: "lock_at (sys_pc s (p, t)) = Some l" "past_gate (sys_pc s (p, t))" "\<not> in_queue (sys_pc s (p, t))" using pc by simp_all
  note here = behind_gate [OF ok at(1)] handles_okD [OF locks_okD(3) [OF ok]]
  show "gate_ok (if past_gate Outside then insert t (inside s p k) else inside s p k - {t})
      (if in_queue Outside then insert t (queued s p k) else queued s p k - {t}) (state_for p k ?s')"
    using gate_deeper [OF locks_okD(2) [OF ok, of p k], of t "state_for p k ?s'"] here(4) at(2,3) k
    by (simp add: not_inside)
  show "ls_depth (state_for p k ?s') = acquisitions p k ?s'"
    using here(1,2) k locks_okD(4) [OF ok, of p k] acquisitions_le [OF here(1,2)] by (simp add: acquisitions_put)
  show "acquisitions q j ?s' = acquisitions q j s" if "(q, j) \<noteq> (p, k)" for q j
    using that here(1,2) k by (auto simp: acquisitions_put)
  show "j = k" if "key_at s (sys_pc s (p, t)) = Some j" for j using that here(3) k by simp
  show "handles_ok file_of ?s'"
    apply (rule handles_okI)
    subgoal using here(6) deep by simp
    subgoal using here(7) by (simp split: if_splits)
    subgoal for f h using here(8) [of f h] by auto
    subgoal for q j q' j' g using here(9) [of q j g q' j'] by (auto split: if_splits)
    subgoal for u h q j using here(10) [of u h] by (simp add: polls_goes polls_def split: if_splits)
    subgoal for u v h using here(11) [of u h v] by (simp add: polls_goes polls_def split: if_splits)
    subgoal for q u i e h using here(12) [of q u i e h] deep by (auto split: if_splits)
    subgoal for u i b using here(13) [of u i b] by (simp split: if_splits)
    done
qed (auto)

lemma locked_file:
  assumes ok: "locks_ok file_of s" and pc: "sys_pc s (p, t) = Polling l d h" and k: "k = fl_key (sys_locks s ! l)"
    and free: "sys_flock s (file_of k) = None"
  shows "locks_ok file_of (goes (p, t) Outside (put_acquisitions l 1
      (put_state p k ((state_for p k s)\<lparr>ls_handle := Some h, ls_depth := 1\<rparr>) (s\<lparr>sys_flock := (sys_flock s)(file_of k := Some h)\<rparr>))))"
    (is "locks_ok _ ?s'")
proof (rule depth_step [OF ok, where p = p and t = t and c = Outside and k = k])
  have at: "lock_at (sys_pc s (p, t)) = Some l" "past_gate (sys_pc s (p, t))" "\<not> in_queue (sys_pc s (p, t))" using pc by simp_all
  note here = behind_gate [OF ok at(1)] handles_okD [OF locks_okD(3) [OF ok]]
  have zero: "ls_depth (state_for p k s) = 0" using here(12) [OF pc] k by simp
  have mine: "polls s (p, t) h" using pc by (auto simp: polls_def)
  show "gate_ok (if past_gate Outside then insert t (inside s p k) else inside s p k - {t})
      (if in_queue Outside then insert t (queued s p k) else queued s p k - {t}) (state_for p k ?s')"
    using gate_deeper [OF locks_okD(2) [OF ok, of p k], of t "state_for p k ?s'"] here(4) at(2,3) k zero by (simp add: not_inside)
  show "ls_depth (state_for p k ?s') = acquisitions p k ?s'"
    using here(1,2) k zero locks_okD(4) [OF ok, of p k] acquisitions_le [OF here(1,2)] by (simp add: acquisitions_put)
  show "acquisitions q j ?s' = acquisitions q j s" if "(q, j) \<noteq> (p, k)" for q j
    using that here(1,2) k by (auto simp: acquisitions_put)
  show "j = k" if "key_at s (sys_pc s (p, t)) = Some j" for j using that here(3) k by simp
  have elsewhere: "file_of j \<noteq> file_of k" if "ls_handle (state_for q j s) = Some g" for q j g
    using here(7) [OF that] free by auto
  show "handles_ok file_of ?s'"
    apply (rule handles_okI)
    subgoal using here(6) by simp
    subgoal for q j g using here(7) [of q j g] here(10) [OF mine] elsewhere [of q j g] by (simp split: if_splits)
    subgoal for f g
    proof (cases "f = file_of k")
      assume "sys_flock ?s' f = Some g" "f = file_of k"
      then show ?thesis by (intro exI [of _ p] exI [of _ k]) simp
    next
      assume "sys_flock ?s' f = Some g" and f: "f \<noteq> file_of k"
      then obtain q j where "file_of j = f" "ls_handle (state_for q j s) = Some g" using here(8) [of f g] by auto
      with f show ?thesis by (intro exI [of _ q] exI [of _ j]) auto
    qed
    subgoal for q j q' j' g using here(9) [of q j g q' j'] here(10) [OF mine, of q j] here(10) [OF mine, of q' j']
      by (auto split: if_splits)
    subgoal for u g q j using here(10) [of u g q j] here(11) [OF mine, of u] by (auto simp: polls_goes polls_def split: if_splits)
    subgoal for u v g using here(11) [of u g v] by (simp add: polls_goes polls_def split: if_splits)
    subgoal for q u i e g
    proof -
      assume "sys_pc ?s' (q, u) = Polling i e g"
      then have u: "(q, u) \<noteq> (p, t)" "sys_pc s (q, u) = Polling i e g" by (auto split: if_splits)
      have "\<not> (q = p \<and> fl_key (sys_locks s ! i) = k)"
      proof
        assume "q = p \<and> fl_key (sys_locks s ! i) = k"
        with u(2) have "u \<in> inside s p k" by (simp add: inside_def key_at_def)
        moreover have "t \<in> inside s p k" using here(4) [OF at(2)] k by simp
        ultimately have "u = t" by (intro alone [OF ok])
        with u(1) \<open>q = p \<and> fl_key (sys_locks s ! i) = k\<close> show False by simp
      qed
      with here(12) [OF u(2)] show ?thesis by auto
    qed
    subgoal for u i b using here(13) [of u i b] by (simp split: if_splits)
    done
qed (auto)


lemma released:
  assumes ok: "locks_ok file_of s" and pc: "sys_pc s (p, t) = Outside"
    and l: "l < length (sys_locks s)" "fl_process (sys_locks s ! l) = p"
  shows "locks_ok file_of (snd (release_call p t l file_of s))"
proof -
  define k where "k = fl_key (sys_locks s ! l)"
  let ?st = "state_for p k s" and ?n = "fl_acquisitions (sys_locks s ! l)"
  note here = handles_okD [OF locks_okD(3) [OF ok]]
  have out: "t \<notin> inside s p k" "t \<notin> queued s p k" using pc by (simp_all add: not_inside)
  show ?thesis
  proof (cases "?n = 0 \<or> ls_depth ?st = 0 \<or> gt_owner (ls_gate ?st) \<noteq> Some t")
    case True
    with ok show ?thesis by (simp add: release_call_def Let_def k_def)
  next
    case False
    then have deep: "0 < ?n" "0 < ls_depth ?st" "gt_owner (ls_gate ?st) = Some t" by auto
    define st' where "st' = (if 1 < ls_depth ?st then ?st\<lparr>ls_depth := ls_depth ?st - 1\<rparr> else ?st\<lparr>ls_depth := 0, ls_handle := None\<rparr>)"
    define fl where "fl = (if 1 < ls_depth ?st then sys_flock s else (sys_flock s)(file_of k := None))"
    define s' where "s' = goes (p, t) (Leaving l True) ((put_state p k st' (put_acquisitions l (?n - 1) s))\<lparr>sys_flock := fl\<rparr>)"
    obtain h where h: "ls_handle ?st = Some h" using deep(2) here(1) [of p k] by auto
    have result: "snd (release_call p t l file_of s) = s'"
      using deep h by (auto simp: release_call_def Let_def k_def [symmetric] s'_def st'_def fl_def goes_def put_state_def put_acquisitions_def)
    have "locks_ok file_of s'"
    proof (rule depth_step [OF ok, where p = p and t = t and c = "Leaving l True" and k = k])
      show "gate_ok (if past_gate (Leaving l True) then insert t (inside s p k) else inside s p k - {t})
          (if in_queue (Leaving l True) then insert t (queued s p k) else queued s p k - {t}) (state_for p k s')"
        using gate_leaving [OF locks_okD(2) [OF ok, of p k] out(1) deep(3,2), of st'] out(2) by (simp add: s'_def st'_def)
      show "ls_depth (state_for p k s') = acquisitions p k s'"
        using l deep(1,2) locks_okD(4) [OF ok, of p k] acquisitions_le [OF l k_def [symmetric]]
        by (simp add: s'_def st'_def acquisitions_put k_def [symmetric])
      show "acquisitions q j s' = acquisitions q j s" if "(q, j) \<noteq> (p, k)" for q j
        using that l by (auto simp: s'_def acquisitions_put k_def [symmetric])
      show "j = k" if "key_at s (sys_pc s (p, t)) = Some j" for j using that pc by (simp add: key_at_def)
      have only: "j = k \<and> q = p" if "ls_handle (state_for q j s) = Some g" "file_of j = file_of k" for q j g
        using here(2) [OF that(1)] here(2) [OF h] here(4) [of q j g p k] that h by auto
      show "handles_ok file_of s'"
        apply (rule handles_okI)
        subgoal for q j using here(1) [of q j] by (auto simp: s'_def st'_def h)
        subgoal for q j g using here(2) [of q j g] only [of q j g] by (auto simp: s'_def st'_def fl_def split: if_splits)
        subgoal for f g
        proof -
          assume f: "sys_flock s' f = Some g"
          then obtain q j where qj: "file_of j = f" "ls_handle (state_for q j s) = Some g"
            using here(3) [of f g] by (auto simp: s'_def fl_def split: if_splits)
          have "1 < ls_depth ?st \<or> (q, j) \<noteq> (p, k)" using f qj(1) by (auto simp: s'_def fl_def split: if_splits)
          with qj show ?thesis by (intro exI [of _ q] exI [of _ j]) (auto simp: s'_def st'_def)
        qed
        subgoal for q j q' j' g using here(4) [of q j g q' j'] by (auto simp: s'_def st'_def split: if_splits)
        subgoal for u g q j using here(5) [of u g q j] by (auto simp: s'_def st'_def polls_goes polls_def split: if_splits)
        subgoal for u v g using here(6) [of u g v] by (simp add: s'_def polls_goes polls_def split: if_splits)
        subgoal for q u i e g using here(7) [of q u i e g] deep(2) by (auto simp: s'_def st'_def split: if_splits)
        subgoal for u i b using here(8) [of u i b] by (simp add: s'_def split: if_splits)
        done
    qed (use l in \<open>auto simp: s'_def k_def\<close>)
    with result show ?thesis by simp
  qed
qed

lemma constructed:
  assumes ok: "locks_ok file_of s"
  shows "locks_ok file_of (put_state p k (state_for p k s) (s\<lparr>sys_locks := sys_locks s @
       [\<lparr>fl_process = p, fl_key = k, fl_timeout = n, fl_acquisitions = 0\<rparr>]\<rparr>))" (is "locks_ok _ ?s'")
proof -
  have at: "lock_at (sys_pc s (q, t)) = Some l \<Longrightarrow> l < length (sys_locks s)" for q t l
    using ok by (auto simp: locks_ok_def calls_ok_def)
  note here = handles_okD [OF locks_okD(3) [OF ok]]
  have state: "state_for q j ?s' = state_for q j s" for q j by simp
  have sys: "sys_pc ?s' = sys_pc s" "sys_flock ?s' = sys_flock s" "sys_handles ?s' = sys_handles s"
    "\<And>i. i < length (sys_locks s) \<Longrightarrow> sys_locks ?s' ! i = sys_locks s ! i" by (simp_all add: nth_append)
  have keys: "key_at ?s' (sys_pc s (q, t)) = key_at s (sys_pc s (q, t))" for q t
    using at [of q t] by (cases "lock_at (sys_pc s (q, t))") (simp_all add: key_at_def nth_append)
  have same: "inside ?s' = inside s" "queued ?s' = queued s"
    by (simp_all add: inside_def queued_def fun_eq_iff keys sys)
  have "handles_ok file_of ?s'"
    apply (rule handles_okI; unfold state sys polls_def)
    subgoal for q j by (rule here(1))
    subgoal for q j g by (rule here(2))
    subgoal for f g by (rule here(3))
    subgoal for q j q' j' g by (rule here(4))
    subgoal for u g q j by (rule here(5)) (simp add: polls_def)
    subgoal for u v g by (rule here(6)) (simp_all add: polls_def)
    subgoal for q u i e g using here(7) [of q u i e g] at [of q u i] by (simp add: nth_append)
    subgoal for u i b by (rule here(8))
    done
  moreover have "calls_ok ?s'"
    using ok by (auto simp: locks_ok_def calls_ok_def nth_append intro: less_SucI)
  moreover have "acquisitions q j ?s' = acquisitions q j s" for q j by (simp add: acquisitions_def)
  ultimately show ?thesis using ok by (simp add: locks_ok_def same)
qed


lemma locks_ok_clock: "locks_ok file_of (s\<lparr>sys_clock := n\<rparr>) = locks_ok file_of s"
  by (simp add: locks_ok_def calls_ok_def handles_ok_def polls_def inside_def queued_def key_at_def)

lemma continued:
  assumes ok: "locks_ok file_of s" and step: "continue_call p t file_of s = Some (e, s')"
  shows "locks_ok file_of s'"
proof -
  let ?k = "\<lambda>l. fl_key (sys_locks s ! l)"
  have gate: "gate_ok (inside s p k) (queued s p k) (state_for p k s)" for k by (rule locks_okD(2) [OF ok])
  show ?thesis
  proof (cases "sys_pc s (p, t)")
    case Outside
    with step show ?thesis by (simp add: continue_call_def)
  next
    case (Started l d)
    then have at: "lock_at (sys_pc s (p, t)) = Some l" by simp
    from Started step have s': "s' = goes (p, t) (Entering l d (sys_clock s + fl_timeout (sys_locks s ! l))) s"
      by (simp add: continue_call_def)
    show ?thesis unfolding s'
      using behind_gate(1-3) [OF ok at] Started by (intro outer_step [OF ok, where k = "?k l"]) auto
  next
    case (Entering l d g)
    then have at: "lock_at (sys_pc s (p, t)) = Some l" by simp
    from Entering step have s': "s' = snd (answered p t (?k l) l d g
        (gate_enter t (fl_timeout (sys_locks s ! l) = 0) (g \<le> sys_clock s) (gate_of p (?k l) s)) s)"
      by (auto simp: continue_call_def Let_def dest: arg_cong [where f = snd])
    have out: "t \<notin> inside s p (?k l)" "t \<notin> queued s p (?k l)" using Entering by (simp_all add: not_inside)
    show ?thesis unfolding s'
      using gate_entered [OF gate out, of "fl_timeout (sys_locks s ! l) = 0" "g \<le> sys_clock s"] gate [of "?k l"] out
      by (intro answer_step [OF ok at]) (auto simp: Entering split: prod.splits gate_answer.splits)
  next
    case (Queued l d g)
    then have at: "lock_at (sys_pc s (p, t)) = Some l" by simp
    from Queued step have s': "s' = snd (answered p t (?k l) l d g (gate_wake t (g \<le> sys_clock s) (gate_of p (?k l) s)) s)"
      by (auto simp: continue_call_def Let_def dest: arg_cong [where f = snd])
    have out: "t \<notin> inside s p (?k l)" "t \<in> queued s p (?k l)"
      using Queued behind_gate(3) [OF ok at] by (simp_all add: not_inside queued_def)
    show ?thesis unfolding s'
      using gate_woken [OF gate out, of "g \<le> sys_clock s"] gate [of "?k l"] out
      by (intro answer_step [OF ok at]) (auto simp: Queued insert_absorb split: prod.splits gate_answer.splits)
  next
    case (Gated l d)
    with step show ?thesis
      using deepened [OF ok Gated refl] opened [OF ok Gated] by (auto simp: continue_call_def Let_def split: if_splits)
  next
    case (Polling l d h)
    then have at: "lock_at (sys_pc s (p, t)) = Some l" "past_gate (sys_pc s (p, t))" by simp_all
    from Polling step show ?thesis
      using locked_file [OF ok Polling refl] given_up [OF ok at, of TimedOut] ok
      by (auto simp: continue_call_def Let_def split: if_splits dest: arg_cong [where f = snd])
  next
    case (Leaving l b)
    then have at: "lock_at (sys_pc s (p, t)) = Some l" "past_gate (sys_pc s (p, t))" by simp_all
    from Leaving step have "s' = snd (give_up p t (?k l) (if b then Released else Inconsistent) s)"
      by (auto simp: continue_call_def Let_def dest: arg_cong [where f = snd])
    with given_up [OF ok at] show ?thesis by blast
  qed
qed

lemma failed_call:
  assumes ok: "locks_ok file_of s" and step: "failing_call p t s = Some (e, s')"
  shows "locks_ok file_of s'"
proof (cases "lock_at (sys_pc s (p, t))")
  case None
  with step show ?thesis by (cases "sys_pc s (p, t)") (simp_all add: failing_call_def)
next
  case (Some l)
  show ?thesis
  proof (cases "past_gate (sys_pc s (p, t))")
    case True
    with step Some have "s' = snd (give_up p t (fl_key (sys_locks s ! l)) OsFailed s)"
      by (cases "sys_pc s (p, t)") (auto simp: failing_call_def Let_def split: if_splits dest: arg_cong [where f = snd])
    with given_up [OF ok Some True] show ?thesis by blast
  next
    case False
    with step Some have s': "s' = goes (p, t) Outside s" "\<not> in_queue (sys_pc s (p, t))"
      by (cases "sys_pc s (p, t)"; auto simp: failing_call_def Let_def split: if_splits)+
    show ?thesis unfolding s'(1) using behind_gate(3) [OF ok Some] False s'(2)
      by (intro outer_step [OF ok, where k = "fl_key (sys_locks s ! l)"]) auto
  qed
qed

lemma lock_move_ok:
  assumes ok: "locks_ok file_of s" and step: "lock_move file_of pt m s = Some (e, s')"
  shows "locks_ok file_of s'"
proof -
  obtain p t where pt: "pt = (p, t)" by (cases pt)
  show ?thesis
  proof (cases m)
    case (New k n)
    with step pt constructed [OF ok] show ?thesis by (auto split: if_splits)
  next
    case (Acquire l)
    with step pt have s': "s' = goes (p, t) (Started l (sys_clock s + fl_timeout (sys_locks s ! l))) s" "sys_pc s (p, t) = Outside"
        "l < length (sys_locks s)" "fl_process (sys_locks s ! l) = p" by (auto split: if_splits)
    show ?thesis unfolding s'(1) using s'(2-4)
      by (intro outer_step [OF ok, where k = "fl_key (sys_locks s ! l)"]) (auto simp: key_at_def)
  next
    case (Release l)
    with step pt released [OF ok, of p t l] show ?thesis by (auto split: if_splits dest: arg_cong [where f = snd])
  next
    case Continue
    with step pt continued [OF ok] show ?thesis by auto
  next
    case Fail
    with step pt failed_call [OF ok] show ?thesis by auto
  next
    case Tick
    with step pt ok show ?thesis by (auto simp: locks_ok_clock)
  qed
qed

lemma no_locks_ok: "locks_ok file_of no_locks"
  by (auto simp: locks_ok_def calls_ok_def gate_ok_def handles_ok_def no_locks_def state_for_def new_lock_state_def
      inside_def queued_def polls_def acquisitions_def)

lemma reachable_ok: "lock_reachable file_of s \<Longrightarrow> locks_ok file_of s"
  by (induction rule: lock_reachable.induct) (auto intro: no_locks_ok lock_move_ok)


section \<open>Exclusion\<close>

lemma held_handle:
  assumes "locks_ok file_of s" "holds t k s"
  obtains h where "ls_handle (state_for (fst t) k s) = Some h" "sys_flock s (file_of k) = Some h"
  using assms handles_okD(1,2) [OF locks_okD(3) [OF assms(1)], of "fst t" k]
  by (cases "ls_handle (state_for (fst t) k s)") (auto simp: holds_def)

text \<open>
  C30: \<^verbatim>\<open>FileLock\<close> excludes: in every state that any interleaving of the steps of any threads of any processes
  reaches, with reentrant and failing acquisitions and releases by the wrong thread, at most one thread of
  one process holds a lock file, and it holds it under one path, even if many paths name the file.
\<close>

theorem file_lock_exclusive:
  assumes "lock_reachable file_of s" and "holds t k s" and "holds u j s" and "file_of k = file_of j"
  shows "t = u \<and> k = j"
proof -
  have ok: "locks_ok file_of s" using assms(1) by (rule reachable_ok)
  obtain h where h: "ls_handle (state_for (fst t) k s) = Some h" "sys_flock s (file_of k) = Some h"
    using held_handle [OF ok assms(2)] .
  obtain g where g: "ls_handle (state_for (fst u) j s) = Some g" "sys_flock s (file_of j) = Some g"
    using held_handle [OF ok assms(3)] .
  from h g assms(4) have "fst t = fst u \<and> k = j"
    by (intro handles_okD(4) [OF locks_okD(3) [OF ok]]) auto
  with assms(2,3) show ?thesis by (auto simp: holds_def prod_eq_iff)
qed

text \<open>Runs of the system, to evaluate examples.\<close>

fun lock_run :: "('k \<Rightarrow> 'f) \<Rightarrow> (thread \<times> 'k move) list \<Rightarrow> ('k, 'f) lock_system \<Rightarrow> ('k, 'f) lock_system option" where
  "lock_run file_of [] s = Some s"
| "lock_run file_of ((t, m) # ms) s = (case lock_move file_of t m s of None \<Rightarrow> None | Some (e, s') \<Rightarrow> lock_run file_of ms s')"

lemma run_reachable: "lock_reachable file_of s \<Longrightarrow> lock_run file_of ms s = Some s' \<Longrightarrow> lock_reachable file_of s'"
  by (induction ms arbitrary: s) (auto split: option.splits prod.splits, blast dest: lock_reachable.move)

lemmas lock_eval = continue_call_def failing_call_def release_call_def answered_def give_up_def gate_enter_def gate_wake_def
  gate_release_def put_gate_def put_acquisitions_def goes_def put_state_def state_for_def new_lock_state_def no_locks_def
  Let_def holds_def

text \<open>Two processes contend for a file under different paths; a thread waits in the queue of the first.\<close>

definition sample_lock_run :: "(thread \<times> string move) list" where
  "sample_lock_run =
     [((1, 1), New ''a'' 5), ((2, 1), New ''b'' 5), ((1, 1), Acquire 0), ((2, 1), Acquire 1), ((1, 2), Acquire 0),
      ((1, 1), Continue), ((1, 1), Continue), ((2, 1), Continue), ((2, 1), Continue), ((1, 2), Continue), ((1, 2), Continue),
      ((1, 1), Continue), ((2, 1), Continue), ((1, 1), Continue), ((2, 1), Continue)]"

definition sample_locked :: "(string, nat) lock_system" where
  "sample_locked = the (lock_run (\<lambda>k. 7) sample_lock_run no_locks)"

lemma sample_lock_reachable: "lock_reachable (\<lambda>k. 7) sample_locked"
  and sample_lock_holds: "holds (1, 1) ''a'' sample_locked"
proof -
  have run: "lock_run (\<lambda>k. 7) sample_lock_run no_locks = Some sample_locked \<and> holds (1, 1) ''a'' sample_locked"
    by (simp add: sample_locked_def sample_lock_run_def lock_eval)
  then show "lock_reachable (\<lambda>k. 7) sample_locked" by (blast intro: run_reachable lock_reachable.init)
  from run show "holds (1, 1) ''a'' sample_locked" by blast
qed

theorem file_lock_exclusive_witness: "{(t, k). holds t k sample_locked} = {((1, 1), ''a'')}"
  using file_lock_exclusive [OF sample_lock_reachable _ sample_lock_holds] sample_lock_holds by blast


section \<open>Calls of other threads\<close>

text \<open>What a move of one thread leaves of another: where it is, what it holds, and the timeouts of the locks.\<close>

lemma answered_other [simp]: "u \<noteq> (p, t) \<Longrightarrow> sys_pc (snd (answered p t k l d g a s)) u = sys_pc s u"
  "sys_locks (snd (answered p t k l d g a s)) = sys_locks s" "sys_clock (snd (answered p t k l d g a s)) = sys_clock s"
  by (auto simp: answered_def put_gate_def split: prod.splits gate_answer.splits)

lemma give_up_other [simp]: "u \<noteq> (p, t) \<Longrightarrow> sys_pc (snd (give_up p t k e s)) u = sys_pc s u"
  "sys_locks (snd (give_up p t k e s)) = sys_locks s" "sys_clock (snd (give_up p t k e s)) = sys_clock s"
  "sys_pc (snd (give_up p t k e s)) (p, t) = Outside"
  by (auto simp: give_up_def put_gate_def split: option.splits)

lemma timeout_put [simp]: "fl_timeout (sys_locks (put_acquisitions l n s) ! i) = fl_timeout (sys_locks s ! i)"
  by (cases "l < length (sys_locks s)"; cases "i = l"; simp add: put_acquisitions_def list_update_beyond)

lemma release_other [simp]: "u \<noteq> (p, t) \<Longrightarrow> sys_pc (snd (release_call p t l file_of s)) u = sys_pc s u"
  "length (sys_locks (snd (release_call p t l file_of s))) = length (sys_locks s)"
  "fl_timeout (sys_locks (snd (release_call p t l file_of s)) ! i) = fl_timeout (sys_locks s ! i)"
  "sys_clock (snd (release_call p t l file_of s)) = sys_clock s"
  by (auto simp: release_call_def Let_def split: option.splits)

lemma move_other:
  assumes "lock_move file_of t m s = Some (e, s')" "u \<noteq> t"
  shows "sys_pc s' u = sys_pc s u"
proof -
  obtain p i where t: "t = (p, i)" by (cases t)
  show ?thesis
  proof (cases m)
    case (Release l)
    with assms t have "s' = snd (release_call p i l file_of s)" by (auto split: if_splits)
    with assms t show ?thesis by simp
  next
    case Continue
    with assms t show ?thesis
      by (cases "sys_pc s (p, i)")
         (auto simp: continue_call_def Let_def split: if_splits dest!: arg_cong [where f = snd])
  next
    case Fail
    with assms t show ?thesis
      by (cases "sys_pc s (p, i)")
         (auto simp: failing_call_def Let_def split: if_splits dest!: arg_cong [where f = snd])
  qed (use assms t in \<open>auto split: if_splits\<close>)
qed

lemma move_clock: "lock_move file_of t m s = Some (e, s') \<Longrightarrow> sys_clock s \<le> sys_clock s' \<and> length (sys_locks s) \<le> length (sys_locks s')
    \<and> (\<forall>i < length (sys_locks s). fl_timeout (sys_locks s' ! i) = fl_timeout (sys_locks s ! i))"
proof -
  assume move: "lock_move file_of t m s = Some (e, s')"
  obtain p i where t: "t = (p, i)" by (cases t)
  show ?thesis
  proof (cases m)
    case (Release l)
    with move t release_other [where p = p and t = i and l = l and file_of = file_of and s = s] show ?thesis
      by (auto split: if_splits dest!: arg_cong [where f = snd])
  next
    case Continue
    with move t show ?thesis
      by (cases "sys_pc s (p, i)")
         (auto simp: continue_call_def Let_def split: if_splits dest!: arg_cong [where f = snd])
  next
    case Fail
    with move t show ?thesis
      by (cases "sys_pc s (p, i)")
         (auto simp: failing_call_def Let_def split: if_splits dest!: arg_cong [where f = snd])
  qed (use move t in \<open>auto simp: nth_append split: if_splits\<close>)
qed

section \<open>Calls end\<close>

text \<open>The steps a call has left once its deadlines are over.\<close>

fun call_rank :: "pc \<Rightarrow> nat" where
  "call_rank Outside = 0"
| "call_rank (Started l d) = 5"
| "call_rank (Entering l d g) = 4"
| "call_rank (Queued l d g) = 3"
| "call_rank (Gated l d) = 2"
| "call_rank (Polling l d h) = 1"
| "call_rank (Leaving l b) = 1"

fun overdue :: "('k, 'f) lock_system \<Rightarrow> pc \<Rightarrow> bool" where
  "overdue s (Started l d) \<longleftrightarrow> d \<le> sys_clock s \<and> fl_timeout (sys_locks s ! l) = 0"
| "overdue s (Entering l d g) \<longleftrightarrow> d \<le> sys_clock s \<and> g \<le> sys_clock s"
| "overdue s (Queued l d g) \<longleftrightarrow> d \<le> sys_clock s \<and> g \<le> sys_clock s"
| "overdue s (Gated l d) \<longleftrightarrow> d \<le> sys_clock s"
| "overdue s (Polling l d h) \<longleftrightarrow> d \<le> sys_clock s"
| "overdue s (Leaving l b) \<longleftrightarrow> True"
| "overdue s Outside \<longleftrightarrow> True"

lemma overdue_keeps: "overdue s c \<Longrightarrow> (\<And>l. lock_at c = Some l \<Longrightarrow> l < length (sys_locks s)) \<Longrightarrow>
    lock_move file_of t m s = Some (e, s') \<Longrightarrow> overdue s' c"
  by (drule move_clock) (cases c; auto)

lemma woken_late: "fst (gate_wake me True g) = Refused \<or> fst (gate_wake me True g) = Granted"
  by (simp add: gate_wake_def Let_def)

text \<open>A step of an overdue call brings it nearer to its end, or ends it.\<close>

lemma overdue_step:
  assumes "overdue s (sys_pc s (p, t))" "sys_pc s (p, t) \<noteq> Outside"
  obtains e s' where "lock_move file_of (p, t) Continue s = Some (e, s')" "overdue s' (sys_pc s' (p, t))"
    "call_rank (sys_pc s' (p, t)) < call_rank (sys_pc s (p, t))"
proof -
  have "\<exists>e s'. lock_move file_of (p, t) Continue s = Some (e, s') \<and> overdue s' (sys_pc s' (p, t))
      \<and> call_rank (sys_pc s' (p, t)) < call_rank (sys_pc s (p, t))"
  proof (cases "sys_pc s (p, t)")
    case (Entering l d g)
    with assms show ?thesis
      by (auto simp: continue_call_def Let_def answered_def put_gate_def split: prod.splits gate_answer.splits)
  next
    case (Queued l d g)
    with assms woken_late [of t "gate_of p (fl_key (sys_locks s ! l)) s"] show ?thesis
      by (auto simp: continue_call_def Let_def answered_def put_gate_def split: prod.splits gate_answer.splits)
  next
    case (Polling l d h)
    with assms show ?thesis by (auto simp: continue_call_def Let_def give_up_def put_gate_def split: option.splits)
  next
    case (Leaving l b)
    with assms show ?thesis by (auto simp: continue_call_def Let_def give_up_def put_gate_def split: option.splits)
  qed (use assms in \<open>auto simp: continue_call_def Let_def\<close>)
  with that show ?thesis by blast
qed


lemma failed_outside: "lock_move file_of (p, t) Fail s = Some (e, s') \<Longrightarrow>
    sys_pc s' (p, t) = Outside \<and> sys_pc s (p, t) \<noteq> Outside"
  by (cases "sys_pc s (p, t)") (auto simp: failing_call_def Let_def split: if_splits dest!: arg_cong [where f = snd])

lemma overdue_run:
  assumes "locks_ok file_of s" "overdue s (sys_pc s (p, t))" "lock_run file_of ms s = Some s'"
    and "\<forall>m. ((p, t), m) \<in> set ms \<longrightarrow> m = Continue \<or> m = Fail"
  shows "locks_ok file_of s' \<and> overdue s' (sys_pc s' (p, t))
    \<and> length (filter (\<lambda>m. fst m = (p, t)) ms) + call_rank (sys_pc s' (p, t)) \<le> call_rank (sys_pc s (p, t))"
  using assms
proof (induction ms arbitrary: s)
  case (Cons um ms)
  obtain u m where um: "um = (u, m)" by (cases um)
  from Cons.prems(3) um obtain e s1 where step: "lock_move file_of u m s = Some (e, s1)" and rest: "lock_run file_of ms s1 = Some s'"
    by (auto split: option.splits)
  have ok: "locks_ok file_of s1" using lock_move_ok [OF Cons.prems(1) step] .
  have at: "lock_at (sys_pc s (p, t)) = Some l \<Longrightarrow> l < length (sys_locks s)" for l
    using Cons.prems(1) by (auto simp: locks_ok_def calls_ok_def)
  have "overdue s1 (sys_pc s1 (p, t)) \<and> (if u = (p, t) then 1 else 0) + call_rank (sys_pc s1 (p, t)) \<le> call_rank (sys_pc s (p, t))"
  proof (cases "u = (p, t)")
    case False
    then have same: "sys_pc s1 (p, t) = sys_pc s (p, t)" using move_other [OF step, of "(p, t)"] by simp
    show ?thesis using overdue_keeps [OF Cons.prems(2) at step] False by (simp add: same)
  next
    case True
    with Cons.prems(4) um have "m = Continue \<or> m = Fail" by auto
    then show ?thesis
    proof
      assume m: "m = Continue"
      have "sys_pc s (p, t) \<noteq> Outside" using step True m by (auto simp: continue_call_def Let_def)
      then show ?thesis using overdue_step [OF Cons.prems(2), of file_of] step True m by fastforce
    next
      assume m: "m = Fail"
      have "sys_pc s1 (p, t) = Outside" "sys_pc s (p, t) \<noteq> Outside" using failed_outside step True m by blast+
      then show ?thesis using True by (cases "sys_pc s (p, t)") auto
    qed
  qed
  with Cons.IH [OF ok _ rest] Cons.prems(4) um show ?case by (auto split: if_splits)
qed simp

text \<open>
  C31: \<^verbatim>\<open>FileLock.acquire\<close> and \<^verbatim>\<open>release\<close> end: once the deadlines of a call are over, which for a timeout of
  zero is at once, at most five more steps of its thread remain, however the steps of other threads and
  processes come between them, and the thread is never without a step while the call lasts.
\<close>

theorem overdue_call_ends:
  assumes "lock_reachable file_of s" and "overdue s (sys_pc s (p, t))" and "lock_run file_of ms s = Some s'"
    and "\<forall>m. ((p, t), m) \<in> set ms \<longrightarrow> m = Continue \<or> m = Fail"
  shows "length (filter (\<lambda>m. fst m = (p, t)) ms) + call_rank (sys_pc s' (p, t)) \<le> 5
    \<and> (sys_pc s' (p, t) \<noteq> Outside \<longrightarrow> lock_move file_of (p, t) Continue s' \<noteq> None)"
proof -
  have run: "overdue s' (sys_pc s' (p, t))"
    "length (filter (\<lambda>m. fst m = (p, t)) ms) + call_rank (sys_pc s' (p, t)) \<le> call_rank (sys_pc s (p, t))"
    using overdue_run [OF reachable_ok [OF assms(1)] assms(2,3,4)] by auto
  have "call_rank (sys_pc s (p, t)) \<le> 5" by (cases "sys_pc s (p, t)") simp_all
  with run overdue_step [OF run(1), of file_of] show ?thesis by fastforce
qed

text \<open>The thread of the second process gives up after its deadline; the holder releases the file.\<close>

definition sample_late :: "(string, nat) lock_system" where
  "sample_late = the (lock_run (\<lambda>k. 7) (replicate 5 ((3, 3), Tick)) sample_locked)"

definition sample_giving_up :: "(thread \<times> string move) list" where
  "sample_giving_up = [((2, 1), Continue), ((1, 1), Release 0), ((1, 1), Continue), ((1, 2), Continue)]"

lemma sample_late_run: "lock_run (\<lambda>k. 7) (sample_lock_run @ replicate 5 ((3, 3), Tick)) no_locks = Some sample_late"
  by (simp add: sample_late_def sample_locked_def sample_lock_run_def lock_eval numeral_eq_Suc)

theorem overdue_call_ends_witness:
  "length (filter (\<lambda>m. fst m = (2, 1)) sample_giving_up)
     + call_rank (sys_pc (the (lock_run (\<lambda>k. 7) sample_giving_up sample_late)) (2, 1)) \<le> 5"
proof -
  have late: "overdue sample_late (sys_pc sample_late (2, 1))"
    by (simp add: sample_late_def sample_locked_def sample_lock_run_def lock_eval numeral_eq_Suc)
  have run: "lock_run (\<lambda>k. 7) sample_giving_up sample_late = Some (the (lock_run (\<lambda>k. 7) sample_giving_up sample_late))"
    by (simp add: sample_giving_up_def sample_late_def sample_locked_def sample_lock_run_def lock_eval numeral_eq_Suc)
  have "lock_reachable (\<lambda>k. 7) sample_late" by (rule run_reachable [OF lock_reachable.init sample_late_run])
  from overdue_call_ends [OF this late run] show ?thesis by (simp add: sample_giving_up_def)
qed


section \<open>Nothing is left locked\<close>

text \<open>
  C32: When no thread is in a call and every lock object has been released as often as it was acquired, no
  file is locked and no gate of any process is owned or waited for: whatever acquisitions timed out or
  failed on the way, none leaves a lock behind.
\<close>

theorem idle_locks_free:
  assumes "lock_reachable file_of s" and "\<forall>u. sys_pc s u = Outside" and "\<forall>lk \<in> set (sys_locks s). fl_acquisitions lk = 0"
  shows "(\<forall>f. sys_flock s f = None) \<and> (\<forall>p k. state_for p k s = new_lock_state)"
proof -
  have ok: "locks_ok file_of s" using assms(1) by (rule reachable_ok)
  have zero: "ls_depth (state_for p k s) = 0" for p k
    using assms(3) locks_okD(4) [OF ok, of p k] by (simp add: acquisitions_def sum_list_eq_0_iff)
  have none: "ls_handle (state_for p k s) = None" for p k using handles_okD(1) [OF locks_okD(3) [OF ok]] zero by simp
  have gate: "ls_gate (state_for p k s) = \<lparr>gt_owner = None, gt_depth = 0, gt_waiters = []\<rparr>" for p k
  proof -
    have "inside s p k = {}" "queued s p k = {}" using assms(2) by (simp_all add: inside_def queued_def)
    then show ?thesis using locks_okD(2) [OF ok, of p k] zero [of p k] by (auto simp: gate_ok_def split: option.splits)
  qed
  have "sys_flock s f = None" for f
    using handles_okD(3) [OF locks_okD(3) [OF ok], of f] none by (cases "sys_flock s f") auto
  moreover have "state_for p k s = new_lock_state" for p k
    using zero none gate by (simp add: new_lock_state_def)
  ultimately show ?thesis by blast
qed

text \<open>The first thread of the run above releases the file, after the two others have given up.\<close>

definition sample_releasing :: "(thread \<times> string move) list" where
  "sample_releasing = [((2, 1), Continue), ((1, 2), Continue), ((1, 1), Release 0), ((1, 1), Continue)]"

definition sample_idle :: "(string, nat) lock_system" where
  "sample_idle = the (lock_run (\<lambda>k. 7) sample_releasing sample_late)"

lemma sample_idle_run: "lock_run (\<lambda>k. 7) sample_releasing sample_late = Some sample_idle"
  and sample_idle_pcs: "sys_pc sample_idle u = Outside"
  and sample_idle_locks: "map fl_acquisitions (sys_locks sample_idle) = [0, 0]"
  by (simp_all add: sample_idle_def sample_releasing_def sample_late_def sample_locked_def sample_lock_run_def lock_eval numeral_eq_Suc)

theorem idle_locks_free_witness: "sys_flock sample_idle 7 = None"
proof -
  have "lock_reachable (\<lambda>k. 7) sample_late" by (rule run_reachable [OF lock_reachable.init sample_late_run])
  then have "lock_reachable (\<lambda>k. 7) sample_idle" by (rule run_reachable [OF _ sample_idle_run])
  moreover have "\<forall>lk \<in> set (sys_locks sample_idle). fl_acquisitions lk = 0"
    using sample_idle_locks by (auto simp: map_eq_Cons_conv)
  ultimately show ?thesis using idle_locks_free [of "\<lambda>k. 7"] sample_idle_pcs by blast
qed

end
