(* ===== verification/Orq_Typing.thy ===== *)
theory Orq_Typing
  imports Orq_Json
begin

text \<open>
  What the strict decoder of \<^verbatim>\<open>persistence/filesystem/io.py\<close> lets in: every document it returns has
  distinct keys in every object, floats by a literal of the grammar and text of Unicode code points; if no
  escape put a lone surrogate into it, it can be written again.
\<close>

definition unicode :: "nat \<Rightarrow> bool" where
  "unicode c \<longleftrightarrow> c \<le> 0x10FFFF"

primrec shaped :: "(nat \<Rightarrow> bool) \<Rightarrow> jdoc \<Rightarrow> bool" where
  "shaped P DNull \<longleftrightarrow> True"
| "shaped P (DBool b) \<longleftrightarrow> True"
| "shaped P (DInt i) \<longleftrightarrow> True"
| "shaped P (DFloat l) \<longleftrightarrow> scan_number l = Some (DFloat l, [])"
| "shaped P (DText s) \<longleftrightarrow> list_all P s"
| "shaped P (DArr vs) \<longleftrightarrow> list_all id (map (shaped P) vs)"
| "shaped P (DObj ps) \<longleftrightarrow> distinct (map fst ps) \<and> list_all (list_all P) (map fst ps)
     \<and> list_all snd (map (map_prod id (shaped P)) ps)"

lemma shaped_items [simp]:
  "shaped P (DArr vs) \<longleftrightarrow> (\<forall>v \<in> set vs. shaped P v)"
  "shaped P (DObj ps) \<longleftrightarrow> distinct (map fst ps) \<and> (\<forall>(k, v) \<in> set ps. list_all P k \<and> shaped P v)"
  by (auto simp: list_all_iff)

declare shaped.simps(6,7) [simp del]

lemma shaped_scalar: "shaped scalar v \<longleftrightarrow> doc_ok v"
proof (induction v)
  case (DArr vs)
  then show ?case by auto
next
  case (DObj ps)
  then have "shaped scalar (snd p) \<longleftrightarrow> doc_ok (snd p)" if "p \<in> set ps" for p
    using that by (cases p) (auto simp: snds.simps)
  then show ?case by auto
qed simp_all

section \<open>Decoded text is Unicode\<close>

lemma unicode_low: "c < 0x10000 \<Longrightarrow> unicode c"
  by (simp add: unicode_def)

lemma checked_unicode: "checked least c rest = Some cs \<Longrightarrow> \<exists>cs'. rest = Some cs' \<and> cs = c # cs' \<and> unicode c"
  by (auto simp: checked_def unicode_def scalar_def split: if_splits)

lemma utf8_unicode: "utf8_decode bs = Some cs \<Longrightarrow> list_all unicode cs"
proof (induction bs arbitrary: cs rule: utf8_decode.induct)
  case (2 b bs)
  note IH = "2.IH"
  consider (one) cs' where "unat b < 0x80" "cs = unat b # cs'" "utf8_decode bs = Some cs'"
    | (two) b1 r where "\<not> unat b < 0x80" "\<not> unat b < 0xC0" "unat b < 0xE0" "bs = b1 # r" "continuation b1"
        "checked 0x80 ((unat b - 0xC0) * 64 + (unat b1 - 0x80)) (utf8_decode r) = Some cs"
    | (three) b1 b2 r where "\<not> unat b < 0x80" "\<not> unat b < 0xC0" "\<not> unat b < 0xE0" "unat b < 0xF0" "bs = b1 # b2 # r"
        "continuation b1 \<and> continuation b2"
        "checked 0x800 ((unat b - 0xE0) * 4096 + (unat b1 - 0x80) * 64 + (unat b2 - 0x80)) (utf8_decode r) = Some cs"
    | (four) b1 b2 b3 r where "\<not> unat b < 0x80" "\<not> unat b < 0xC0" "\<not> unat b < 0xE0" "\<not> unat b < 0xF0"
        "bs = b1 # b2 # b3 # r" "continuation b1 \<and> continuation b2 \<and> continuation b3"
        "checked 0x10000 ((unat b - 0xF0) * 262144 + (unat b1 - 0x80) * 4096 + (unat b2 - 0x80) * 64 + (unat b3 - 0x80))
           (utf8_decode r) = Some cs"
    using "2.prems" unfolding utf8_decode.simps(2) by (simp split: if_split_asm list.split_asm) blast+
  then show ?case
  proof cases
    case one
    then show ?thesis using IH(1) by (simp add: unicode_low)
  next
    case two
    then show ?thesis using IH(2) by (auto dest!: checked_unicode)
  next
    case three
    then show ?thesis using IH(3) by (auto dest!: checked_unicode)
  next
    case four
    then show ?thesis using IH(4) by (auto dest!: checked_unicode)
  qed
qed simp

lemma hex_value_less: "hex_value c = Some n \<Longrightarrow> n < 16"
  by (auto simp: hex_value_def split: if_splits)

lemma hex4_unicode:
  assumes "hex4 cs = Some (u, r)" and "list_all unicode cs"
  shows "u < 0x10000" and "list_all unicode r"
proof -
  obtain w x y z where d: "map hex_value (take 4 cs) = [Some w, Some x, Some y, Some z]"
    "u = w * 4096 + x * 256 + y * 16 + z" "r = drop 4 cs"
    using assms(1) by (auto simp: hex4_def split: list.splits option.splits)
  then have "w < 16" "x < 16" "y < 16" "z < 16" by (auto simp: map_eq_Cons_conv hex_value_less)
  with d(2) show "u < 0x10000" by simp
  show "list_all unicode r" using assms(2) d(3) by (auto simp: list_all_iff dest: in_set_dropD)
qed

lemma pair_unicode: "u \<le> 0xDBFF \<Longrightarrow> w \<le> 0xDFFF \<Longrightarrow> unicode (0x10000 + (u - 0xD800) * 1024 + (w - 0xDC00))"
proof -
  assume "u \<le> 0xDBFF" "w \<le> 0xDFFF"
  then have "(u - 0xD800) * 1024 \<le> 0x3FF * 1024" "w - 0xDC00 \<le> 0x3FF" by simp_all
  then show ?thesis by (simp add: unicode_def)
qed

lemma unicode_escape_unicode:
  assumes "unicode_escape cs = Some (d, q)" and "list_all unicode cs"
  shows "unicode d \<and> list_all unicode q"
proof -
  obtain u r where ur: "hex4 cs = Some (u, r)" using assms(1) by (auto simp: unicode_escape_def split: option.splits)
  note first = hex4_unicode [OF ur assms(2)]
  have rest: "list_all unicode (drop 2 r)" using first(2) by (auto simp: list_all_iff dest: in_set_dropD)
  consider "d = u" "q = r"
    | w where "hex4 (drop 2 r) = Some (w, q)" "d = 0x10000 + (u - 0xD800) * 1024 + (w - 0xDC00)" "u \<le> 0xDBFF" "w \<le> 0xDFFF"
    using assms(1) ur by (auto simp: unicode_escape_def split: option.splits if_splits)
  then show ?thesis
  proof cases
    case 1
    with first show ?thesis by (simp add: unicode_low)
  next
    case 2
    with hex4_unicode(2) [OF 2(1) rest] pair_unicode show ?thesis by simp
  qed
qed

lemma escape_unicode: "escape_sequence cs = Some (d, r) \<Longrightarrow> list_all unicode cs \<Longrightarrow> unicode d \<and> list_all unicode r"
proof -
  have plain: "unescape c = Some e \<Longrightarrow> unicode e" for c e by (auto simp: unescape_def unicode_def split: if_splits)
  show "escape_sequence cs = Some (d, r) \<Longrightarrow> list_all unicode cs \<Longrightarrow> unicode d \<and> list_all unicode r"
    by (cases cs) (auto simp: escape_sequence_def plain dest: unicode_escape_unicode split: if_splits)
qed

lemma scan_string_unicode: "scan_string cs = Some (s, r) \<Longrightarrow> list_all unicode cs \<Longrightarrow> list_all unicode s \<and> list_all unicode r"
proof (induction cs arbitrary: s r rule: scan_string.induct)
  case (2 c cs)
  from "2.prems" consider "c = 34" "s = []" "r = cs"
    | s' where "c \<noteq> 92" "s = c # s'" "scan_string cs = Some (s', r)" "c \<noteq> 34" "\<not> c < 32"
    | d q s' where "c = 92" "escape_sequence cs = Some (d, q)" "s = d # s'" "scan_string q = Some (s', r)" "c \<noteq> 34" "\<not> c < 32"
    by (auto simp: scan_string.simps prepend_def split: if_splits option.splits)
  then show ?case
  proof cases
    case 2
    then show ?thesis using "2.IH"(1) "2.prems"(2) by auto
  next
    case 3
    then show ?thesis using "2.IH"(2) "2.prems"(2) escape_unicode [of cs d q] by auto
  qed (use "2.prems" in auto)
qed simp

section \<open>Numbers keep their literal\<close>

lemma takeWhile_again: "takeWhile P (takeWhile P xs) = takeWhile P xs" "dropWhile P (takeWhile P xs) = []"
  by (simp_all add: takeWhile_eq_all_conv dropWhile_eq_Nil_conv) (meson set_takeWhileD)+

lemma digits_first: "digits (fst (digits cs)) = (fst (digits cs), [])"
  by (simp add: digits_def takeWhile_again)

lemma digits_set: "c \<in> set (fst (digits cs)) \<Longrightarrow> digit c"
  by (auto simp: digits_def dest: set_takeWhileD)

text \<open>A piece is read back in front of what cannot continue it.\<close>

lemma digits_then: "\<not> (\<exists>c r. rest = c # r \<and> digit c) \<Longrightarrow> \<forall>c \<in> set ds. digit c \<Longrightarrow> digits (ds @ rest) = (ds, rest)"
  by (cases rest) (auto simp: digits_def takeWhile_append dropWhile_append)

lemma integer_part_first:
  assumes "integer_part cs = Some (i, r)" and "\<not> (\<exists>c r. rest = c # r \<and> digit c)"
  shows "integer_part (i @ rest) = Some (i, rest)"
proof (cases cs)
  case (Cons c cs')
  show ?thesis
  proof (cases "c = 48")
    case False
    with Cons assms(1) have i: "digit c" "i = fst (digits cs)" by (auto simp: integer_part_def split: if_splits)
    then obtain i' where i': "i = c # i'" using Cons by (auto simp: digits_def)
    have "digits (i @ rest) = (i, rest)" using i digits_set by (intro digits_then assms(2)) auto
    then have "digits (c # i' @ rest) = (c # i', rest)" using i' by simp
    with i(1) False show ?thesis unfolding i' by (simp add: integer_part_def)
  qed (use Cons assms(1) in \<open>auto simp: integer_part_def split: if_splits\<close>)
qed (use assms(1) in \<open>simp add: integer_part_def\<close>)

lemma fraction_part_first:
  assumes "fraction_part cs = (f, r)" and "f \<noteq> []" and "\<not> (\<exists>c r. rest = c # r \<and> digit c)"
  shows "fraction_part (f @ rest) = (f, rest)"
proof -
  obtain q where q: "f = 46 # fst (digits q)" "fst (digits q) \<noteq> []"
    using assms(1,2) by (auto simp: fraction_part_def split: list.splits if_splits)
  have "digits (fst (digits q) @ rest) = (fst (digits q), rest)" using digits_set by (intro digits_then assms(3)) auto
  with q show ?thesis by (simp add: fraction_part_def)
qed

lemma exponent_part_first:
  assumes "exponent_part cs = (x, r)" and "x \<noteq> []"
  shows "exponent_part x = (x, [])" and "\<exists>c y. x = c # y \<and> (c = 101 \<or> c = 69)"
proof -
  obtain c q where q: "c = 101 \<or> c = 69" "x = c # fst (sign_part q) @ fst (digits (snd (sign_part q)))"
    "fst (digits (snd (sign_part q))) \<noteq> []"
    using assms by (auto simp: exponent_part_def split: list.splits if_splits)
  let ?d = "fst (digits (snd (sign_part q)))"
  have d: "digits ?d = (?d, [])" by (rule digits_first)
  have "sign_part (fst (sign_part q) @ ?d) = (fst (sign_part q), ?d)"
  proof (cases "fst (sign_part q)")
    case Nil
    obtain a ds where ds: "?d = a # ds" using q(3) by (cases ?d) auto
    then have "digit a" using digits_set [of a "snd (sign_part q)"] by simp
    then have "a \<noteq> 43" "a \<noteq> 45" by (auto simp: digit_def)
    with ds have "sign_part ?d = ([], ?d)" by (simp add: sign_part_def)
    with Nil show ?thesis by simp
  next
    case (Cons a as)
    then have "as = []" "a = 43 \<or> a = 45" by (auto simp: sign_part_def split: list.splits if_splits)
    with Cons show ?thesis by (auto simp: sign_part_def)
  qed
  with q d show "exponent_part x = (x, [])" by (simp add: exponent_part_def)
  show "\<exists>c y. x = c # y \<and> (c = 101 \<or> c = 69)" using q by blast
qed

lemma minus_first: "minus_part cs = (neg, r) \<Longrightarrow> r = c # r' \<Longrightarrow> digit c \<Longrightarrow> rest = c # rest'
    \<Longrightarrow> minus_part ((if neg then [45] else []) @ rest) = (neg, rest)"
  by (auto simp: minus_part_def digit_def)

lemma scanned_literal: "scan_number cs = Some (DFloat l, r) \<Longrightarrow> scan_number l = Some (DFloat l, [])"
proof -
  assume "scan_number cs = Some (DFloat l, r)"
  then obtain neg r0 i r1 f r2 x where parts: "minus_part cs = (neg, r0)" "integer_part r0 = Some (i, r1)"
    "fraction_part r1 = (f, r2)" "exponent_part r2 = (x, r)" "\<not> (f = [] \<and> x = [])" "l = (if neg then [45] else []) @ i @ f @ x"
    by (auto simp: scan_number_def split: option.splits prod.splits if_splits)
  have x: "exponent_part x = (x, [])"
    using exponent_part_first(1) [OF parts(4)] by (cases "x = []") (simp_all add: exponent_part_def)
  have no_digit: "\<not> (\<exists>c r. x = c # r \<and> digit c)"
    using exponent_part_first(2) [OF parts(4)] by (cases "x = []") (auto simp: digit_def)
  have f: "fraction_part (f @ x) = (f, x)"
  proof (cases "f = []")
    case True
    with exponent_part_first(2) [OF parts(4)] parts(5) show ?thesis by (auto simp: fraction_part_def split: list.splits)
  qed (rule fraction_part_first [OF parts(3) _ no_digit])
  have "\<exists>r. f = 46 # r" if "f \<noteq> []" using parts(3) that by (auto simp: fraction_part_def split: list.splits if_splits)
  then have "\<not> (\<exists>c r. f @ x = c # r \<and> digit c)" using no_digit by (cases "f = []") (auto simp: digit_def)
  then have i: "integer_part (i @ f @ x) = Some (i, f @ x)" by (rule integer_part_first [OF parts(2)])
  obtain c i' where c: "i = c # i'" "digit c" "r0 = c # tl r0"
    using parts(2) by (cases r0) (auto simp: integer_part_def digits_def digit_def split: if_splits)
  have "minus_part l = (neg, i @ f @ x)"
    unfolding parts(6) by (rule minus_first [OF parts(1) c(3) c(2)]) (simp add: c(1))
  with i f x parts(5,6) show ?thesis by (simp add: scan_number_def)
qed

section \<open>The decoder\<close>

definition token_ok :: "token \<Rightarrow> bool" where
  "token_ok t \<longleftrightarrow> (case t of TkValue v \<Rightarrow> shaped unicode v | TkText s \<Rightarrow> list_all unicode s | _ \<Rightarrow> True)"

lemma scan_number_rest: "scan_number cs = Some (v, r) \<Longrightarrow> list_all unicode cs \<Longrightarrow> list_all unicode r"
proof -
  have d: "list_all unicode cs \<Longrightarrow> list_all unicode (snd (digits cs))" for cs
    by (auto simp: digits_def list_all_iff dest: set_dropWhileD)
  have m: "list_all unicode cs \<Longrightarrow> list_all unicode (snd (minus_part cs))" for cs
    by (cases cs) (auto simp: minus_part_def)
  have i: "integer_part cs = Some (i, r) \<Longrightarrow> list_all unicode cs \<Longrightarrow> list_all unicode r" for cs i r
    using d [of cs] by (auto simp: integer_part_def split: list.splits if_splits)
  have f: "list_all unicode cs \<Longrightarrow> list_all unicode (snd (fraction_part cs))" for cs
    by (cases cs) (auto simp: fraction_part_def intro: d)
  have g: "list_all unicode cs \<Longrightarrow> list_all unicode (snd (sign_part cs))" for cs
    by (cases cs) (auto simp: sign_part_def)
  have x: "list_all unicode cs \<Longrightarrow> list_all unicode (snd (exponent_part cs))" for cs
    by (cases cs) (auto simp: exponent_part_def intro: d g)
  assume "scan_number cs = Some (v, r)" and "list_all unicode cs"
  then show "list_all unicode r"
    by (auto simp: scan_number_def split: option.splits prod.splits)
      (metis m i f x snd_conv)+
qed

lemma next_token_ok: "next_token cs = Some (t, r) \<Longrightarrow> list_all unicode cs \<Longrightarrow> token_ok t \<and> list_all unicode r"
proof -
  have number: "scan_number cs = Some (v, r) \<Longrightarrow> shaped unicode v" for cs v r
    using scanned_literal by (cases v) (auto simp: scan_number_def split: option.splits prod.splits if_splits)
  have word: "keyword cs = Some (v, r) \<Longrightarrow> list_all unicode cs \<Longrightarrow> shaped unicode v \<and> list_all unicode r" for v r
    by (auto simp: keyword_def list_all_iff dest: in_set_dropD split: if_splits)
  have mark: "punctuation c = Some t \<Longrightarrow> token_ok t" for c t
    by (auto simp: punctuation_def token_ok_def split: if_splits)
  assume "next_token cs = Some (t, r)" and "list_all unicode cs"
  then show ?thesis
    using number word mark scan_number_rest
    by (auto simp: next_token_def split: list.splits option.splits if_splits dest!: scan_string_unicode)
      (auto simp: token_ok_def)
qed

lemma lex_ok: "lex cs = Some ts \<Longrightarrow> list_all unicode cs \<Longrightarrow> list_all token_ok ts"
proof (induction cs arbitrary: ts rule: lex.induct)
  case (2 c cs)
  then show ?case
    by (auto simp: lex.simps split: if_splits option.splits dest: next_token_ok)
qed simp

text \<open>The open brackets hold well-typed items; the keys of an object need be distinct only when it is closed.\<close>

fun frame_ok :: "frame \<Rightarrow> bool" where
  "frame_ok (FArr vs) \<longleftrightarrow> (\<forall>v \<in> set vs. shaped unicode v)"
| "frame_ok (FObj ps) \<longleftrightarrow> (\<forall>(k, v) \<in> set ps. list_all unicode k \<and> shaped unicode v)"
| "frame_ok (FKey ps k) \<longleftrightarrow> list_all unicode k \<and> (\<forall>(k, v) \<in> set ps. list_all unicode k \<and> shaped unicode v)"

definition expected_ok :: "expected \<Rightarrow> bool" where
  "expected_ok e \<longleftrightarrow> (case e of Next v \<Rightarrow> shaped unicode v | _ \<Rightarrow> True)"

lemma parse_step_ok:
  assumes "parse_step e t st = Some (e', st')" and "expected_ok e" and "list_all frame_ok st" and "token_ok t"
  shows "expected_ok e' \<and> list_all frame_ok st'"
proof -
  have starts: "start_value t st = Some (e', st') \<Longrightarrow> ?thesis"
    using assms(3,4) by (auto simp: start_value_def expected_ok_def token_ok_def split: token.splits)
  have key: "start_key t st = Some (e', st') \<Longrightarrow> ?thesis"
    using assms(3,4) by (auto simp: start_key_def expected_ok_def token_ok_def split: token.splits list.splits frame.splits)
  have frames: "list_all frame_ok (tl st)" using assms(3) by (cases st) simp_all
  show ?thesis
  proof (cases e)
    case Value
    with assms(1) show ?thesis by (intro starts) (simp add: parse_step_def)
  next
    case ValueOrEnd
    with assms(1) frames starts show ?thesis by (auto simp: parse_step_def expected_ok_def split: if_splits)
  next
    case Key
    with assms(1) show ?thesis by (intro key) (simp add: parse_step_def)
  next
    case KeyOrEnd
    with assms(1) frames key show ?thesis by (auto simp: parse_step_def expected_ok_def split: if_splits)
  next
    case Colon
    with assms(1,3) show ?thesis by (auto simp: parse_step_def expected_ok_def split: if_splits)
  next
    case (Next v)
    with assms(2) have v: "shaped unicode v" by (simp add: expected_ok_def)
    have step: "after_value v t st = Some (e', st')" using assms(1) Next by (simp add: parse_step_def)
    show ?thesis
    proof (cases st)
      case (Cons fr frs)
      then show ?thesis
      proof (cases fr)
        case (FArr vs)
        with Cons step assms(3) v show ?thesis by (auto simp: after_value_def expected_ok_def split: if_splits)
      next
        case (FKey ps k)
        with Cons step assms(3) v show ?thesis
          by (auto simp: after_value_def expected_ok_def object_of_def split: if_splits)
      qed (use Cons step in \<open>simp add: after_value_def\<close>)
    qed (use step in \<open>simp add: after_value_def\<close>)
  qed
qed

lemma parse_ok: "parse e st ts = Some v \<Longrightarrow> expected_ok e \<Longrightarrow> list_all frame_ok st \<Longrightarrow> list_all token_ok ts \<Longrightarrow> shaped unicode v"
proof (induction e st ts rule: parse.induct)
  case (1 e st)
  then show ?case by (auto simp: expected_ok_def split: expected.splits list.splits)
next
  case (2 e st t ts)
  then show ?case by (auto split: option.splits dest: parse_step_ok)
qed

section \<open>Property\<close>


definition sample_text :: bytes where
  "sample_text = map byte_of [123, 34, 98, 34, 58, 49, 46, 53, 44, 34, 97, 34, 58, 91, 93, 125]"

lemma sample_decoded: "decode_json sample_text = Some (DObj [([98], DFloat [49, 46, 53]), ([97], DArr [])])"
  by (simp add: sample_text_def decode_json_def decode_text_def byte_of_def lex.simps blank_code_def next_token_def punctuation_def
      scan_string.simps prepend_def keyword_def ascii_def scan_number_def minus_part_def integer_part_def fraction_part_def
      exponent_part_def digits_def digit_def sign_part_def parse_step_def start_value_def start_key_def after_value_def object_of_def)


end
