(* ===== verification/Orq_Memory.thy ===== *)
theory Orq_Memory
  imports Orq_Delivery
begin

text \<open>
  The curated memory of a project (\<^verbatim>\<open>memory/curated.py\<close>): durable records, one file each, that are
  proposed, reviewed and superseded, and the canonical document of supersessions. Every operation is a
  sequence of atomic file operations; the disk after each of them is kept, so that a crash is a state
  among them. A record file is its JSON front matter, taken as data, and the text below it; the fixed
  pages of the categories and the copies a proposal directory holds for its reader are not modelled.
  The file lock admits one operation at a time.
\<close>

section \<open>Records\<close>

datatype memory_category = CAT_PRODUCT | CAT_ARCHITECTURE | CAT_TECHNOLOGY | CAT_CONVENTIONS | CAT_DOMAIN | CAT_WORKFLOWS
  | CAT_TESTING | CAT_PITFALLS | CAT_MODULE | CAT_DECISION

datatype update_policy = UPDATE_AUTO | UPDATE_REVIEW | UPDATE_MANUAL

datatype memory_lifecycle = ML_ACTIVE | ML_SUPERSEDED | ML_PENDING

datatype proposal_status = PROP_PENDING | PROP_APPROVED | PROP_REJECTED

record provenance =
  mp_type :: string
  mp_paths :: "string list"
  mp_hashes :: "(string \<times> string) list"

definition provenance_ok :: "provenance \<Rightarrow> bool" where
  "provenance_ok p \<longleftrightarrow> mp_type p \<in> {''repository'', ''task'', ''user''}
     \<and> (\<forall>q \<in> set (mp_paths p). validate_relative_path (ascii q) = Inr ())
     \<and> (\<forall>(q, digest) \<in> set (mp_hashes p). validate_relative_path (ascii q) = Inr () \<and> q \<in> set (mp_paths p) \<and> sha256_text digest)"

record durable_record =
  dr_id :: string
  dr_category :: memory_category
  dr_title :: ustring
  dr_content :: ustring
  dr_source :: provenance
  dr_commit :: "string option"
  dr_task :: "string option"
  dr_confidence :: rat
  dr_verified :: time
  dr_supersedes :: "string option"
  dr_summary :: "ustring option"
  dr_references :: "string list"

text \<open>Identifiers: a prefix, a day of eight digits and a number of four.\<close>

definition numbered :: "string \<Rightarrow> string \<Rightarrow> bool" where
  "numbered pre s \<longleftrightarrow> starts_with (pre @ ''-'') s \<and> (let t = drop (Suc (length pre)) s in
     length t = 13 \<and> list_all is_digit (take 8 t) \<and> t ! 8 = CHR ''-'' \<and> list_all is_digit (drop 9 t))"

definition memory_id :: "string \<Rightarrow> bool" where
  "memory_id = numbered ''MEM''"

definition proposal_id :: "string \<Rightarrow> bool" where
  "proposal_id = numbered ''MEM-PROP''"

definition capsule_name :: "string \<Rightarrow> bool" where
  "capsule_name = numbered ''ORQ''"

definition durable_ok :: "durable_record \<Rightarrow> bool" where
  "durable_ok r \<longleftrightarrow> memory_id (dr_id r) \<and> dr_title r \<noteq> [] \<and> length (dr_title r) \<le> 300 \<and> dr_content r \<noteq> [] \<and> provenance_ok (dr_source r)
     \<and> 0 \<le> dr_confidence r \<and> dr_confidence r \<le> 1 \<and> (case dr_supersedes r of None \<Rightarrow> True | Some i \<Rightarrow> memory_id i)
     \<and> (case dr_summary r of None \<Rightarrow> True | Some t \<Rightarrow> length t \<le> 400) \<and> length (dr_references r) \<le> 32 \<and> distinct (dr_references r)
     \<and> (\<forall>q \<in> set (dr_references r). memory_id q \<and> q \<noteq> dr_id r)"

text \<open>\<^verbatim>\<open>_frontmatter\<close> and \<^verbatim>\<open>_parse_record\<close>; \<^verbatim>\<open>read_text\<close> translates line ends.\<close>

record record_file =
  rf_meta :: durable_record
  rf_body :: ustring

definition heading :: "ustring \<Rightarrow> ustring" where
  "heading title = 35 # 32 # title"

definition frontmatter :: "durable_record \<Rightarrow> record_file" where
  "frontmatter r = \<lparr>rf_meta = r\<lparr>dr_content := []\<rparr>, rf_body = 10 # heading (dr_title r) @ [10, 10] @ rstrip (dr_content r) @ [10]\<rparr>"

definition ustrip :: "ustring \<Rightarrow> ustring" where
  "ustrip s = rstrip (dropWhile uspace s)"

definition body_content :: "ustring \<Rightarrow> ustring \<Rightarrow> ustring" where
  "body_content title body = (let content = ustrip (translated body) in
     if starts_with (heading title) content then ustrip (drop (length (heading title)) content) else content)"

definition parse_record :: "record_file \<Rightarrow> err + durable_record" where
  "parse_record f = (let r = (rf_meta f)\<lparr>dr_content := body_content (dr_title (rf_meta f)) (rf_body f)\<rparr> in
     if durable_ok r then Inr r else Inl ValueErr)"

section \<open>The lifecycle document\<close>

record supersession =
  su_predecessor :: string
  su_successor :: string
  su_digest :: string
  su_proposal :: string
  su_reviewed :: time
  su_reason :: ustring
  su_evidence :: "string list"

definition successor_of :: "supersession list \<Rightarrow> string \<Rightarrow> string option" where
  "successor_of ts i = map_of (map (\<lambda>t. (su_predecessor t, su_successor t)) ts) i"

text \<open>The walk from a start; it ends after as many steps as there are edges, or goes in a circle.\<close>

fun walk_ends :: "supersession list \<Rightarrow> string list \<Rightarrow> string \<Rightarrow> nat \<Rightarrow> bool" where
  "walk_ends ts been i 0 = (successor_of ts i = None)"
| "walk_ends ts been i (Suc n) = (case successor_of ts i of None \<Rightarrow> True
     | Some j \<Rightarrow> i \<notin> set been \<and> walk_ends ts (i # been) j n)"

definition lifecycle_ok :: "supersession list \<Rightarrow> bool" where
  "lifecycle_ok ts \<longleftrightarrow> distinct (map su_predecessor ts) \<and> distinct (map su_successor ts)
     \<and> (\<forall>t \<in> set ts. walk_ends ts [] (su_predecessor t) (Suc (length ts)))
     \<and> (\<forall>t \<in> set ts. memory_id (su_predecessor t) \<and> memory_id (su_successor t) \<and> sha256_text (su_digest t)
          \<and> proposal_id (su_proposal t) \<and> su_reason t \<noteq> [])"

definition lifecycle_state :: "durable_record \<Rightarrow> supersession list \<Rightarrow> memory_lifecycle \<times> string option" where
  "lifecycle_state r ts = (case find (\<lambda>t. su_predecessor t = dr_id r) ts of
       Some t \<Rightarrow> (ML_SUPERSEDED, Some (su_successor t))
     | None \<Rightarrow> if dr_supersedes r \<noteq> None \<and> dr_supersedes r \<noteq> Some []
           \<and> \<not> list_ex (\<lambda>t. Some (su_predecessor t) = dr_supersedes r \<and> su_successor t = dr_id r) ts
         then (ML_PENDING, None) else (ML_ACTIVE, None))"

section \<open>The store\<close>

record proposal =
  pp_id :: string
  pp_status :: proposal_status
  pp_policy :: update_policy
  pp_record :: durable_record
  pp_rationale :: ustring
  pp_evidence :: "string list"
  pp_created :: time
  pp_reviewed :: "time option"
  pp_reason :: "ustring option"
  pp_digest :: "string option"

text \<open>A directory of a proposal may be without its document.\<close>

record memory_disk =
  me_records :: "(string \<times> record_file) list"
  me_staging :: "(string \<times> proposal option) list"
  me_history :: "(string \<times> proposal option) list"
  me_reserved :: "string list"
  me_lifecycle :: "supersession list option"

definition no_memory :: memory_disk where
  "no_memory = \<lparr>me_records = [], me_staging = [], me_history = [], me_reserved = [], me_lifecycle = None\<rparr>"

text \<open>The disk, the disks after each file operation so far, and the number of readings of the clock.\<close>

record memory =
  mm_disk :: memory_disk
  mm_past :: "memory_disk list"
  mm_ticks :: nat

text \<open>
  The day of a moment, \<^verbatim>\<open>safe_diagnostic\<close>, the JSON of a record, the digest of a record file; the hash of
  each regular file of the project, and which paths lead through a link; the configured policy.
\<close>

record memory_env =
  mv_clock :: "nat \<Rightarrow> time"
  mv_day :: "time \<Rightarrow> string"
  mv_safe :: "ustring \<Rightarrow> ustring"
  mv_dump :: "durable_record \<Rightarrow> ustring"
  mv_digest :: "record_file \<Rightarrow> string"
  mv_hash :: "string \<Rightarrow> string option"
  mv_linked :: "string \<Rightarrow> bool"
  mv_policy :: "err + update_policy"

type_synonym 'a mem = "(memory, 'a) prog"

definition disk_op :: "(memory_disk \<Rightarrow> memory_disk) \<Rightarrow> unit mem" where
  "disk_op f = modify (\<lambda>s. s\<lparr>mm_disk := f (mm_disk s), mm_past := f (mm_disk s) # mm_past s\<rparr>)"

definition on_disk :: "(memory_disk \<Rightarrow> 'a) \<Rightarrow> 'a mem" where
  "on_disk f = reads (\<lambda>s. f (mm_disk s))"

definition memory_now :: "memory_env \<Rightarrow> time mem" where
  "memory_now E = bnd (reads (\<lambda>s. mv_clock E (mm_ticks s))) (\<lambda>t. bnd (modify (\<lambda>s. s\<lparr>mm_ticks := Suc (mm_ticks s)\<rparr>)) (\<lambda>_. ret t))"

text \<open>\<^verbatim>\<open>_ensure_secret_safe\<close> and \<^verbatim>\<open>_source_path\<close>.\<close>

definition secret_safe :: "memory_env \<Rightarrow> ustring list \<Rightarrow> unit mem" where
  "secret_safe E ts = deny (\<exists>t \<in> set ts. mv_safe E t \<noteq> t) PolicyDenied"

definition validate_sources :: "memory_env \<Rightarrow> durable_record \<Rightarrow> unit mem" where
  "validate_sources E r = deny (\<exists>p \<in> set (mp_paths (dr_source r)). validate_relative_path (ascii p) \<noteq> Inr () \<or> mv_linked E p) PolicyDenied"

section \<open>Identifiers\<close>

definition numbered_id :: "string \<Rightarrow> string \<Rightarrow> nat \<Rightarrow> string" where
  "numbered_id pre day n = pre @ ''-'' @ day @ ''-'' @ padded n"

definition proposed_ids :: "memory_disk \<Rightarrow> string list" where
  "proposed_ids d = map (dr_id \<circ> pp_record) (List.map_filter snd (me_staging d @ me_history d))"

definition used_names :: "memory_disk \<Rightarrow> string list" where
  "used_names d = map fst (me_records d) @ map fst (me_staging d) @ map fst (me_history d) @ me_reserved d"

definition next_id :: "memory_env \<Rightarrow> string \<Rightarrow> string mem" where
  "next_id E pre = bnd (memory_now E) (\<lambda>now. bnd (on_disk (\<lambda>d. used_names d @ (if pre = ''MEM'' then proposed_ids d else []))) (\<lambda>used.
     the_or Conflict (find (\<lambda>i. i \<notin> set used) (map (numbered_id pre (mv_day E now)) [1..<10000]))))"

definition make_record :: "durable_record \<Rightarrow> durable_record mem" where
  "make_record r = bnd (deny (\<not> durable_ok r) ValueErr) (\<lambda>_. ret r)"

definition new_record :: "memory_env \<Rightarrow> memory_category \<Rightarrow> ustring \<Rightarrow> ustring \<Rightarrow> provenance \<Rightarrow> string option \<Rightarrow> string option \<Rightarrow> rat
    \<Rightarrow> ustring option \<Rightarrow> string list \<Rightarrow> durable_record mem" where
  "new_record E category title content source commit_name task confidence summary references =
     bnd (next_id E ''MEM'') (\<lambda>i.
     bnd (disk_op (\<lambda>d. d\<lparr>me_reserved := i # me_reserved d\<rparr>)) (\<lambda>_.
     bnd (memory_now E) (\<lambda>now.
     make_record \<lparr>dr_id = i, dr_category = category, dr_title = title, dr_content = content, dr_source = source, dr_commit = commit_name,
       dr_task = task, dr_confidence = confidence, dr_verified = now, dr_supersedes = None, dr_summary = summary, dr_references = references\<rparr>)))"

section \<open>Reading and saving\<close>

definition get_record :: "memory_env \<Rightarrow> string \<Rightarrow> durable_record mem" where
  "get_record E i = bnd (deny (\<not> memory_id i) PolicyDenied) (\<lambda>_.
     bnd (on_disk (\<lambda>d. map_of (me_records d) i)) (\<lambda>found. bnd (the_or NotFound found) (\<lambda>f.
     bnd (result_of (parse_record f)) (\<lambda>r. bnd (validate_sources E r) (\<lambda>_. ret r)))))"

definition validate_references :: "memory_env \<Rightarrow> durable_record \<Rightarrow> unit mem" where
  "validate_references E r = for_each (dr_references r) (get_record E)"

definition save_record :: "memory_env \<Rightarrow> durable_record \<Rightarrow> unit mem" where
  "save_record E r = bnd (secret_safe E [dr_title r, dr_content r, mv_dump E r]) (\<lambda>_.
     bnd (validate_sources E r) (\<lambda>_.
     bnd (validate_references E r) (\<lambda>_.
     bnd (on_disk (\<lambda>d. map_of (me_records d) (dr_id r))) (\<lambda>found. case found of
       Some f \<Rightarrow> bnd (result_of (parse_record f)) (\<lambda>known. deny (known \<noteq> r) Conflict)
     | None \<Rightarrow> disk_op (\<lambda>d. d\<lparr>me_records := me_records d @ [(dr_id r, frontmatter r)]\<rparr>)))))"

definition lifecycle_document :: "supersession list mem" where
  "lifecycle_document = bnd (on_disk me_lifecycle) (\<lambda>found. case found of None \<Rightarrow> ret []
     | Some ts \<Rightarrow> bnd (deny (\<not> lifecycle_ok ts) Conflict) (\<lambda>_. ret ts))"

definition list_records :: "memory_env \<Rightarrow> bool \<Rightarrow> durable_record list mem" where
  "list_records E include_inactive = bnd lifecycle_document (\<lambda>ts.
     bnd (on_disk (\<lambda>d. map snd (sort_key fst (me_records d)))) (\<lambda>files. bnd (collect files (\<lambda>f. result_of (parse_record f))) (\<lambda>rs.
     let by_id = map_of (map (\<lambda>r. (dr_id r, r)) rs) in
     bnd (deny (\<not> distinct (map dr_id rs)) Conflict) (\<lambda>_.
     bnd (for_each rs (validate_sources E)) (\<lambda>_.
     bnd (for_each ts (\<lambda>t. case (by_id (su_predecessor t), by_id (su_successor t)) of
         (Some p, Some q) \<Rightarrow> deny (dr_supersedes q \<noteq> Some (su_predecessor t)) Conflict
       | _ \<Rightarrow> raise_err Conflict)) (\<lambda>_.
     ret (filter (\<lambda>r. include_inactive \<or> fst (lifecycle_state r ts) = ML_ACTIVE) rs)))))))"

section \<open>Freshness\<close>

record record_status =
  rs_record :: durable_record
  rs_stale :: bool
  rs_changed :: "string list"
  rs_lifecycle :: memory_lifecycle
  rs_successor :: "string option"

text \<open>\<^verbatim>\<open>statuses\<close> for one record; \<open>hash\<close> is of the inspected checkout.\<close>

definition changed_paths :: "(string \<Rightarrow> string option) \<Rightarrow> string option \<Rightarrow> durable_record \<Rightarrow> string list" where
  "changed_paths hash current r =
     (let changed = filter (\<lambda>p. case map_of (mp_hashes (dr_source r)) p of None \<Rightarrow> False | Some x \<Rightarrow> hash p \<noteq> Some x) (mp_paths (dr_source r)) in
      if changed = [] \<and> given (dr_commit r) \<and> given current \<and> dr_commit r \<noteq> current \<and> mp_hashes (dr_source r) = []
      then (if mp_paths (dr_source r) = [] then [''<repository>''] else mp_paths (dr_source r)) else changed)"

definition record_status_of :: "memory_env \<Rightarrow> (string \<Rightarrow> string option) \<Rightarrow> string option \<Rightarrow> supersession list \<Rightarrow> durable_record \<Rightarrow> record_status mem" where
  "record_status_of E hash current ts r = bnd (validate_sources E r) (\<lambda>_.
     let changed = changed_paths hash current r; state = lifecycle_state r ts in
     ret \<lparr>rs_record = r, rs_stale = (changed \<noteq> []), rs_changed = sort_key id changed, rs_lifecycle = fst state, rs_successor = snd state\<rparr>)"

definition statuses :: "memory_env \<Rightarrow> (string \<Rightarrow> string option) \<Rightarrow> string option \<Rightarrow> durable_record list \<Rightarrow> record_status list mem" where
  "statuses E hash current rs = (if rs = [] then ret []
     else bnd lifecycle_document (\<lambda>ts. collect rs (record_status_of E hash current ts)))"

definition status_of_record :: "memory_env \<Rightarrow> string option \<Rightarrow> durable_record \<Rightarrow> record_status mem" where
  "status_of_record E current r = bnd (statuses E (mv_hash E) current [r]) (\<lambda>ss. ret (hd ss))"

text \<open>\<^verbatim>\<open>revalidate\<close>: the hashes of a stale record's sources are taken anew if all of them exist.\<close>

definition rehashed :: "memory_env \<Rightarrow> string \<Rightarrow> time \<Rightarrow> durable_record \<Rightarrow> durable_record" where
  "rehashed E current now r = r\<lparr>dr_source := (dr_source r)\<lparr>mp_hashes := map (\<lambda>p. (p, the (mv_hash E p))) (dict_fromkeys (mp_paths (dr_source r)))\<rparr>,
     dr_commit := Some current, dr_verified := now\<rparr>"

definition replace_record :: "memory_env \<Rightarrow> string \<Rightarrow> durable_record \<Rightarrow> durable_record \<Rightarrow> (record_status \<times> string option \<times> bool) mem" where
  "replace_record E current r updated =
     bnd (secret_safe E [dr_title updated, dr_content updated, mv_dump E updated]) (\<lambda>_.
     bnd (validate_sources E updated) (\<lambda>_.
     bnd (on_disk (\<lambda>d. map_of (me_records d) (dr_id updated))) (\<lambda>found. bnd (the_or Conflict found) (\<lambda>f.
     bnd (result_of (parse_record f)) (\<lambda>known. bnd (deny (known \<noteq> r) Conflict) (\<lambda>_.
     bnd (disk_op (\<lambda>d. d\<lparr>me_records := AList.update (dr_id updated) (frontmatter updated) (me_records d)\<rparr>)) (\<lambda>_.
     bnd (status_of_record E (Some current) updated) (\<lambda>after. ret (after, Some (dr_id updated), False)))))))))"

definition revalidate_record :: "memory_env \<Rightarrow> string \<Rightarrow> durable_record \<Rightarrow> (record_status \<times> string option \<times> bool) mem" where
  "revalidate_record E current r = bnd (status_of_record E (Some current) r) (\<lambda>st.
     bnd (deny (rs_lifecycle st \<noteq> ML_ACTIVE) Conflict) (\<lambda>_.
     if \<not> rs_stale st then ret (st, None, False)
     else if \<exists>p \<in> set (mp_paths (dr_source r)). mv_hash E p = None then ret (st, None, True)
     else bnd (memory_now E) (\<lambda>now. replace_record E current r (rehashed E current now r))))"

definition revalidate :: "memory_env \<Rightarrow> string \<Rightarrow> string list \<Rightarrow> (record_status \<times> string option \<times> bool) list mem" where
  "revalidate E current requested = bnd (deny (blank current) Conflict) (\<lambda>_.
     bnd (deny (\<exists>i \<in> set requested. \<not> memory_id i) PolicyDenied) (\<lambda>_.
     bnd (if requested = [] then list_records E False else collect (dict_fromkeys requested) (get_record E)) (\<lambda>rs.
     collect rs (revalidate_record E current))))"

section \<open>Proposals\<close>

definition find_proposal :: "string \<Rightarrow> proposal mem" where
  "find_proposal i = bnd (deny (\<not> proposal_id i) PolicyDenied) (\<lambda>_.
     bnd (on_disk (\<lambda>d. (map_of (me_staging d) i, map_of (me_history d) i))) (\<lambda>(staged, reviewed).
     the_or NotFound (case staged of Some (Some p) \<Rightarrow> Some p | _ \<Rightarrow> (case reviewed of Some q \<Rightarrow> q | None \<Rightarrow> None))))"

definition list_proposals :: "string option \<Rightarrow> proposal list mem" where
  "list_proposals task = bnd (on_disk (\<lambda>d. List.map_filter snd (sort_key fst (me_staging d) @ sort_key fst (me_history d)))) (\<lambda>ps.
     ret (sort_key (\<lambda>p. (pp_created p, pp_id p)) (filter (\<lambda>p. task = None \<or> dr_task (pp_record p) = task) ps)))"

text \<open>\<^verbatim>\<open>_review\<close>\<close>

definition publish_supersession :: "memory_env \<Rightarrow> supersession list \<Rightarrow> proposal \<Rightarrow> string \<Rightarrow> ustring \<Rightarrow> unit mem" where
  "publish_supersession E ts p before reason = bnd (the_or AssertFail (pp_digest p)) (\<lambda>digest. bnd (memory_now E) (\<lambda>now.
     let t = \<lparr>su_predecessor = before, su_successor = dr_id (pp_record p), su_digest = digest, su_proposal = pp_id p, su_reviewed = now,
           su_reason = reason, su_evidence = pp_evidence p\<rparr> in
     bnd (deny (\<not> lifecycle_ok (ts @ [t])) ValueErr) (\<lambda>_.
     disk_op (\<lambda>d. d\<lparr>me_lifecycle := Some (ts @ [t])\<rparr>))))"

definition unchanged_predecessor :: "memory_env \<Rightarrow> supersession list \<Rightarrow> proposal \<Rightarrow> string \<Rightarrow> unit mem" where
  "unchanged_predecessor E ts p before = bnd (get_record E before) (\<lambda>r.
     deny (pp_digest p \<noteq> Some (mv_digest E (frontmatter r)) \<or> fst (lifecycle_state r ts) \<noteq> ML_ACTIVE) Conflict)"

text \<open>The record is saved before the transition that makes it active is published.\<close>

definition activate_record :: "memory_env \<Rightarrow> supersession list \<Rightarrow> supersession option \<Rightarrow> proposal \<Rightarrow> ustring \<Rightarrow> unit mem" where
  "activate_record E ts published p reason = (let before = (case dr_supersedes (pp_record p) of None \<Rightarrow> None
       | Some b \<Rightarrow> if b \<noteq> [] \<and> published = None then Some b else None) in
     bnd (case before of None \<Rightarrow> ret () | Some b \<Rightarrow> unchanged_predecessor E ts p b) (\<lambda>_.
     bnd (save_record E (pp_record p)) (\<lambda>_.
     case before of None \<Rightarrow> ret () | Some b \<Rightarrow> publish_supersession E ts p b reason)))"

definition settle_proposal :: "string \<Rightarrow> proposal \<Rightarrow> unit mem" where
  "settle_proposal i p = bnd (disk_op (\<lambda>d. d\<lparr>me_staging := AList.update i (Some p) (me_staging d)\<rparr>)) (\<lambda>_.
     bnd (on_disk (\<lambda>d. i \<in> fst ` set (me_history d))) (\<lambda>there. bnd (deny there OsErr) (\<lambda>_.
     disk_op (\<lambda>d. d\<lparr>me_staging := filter (\<lambda>(j, q). j \<noteq> i) (me_staging d), me_history := me_history d @ [(i, Some p)]\<rparr>))))"

definition mark_reviewed :: "memory_env \<Rightarrow> supersession option \<Rightarrow> proposal_status \<Rightarrow> ustring \<Rightarrow> proposal \<Rightarrow> proposal mem" where
  "mark_reviewed E published wanted reason p = (if pp_status p = wanted then ret p
     else bnd (case published of Some t \<Rightarrow> ret (su_reviewed t) | None \<Rightarrow> memory_now E) (\<lambda>at_time.
       ret (p\<lparr>pp_status := wanted, pp_reviewed := Some at_time,
              pp_reason := Some (case published of Some t \<Rightarrow> su_reason t | None \<Rightarrow> reason)\<rparr>)))"

definition review_staged :: "memory_env \<Rightarrow> string \<Rightarrow> bool \<Rightarrow> ustring \<Rightarrow> proposal \<Rightarrow> proposal mem" where
  "review_staged E i approved reason p = (let wanted = (if approved then PROP_APPROVED else PROP_REJECTED) in
     bnd (deny (pp_status p \<noteq> PROP_PENDING \<and> pp_status p \<noteq> wanted) Conflict) (\<lambda>_.
     bnd lifecycle_document (\<lambda>ts.
     let published = find (\<lambda>t. su_proposal t = i) ts in
     bnd (deny (case published of None \<Rightarrow> False | Some t \<Rightarrow> \<not> approved \<or> su_successor t \<noteq> dr_id (pp_record p)
       \<or> Some (su_predecessor t) \<noteq> dr_supersedes (pp_record p) \<or> Some (su_digest t) \<noteq> pp_digest p) Conflict) (\<lambda>_.
     bnd (if approved then activate_record E ts published p reason else ret ()) (\<lambda>_.
     bnd (mark_reviewed E published wanted reason p) (\<lambda>q.
     bnd (settle_proposal i q) (\<lambda>_. ret q)))))))"

definition review_proposal :: "memory_env \<Rightarrow> string \<Rightarrow> bool \<Rightarrow> ustring \<Rightarrow> proposal mem" where
  "review_proposal E i approved reason = bnd (deny (list_all uspace reason) Conflict) (\<lambda>_.
     bnd (secret_safe E [reason]) (\<lambda>_. bnd (deny (\<not> proposal_id i) PolicyDenied) (\<lambda>_.
     bnd (on_disk (\<lambda>d. map_of (me_staging d) i)) (\<lambda>staged. case staged of
       Some (Some p) \<Rightarrow> review_staged E i approved reason p
     | _ \<Rightarrow> bnd (find_proposal i) (\<lambda>p.
         bnd (deny (pp_status p \<noteq> (if approved then PROP_APPROVED else PROP_REJECTED)) Conflict) (\<lambda>_. ret p))))))"

text \<open>\<^verbatim>\<open>propose\<close>: what it supersedes is the argument, or what the record itself says.\<close>

definition superseding :: "memory_env \<Rightarrow> durable_record \<Rightarrow> string option \<Rightarrow> (durable_record \<times> string option) mem" where
  "superseding E r supersedes = (case (if supersedes = None then dr_supersedes r else supersedes) of
     None \<Rightarrow> ret (r, None)
   | Some b \<Rightarrow> bnd (deny (\<not> memory_id b) PolicyDenied) (\<lambda>_. bnd (deny (b = dr_id r) Conflict) (\<lambda>_.
       bnd (get_record E b) (\<lambda>p. bnd lifecycle_document (\<lambda>ts.
       bnd (deny (fst (lifecycle_state p ts) \<noteq> ML_ACTIVE) Conflict) (\<lambda>_.
       ret (r\<lparr>dr_supersedes := Some b\<rparr>, Some (mv_digest E (frontmatter p)))))))))"

definition propose_record :: "memory_env \<Rightarrow> durable_record \<Rightarrow> ustring \<Rightarrow> update_policy \<Rightarrow> string list \<Rightarrow> string option \<Rightarrow> proposal mem" where
  "propose_record E r rationale policy evidence supersedes =
     bnd (secret_safe E ([dr_title r, dr_content r, mv_dump E r, rationale] @ map ascii evidence)) (\<lambda>_.
     bnd (validate_sources E r) (\<lambda>_. bnd (validate_references E r) (\<lambda>_.
     bnd (superseding E r supersedes) (\<lambda>(r', digest).
     bnd (on_disk (\<lambda>d. dr_id r' \<in> fst ` set (me_records d) \<or> dr_id r' \<in> set (proposed_ids d))) (\<lambda>known. bnd (deny known Conflict) (\<lambda>_.
     bnd (next_id E ''MEM-PROP'') (\<lambda>i. bnd (memory_now E) (\<lambda>now.
     let p = \<lparr>pp_id = i, pp_status = PROP_PENDING, pp_policy = policy, pp_record = r', pp_rationale = rationale, pp_evidence = evidence,
           pp_created = now, pp_reviewed = None, pp_reason = None, pp_digest = digest\<rparr> in
     bnd (deny (rationale = []) ValueErr) (\<lambda>_.
     bnd (disk_op (\<lambda>d. d\<lparr>me_staging := me_staging d @ [(i, None)]\<rparr>)) (\<lambda>_.
     bnd (disk_op (\<lambda>d. d\<lparr>me_staging := AList.update i (Some p) (me_staging d)\<rparr>)) (\<lambda>_.
     if policy = UPDATE_AUTO then review_proposal E i True (ascii ''Approved by configured auto policy'') else ret p)))))))))))"

definition propose_task_outcome :: "memory_env \<Rightarrow> string \<Rightarrow> ustring \<Rightarrow> ustring \<Rightarrow> string \<Rightarrow> string list \<Rightarrow> proposal mem" where
  "propose_task_outcome E task title content commit_name evidence = bnd (deny (\<not> capsule_name task) PolicyDenied) (\<lambda>_.
     bnd (list_proposals (Some task)) (\<lambda>ps. case find (\<lambda>p. dr_title (pp_record p) = title) ps of
       Some p \<Rightarrow> ret p
     | None \<Rightarrow>
         bnd (new_record E CAT_WORKFLOWS title content \<lparr>mp_type = ''task'', mp_paths = [], mp_hashes = []\<rparr> (Some commit_name) (Some task) 1 None []) (\<lambda>r.
         bnd (result_of (mv_policy E)) (\<lambda>policy.
         propose_record E r (ascii ''Accepted delivery outcome proposed by the Memory Curator.'') policy evidence None))))"

definition source_hashes :: "memory_env \<Rightarrow> string list \<Rightarrow> (string \<times> string) list mem" where
  "source_hashes E paths = collect (dict_fromkeys paths) (\<lambda>p.
     bnd (deny (validate_relative_path (ascii p) \<noteq> Inr () \<or> mv_linked E p) PolicyDenied) (\<lambda>_.
     bnd (the_or PolicyDenied (mv_hash E p)) (\<lambda>x. ret (p, x))))"

section \<open>Operations\<close>

datatype memory_op =
    NewRecord memory_category ustring ustring provenance "string option" "string option" rat "ustring option" "string list"
  | SaveRecord durable_record
  | Propose durable_record ustring update_policy "string list" "string option"
  | ProposeOutcome string ustring ustring string "string list"
  | Review string bool ustring
  | Revalidate string "string list"

definition void :: "('s, 'a) prog \<Rightarrow> ('s, unit) prog" where
  "void m = bnd m (\<lambda>_. ret ())"

fun memory_step :: "memory_env \<Rightarrow> memory_op \<Rightarrow> unit mem" where
  "memory_step E (NewRecord category title content source c task confidence summary refs) =
     void (new_record E category title content source c task confidence summary refs)"
| "memory_step E (SaveRecord r) = bnd (make_record r) (\<lambda>_. save_record E r)"
| "memory_step E (Propose r rationale policy evidence supersedes) =
     bnd (make_record r) (\<lambda>_. void (propose_record E r rationale policy evidence supersedes))"
| "memory_step E (ProposeOutcome task title content c evidence) = void (propose_task_outcome E task title content c evidence)"
| "memory_step E (Review i approved reason) = void (review_proposal E i approved reason)"
| "memory_step E (Revalidate current ids) = void (revalidate E current ids)"

text \<open>What is given to be remembered has something besides white space in it.\<close>

definition telling :: "ustring \<Rightarrow> bool" where
  "telling t \<longleftrightarrow> (\<exists>c \<in> set t. \<not> uspace c)"

fun telling_op :: "memory_op \<Rightarrow> bool" where
  "telling_op (SaveRecord r) = telling (dr_content r)"
| "telling_op (Propose r rationale policy evidence supersedes) = telling (dr_content r)"
| "telling_op (ProposeOutcome task title content c evidence) = telling content"
| "telling_op _ = True"

text \<open>
  The disks there can be: an operation starts from one of them and may end, by a crash, after any of its
  file operations; the environment may be another one for each, hashes being SHA-256 digests.
\<close>

definition honest :: "memory_env \<Rightarrow> bool" where
  "honest E \<longleftrightarrow> (\<forall>p x. mv_hash E p = Some x \<longrightarrow> sha256_text x)"

inductive memory_reachable :: "(record_file \<Rightarrow> string) \<Rightarrow> memory_disk \<Rightarrow> bool" for digest where
  "memory_reachable digest no_memory"
| "memory_reachable digest d \<Longrightarrow> mv_digest E = digest \<Longrightarrow> honest E \<Longrightarrow> telling_op action
    \<Longrightarrow> d' \<in> set (mm_past (snd (memory_step E action \<lparr>mm_disk = d, mm_past = [], mm_ticks = n\<rparr>))) \<Longrightarrow> memory_reachable digest d'"

section \<open>Texts\<close>

definition ink :: "ustring \<Rightarrow> ustring" where
  "ink = filter (\<lambda>c. \<not> uspace c)"

lemma telling_ink: "telling t \<longleftrightarrow> ink t \<noteq> []"
  by (auto simp: telling_def ink_def filter_empty_conv)

lemma ink_none [simp]: "ink [] = []"
  by (simp add: ink_def)

lemma ink_more [simp]: "ink (c # t) = (if uspace c then ink t else c # ink t)"
  by (simp add: ink_def)

lemma common_spaces [simp]: "uspace 10" "uspace 13" "uspace 32" "\<not> uspace 35"
  by (simp_all add: uspace_def)

lemma ink_heading [simp]: "ink (heading t) = 35 # ink t"
  by (simp add: heading_def)

lemma ink_append [simp]: "ink (s @ t) = ink s @ ink t"
  by (simp add: ink_def)

lemma ink_rev: "ink (rev t) = rev (ink t)"
  by (simp add: ink_def rev_filter)

lemma ink_drop: "ink (dropWhile uspace t) = ink t"
  by (induction t) auto

lemma ink_rstrip [simp]: "ink (rstrip t) = ink t"
  by (simp add: rstrip_def ink_rev ink_drop)

lemma ink_ustrip [simp]: "ink (ustrip t) = ink t"
  by (simp add: ustrip_def ink_drop)

lemma ustrip_blank:
  assumes "\<forall>c \<in> set t. uspace c"
  shows "ustrip t = []"
proof -
  have "dropWhile uspace t = []" using assms dropWhile_eq_Nil_conv by blast
  then show ?thesis unfolding ustrip_def rstrip_def by (simp only: rev.simps dropWhile.simps)
qed

lemma ink_translated [simp]: "ink (translated t) = ink t"
  by (induction t rule: translated.induct) auto

lemma starts_with_split: "starts_with p t \<Longrightarrow> t = p @ drop (length p) t"
  by (induction p t rule: starts_with.induct) auto

lemma ink_content: "ink (body_content (dr_title r) (rf_body (frontmatter r))) \<in> {ink (dr_content r), ink (heading (dr_title r)) @ ink (dr_content r)}"
proof (cases "starts_with (heading (dr_title r)) (ustrip (translated (rf_body (frontmatter r))))")
  case True
  let ?t = "ustrip (translated (rf_body (frontmatter r)))"
  have "ink ?t = ink (heading (dr_title r)) @ ink (dr_content r)"
    by (simp add: frontmatter_def)
  moreover have "ink ?t = ink (heading (dr_title r)) @ ink (drop (length (heading (dr_title r))) ?t)"
    using starts_with_split [OF True] by (metis ink_append)
  ultimately show ?thesis using True by (simp add: body_content_def Let_def)
next
  case False
  then show ?thesis by (simp add: body_content_def Let_def frontmatter_def)
qed

lemma frontmatter_read:
  assumes "durable_ok r" and "telling (dr_content r)"
  shows "\<exists>t. parse_record (frontmatter r) = Inr (r\<lparr>dr_content := t\<rparr>) \<and> telling t"
proof -
  let ?t = "body_content (dr_title r) (rf_body (frontmatter r))"
  have "ink ?t \<noteq> []" using ink_content [of r] assms(2) by (auto simp: telling_ink)
  then have t: "telling ?t" by (simp add: telling_ink)
  then have "?t \<noteq> []" by (auto simp: telling_def)
  with assms(1) have "durable_ok (r\<lparr>dr_content := ?t\<rparr>)" by (simp add: durable_ok_def)
  moreover have "(rf_meta (frontmatter r))\<lparr>dr_content := ?t\<rparr> = r\<lparr>dr_content := ?t\<rparr>" "dr_title (rf_meta (frontmatter r)) = dr_title r"
    by (simp_all add: frontmatter_def)
  ultimately show ?thesis using t by (auto simp: parse_record_def Let_def)
qed

text \<open>A text of white space alone cannot be read back.\<close>

lemma blank_content_lost:
  assumes "ink (dr_content r) = []" and "starts_with (heading (dr_title r)) (ustrip (translated (rf_body (frontmatter r))))"
  shows "parse_record (frontmatter r) = Inl ValueErr"
proof -
  let ?t = "body_content (dr_title r) (rf_body (frontmatter r))"
  let ?s = "ustrip (translated (rf_body (frontmatter r)))"
  have "ink ?s = ink (heading (dr_title r))" using assms(1) by (simp add: frontmatter_def)
  moreover have "ink ?s = ink (heading (dr_title r)) @ ink (drop (length (heading (dr_title r))) ?s)"
    using starts_with_split [OF assms(2)] by (metis ink_append)
  ultimately have "ink (drop (length (heading (dr_title r))) ?s) = []" by simp
  then have "\<forall>c \<in> set (drop (length (heading (dr_title r))) ?s). uspace c" by (auto simp: ink_def filter_empty_conv)
  then have "ustrip (drop (length (heading (dr_title r))) ?s) = []"
    by (rule ustrip_blank)
  then have "?t = []" using assms(2) by (simp add: body_content_def Let_def)
  moreover have "dr_title (rf_meta (frontmatter r)) = dr_title r" by (simp add: frontmatter_def)
  ultimately show ?thesis by (simp add: parse_record_def durable_ok_def Let_def)
qed

section \<open>The invariant of the store\<close>

definition transitions_of :: "memory_disk \<Rightarrow> supersession list" where
  "transitions_of d = (case me_lifecycle d of None \<Rightarrow> [] | Some ts \<Rightarrow> ts)"

definition recorded :: "memory_disk \<Rightarrow> string \<Rightarrow> durable_record \<Rightarrow> bool" where
  "recorded d i r \<longleftrightarrow> (\<exists>f. map_of (me_records d) i = Some f \<and> parse_record f = Inr r)"

definition proposal_kept :: "string \<times> proposal option \<Rightarrow> bool" where
  "proposal_kept s \<longleftrightarrow> (case snd s of None \<Rightarrow> True
     | Some p \<Rightarrow> pp_id p = fst s \<and> durable_ok (pp_record p) \<and> telling (dr_content (pp_record p)))"

definition memory_ok :: "(record_file \<Rightarrow> string) \<Rightarrow> memory_disk \<Rightarrow> bool" where
  "memory_ok digest d \<longleftrightarrow> distinct (map fst (me_records d))
     \<and> (\<forall>i \<in> fst ` set (me_records d). \<exists>r. recorded d i r \<and> dr_id r = i \<and> durable_ok r \<and> telling (dr_content r))
     \<and> (\<forall>x \<in> set (me_staging d). proposal_kept x) \<and> lifecycle_ok (transitions_of d)
     \<and> (\<forall>t \<in> set (transitions_of d). \<exists>p q. recorded d (su_predecessor t) p \<and> digest (frontmatter p) = su_digest t
          \<and> recorded d (su_successor t) q \<and> dr_supersedes q = Some (su_predecessor t))"

definition good :: "(record_file \<Rightarrow> string) \<Rightarrow> memory \<Rightarrow> bool" where
  "good digest s \<longleftrightarrow> memory_ok digest (mm_disk s) \<and> (\<forall>d \<in> set (mm_past s). memory_ok digest d)"

definition kept :: "(record_file \<Rightarrow> string) \<Rightarrow> 'a mem \<Rightarrow> ('a \<Rightarrow> memory \<Rightarrow> bool) \<Rightarrow> memory \<Rightarrow> bool" where
  "kept digest m Q s \<longleftrightarrow> wp m (\<lambda>x t. good digest t \<and> Q x t) (\<lambda>_ t. good digest t) s"

lemma kept_bnd: "kept digest m (\<lambda>x t. kept digest (f x) Q t) s \<Longrightarrow> kept digest (bnd m f) Q s"
  unfolding kept_def wp_bnd by (erule wp_mono) simp_all

lemma kept_ret: "good digest s \<Longrightarrow> Q x s \<Longrightarrow> kept digest (ret x) Q s"
  by (simp add: kept_def wp_ret)

lemma kept_raise: "good digest s \<Longrightarrow> kept digest (raise_err e) Q s"
  by (simp add: kept_def wp_raise)

lemma kept_deny: "good digest s \<Longrightarrow> (\<not> b \<Longrightarrow> Q () s) \<Longrightarrow> kept digest (deny b e) Q s"
  by (simp add: kept_def wp_deny)

lemma kept_the_or: "good digest s \<Longrightarrow> (\<And>y. x = Some y \<Longrightarrow> Q y s) \<Longrightarrow> kept digest (the_or e x) Q s"
  by (simp add: kept_def wp_the_or split: option.split)

lemma kept_disk: "good digest s \<Longrightarrow> Q (f (mm_disk s)) s \<Longrightarrow> kept digest (on_disk f) Q s"
  by (simp add: kept_def on_disk_def wp_reads)

lemma kept_op: "good digest s \<Longrightarrow> memory_ok digest (f (mm_disk s))
    \<Longrightarrow> Q () (s\<lparr>mm_disk := f (mm_disk s), mm_past := f (mm_disk s) # mm_past s\<rparr>) \<Longrightarrow> kept digest (disk_op f) Q s"
  by (simp add: kept_def disk_op_def wp_modify good_def)

lemma kept_mono: "kept digest m Q s \<Longrightarrow> (\<And>x t. good digest t \<Longrightarrow> Q x t \<Longrightarrow> Q' x t) \<Longrightarrow> kept digest m Q' s"
  unfolding kept_def by (erule wp_mono) simp_all

lemma kept_void: "kept digest m Q s \<Longrightarrow> kept digest (void m) (\<lambda>_ _. True) s"
  unfolding void_def by (rule kept_bnd) (erule kept_mono, simp add: kept_ret)

text \<open>A program that only reads.\<close>

definition same_disk :: "memory \<Rightarrow> memory \<Rightarrow> bool" where
  "same_disk s t \<longleftrightarrow> mm_disk t = mm_disk s \<and> mm_past t = mm_past s"

interpretation look: step_order same_disk
  by unfold_locales (auto simp: same_disk_def)

lemma kept_look: "keeps same_disk m \<Longrightarrow> good digest s \<Longrightarrow> (\<And>x t. m s = (Inr x, t) \<Longrightarrow> mm_disk t = mm_disk s \<Longrightarrow> good digest t \<Longrightarrow> Q x t)
    \<Longrightarrow> kept digest m Q s"
  unfolding kept_def wp_def good_def by (auto split: prod.split sum.split dest!: keepsD simp: same_disk_def)

lemma look_disk: "keeps same_disk (on_disk f)"
  unfolding on_disk_def by (rule look.keeps_reads)

lemma look_now: "keeps same_disk (memory_now E)"
  by (auto simp: keeps_def memory_now_def prog_simps same_disk_def)

lemma look_result: "keeps same_disk (result_of r)"
  by (auto simp: result_of_def intro: look.keeps_raise look.keeps_ret split: sum.split)

lemmas look_laws = look.keeps_ret look.keeps_raise look.keeps_deny look.keeps_the_or look.keeps_bnd look.keeps_if look.keeps_case_option
  look.keeps_case_prod look.keeps_case_sum look.keeps_let look.keeps_for_each look.keeps_collect look_disk look_now look_result

lemma look_get: "keeps same_disk (get_record E i)"
  unfolding get_record_def validate_sources_def by (intro look_laws)

lemma look_checks: "keeps same_disk (secret_safe E ts)" "keeps same_disk (validate_sources E r)" "keeps same_disk (validate_references E r)"
  unfolding secret_safe_def validate_sources_def validate_references_def by (intro look_laws look_get)+

lemma look_lifecycle: "keeps same_disk lifecycle_document"
  unfolding lifecycle_document_def by (intro look_laws)

lemma look_next: "keeps same_disk (next_id E pre)"
  unfolding next_id_def by (intro look_laws)

lemma look_list: "keeps same_disk (list_records E b)" "keeps same_disk (list_proposals task)" "keeps same_disk (find_proposal i)"
  unfolding list_records_def list_proposals_def find_proposal_def Let_def
  by (intro look_laws look_lifecycle look_checks)+

lemma look_status: "keeps same_disk (status_of_record E current r)"
  unfolding status_of_record_def statuses_def record_status_of_def Let_def
  by (intro look_laws look_lifecycle look_checks)

lemma look_superseding: "keeps same_disk (superseding E r b)" "keeps same_disk (unchanged_predecessor E ts p c)"
  unfolding superseding_def unchanged_predecessor_def by (intro look_laws look_get look_lifecycle)+

lemma get_returns: "get_record E i s = (Inr r, t) \<Longrightarrow> recorded (mm_disk s) i r \<and> mm_disk t = mm_disk s"
  using keepsD [OF look_get, of E i s "Inr r" t]
  by (auto simp: get_record_def bnd_run deny_run on_disk_def reads_run the_or_run result_of_def ret_run raise_run recorded_def same_disk_def
      split: if_splits option.splits sum.splits prod.splits)

lemma lifecycle_returns: "lifecycle_document s = (Inr ts, t) \<Longrightarrow> ts = transitions_of (mm_disk s)"
  by (auto simp: lifecycle_document_def bnd_run on_disk_def reads_run deny_run ret_run transitions_of_def split: option.splits if_splits)

lemma kept_bind: "kept digest m P s \<Longrightarrow> (\<And>x t. good digest t \<Longrightarrow> P x t \<Longrightarrow> kept digest (f x) Q t) \<Longrightarrow> kept digest (bnd m f) Q s"
  by (rule kept_bnd) (erule kept_mono, blast)

lemma kept_after: "keeps same_disk m \<Longrightarrow> good digest s \<Longrightarrow> (\<And>x t. m s = (Inr x, t) \<Longrightarrow> mm_disk t = mm_disk s \<Longrightarrow> good digest t \<Longrightarrow> kept digest (f x) Q t)
    \<Longrightarrow> kept digest (bnd m f) Q s"
  by (rule kept_bnd) (erule (1) kept_look, blast)

section \<open>Every file operation keeps the invariant\<close>

definition adds :: "memory_disk \<Rightarrow> memory_disk \<Rightarrow> bool" where
  "adds d d' \<longleftrightarrow> me_staging d' = me_staging d \<and> me_history d' = me_history d \<and> me_lifecycle d' = me_lifecycle d
     \<and> (\<forall>i r. recorded d i r \<longrightarrow> recorded d' i r)"

lemma recorded_elsewhere [simp]:
  "recorded (d\<lparr>me_staging := x\<rparr>) = recorded d" "recorded (d\<lparr>me_history := y\<rparr>) = recorded d" "recorded (d\<lparr>me_reserved := z\<rparr>) = recorded d"
  "recorded (d\<lparr>me_lifecycle := w\<rparr>) = recorded d"
  "transitions_of (d\<lparr>me_staging := x\<rparr>) = transitions_of d" "transitions_of (d\<lparr>me_history := y\<rparr>) = transitions_of d"
  "transitions_of (d\<lparr>me_reserved := z\<rparr>) = transitions_of d" "transitions_of (d\<lparr>me_records := v\<rparr>) = transitions_of d"
  "transitions_of (d\<lparr>me_lifecycle := Some ts\<rparr>) = ts"
  by (auto simp: recorded_def transitions_of_def fun_eq_iff)

lemma memory_ok_elsewhere [simp]:
  "memory_ok digest (d\<lparr>me_history := y\<rparr>) = memory_ok digest d" "memory_ok digest (d\<lparr>me_reserved := z\<rparr>) = memory_ok digest d"
  by (simp_all add: memory_ok_def)

lemma memory_ok_staging: "memory_ok digest d \<Longrightarrow> \<forall>x \<in> set xs. proposal_kept x \<Longrightarrow> memory_ok digest (d\<lparr>me_staging := xs\<rparr>)"
  by (simp add: memory_ok_def)

lemma map_of_snoc: "i \<notin> fst ` set xs \<Longrightarrow> map_of (xs @ [(i, x)]) j = (if j = i then Some x else map_of xs j)"
  by (induction xs) auto

lemma recorded_new: "i \<notin> fst ` set (me_records d) \<Longrightarrow> recorded (d\<lparr>me_records := me_records d @ [(i, f)]\<rparr>) j r
    \<longleftrightarrow> (if j = i then parse_record f = Inr r else recorded d j r)"
  by (simp add: recorded_def map_of_snoc del: map_of_append)

lemma recorded_known: "recorded d i r \<Longrightarrow> i \<in> fst ` set (me_records d)"
  by (auto simp: recorded_def dest!: map_of_SomeD intro: rev_image_eqI)

lemma memory_ok_new:
  assumes d: "memory_ok digest d" and i: "dr_id r \<notin> fst ` set (me_records d)" and r: "durable_ok r" "telling (dr_content r)"
  shows "memory_ok digest (d\<lparr>me_records := me_records d @ [(dr_id r, frontmatter r)]\<rparr>)"
    and "adds d (d\<lparr>me_records := me_records d @ [(dr_id r, frontmatter r)]\<rparr>)"
    and "\<exists>x. recorded (d\<lparr>me_records := me_records d @ [(dr_id r, frontmatter r)]\<rparr>) (dr_id r) x \<and> dr_supersedes x = dr_supersedes r"
proof -
  let ?d = "d\<lparr>me_records := me_records d @ [(dr_id r, frontmatter r)]\<rparr>"
  obtain t where t: "parse_record (frontmatter r) = Inr (r\<lparr>dr_content := t\<rparr>)" "telling t" using frontmatter_read [OF r] by blast
  then have ok: "durable_ok (r\<lparr>dr_content := t\<rparr>)" by (simp add: parse_record_def Let_def split: if_splits)
  have old: "recorded d j x \<Longrightarrow> recorded ?d j x" for j x using i recorded_known [of d j x] by (metis recorded_new)
  show "adds d ?d" using old by (simp add: adds_def)
  show "\<exists>x. recorded ?d (dr_id r) x \<and> dr_supersedes x = dr_supersedes r"
    using i t by (intro exI [of _ "r\<lparr>dr_content := t\<rparr>"]) (simp add: recorded_new)
  have "\<exists>x. recorded ?d j x \<and> dr_id x = j \<and> durable_ok x \<and> telling (dr_content x)" if "j \<in> fst ` set (me_records ?d)" for j
  proof (cases "j = dr_id r")
    case True
    then show ?thesis using i t ok by (intro exI [of _ "r\<lparr>dr_content := t\<rparr>"]) (simp add: recorded_new)
  next
    case False
    with that have "j \<in> fst ` set (me_records d)" by auto
    with d obtain x where "recorded d j x" "dr_id x = j" "durable_ok x" "telling (dr_content x)" by (auto simp: memory_ok_def)
    with old show ?thesis by blast
  qed
  moreover have "\<exists>p q. recorded ?d (su_predecessor t) p \<and> digest (frontmatter p) = su_digest t \<and> recorded ?d (su_successor t) q
      \<and> dr_supersedes q = Some (su_predecessor t)" if "t \<in> set (transitions_of d)" for t
    using d that old unfolding memory_ok_def by meson
  ultimately show "memory_ok digest ?d" using d i unfolding memory_ok_def by auto
qed

lemma adds_refl: "adds d d"
  by (simp add: adds_def)

lemma kept_save:
  assumes s: "good digest s" and r: "durable_ok r" "telling (dr_content r)"
  shows "kept digest (save_record E r) (\<lambda>_ t. adds (mm_disk s) (mm_disk t)
     \<and> (\<exists>x. recorded (mm_disk t) (dr_id r) x \<and> dr_supersedes x = dr_supersedes r)) s"
  unfolding save_record_def
proof -
  let ?Q = "\<lambda>t. adds (mm_disk s) (mm_disk t) \<and> (\<exists>x. recorded (mm_disk t) (dr_id r) x \<and> dr_supersedes x = dr_supersedes r)"
  have last: "kept digest (case map_of (me_records (mm_disk s)) (dr_id r) of
       Some f \<Rightarrow> bnd (result_of (parse_record f)) (\<lambda>known. deny (known \<noteq> r) Conflict)
     | None \<Rightarrow> disk_op (\<lambda>d. d\<lparr>me_records := me_records d @ [(dr_id r, frontmatter r)]\<rparr>)) (\<lambda>_. ?Q) t"
    if t: "good digest t" "mm_disk t = mm_disk s" for t
  proof (cases "map_of (me_records (mm_disk s)) (dr_id r)")
    case None
    then have "dr_id r \<notin> fst ` set (me_records (mm_disk s))" by (simp add: map_of_eq_None_iff)
    moreover have "memory_ok digest (mm_disk s)" using s by (simp add: good_def)
    ultimately show ?thesis using memory_ok_new [OF _ _ r] t None by (auto intro!: kept_op)
  next
    case (Some f)
    then show ?thesis using t
      by (auto simp: result_of_def recorded_def adds_refl intro!: kept_bind [where P = "\<lambda>x u. mm_disk u = mm_disk s \<and> parse_record f = Inr x"]
          kept_ret kept_raise kept_deny split: sum.split)
  qed
  show "kept digest (bnd (secret_safe E [dr_title r, dr_content r, mv_dump E r]) (\<lambda>_.
     bnd (validate_sources E r) (\<lambda>_. bnd (validate_references E r) (\<lambda>_.
     bnd (on_disk (\<lambda>d. map_of (me_records d) (dr_id r))) (\<lambda>found. case found of
       Some f \<Rightarrow> bnd (result_of (parse_record f)) (\<lambda>known. deny (known \<noteq> r) Conflict)
     | None \<Rightarrow> disk_op (\<lambda>d. d\<lparr>me_records := me_records d @ [(dr_id r, frontmatter r)]\<rparr>)))))) (\<lambda>_. ?Q) s"
    by (intro kept_after look_checks look_disk s) (auto simp: on_disk_def reads_run intro: last)
qed

lemma kept_publish:
  assumes s: "good digest s" "ts = transitions_of (mm_disk s)" and before: "recorded (mm_disk s) b x" "pp_digest p = Some (digest (frontmatter x))"
    and after: "recorded (mm_disk s) (dr_id (pp_record p)) y" "dr_supersedes y = Some b"
  shows "kept digest (publish_supersession E ts p b reason) (\<lambda>_ _. True) s"
proof -
  let ?t = "\<lambda>now. \<lparr>su_predecessor = b, su_successor = dr_id (pp_record p), su_digest = digest (frontmatter x), su_proposal = pp_id p,
      su_reviewed = now, su_reason = reason, su_evidence = pp_evidence p\<rparr>"
  have ok: "memory_ok digest (mm_disk s)" using s(1) by (simp add: good_def)
  have "\<exists>p q. recorded (mm_disk s) (su_predecessor t) p \<and> digest (frontmatter p) = su_digest t \<and> recorded (mm_disk s) (su_successor t) q
      \<and> dr_supersedes q = Some (su_predecessor t)" if "t \<in> set (ts @ [?t now])" for t now
  proof (cases "t \<in> set ts")
    case True
    with ok s(2) show ?thesis unfolding memory_ok_def by blast
  next
    case False
    with that have "t = ?t now" by simp
    with before(1) after show ?thesis by (intro exI [of _ x] exI [of _ y]) simp
  qed
  then have "memory_ok digest ((mm_disk s)\<lparr>me_lifecycle := Some (ts @ [?t now])\<rparr>)" if "lifecycle_ok (ts @ [?t now])" for now
    using ok that by (simp add: memory_ok_def)
  then show ?thesis unfolding publish_supersession_def Let_def before(2)
    by (intro kept_after [OF look.keeps_the_or] kept_after [OF look_now] kept_after [OF look.keeps_deny] kept_op s(1))
      (auto simp: the_or_run deny_run split: if_splits)
qed

lemma updated_members: "x \<in> set (AList.update k v xs) \<Longrightarrow> x = (k, v) \<or> x \<in> set xs"
  by (induction xs) (auto split: if_splits)

lemma kept_settle:
  assumes s: "good digest s" and p: "proposal_kept (i, Some p)"
  shows "kept digest (settle_proposal i p) (\<lambda>_ _. True) s"
proof -
  have ok: "\<forall>x \<in> set (me_staging (mm_disk s)). proposal_kept x" "memory_ok digest (mm_disk s)" using s by (simp_all add: good_def memory_ok_def)
  then have "\<forall>x \<in> set (AList.update i (Some p) (me_staging (mm_disk s))). proposal_kept x" using p by (auto dest: updated_members)
  moreover from this have "\<forall>x \<in> set (filter (\<lambda>(j, q). j \<noteq> i) (AList.update i (Some p) (me_staging (mm_disk s)))). proposal_kept x" by auto
  ultimately show ?thesis unfolding settle_proposal_def
    by (intro kept_bind [where P = "\<lambda>_ t. mm_disk t = (mm_disk s)\<lparr>me_staging := AList.update i (Some p) (me_staging (mm_disk s))\<rparr>"]
        kept_op kept_after [OF look_disk] kept_after [OF look.keeps_deny] s memory_ok_staging ok(2))
      (auto simp: ok(2) intro: memory_ok_staging)
qed

lemma predecessor_returns: "unchanged_predecessor E ts p b s = (Inr u, t)
    \<Longrightarrow> \<exists>x. recorded (mm_disk s) b x \<and> pp_digest p = Some (mv_digest E (frontmatter x))"
  by (auto simp: unchanged_predecessor_def bnd_run deny_run split: prod.splits sum.splits if_splits dest!: get_returns)

lemma kept_activate:
  assumes s: "good digest s" "ts = transitions_of (mm_disk s)" "mv_digest E = digest" and p: "durable_ok (pp_record p)" "telling (dr_content (pp_record p))"
  shows "kept digest (activate_record E ts published p reason) (\<lambda>_ _. True) s"
proof (cases "\<exists>b. dr_supersedes (pp_record p) = Some b \<and> b \<noteq> [] \<and> published = None")
  case False
  then have "(case dr_supersedes (pp_record p) of None \<Rightarrow> None | Some b \<Rightarrow> if b \<noteq> [] \<and> published = None then Some b else None) = None"
    by (auto split: option.split)
  then show ?thesis unfolding activate_record_def Let_def
    using kept_bind [OF kept_save [OF s(1) p], of "\<lambda>_. ret ()"] by (simp add: kept_ret)
next
  case True
  then obtain b where b: "dr_supersedes (pp_record p) = Some b"
    "(case dr_supersedes (pp_record p) of None \<Rightarrow> None | Some b \<Rightarrow> if b \<noteq> [] \<and> published = None then Some b else None) = Some b"
    by auto
  show ?thesis unfolding activate_record_def Let_def b(2) option.case
  proof (rule kept_after [OF look_superseding(2) s(1)])
    fix u t
    assume t: "unchanged_predecessor E ts p b s = (Inr u, t)" "mm_disk t = mm_disk s" "good digest t"
    then obtain x where x: "recorded (mm_disk s) b x" "pp_digest p = Some (digest (frontmatter x))"
      using predecessor_returns s(3) by metis
    show "kept digest (bnd (save_record E (pp_record p)) (\<lambda>_. publish_supersession E ts p b reason)) (\<lambda>_ _. True) t"
    proof (rule kept_bind [OF kept_save [OF t(3) p]], elim conjE exE)
      fix v r y
      assume r: "good digest r" "adds (mm_disk t) (mm_disk r)" and y: "recorded (mm_disk r) (dr_id (pp_record p)) y"
        "dr_supersedes y = dr_supersedes (pp_record p)"
      have "recorded (mm_disk r) b x" "ts = transitions_of (mm_disk r)" using r(2) x(1) t(2) s(2) by (auto simp: adds_def transitions_of_def)
      with r(1) x(2) y b(1) show "kept digest (publish_supersession E ts p b reason) (\<lambda>_ _. True) r" by (intro kept_publish) auto
    qed
  qed
qed

lemma good_staged: "good digest s \<Longrightarrow> map_of (me_staging (mm_disk s)) i = Some (Some p) \<Longrightarrow> proposal_kept (i, Some p)"
  by (auto simp: good_def memory_ok_def dest: map_of_SomeD)

lemma look_mark: "keeps same_disk (mark_reviewed E published wanted reason p)"
  unfolding mark_reviewed_def by (intro look_laws)

lemma mark_returns: "mark_reviewed E published wanted reason p s = (Inr q, t) \<Longrightarrow> pp_record q = pp_record p \<and> pp_id q = pp_id p"
  by (auto simp: mark_reviewed_def bnd_run ret_run memory_now_def reads_run modify_run split: if_splits option.splits)

lemma kept_review_staged:
  assumes s: "good digest s" "mv_digest E = digest" and p: "proposal_kept (i, Some p)"
  shows "kept digest (review_staged E i approved reason p) (\<lambda>_ _. True) s"
proof -
  have rec: "durable_ok (pp_record p)" "telling (dr_content (pp_record p))" using p by (simp_all add: proposal_kept_def)
  have finish: "kept digest (bnd (settle_proposal i q) (\<lambda>_. ret q)) (\<lambda>_ _. True) t"
    if "good digest t" "pp_record q = pp_record p \<and> pp_id q = pp_id p" for t q
    using that p by (intro kept_bind [OF kept_settle]) (auto simp: proposal_kept_def kept_ret)
  have act: "kept digest (if approved then activate_record E ts published p reason else ret ()) (\<lambda>_ _. True) t"
    if "good digest t" "ts = transitions_of (mm_disk t)" for t ts published
    using kept_activate [OF that s(2) rec] that(1) by (simp add: kept_ret)
  show ?thesis unfolding review_staged_def Let_def
    by (intro kept_after [OF look.keeps_deny] kept_after [OF look_lifecycle] s(1) kept_bind [OF act] kept_after [OF look_mark] finish)
      (auto dest: lifecycle_returns mark_returns)
qed

lemma kept_review:
  assumes s: "good digest s" "mv_digest E = digest"
  shows "kept digest (review_proposal E i approved reason) (\<lambda>_ _. True) s"
proof -
  have inner: "kept digest (case staged of Some (Some p) \<Rightarrow> review_staged E i approved reason p
     | _ \<Rightarrow> bnd (find_proposal i) (\<lambda>p. bnd (deny (pp_status p \<noteq> (if approved then PROP_APPROVED else PROP_REJECTED)) Conflict) (\<lambda>_. ret p)))
       (\<lambda>_ _. True) u" if u: "good digest u" "staged = map_of (me_staging (mm_disk u)) i" for u staged
  proof (cases "\<exists>p. staged = Some (Some p)")
    case True
    then obtain p where p: "staged = Some (Some p)" by blast
    then have "proposal_kept (i, Some p)" using u by (intro good_staged [OF u(1)]) simp
    from kept_review_staged [OF u(1) s(2) this] show ?thesis by (simp only: p option.case)
  next
    case False
    have "kept digest (bnd (find_proposal i) (\<lambda>p. bnd (deny (pp_status p \<noteq> wanted) Conflict) (\<lambda>_. ret p))) (\<lambda>_ _. True) u" for wanted
      using u(1) by (intro kept_look look_laws look_list) simp_all
    with False show ?thesis by (auto split: option.split)
  qed
  show ?thesis unfolding review_proposal_def
    by (intro kept_after [OF look.keeps_deny] kept_after [OF look_checks(1)] kept_after [OF look_disk] s(1) inner)
      (auto simp: on_disk_def reads_run)
qed

lemma kept_new:
  assumes s: "good digest s"
  shows "kept digest (new_record E category title content source c task confidence summary refs)
    (\<lambda>r t. durable_ok r \<and> dr_content r = content) s"
  unfolding new_record_def make_record_def
  by (intro kept_after [OF look_next] s kept_bind [OF kept_op [where Q = "\<lambda>_ _. True"]] kept_after [OF look_now] kept_bind [OF kept_deny] kept_ret)
    (auto simp: good_def)

lemma durable_ok_after: "durable_ok r \<Longrightarrow> memory_id b \<Longrightarrow> durable_ok (r\<lparr>dr_supersedes := Some b\<rparr>)"
  by (simp add: durable_ok_def)

lemma superseding_returns: "superseding E r b s = (Inr (r', digest), t) \<Longrightarrow> durable_ok r \<Longrightarrow> durable_ok r' \<and> dr_content r' = dr_content r"
  by (cases "if b = None then dr_supersedes r else b")
    (auto simp: superseding_def bnd_returns ret_run deny_run durable_ok_after split: if_splits)

lemma kept_propose:
  assumes s: "good digest s" "mv_digest E = digest" and r: "durable_ok r" "telling (dr_content r)"
  shows "kept digest (propose_record E r rationale policy evidence supersedes) (\<lambda>_ _. True) s"
proof -
  have place: "kept digest (bnd (disk_op (\<lambda>d. d\<lparr>me_staging := me_staging d @ [(i, None)]\<rparr>)) (\<lambda>_.
     bnd (disk_op (\<lambda>d. d\<lparr>me_staging := AList.update i (Some p) (me_staging d)\<rparr>)) (\<lambda>_.
     if policy = UPDATE_AUTO then review_proposal E i True reason else ret p))) (\<lambda>_ _. True) t"
    if t: "good digest t" and p: "proposal_kept (i, Some p)" for t i p reason
  proof -
    let ?d = "(mm_disk t)\<lparr>me_staging := me_staging (mm_disk t) @ [(i, None)]\<rparr>"
    have old: "\<forall>x \<in> set (me_staging (mm_disk t)). proposal_kept x" "memory_ok digest (mm_disk t)" using t by (simp_all add: good_def memory_ok_def)
    have one: "memory_ok digest ?d" using old(1) by (intro memory_ok_staging [OF old(2)]) (auto simp: proposal_kept_def)
    moreover have "memory_ok digest (?d\<lparr>me_staging := AList.update i (Some p) (me_staging ?d)\<rparr>)"
      using p old(1) by (intro memory_ok_staging [OF one]) (auto dest!: updated_members simp: proposal_kept_def)
    ultimately show ?thesis
      using s(2) by (intro kept_bind [OF kept_op [where Q = "\<lambda>_ u. mm_disk u = ?d", OF t]]
          kept_bind [OF kept_op [where Q = "\<lambda>_ u. True"]]) (auto simp: kept_review kept_ret)
  qed
  show ?thesis unfolding propose_record_def Let_def
    by (intro kept_after [OF look_checks(1)] kept_after [OF look_checks(2)] kept_after [OF look_checks(3)] kept_after [OF look_superseding(1)] s(1))
      (auto intro!: kept_after [OF look_disk] kept_after [OF look.keeps_deny] kept_after [OF look_next] kept_after [OF look_now] place
        dest!: superseding_returns [OF _ r(1)] simp: proposal_kept_def r(2))
qed

lemma recorded_same: "recorded d i r \<Longrightarrow> recorded d i x \<Longrightarrow> x = r"
  by (auto simp: recorded_def)

lemma recorded_good: "memory_ok digest d \<Longrightarrow> recorded d i r \<Longrightarrow> dr_id r = i \<and> durable_ok r \<and> telling (dr_content r)"
  using recorded_known recorded_same unfolding memory_ok_def by metis

lemma recorded_updated: "recorded (d\<lparr>me_records := AList.update i f (me_records d)\<rparr>) j r \<longleftrightarrow> (if j = i then parse_record f = Inr r else recorded d j r)"
  by (simp add: recorded_def update_conv')

lemma memory_ok_update:
  assumes d: "memory_ok digest d" and old: "recorded d (dr_id r) r" and new: "durable_ok r'" "dr_id r' = dr_id r" "dr_supersedes r' = dr_supersedes r"
    "dr_content r' = dr_content r" and free: "\<forall>t \<in> set (transitions_of d). su_predecessor t \<noteq> dr_id r"
  shows "memory_ok digest (d\<lparr>me_records := AList.update (dr_id r) (frontmatter r') (me_records d)\<rparr>)"
proof -
  let ?d = "d\<lparr>me_records := AList.update (dr_id r) (frontmatter r') (me_records d)\<rparr>"
  have "telling (dr_content r')" using recorded_good [OF d old] new(4) by simp
  with frontmatter_read [OF new(1)] obtain c where c: "parse_record (frontmatter r') = Inr (r'\<lparr>dr_content := c\<rparr>)" "telling c" by blast
  then have ok: "durable_ok (r'\<lparr>dr_content := c\<rparr>)" by (simp add: parse_record_def Let_def split: if_splits)
  have at_id: "recorded ?d (dr_id r) (r'\<lparr>dr_content := c\<rparr>)" using c by (simp add: recorded_updated)
  have keys: "fst ` set (me_records ?d) = fst ` set (me_records d)"
    using recorded_known [OF old] by (simp add: dom_update insert_absorb)
  have "\<exists>x. recorded ?d j x \<and> dr_id x = j \<and> durable_ok x \<and> telling (dr_content x)" if "j \<in> fst ` set (me_records ?d)" for j
  proof (cases "j = dr_id r")
    case True
    with at_id ok c new(2) show ?thesis by (intro exI [of _ "r'\<lparr>dr_content := c\<rparr>"]) simp
  next
    case False
    from that keys d obtain x where "recorded d j x" unfolding memory_ok_def by blast
    with recorded_good [OF d this] False show ?thesis by (intro exI [of _ x]) (simp add: recorded_updated)
  qed
  moreover have "\<exists>p q. recorded ?d (su_predecessor t) p \<and> digest (frontmatter p) = su_digest t \<and> recorded ?d (su_successor t) q
      \<and> dr_supersedes q = Some (su_predecessor t)" if t: "t \<in> set (transitions_of d)" for t
  proof -
    obtain p q where pq: "recorded d (su_predecessor t) p" "digest (frontmatter p) = su_digest t" "recorded d (su_successor t) q"
      "dr_supersedes q = Some (su_predecessor t)" using d t unfolding memory_ok_def by blast
    have "recorded ?d (su_predecessor t) p" using pq(1) free t by (simp add: recorded_updated)
    moreover have "\<exists>x. recorded ?d (su_successor t) x \<and> dr_supersedes x = dr_supersedes q"
    proof (cases "su_successor t = dr_id r")
      case True
      with pq(3) recorded_same [OF old] have "q = r" by simp
      with at_id True new(3) show ?thesis by (intro exI [of _ "r'\<lparr>dr_content := c\<rparr>"]) simp
    next
      case False
      with pq(3) show ?thesis by (intro exI [of _ q]) (simp add: recorded_updated)
    qed
    ultimately show ?thesis using pq(2,4) by metis
  qed
  moreover have "distinct (map fst (me_records ?d))" using d by (simp add: memory_ok_def distinct_update)
  ultimately show ?thesis using d unfolding memory_ok_def by simp
qed

lemma status_returns: "status_of_record E current r s = (Inr st, t) \<Longrightarrow> rs_lifecycle st = fst (lifecycle_state r (transitions_of (mm_disk s)))"
  by (auto simp: status_of_record_def statuses_def record_status_of_def bnd_returns ret_run Let_def split: prod.splits dest: lifecycle_returns)

lemma active_free: "fst (lifecycle_state r ts) = ML_ACTIVE \<Longrightarrow> \<forall>t \<in> set ts. su_predecessor t \<noteq> dr_id r"
  by (auto simp: lifecycle_state_def find_None_iff split: option.splits if_splits)

lemma kept_collect: "good digest s \<Longrightarrow> (\<And>x t. good digest t \<Longrightarrow> kept digest (f x) (\<lambda>_ _. True) t) \<Longrightarrow> kept digest (collect xs f) (\<lambda>_ _. True) s"
proof (induction xs arbitrary: s)
  case (Cons x xs)
  then show ?case by (auto intro!: kept_bind [where P = "\<lambda>_ _. True"] kept_ret)
qed (simp add: kept_ret)

lemma rehashed_ok:
  assumes "honest E" "durable_ok r" "\<not> (\<exists>p \<in> set (mp_paths (dr_source r)). mv_hash E p = None)"
  shows "durable_ok (rehashed E current now r)"
proof -
  have "sha256_text (the (mv_hash E p))" if "p \<in> set (mp_paths (dr_source r))" for p
    using assms(1,3) that by (cases "mv_hash E p") (auto simp: honest_def)
  moreover have "set (dict_fromkeys (mp_paths (dr_source r))) = set (mp_paths (dr_source r))" by (simp add: dict_fromkeys_def)
  moreover have "provenance_ok (dr_source r)" using assms(2) by (simp add: durable_ok_def)
  ultimately have "provenance_ok (dr_source (rehashed E current now r))" by (simp add: provenance_ok_def rehashed_def)
  with assms(2) show ?thesis by (simp add: durable_ok_def rehashed_def)
qed

lemma rehashed_same: "dr_id (rehashed E current now r) = dr_id r" "dr_supersedes (rehashed E current now r) = dr_supersedes r"
  "dr_content (rehashed E current now r) = dr_content r"
  by (simp_all add: rehashed_def)

lemma kept_replace:
  assumes s: "good digest s" "fst (lifecycle_state r (transitions_of (mm_disk s))) = ML_ACTIVE"
    and new: "durable_ok r \<Longrightarrow> durable_ok r'" "dr_id r' = dr_id r" "dr_supersedes r' = dr_supersedes r" "dr_content r' = dr_content r"
  shows "kept digest (replace_record E current r r') (\<lambda>_ _. True) s"
proof -
  have put: "kept digest (bnd (disk_op (\<lambda>d. d\<lparr>me_records := AList.update (dr_id r') (frontmatter r') (me_records d)\<rparr>)) (\<lambda>_.
       bnd (status_of_record E (Some current) r') (\<lambda>after. ret (after, Some (dr_id r'), False)))) (\<lambda>_ _. True) t"
    if t: "good digest t" "mm_disk t = mm_disk s" and old: "recorded (mm_disk s) (dr_id r) r" for t
  proof -
    have d: "memory_ok digest (mm_disk s)" using s(1) by (simp add: good_def)
    have "memory_ok digest ((mm_disk s)\<lparr>me_records := AList.update (dr_id r') (frontmatter r') (me_records (mm_disk s))\<rparr>)"
      unfolding new(2) using recorded_good [OF d old] by (intro memory_ok_update d old new active_free [OF s(2)]) simp
    then show ?thesis using t
      by (intro kept_bind [OF kept_op [where Q = "\<lambda>_ _. True", OF t(1)]] kept_after [OF look_status] kept_ret) simp_all
  qed
  show ?thesis unfolding replace_record_def
    by (intro kept_after [OF look_checks(1)] kept_after [OF look_checks(2)] kept_after [OF look_disk] kept_after [OF look.keeps_the_or]
        kept_after [OF look_result] kept_after [OF look.keeps_deny] put s(1))
      (auto simp: on_disk_def reads_run the_or_returns result_of_returns deny_returns recorded_def new(2))
qed

lemma kept_revalidate_record:
  assumes s: "good digest s" "honest E"
  shows "kept digest (revalidate_record E current r) (\<lambda>_ _. True) s"
  unfolding revalidate_record_def
proof (rule kept_after [OF look_status s(1)])
  fix st t
  assume st: "status_of_record E (Some current) r s = (Inr st, t)" "mm_disk t = mm_disk s" "good digest t"
  have life: "rs_lifecycle st = fst (lifecycle_state r (transitions_of (mm_disk t)))" using status_returns [OF st(1)] st(2) by simp
  have "kept digest (bnd (memory_now E) (\<lambda>now. replace_record E current r (rehashed E current now r))) (\<lambda>_ _. True) u"
    if "mm_disk u = mm_disk t" "good digest u" "rs_lifecycle st = ML_ACTIVE" "\<not> (\<exists>p \<in> set (mp_paths (dr_source r)). mv_hash E p = None)" for u
    using that life by (intro kept_after [OF look_now] kept_replace rehashed_ok s(2) rehashed_same) simp_all
  then show "kept digest (bnd (deny (rs_lifecycle st \<noteq> ML_ACTIVE) Conflict) (\<lambda>_.
     if \<not> rs_stale st then ret (st, None, False)
     else if \<exists>p \<in> set (mp_paths (dr_source r)). mv_hash E p = None then ret (st, None, True)
     else bnd (memory_now E) (\<lambda>now. replace_record E current r (rehashed E current now r)))) (\<lambda>_ _. True) t"
    using st(3) by (intro kept_after [OF look.keeps_deny]) (auto simp: deny_returns kept_ret)
qed

lemma kept_revalidate: "good digest s \<Longrightarrow> honest E \<Longrightarrow> kept digest (revalidate E current ids) (\<lambda>_ _. True) s"
  unfolding revalidate_def
  by (intro kept_after [OF look.keeps_deny] kept_after [OF look.keeps_if [OF look_list(1) look.keeps_collect [OF look_get]]]
      kept_collect kept_revalidate_record)

lemma kept_outcome:
  assumes s: "good digest s" "mv_digest E = digest" and c: "telling content"
  shows "kept digest (propose_task_outcome E task title content c evidence) (\<lambda>_ _. True) s"
proof -
  have fresh: "kept digest (bnd (new_record E CAT_WORKFLOWS title content src x y z w v) (\<lambda>r.
         bnd (result_of (mv_policy E)) (\<lambda>policy. propose_record E r reason policy evidence None))) (\<lambda>_ _. True) t"
    if "good digest t" for t src x y z w v reason
    using that s(2) c by (intro kept_bind [OF kept_new] kept_after [OF look_result] kept_propose) auto
  show ?thesis unfolding propose_task_outcome_def
    by (intro kept_after [OF look.keeps_deny] kept_after [OF look_list(2)] s(1)) (auto split: option.split intro: fresh kept_ret)
qed

lemma kept_step:
  assumes s: "good digest s" "mv_digest E = digest" "honest E" and a: "telling_op action"
  shows "kept digest (memory_step E action) (\<lambda>_ _. True) s"
proof (cases action)
  case (NewRecord category title content source c task confidence summary refs)
  then show ?thesis using kept_void [OF kept_new [OF s(1)]] by simp
next
  case (SaveRecord r)
  then show ?thesis using s a
    by (auto simp: make_record_def bnd_assoc intro!: kept_after [OF look.keeps_deny] kept_mono [OF kept_save] simp: deny_returns)
next
  case (Propose r rationale policy evidence supersedes)
  then show ?thesis using s a
    by (auto simp: make_record_def bnd_assoc intro!: kept_after [OF look.keeps_deny] kept_void [OF kept_propose] simp: deny_returns)
next
  case (ProposeOutcome task title content c evidence)
  then show ?thesis using kept_void [OF kept_outcome [OF s(1,2)]] a by simp
next
  case (Review i approved reason)
  then show ?thesis using kept_void [OF kept_review [OF s(1,2)]] by simp
next
  case (Revalidate current ids)
  then show ?thesis using kept_void [OF kept_revalidate [OF s(1,3)]] by simp
qed

lemma memory_reachable_ok: "memory_reachable digest d \<Longrightarrow> memory_ok digest d"
proof (induction rule: memory_reachable.induct)
  case 1
  show ?case by (simp add: memory_ok_def no_memory_def transitions_of_def lifecycle_ok_def)
next
  case (2 d E action d' n)
  let ?s = "\<lparr>mm_disk = d, mm_past = [], mm_ticks = n\<rparr>"
  have "good digest ?s" using 2 by (simp add: good_def)
  from kept_step [OF this 2(2,3,4)] have "good digest (snd (memory_step E action ?s))"
    by (auto simp: kept_def wp_def split: prod.splits sum.splits)
  with 2(5) show ?case by (simp add: good_def)
qed


text \<open>A record, a proposal to supersede it, and its approval.\<close>

definition sample_note :: "string \<Rightarrow> ustring \<Rightarrow> durable_record" where
  "sample_note i content = \<lparr>dr_id = i, dr_category = CAT_TESTING, dr_title = [84], dr_content = content,
     dr_source = \<lparr>mp_type = ''user'', mp_paths = [], mp_hashes = []\<rparr>, dr_commit = None, dr_task = None, dr_confidence = 1,
     dr_verified = 0, dr_supersedes = None, dr_summary = None, dr_references = []\<rparr>"

definition first_note :: durable_record where
  "first_note = sample_note ''MEM-20260101-0001'' [97]"

definition second_note :: durable_record where
  "second_note = sample_note ''MEM-20260101-0002'' [98]"

definition sample_memory :: memory_env where
  "sample_memory = \<lparr>mv_clock = \<lambda>_. 0, mv_day = \<lambda>_. ''20260101'', mv_safe = id, mv_dump = \<lambda>_. [], mv_digest = \<lambda>_. replicate 64 (CHR ''0''),
     mv_hash = \<lambda>_. None, mv_linked = \<lambda>_. False, mv_policy = Inr UPDATE_REVIEW\<rparr>"

definition sample_proposal :: proposal where
  "sample_proposal = \<lparr>pp_id = ''MEM-PROP-20260101-0001'', pp_status = PROP_PENDING, pp_policy = UPDATE_REVIEW,
     pp_record = second_note\<lparr>dr_supersedes := Some ''MEM-20260101-0001''\<rparr>, pp_rationale = [114], pp_evidence = [], pp_created = 0, pp_reviewed = None,
     pp_reason = None, pp_digest = Some (replicate 64 (CHR ''0''))\<rparr>"

definition noted :: memory_disk where
  "noted = no_memory\<lparr>me_records := [(''MEM-20260101-0001'', frontmatter first_note)]\<rparr>"

definition noted_proposal :: memory_disk where
  "noted_proposal = noted\<lparr>me_staging := [(''MEM-PROP-20260101-0001'', Some sample_proposal)]\<rparr>"

definition sample_transition :: supersession where
  "sample_transition = \<lparr>su_predecessor = ''MEM-20260101-0001'', su_successor = ''MEM-20260101-0002'', su_digest = replicate 64 (CHR ''0''),
     su_proposal = ''MEM-PROP-20260101-0001'', su_reviewed = 0, su_reason = [111], su_evidence = []\<rparr>"

text \<open>The disk when the approval has published the transition and not yet settled the proposal.\<close>

definition noted_transition :: memory_disk where
  "noted_transition = noted_proposal\<lparr>me_records := me_records noted @ [(''MEM-20260101-0002'', frontmatter (pp_record sample_proposal))],
     me_lifecycle := Some [sample_transition]\<rparr>"

lemma note_fields: "dr_id first_note = ''MEM-20260101-0001''" "dr_id second_note = ''MEM-20260101-0002''" "dr_title first_note = [84]"
  "dr_title second_note = [84]" "dr_content first_note = [97]" "dr_content second_note = [98]" "mp_paths (dr_source first_note) = []"
  "mp_paths (dr_source second_note) = []" "dr_supersedes first_note = None" "dr_supersedes second_note = None" "dr_references first_note = []"
  "dr_references second_note = []"
  by (simp_all add: first_note_def second_note_def sample_note_def)

lemma note_ids: "memory_id ''MEM-20260101-0001''" "memory_id ''MEM-20260101-0002''" "proposal_id ''MEM-PROP-20260101-0001''"
  "sha256_text (replicate 64 (CHR ''0''))" "numbered_id ''MEM-PROP'' ''20260101'' (Suc 0) = ''MEM-PROP-20260101-0001''"
  by code_simp+

lemma note_ok: "durable_ok first_note" "durable_ok second_note" "durable_ok (second_note\<lparr>dr_supersedes := Some ''MEM-20260101-0001''\<rparr>)"
  using note_ids by (simp_all add: durable_ok_def first_note_def second_note_def sample_note_def provenance_ok_def)

lemma note_read: "parse_record (frontmatter first_note) = Inr first_note"
proof -
  have "body_content [84] (rf_body (frontmatter first_note)) = [97]"
    by (simp add: frontmatter_def note_fields body_content_def heading_def ustrip_def rstrip_def Let_def uspace_def)
  moreover have "(rf_meta (frontmatter first_note))\<lparr>dr_content := [97]\<rparr> = first_note" "dr_title (rf_meta (frontmatter first_note)) = [84]"
    by (simp_all add: frontmatter_def first_note_def sample_note_def)
  ultimately show ?thesis using note_ok by (simp add: parse_record_def)
qed

lemma transition_ok: "lifecycle_ok [sample_transition]"
  using note_ids by (simp add: lifecycle_ok_def sample_transition_def successor_of_def)

lemma sample_telling: "telling [97]" "telling [98]"
  by (simp_all add: telling_def uspace_def)

lemma first_number: "find P (map f [Suc 0..<10000]) = (if P (f (Suc 0)) then Some (f (Suc 0)) else find P (map f [Suc (Suc 0)..<10000]))"
proof -
  have "Suc 0 < 10000" by simp
  then have "[Suc 0..<10000] = Suc 0 # [Suc (Suc 0)..<10000]" by (rule upt_conv_Cons)
  then show ?thesis by (simp only: list.map find.simps)
qed

lemma bnd_lazy: "bnd m f s = bnd m f s"
  by simp

lemmas memory_evaluation = bnd_run ret_run raise_run reads_run modify_run deny_run the_or_run on_disk_def disk_op_def memory_now_def secret_safe_def
  validate_sources_def validate_references_def make_record_def result_of_def void_def Let_def note_fields note_ids note_ok note_read sample_memory_def

lemma save_sample: "noted \<in> set (mm_past (snd (memory_step sample_memory (SaveRecord first_note) \<lparr>mm_disk = no_memory, mm_past = [], mm_ticks = 0\<rparr>)))"
  by (simp add: memory_evaluation save_record_def no_memory_def noted_def cong: bnd_lazy)

lemma propose_sample: "noted_proposal \<in> set (mm_past (snd (memory_step sample_memory (Propose second_note [114] UPDATE_REVIEW [] (Some ''MEM-20260101-0001''))
    \<lparr>mm_disk = noted, mm_past = [], mm_ticks = 0\<rparr>)))"
  by (simp add: memory_evaluation propose_record_def superseding_def get_record_def next_id_def first_number lifecycle_document_def lifecycle_state_def
      proposed_ids_def used_names_def List.map_filter_simps no_memory_def noted_def noted_proposal_def sample_proposal_def cong: bnd_lazy)

lemma approve_sample: "noted_transition \<in> set (mm_past (snd (memory_step sample_memory (Review ''MEM-PROP-20260101-0001'' True [111])
    \<lparr>mm_disk = noted_proposal, mm_past = [], mm_ticks = 0\<rparr>)))"
  by (simp add: memory_evaluation review_proposal_def review_staged_def activate_record_def unchanged_predecessor_def publish_supersession_def
      save_record_def settle_proposal_def mark_reviewed_def get_record_def lifecycle_document_def lifecycle_state_def
      transition_ok [unfolded sample_transition_def] uspace_def
      no_memory_def noted_def noted_proposal_def noted_transition_def sample_proposal_def sample_transition_def cong: bnd_lazy)


end
