(* ===== verification/Spec2Isabelle.thy ===== *)
theory Spec2Isabelle
  imports Orq_Conduct Orq_Audit Orq_Crash Orq_Locking Orq_Typing Orq_Memory
begin

text \<open>
  Orqalis: the run orchestration core of \<^verbatim>\<open>src/orqalis\<close>.
\<close>

end
